(* ===== verification/Prelude.thy ===== *)
theory Prelude
  imports Complex_Main "HOL-Library.Word" "HOL-Library.Signed_Division"
begin

text \<open>
  What every component of the model shares: the error values of the Go code, the
  sequencing of fallible steps, 64-bit wrap-around, tables of a relational database with the
  statements the code runs on them, and the two contracts a transactional request handler can
  satisfy (keeping an invariant, moving along a preorder).
\<close>

named_theorems go_simps \<open>equations that take a sequence of fallible steps apart\<close>

section \<open>Basic types\<close>

text \<open>
  A Go \<open>uuid.UUID\<close> is an array of 16 bytes, ordered bytewise: a 128-bit word. A
  \<open>time.Time\<close> is a number of nanoseconds since the Unix epoch, in UTC; a
  \<open>time.Duration\<close> is a 64-bit number of nanoseconds.
\<close>

type_synonym uuid = "128 word"
type_synonym time = int

section \<open>Errors\<close>

text \<open>
  A Go error is modelled by what \<open>errors.Is\<close> finds in its chain: the sentinel value of
  the package that raised it. Wrapping with \<open>%w\<close> keeps that value and wrapping with
  \<open>%s\<close> drops it, so the message text is not part of the model. \<open>NoRows\<close> is
  \<open>pgx.ErrNoRows\<close>, \<open>PgError\<close> a \<open>pgconn.PgError\<close> with its SQLSTATE,
  \<open>OtherError\<close> any error no caller inspects.
\<close>

datatype go_error =
    NoRows
  | PgError string
  | OtherError string
  | MoneyNotRepresentable
  | AuthzUnauthenticated
  | AuthzForbidden
  | DedupKeyReuse
  | OwnerBlocked
  | StoreUnavailable
  | OfferUnavailable
  | TariffUnavailable
  | CatalogInvalid
  | CatalogConflict
  | CatalogNotFound
  | SettlementConflict
  | SettlementInvalid
  | OrdersInvalid
  | OrdersConflict
  | OrdersNotFound
  | OrdersGone
  | OrdersUnavailable
  | BillingInvalid
  | BillingConflict
  | BillingNotFound
  | KeyNotFound
  | CircuitOpen
  | OtpNotFound
  | OtpMismatch
  | OtpTooManyAttempts
  | OtpCooldown
  | OtpUnavailable
  | IdempotencyUnavailable
  | SmsUndeliverable
  | IdentityInvalidPhone
  | IdentityInvalidCode
  | IdentityCooldown
  | IdentityInvalidSession
  | IdentityBlocked
  | TrustInvalid
  | TrustConflict
  | TrustNotFound
  | SearchInvalid
  | SearchNotFound
  | SearchUnavailable
  | LocationNotFound
  | LocationInvalidRegistration
  | LocationAlreadyRegistered
  | LocationTINTaken

type_synonym 'a result = "go_error + 'a"

definition andThen :: "'a result \<Rightarrow> ('a \<Rightarrow> 'b result) \<Rightarrow> 'b result" where
  "andThen m f = (case m of Inl e \<Rightarrow> Inl e | Inr x \<Rightarrow> f x)"

definition mapErr :: "(go_error \<Rightarrow> go_error) \<Rightarrow> 'a result \<Rightarrow> 'a result" where
  "mapErr g m = (case m of Inl e \<Rightarrow> Inl (g e) | Inr x \<Rightarrow> Inr x)"

lemma andThen_simps [simp]:
  "andThen (Inr x) f = f x"
  "andThen (Inl e) f = Inl e"
  by (simp_all add: andThen_def)

lemma mapErr_simps [simp]:
  "mapErr g (Inr x) = Inr x"
  "mapErr g (Inl e) = Inl (g e)"
  by (simp_all add: mapErr_def)

lemma andThen_eq_Inr [go_simps]:
  "andThen m f = Inr y \<longleftrightarrow> (\<exists>x. m = Inr x \<and> f x = Inr y)"
  by (cases m) auto

lemma andThenE:
  assumes "andThen m f = Inr y" obtains x where "m = Inr x" "f x = Inr y"
  using assms by (auto simp: andThen_eq_Inr)

lemma andThen_pairE:
  assumes "andThen m (\<lambda>(a, b). f a b) = Inr y" obtains a b where "m = Inr (a, b)" "f a b = Inr y"
  using assms by (auto simp: andThen_eq_Inr)

lemma andThen_eq_Inl:
  "andThen m f = Inl e \<longleftrightarrow> m = Inl e \<or> (\<exists>x. m = Inr x \<and> f x = Inl e)"
  by (cases m) auto

lemma mapErr_eq_Inr [go_simps]: "mapErr g m = Inr y \<longleftrightarrow> m = Inr y"
  by (cases m) auto

lemma mapErr_eq_Inl: "mapErr g m = Inl e \<longleftrightarrow> (\<exists>e'. m = Inl e' \<and> e = g e')"
  by (cases m) auto

lemma if_eq_Inr [go_simps]:
  "(if c then Inl e else m) = Inr y \<longleftrightarrow> \<not> c \<and> m = Inr y"
  "(if c then m else Inl e) = Inr y \<longleftrightarrow> c \<and> m = Inr y"
  by auto

text \<open>A loop that runs a fallible step per element and stops at the first error.\<close>

fun foldE :: "('x \<Rightarrow> 's \<Rightarrow> 's result) \<Rightarrow> 'x list \<Rightarrow> 's \<Rightarrow> 's result" where
  "foldE f [] s = Inr s"
| "foldE f (x # xs) s = andThen (f x s) (foldE f xs)"

lemma foldE_invariant:
  assumes "foldE f xs s = Inr s'" and "P s"
    and "\<And>x s s'. x \<in> set xs \<Longrightarrow> f x s = Inr s' \<Longrightarrow> P s \<Longrightarrow> P s'"
  shows "P s'"
  using assms by (induction xs arbitrary: s) (auto simp: go_simps)

lemma foldE_append:
  "foldE f (xs @ ys) s = andThen (foldE f xs s) (foldE f ys)"
  by (induction xs arbitrary: s) (auto simp: andThen_def split: sum.split)

text \<open>
  Code that works without a transaction keeps what it did before an error: a step takes the
  state and returns its result with the state it leaves, also when the result is an error.
\<close>

definition bindE ::
  "('s \<Rightarrow> 'a result \<times> 's) \<Rightarrow> ('a \<Rightarrow> 's \<Rightarrow> 'b result \<times> 's) \<Rightarrow> 's \<Rightarrow> 'b result \<times> 's" where
  "bindE m f s = (case m s of (Inl e, s') \<Rightarrow> (Inl e, s') | (Inr x, s') \<Rightarrow> f x s')"

lemma bindE_simps [simp]:
  "m s = (Inl e, s') \<Longrightarrow> bindE m f s = (Inl e, s')"
  "m s = (Inr x, s') \<Longrightarrow> bindE m f s = f x s'"
  by (simp_all add: bindE_def)

lemma bindE_cases:
  obtains (failed) e s' where "m s = (Inl e, s')" "bindE m f s = (Inl e, s')"
  | (went_on) x s' where "m s = (Inr x, s')" "bindE m f s = f x s'"
  by (cases "m s"; cases "fst (m s)") auto

text \<open>A step fails or goes on, and leaves a state either way.\<close>

lemma outcome_cases [case_names failed went_on]:
  obtains e s where "p = (Inl e, s)" | x s where "p = (Inr x, s)"
  by (cases p; cases "fst p") auto

lemma bindE_Inr:
  "bindE m f s = (Inr y, s'') \<longleftrightarrow> (\<exists>x s'. m s = (Inr x, s') \<and> f x s' = (Inr y, s''))"
  by (cases rule: bindE_cases [of m s f]) auto

section \<open>64-bit integers\<close>

text \<open>Go's \<open>int64\<close> arithmetic wraps around in two's complement.\<close>

definition wrap64 :: "int \<Rightarrow> int" where
  "wrap64 x = signed_take_bit 63 x"

definition is_int64 :: "int \<Rightarrow> bool" where
  "is_int64 x \<longleftrightarrow> - (2 ^ 63) \<le> x \<and> x < 2 ^ 63"

lemma wrap64_id: "is_int64 x \<Longrightarrow> wrap64 x = x"
  unfolding wrap64_def is_int64_def by (simp add: signed_take_bit_int_eq_self_iff)

lemma wrap64_is_int64: "is_int64 (wrap64 x)"
  using signed_take_bit_int_greater_eq_minus_exp [of 63 x] signed_take_bit_int_less_exp [of 63 x]
  by (simp add: wrap64_def is_int64_def)

lemma wrap64_0 [simp]: "wrap64 0 = 0"
  by (simp add: wrap64_def)

lemma wrap64_wrap64 [simp]: "wrap64 (wrap64 a) = wrap64 a"
  by (rule wrap64_id) (rule wrap64_is_int64)

lemma wrap64_add [simp]: "wrap64 (wrap64 a + b) = wrap64 (a + b)" "wrap64 (a + wrap64 b) = wrap64 (a + b)"
  unfolding wrap64_def by (metis signed_take_bit_add signed_take_bit_signed_take_bit min.idem)+

section \<open>Strings\<close>

text \<open>
  \<open>strings.TrimSpace\<close>: a Go string is the list of its bytes, so the white space of Unicode
  is the list of the UTF-8 encodings of its runes.
\<close>

definition space_runes :: "string list" where
  "space_runes =
     [[CHR 0x09], [CHR 0x0A], [CHR 0x0B], [CHR 0x0C], [CHR 0x0D], [CHR 0x20],
      [CHR 0xC2, CHR 0x85], [CHR 0xC2, CHR 0xA0], [CHR 0xE1, CHR 0x9A, CHR 0x80],
      [CHR 0xE2, CHR 0x80, CHR 0x80], [CHR 0xE2, CHR 0x80, CHR 0x81], [CHR 0xE2, CHR 0x80, CHR 0x82],
      [CHR 0xE2, CHR 0x80, CHR 0x83], [CHR 0xE2, CHR 0x80, CHR 0x84], [CHR 0xE2, CHR 0x80, CHR 0x85],
      [CHR 0xE2, CHR 0x80, CHR 0x86], [CHR 0xE2, CHR 0x80, CHR 0x87], [CHR 0xE2, CHR 0x80, CHR 0x88],
      [CHR 0xE2, CHR 0x80, CHR 0x89], [CHR 0xE2, CHR 0x80, CHR 0x8A], [CHR 0xE2, CHR 0x80, CHR 0xA8],
      [CHR 0xE2, CHR 0x80, CHR 0xA9], [CHR 0xE2, CHR 0x80, CHR 0xAF], [CHR 0xE2, CHR 0x81, CHR 0x9F],
      [CHR 0xE3, CHR 0x80, CHR 0x80]]"

definition starts_with :: "string \<Rightarrow> string \<Rightarrow> bool" where
  "starts_with p s = (take (length p) s = p)"

text \<open>Strips runes of a list from the front; the fuel is the length of the string.\<close>

fun strip_runes :: "nat \<Rightarrow> string list \<Rightarrow> string \<Rightarrow> string" where
  "strip_runes 0 runes s = s"
| "strip_runes (Suc n) runes s =
     (case find (\<lambda>p. starts_with p s) runes of
        None \<Rightarrow> s
      | Some p \<Rightarrow> strip_runes n runes (drop (length p) s))"

definition TrimSpace :: "string \<Rightarrow> string" where
  "TrimSpace s =
     (let l = strip_runes (length s) space_runes s
      in rev (strip_runes (length l) (map rev space_runes) (rev l)))"

lemma strip_runes_Nil [simp]: "[] \<notin> set runes \<Longrightarrow> strip_runes n runes [] = []"
proof (cases n)
  case (Suc m)
  assume "[] \<notin> set runes"
  then have "find (\<lambda>p. starts_with p []) runes = None"
    by (auto simp: find_None_iff starts_with_def)
  with Suc show ?thesis by simp
qed simp

lemma TrimSpace_Nil [simp]: "TrimSpace [] = []"
  by (simp add: TrimSpace_def)

text \<open>The fuel is enough: nothing strippable is left in front.\<close>

lemma strip_runes_done:
  "[] \<notin> set runes \<Longrightarrow> length s \<le> n \<Longrightarrow>
     find (\<lambda>p. starts_with p (strip_runes n runes s)) runes = None"
proof (induction n arbitrary: s)
  case 0
  then show ?case by (auto simp: find_None_iff starts_with_def)
next
  case (Suc n)
  show ?case
  proof (cases "find (\<lambda>p. starts_with p s) runes")
    case None
    then show ?thesis by simp
  next
    case (Some p)
    then have p: "p \<in> set runes" "starts_with p s" by (auto simp: find_Some_iff)
    with Suc.prems(1) have "p \<noteq> []" by auto
    with p(2) Suc.prems(2) have "length (drop (length p) s) \<le> n"
      by (cases p; cases s) (auto simp: starts_with_def)
    then show ?thesis using Some Suc.IH [OF Suc.prems(1)] by simp
  qed
qed

text \<open>Decimal text, and PostgreSQL's \<open>lpad\<close>, which also truncates.\<close>

fun decimal :: "nat \<Rightarrow> string" where
  "decimal n = (if n < 10 then [char_of (48 + n)] else decimal (n div 10) @ [char_of (48 + n mod 10)])"

declare decimal.simps [simp del]

definition int_text :: "int \<Rightarrow> string" where
  "int_text i = (if i < 0 then ''-'' @ decimal (nat (- i)) else decimal (nat i))"

definition lpad :: "string \<Rightarrow> nat \<Rightarrow> char \<Rightarrow> string" where
  "lpad s n c = take n (replicate (n - length s) c @ s)"

definition deref :: "string option \<Rightarrow> string" where
  "deref value = (case value of None \<Rightarrow> [] | Some s \<Rightarrow> s)"

definition optional :: "string \<Rightarrow> string option" where
  "optional value = (if value = [] then None else Some value)"

end
