(* ===== verification/Money.thy ===== *)
theory Money
  imports Prelude
begin

text \<open>
  The package \<open>internal/platform/money\<close>: exact arithmetic on integer tiyin amounts. A
  \<open>big.Rat\<close> is an exact rational number, so it is a \<open>rat\<close>; a Go string is the list
  of its bytes.
\<close>

section \<open>Decimal quantities\<close>

definition is_digit :: "char \<Rightarrow> bool" where
  "is_digit c \<longleftrightarrow> (48::nat) \<le> of_char c \<and> of_char c \<le> (57::nat)"

text \<open>The loop of \<open>IsPositiveDecimal\<close>: the index, \<open>seenDot\<close> and \<open>nonZero\<close> are its state.\<close>

fun positive_loop :: "nat \<Rightarrow> nat \<Rightarrow> bool \<Rightarrow> bool \<Rightarrow> string \<Rightarrow> bool" where
  "positive_loop len i seenDot nonZero [] = nonZero"
| "positive_loop len i seenDot nonZero (r # rs) =
     (if is_digit r then positive_loop len (i + 1) seenDot (nonZero \<or> r \<noteq> CHR ''0'') rs
      else if r = CHR ''.'' then
        if seenDot \<or> i = 0 \<or> i + 1 = len then False
        else positive_loop len (i + 1) True nonZero rs
      else False)"

definition IsPositiveDecimal :: "string \<Rightarrow> bool" where
  "IsPositiveDecimal value =
     (if value = [] then False else positive_loop (length value) 0 False False value)"

fun nonnegative_loop :: "nat \<Rightarrow> nat \<Rightarrow> bool \<Rightarrow> string \<Rightarrow> bool" where
  "nonnegative_loop len i seenDot [] = True"
| "nonnegative_loop len i seenDot (r # rs) =
     (if is_digit r then nonnegative_loop len (i + 1) seenDot rs
      else if r = CHR ''.'' then
        if seenDot \<or> i = 0 \<or> i + 1 = len then False
        else nonnegative_loop len (i + 1) True rs
      else False)"

definition IsNonNegativeDecimal :: "string \<Rightarrow> bool" where
  "IsNonNegativeDecimal value =
     (if value = [] then False else nonnegative_loop (length value) 0 False value)"

text \<open>
  \<open>big.Rat.SetString\<close> on the strings the guard lets through: digits with at most one
  dot. The digits before and after the dot are read as one decimal number, which is divided by
  a power of ten for the digits after the dot. A string of another shape is refused.
\<close>

definition digit_value :: "char \<Rightarrow> int" where
  "digit_value c = of_char c - 48"

fun digits_value :: "int \<Rightarrow> string \<Rightarrow> int" where
  "digits_value acc [] = acc"
| "digits_value acc (c # cs) = digits_value (10 * acc + digit_value c) cs"

definition Rat_SetString :: "string \<Rightarrow> rat option" where
  "Rat_SetString value =
     (let whole = takeWhile (\<lambda>c. c \<noteq> CHR ''.'') value;
          frac = drop 1 (dropWhile (\<lambda>c. c \<noteq> CHR ''.'') value)
      in if value \<noteq> [] \<and> list_all is_digit whole \<and> list_all is_digit frac
         then Some (of_int (digits_value 0 (whole @ frac)) / 10 ^ length frac)
         else None)"

section \<open>Rounding\<close>

definition roundHalfUp :: "rat \<Rightarrow> int result" where
  "roundHalfUp r =
     (let (numerator, denominator) = quotient_of r;
          quotient = numerator sdiv denominator;
          remainder = numerator smod denominator;
          quotient = (if 2 * \<bar>remainder\<bar> \<ge> denominator
                      then (if r < 0 then quotient - 1 else quotient + 1)
                      else quotient)
      in if \<not> is_int64 quotient then Inl MoneyNotRepresentable else Inr quotient)"

definition Multiply :: "string \<Rightarrow> int \<Rightarrow> int result" where
  "Multiply quantity unitPrice =
     (if \<not> IsNonNegativeDecimal quantity then Inl MoneyNotRepresentable
      else case Rat_SetString quantity of
        None \<Rightarrow> Inl MoneyNotRepresentable
      | Some r \<Rightarrow> roundHalfUp (r * of_int unitPrice))"

definition ApplyBasisPoints :: "int \<Rightarrow> int \<Rightarrow> int result" where
  "ApplyBasisPoints amount bps =
     (if bps < 0 then Inl MoneyNotRepresentable
      else roundHalfUp (Fract (amount * bps) 10000))"

section \<open>What the package guarantees\<close>

subsection \<open>Rounding is to the nearest integer, halves away from zero\<close>

definition round_away :: "rat \<Rightarrow> int" where
  "round_away r = (if r < 0 then - \<lfloor>- r + 1 / 2\<rfloor> else \<lfloor>r + 1 / 2\<rfloor>)"

lemma div_double_plus:
  fixes n d :: int
  assumes "0 < d"
  shows "(2 * n + d) div (2 * d) = (if d \<le> 2 * (n mod d) then n div d + 1 else n div d)"
proof -
  have n: "n * 2 = 2 * (n mod d) + d * (2 * (n div d))"
    using mult_div_mod_eq [of d n] by linarith
  have m: "0 \<le> n mod d" "n mod d < d" using assms by simp_all
  have "2 * n + d = (2 * (n mod d) + d) + (n div d) * (2 * d)"
    using n by (simp add: algebra_simps)
  then have "(2 * n + d) div (2 * d) = (2 * (n mod d) + d) div (2 * d) + n div d"
    using assms by (metis add.commute div_mult_self1 less_irrefl mult_pos_pos zero_less_numeral)
  moreover have "(2 * (n mod d) + d) div (2 * d) = (if d \<le> 2 * (n mod d) then 1 else 0)"
  proof (cases "d \<le> 2 * (n mod d)")
    case True
    then have "(2 * (n mod d) + d) div (2 * d) = 1"
      using m by (intro int_div_pos_eq [where r = "2 * (n mod d) - d"]) simp_all
    then show ?thesis using True by simp
  next
    case False
    then show ?thesis using m assms by (simp add: div_pos_pos_trivial)
  qed
  ultimately show ?thesis by simp
qed

lemma floor_half:
  fixes n d :: int
  assumes "0 < d"
  shows "\<lfloor>(of_int n / of_int d :: rat) + 1 / 2\<rfloor> = (2 * n + d) div (2 * d)"
proof -
  have "(of_int n / of_int d :: rat) + 1 / 2 = of_int (2 * n + d) / of_int (2 * d)"
    using assms by (simp add: field_simps)
  then show ?thesis by (simp only: floor_divide_of_int_eq)
qed

lemma quotient_of_divide:
  assumes "quotient_of r = (n, d)"
  shows "r = of_int n / of_int d" and "0 < d"
  using assms by (auto intro: quotient_of_div quotient_of_denom_pos)

lemma roundHalfUp_eq:
  "roundHalfUp r = (if is_int64 (round_away r) then Inr (round_away r) else Inl MoneyNotRepresentable)"
proof -
  obtain n d where q: "quotient_of r = (n, d)" by fastforce
  note r = quotient_of_divide [OF q]
  have sgn: "r < 0 \<longleftrightarrow> n < 0" using r by (simp add: divide_less_0_iff)
  have "(if d \<le> 2 * \<bar>n smod d\<bar> then (if r < 0 then n sdiv d - 1 else n sdiv d + 1) else n sdiv d)
      = round_away r"
  proof (cases "n < 0")
    case True
    have s: "n sdiv d = - ((- n) div d)" "n smod d = - ((- n) mod d)"
      using True r(2) by (simp_all add: signed_divide_int_def signed_modulo_int_def minus_div_mult_eq_mod)
    have "- r = of_int (- n) / of_int d" using r by simp
    then have "round_away r = - ((2 * (- n) + d) div (2 * d))"
      using True sgn floor_half [OF r(2), of "- n"] by (simp add: round_away_def)
    then show ?thesis
      using True sgn div_double_plus [OF r(2), of "- n"] pos_mod_sign [OF r(2), of "- n"]
      by (simp add: s)
  next
    case False
    have s: "n sdiv d = n div d" "n smod d = n mod d"
      using False r(2)
      by (cases "n = 0"; simp add: signed_divide_int_def signed_modulo_int_def minus_div_mult_eq_mod)+
    have "round_away r = (2 * n + d) div (2 * d)"
      using False sgn floor_half [OF r(2), of n] r by (simp add: round_away_def)
    then show ?thesis using False sgn r(2) by (simp add: s div_double_plus)
  qed
  then show ?thesis by (simp add: roundHalfUp_def q Let_def)
qed

lemma floor_between:
  obtains z where "z = \<lfloor>x::rat\<rfloor>" "of_int z \<le> x" "x < of_int z + 1"
  by (rule that [OF refl of_int_floor_le floor_correct [THEN conjunct2, unfolded of_int_add of_int_1]])

lemma round_away_nearest: "\<bar>of_int (round_away r) - r\<bar> \<le> 1 / 2"
proof (cases "r < 0")
  case True
  obtain z where z: "z = \<lfloor>- r + 1 / 2\<rfloor>"
    and b: "of_int z \<le> - r + 1 / 2" "- r + 1 / 2 < of_int z + 1"
    by (rule floor_between)
  from z True have e: "of_int (round_away r) = (- of_int z :: rat)" by (simp add: round_away_def)
  show ?thesis unfolding e abs_le_iff using b by linarith
next
  case False
  obtain z where z: "z = \<lfloor>r + 1 / 2\<rfloor>"
    and b: "of_int z \<le> r + 1 / 2" "r + 1 / 2 < of_int z + 1"
    by (rule floor_between)
  from z False have e: "of_int (round_away r) = (of_int z :: rat)" by (simp add: round_away_def)
  show ?thesis unfolding e abs_le_iff using b by linarith
qed

lemma round_away_tie:
  assumes tie: "\<bar>of_int (round_away r) - r\<bar> = 1 / 2"
  shows "\<bar>r\<bar> < \<bar>of_int (round_away r)\<bar>"
proof (cases "r < 0")
  case True
  obtain z where z: "z = \<lfloor>- r + 1 / 2\<rfloor>"
    and b: "of_int z \<le> - r + 1 / 2" "- r + 1 / 2 < of_int z + 1"
    by (rule floor_between)
  from z True have e: "of_int (round_away r) = (- of_int z :: rat)" by (simp add: round_away_def)
  show ?thesis using True b tie unfolding e by linarith
next
  case False
  obtain z where z: "z = \<lfloor>r + 1 / 2\<rfloor>"
    and b: "of_int z \<le> r + 1 / 2" "r + 1 / 2 < of_int z + 1"
    by (rule floor_between)
  from z False have e: "of_int (round_away r) = (of_int z :: rat)" by (simp add: round_away_def)
  show ?thesis using False b tie unfolding e by linarith
qed

lemma round_away_mono: "0 \<le> r \<Longrightarrow> r \<le> of_int n \<Longrightarrow> 0 \<le> round_away r \<and> round_away r \<le> n"
  by (auto simp: round_away_def floor_le_iff le_floor_iff)

subsection \<open>Basis points\<close>

lemma fract_bounds:
  assumes "0 \<le> amount" "0 \<le> bps" "bps \<le> 10000"
  shows "0 \<le> Fract (amount * bps) 10000" and "Fract (amount * bps) 10000 \<le> of_int amount"
proof -
  show "0 \<le> Fract (amount * bps) 10000"
    using assms by (simp add: Fract_of_int_quotient)
  have "(of_int amount :: rat) * of_int bps \<le> of_int amount * 10000"
    using assms by (intro mult_left_mono) simp_all
  then show "Fract (amount * bps) 10000 \<le> of_int amount"
    by (simp add: Fract_of_int_quotient field_simps)
qed

text \<open>A rate of at most 100\% charges at least nothing and at most the amount, and never overflows.\<close>

lemma ApplyBasisPoints_bounds:
  assumes "0 \<le> amount" "amount < 2 ^ 63" "0 \<le> bps" "bps \<le> 10000"
  shows "\<exists>c. ApplyBasisPoints amount bps = Inr c \<and> 0 \<le> c \<and> c \<le> amount"
proof -
  have b: "0 \<le> round_away (Fract (amount * bps) 10000)
      \<and> round_away (Fract (amount * bps) 10000) \<le> amount"
    using fract_bounds [OF assms(1,3,4)] by (rule round_away_mono)
  then have "is_int64 (round_away (Fract (amount * bps) 10000))"
    using assms(2) by (auto simp: is_int64_def)
  then show ?thesis using b assms(3) by (simp add: ApplyBasisPoints_def roundHalfUp_eq)
qed

subsection \<open>The decimal validators agree with the number a string denotes\<close>

lemma digit_not_dot [simp]: "is_digit c \<Longrightarrow> c \<noteq> CHR ''.''"
  by (auto simp: is_digit_def)

lemma nonnegative_loop_dot:
  "nonnegative_loop len i True s \<longleftrightarrow> list_all is_digit s"
  by (induction s arbitrary: i) auto

lemma nonnegative_loop_iff:
  "i + length s = len \<Longrightarrow> nonnegative_loop len i False s \<longleftrightarrow>
     list_all is_digit s \<or>
     (\<exists>w f. s = w @ CHR ''.'' # f \<and> list_all is_digit w \<and> list_all is_digit f
        \<and> f \<noteq> [] \<and> 0 < i + length w)"
proof (induction s arbitrary: i)
  case Nil
  then show ?case by simp
next
  case (Cons c s)
  show ?case
  proof (cases "is_digit c")
    case True
    have "(\<exists>w f. c # s = w @ CHR ''.'' # f \<and> list_all is_digit w \<and> list_all is_digit f
        \<and> f \<noteq> [] \<and> 0 < i + length w) \<longleftrightarrow>
      (\<exists>w f. s = w @ CHR ''.'' # f \<and> list_all is_digit w \<and> list_all is_digit f
        \<and> f \<noteq> [] \<and> 0 < Suc i + length w)" (is "?l \<longleftrightarrow> ?r")
    proof
      assume ?l
      then show ?r using True by (fastforce simp: Cons_eq_append_conv)
    next
      assume ?r
      then obtain w f where "s = w @ CHR ''.'' # f" "list_all is_digit w" "list_all is_digit f" "f \<noteq> []"
        by blast
      then show ?l using True by (intro exI [of _ "c # w"] exI [of _ f]) simp
    qed
    then show ?thesis using True Cons.IH [of "Suc i"] Cons.prems by simp
  next
    case False
    then have "(\<exists>w f. c # s = w @ CHR ''.'' # f \<and> list_all is_digit w \<and> list_all is_digit f
        \<and> f \<noteq> [] \<and> 0 < i + length w) \<longleftrightarrow>
      c = CHR ''.'' \<and> list_all is_digit s \<and> s \<noteq> [] \<and> 0 < i"
      by (fastforce simp: Cons_eq_append_conv)
    then show ?thesis
      using False Cons.prems by (auto simp: nonnegative_loop_dot)
  qed
qed

lemma positive_loop_iff:
  "positive_loop len i sd nz s \<longleftrightarrow> nonnegative_loop len i sd s
     \<and> (nz \<or> (\<exists>c \<in> set s. is_digit c \<and> c \<noteq> CHR ''0''))"
  by (induction len i sd nz s rule: positive_loop.induct) (auto simp: is_digit_def)

lemma digit_value_bounds: "is_digit c \<Longrightarrow> 0 \<le> digit_value c"
  by (simp add: is_digit_def digit_value_def)
    (metis numeral_le_iff of_nat_le_iff of_nat_numeral of_nat_of_char)

lemma digit_value_0: "is_digit c \<Longrightarrow> digit_value c = 0 \<longleftrightarrow> c = CHR ''0''"
proof -
  have "(of_char c :: int) = 48 \<longleftrightarrow> (of_char c :: int) = of_char CHR ''0''" by simp
  then show ?thesis unfolding digit_value_def by (auto simp only: of_char_eq_iff diff_eq_eq simp_thms)
qed

lemma digits_value_mono: "0 \<le> acc \<Longrightarrow> list_all is_digit s \<Longrightarrow> acc \<le> digits_value acc s"
proof (induction s arbitrary: acc)
  case (Cons c s)
  then have "0 \<le> digit_value c" "acc \<le> 10 * acc + digit_value c"
    using digit_value_bounds [of c] by simp_all
  moreover from this Cons have "10 * acc + digit_value c \<le> digits_value (10 * acc + digit_value c) s"
    by simp
  ultimately show ?case by simp
qed simp

lemma digits_value_pos:
  "0 \<le> acc \<Longrightarrow> list_all is_digit s \<Longrightarrow>
     0 < digits_value acc s \<longleftrightarrow> 0 < acc \<or> (\<exists>c \<in> set s. c \<noteq> CHR ''0'')"
proof (induction s arbitrary: acc)
  case (Cons c s)
  have d: "0 \<le> digit_value c" "digit_value c = 0 \<longleftrightarrow> c = CHR ''0''"
    using Cons.prems digit_value_bounds digit_value_0 by simp_all
  then have "0 < 10 * acc + digit_value c \<longleftrightarrow> 0 < acc \<or> c \<noteq> CHR ''0''"
    using Cons.prems by auto
  then show ?case using Cons.IH [of "10 * acc + digit_value c"] Cons.prems d by auto
qed simp

definition decimal_shape :: "string \<Rightarrow> string \<Rightarrow> string \<Rightarrow> bool" where
  "decimal_shape s w f \<longleftrightarrow> list_all is_digit w \<and> list_all is_digit f
     \<and> (w \<noteq> [] \<and> f = [] \<and> s = w \<or> w \<noteq> [] \<and> f \<noteq> [] \<and> s = w @ CHR ''.'' # f)"

lemma decimal_shapeE:
  assumes "decimal_shape s w f"
  obtains (whole) "list_all is_digit w" "w \<noteq> []" "f = []" "s = w"
    | (dotted) "list_all is_digit w" "list_all is_digit f" "w \<noteq> []" "f \<noteq> []" "s = w @ CHR ''.'' # f"
  using assms unfolding decimal_shape_def by blast

lemma IsNonNegativeDecimal_shape:
  "IsNonNegativeDecimal s \<longleftrightarrow> (\<exists>w f. decimal_shape s w f)"
proof
  assume L: "IsNonNegativeDecimal s"
  then have ne: "s \<noteq> []" by (auto simp: IsNonNegativeDecimal_def)
  with L consider "list_all is_digit s"
    | w f where "s = w @ CHR ''.'' # f" "list_all is_digit w" "list_all is_digit f" "f \<noteq> []" "w \<noteq> []"
    using nonnegative_loop_iff [of 0 s "length s"] by (auto simp: IsNonNegativeDecimal_def)
  then show "\<exists>w f. decimal_shape s w f"
  proof cases
    case 1
    with ne have "decimal_shape s s []" by (simp add: decimal_shape_def)
    then show ?thesis by blast
  next
    case 2
    then have "decimal_shape s w f" by (simp add: decimal_shape_def)
    then show ?thesis by blast
  qed
next
  assume "\<exists>w f. decimal_shape s w f"
  then obtain w f where "decimal_shape s w f" by blast
  then show "IsNonNegativeDecimal s"
  proof (cases rule: decimal_shapeE)
    case whole
    then show ?thesis by (simp add: IsNonNegativeDecimal_def nonnegative_loop_iff)
  next
    case dotted
    then have "nonnegative_loop (length s) 0 False s"
      by (subst nonnegative_loop_iff) (simp, blast)
    then show ?thesis using dotted by (simp add: IsNonNegativeDecimal_def)
  qed
qed

lemma split_at_dot:
  assumes "list_all is_digit w"
  shows "takeWhile (\<lambda>c. c \<noteq> CHR ''.'') w = w" "dropWhile (\<lambda>c. c \<noteq> CHR ''.'') w = []"
    "takeWhile (\<lambda>c. c \<noteq> CHR ''.'') (w @ CHR ''.'' # f) = w"
    "dropWhile (\<lambda>c. c \<noteq> CHR ''.'') (w @ CHR ''.'' # f) = CHR ''.'' # f"
  using assms by (induction w) auto

lemma Rat_SetString_shape:
  assumes "decimal_shape s w f"
  shows "Rat_SetString s = Some (of_int (digits_value 0 (w @ f)) / 10 ^ length f)"
  using assms
proof (cases rule: decimal_shapeE)
  case whole
  then show ?thesis by (simp add: Rat_SetString_def Let_def split_at_dot)
next
  case dotted
  then show ?thesis by (simp add: Rat_SetString_def Let_def split_at_dot)
qed

lemma Rat_SetString_nonneg:
  assumes "IsNonNegativeDecimal s"
  shows "\<exists>q. Rat_SetString s = Some q \<and> 0 \<le> q"
proof -
  from assms obtain w f where "decimal_shape s w f" by (auto simp: IsNonNegativeDecimal_shape)
  moreover from this have "0 \<le> digits_value 0 (w @ f)"
    using digits_value_mono [of 0 "w @ f"] by (auto simp: decimal_shape_def)
  ultimately show ?thesis by (simp add: Rat_SetString_shape)
qed

lemma IsPositiveDecimal_iff:
  "IsPositiveDecimal s \<longleftrightarrow> IsNonNegativeDecimal s \<and> (\<exists>q. Rat_SetString s = Some q \<and> 0 < q)"
proof (cases "\<exists>w f. decimal_shape s w f")
  case True
  then obtain w f where sh: "decimal_shape s w f" by blast
  then have ne: "s \<noteq> []" and nn: "IsNonNegativeDecimal s" and dg: "list_all is_digit (w @ f)"
    by (auto simp: decimal_shape_def IsNonNegativeDecimal_shape)
  have "filter is_digit s = w @ f"
    using sh by (cases rule: decimal_shapeE) (auto simp: list_all_iff is_digit_def)
  then have "\<And>c. c \<in> set s \<and> is_digit c \<longleftrightarrow> c \<in> set (w @ f)" by (metis mem_Collect_eq set_filter)
  then have "(\<exists>c \<in> set s. is_digit c \<and> c \<noteq> CHR ''0'') \<longleftrightarrow> (\<exists>c \<in> set (w @ f). c \<noteq> CHR ''0'')"
    by blast
  also have "\<dots> \<longleftrightarrow> 0 < digits_value 0 (w @ f)"
    using digits_value_pos [OF _ dg, of 0] by simp
  finally show ?thesis
    using ne nn Rat_SetString_shape [OF sh]
    by (simp add: IsPositiveDecimal_def IsNonNegativeDecimal_def positive_loop_iff zero_less_divide_iff)
next
  case False
  then have "\<not> IsNonNegativeDecimal s" by (simp add: IsNonNegativeDecimal_shape)
  then show ?thesis
    by (auto simp: IsPositiveDecimal_def IsNonNegativeDecimal_def positive_loop_iff split: if_splits)
qed

text \<open>A plain decimal times a price is the exact product rounded, unless it overflows.\<close>

lemma Multiply_eq:
  assumes "IsNonNegativeDecimal s" "Rat_SetString s = Some q"
  shows "Multiply s p = (if is_int64 (round_away (q * of_int p))
    then Inr (round_away (q * of_int p)) else Inl MoneyNotRepresentable)"
  using assms by (simp add: Multiply_def roundHalfUp_eq)

lemma Multiply_invalid: "\<not> IsNonNegativeDecimal s \<Longrightarrow> Multiply s p = Inl MoneyNotRepresentable"
  by (simp add: Multiply_def)

text \<open>The decimal text of a natural number is one of the accepted decimals.\<close>

lemma digits_value_append: "digits_value acc (s @ [c]) = digits_value acc s * 10 + digit_value c"
  by (induction s arbitrary: acc) simp_all

lemma digit_char: "k < 10 \<Longrightarrow> is_digit (char_of (48 + k)) \<and> digit_value (char_of (48 + k)) = int k"
proof -
  have "list_all (\<lambda>k. is_digit (char_of (48 + k)) \<and> digit_value (char_of (48 + k)) = int k) [0..<10]"
    by code_simp
  then show "k < 10 \<Longrightarrow> ?thesis" by (simp add: list_all_iff)
qed

lemma decimal_ok: "decimal n \<noteq> [] \<and> list_all is_digit (decimal n) \<and> digits_value 0 (decimal n) = int n"
proof (induction n rule: decimal.induct)
  case (1 n)
  show ?case
  proof (cases "n < 10")
    case True
    then show ?thesis using digit_char [of n] by (simp add: decimal.simps [of n])
  next
    case False
    moreover have "int (n div 10) * 10 + int (n mod 10) = int n"
      by (simp add: zdiv_int zmod_int)
    ultimately show ?thesis using digit_char [of "n mod 10"] 1
      by (simp add: decimal.simps [of n] digits_value_append)
  qed
qed

end
