(* ===== verification/EventCatalog.thy ===== *)
theory EventCatalog
  imports Prelude
begin

text \<open>
  The package \<open>internal/eventcatalog\<close>: the closed taxonomy of domain events and their typed
  payloads. A Go \<open>Name\<close> is a string; the declared constants are constructors here and every
  other string is \<open>UnregisteredName\<close>. The human-readable descriptions are left out.
\<close>

section \<open>Names\<close>

datatype Name =
    OrderCreated | OrderAccepted | OrderDeclined | OrderExpired | OrderAwaitingPayment
  | OrderPaid | OrderPreparing | OrderReady | OrderDelivered | OrderClosed | OrderCancelled
  | OrderPickupConfirmed | OrderSLAEscalated | OrderConfirmationChaseRequested
  | PaymentReviewStarted | OrderRefunded | RefundRequested | RefundBecameOverdue
  | CatalogRequested | CatalogRequestResolved | OfferCreated | OfferUpdated
  | FeedbackCreated | OperatorQueueItemResolved
  | UnregisteredName string

definition declared_names :: "Name list" where
  "declared_names =
     [OrderCreated, OrderAccepted, OrderDeclined, OrderExpired, OrderAwaitingPayment,
      OrderPaid, OrderPreparing, OrderReady, OrderDelivered, OrderClosed, OrderCancelled,
      OrderPickupConfirmed, OrderSLAEscalated, OrderConfirmationChaseRequested,
      PaymentReviewStarted, OrderRefunded, RefundRequested, RefundBecameOverdue,
      CatalogRequested, CatalogRequestResolved, OfferCreated, OfferUpdated,
      FeedbackCreated, OperatorQueueItemResolved]"

fun name_text :: "Name \<Rightarrow> string" where
  "name_text OrderCreated = ''order.created''"
| "name_text OrderAccepted = ''order.accepted''"
| "name_text OrderDeclined = ''order.declined''"
| "name_text OrderExpired = ''order.expired''"
| "name_text OrderAwaitingPayment = ''order.awaiting_payment''"
| "name_text OrderPaid = ''order.paid''"
| "name_text OrderPreparing = ''order.preparing''"
| "name_text OrderReady = ''order.ready''"
| "name_text OrderDelivered = ''order.delivered''"
| "name_text OrderClosed = ''order.closed''"
| "name_text OrderCancelled = ''order.cancelled''"
| "name_text OrderPickupConfirmed = ''order.pickup_confirmed''"
| "name_text OrderSLAEscalated = ''order.sla_escalated''"
| "name_text OrderConfirmationChaseRequested = ''order.confirmation_chase_requested''"
| "name_text PaymentReviewStarted = ''payment.review_started''"
| "name_text OrderRefunded = ''order.refunded''"
| "name_text RefundRequested = ''refund.requested''"
| "name_text RefundBecameOverdue = ''refund.became_overdue''"
| "name_text CatalogRequested = ''catalog.requested''"
| "name_text CatalogRequestResolved = ''catalog.request_resolved''"
| "name_text OfferCreated = ''offer.created''"
| "name_text OfferUpdated = ''offer.updated''"
| "name_text FeedbackCreated = ''feedback.created''"
| "name_text OperatorQueueItemResolved = ''operator.queue_item_resolved''"
| "name_text (UnregisteredName s) = s"

text \<open>The conversion \<open>Name(s)\<close> of a string.\<close>

definition name_of :: "string \<Rightarrow> Name" where
  "name_of s = (case find (\<lambda>n. name_text n = s) declared_names of
     Some n \<Rightarrow> n | None \<Rightarrow> UnregisteredName s)"

section \<open>The registry\<close>

record Definition =
  Versions :: "int list"
  Producer :: string

definition Current :: "Definition \<Rightarrow> int" where
  "Current d = (if Versions d = [] then 0 else last (Versions d))"

definition Supports :: "Definition \<Rightarrow> int \<Rightarrow> bool" where
  "Supports d version = list_ex (\<lambda>v. v = version) (Versions d)"

abbreviation v1 :: "string \<Rightarrow> Definition option" where
  "v1 producer \<equiv> Some \<lparr>Versions = [1], Producer = producer\<rparr>"

fun Lookup :: "Name \<Rightarrow> Definition option" where
  "Lookup OrderCreated = v1 ''orders''"
| "Lookup OrderAccepted = v1 ''orders''"
| "Lookup OrderDeclined = v1 ''orders''"
| "Lookup OrderExpired = v1 ''orders''"
| "Lookup OrderCancelled = v1 ''orders''"
| "Lookup OrderPickupConfirmed = v1 ''orders''"
| "Lookup OrderSLAEscalated = v1 ''orders''"
| "Lookup OrderConfirmationChaseRequested = v1 ''''"
| "Lookup CatalogRequested = v1 ''catalog''"
| "Lookup CatalogRequestResolved = v1 ''catalog''"
| "Lookup OfferCreated = v1 ''catalog''"
| "Lookup OfferUpdated = v1 ''catalog''"
| "Lookup FeedbackCreated = v1 ''trust''"
| "Lookup OperatorQueueItemResolved = v1 ''operator''"
| "Lookup OrderAwaitingPayment = v1 ''orders''"
| "Lookup PaymentReviewStarted = v1 ''orders''"
| "Lookup OrderPaid = v1 ''orders''"
| "Lookup OrderPreparing = v1 ''orders''"
| "Lookup OrderReady = v1 ''orders''"
| "Lookup OrderDelivered = v1 ''orders''"
| "Lookup OrderClosed = v1 ''orders''"
| "Lookup RefundRequested = v1 ''orders''"
| "Lookup RefundBecameOverdue = v1 ''billing''"
| "Lookup OrderRefunded = v1 ''orders''"
| "Lookup (UnregisteredName s) = None"

definition Valid :: "string \<Rightarrow> bool" where
  "Valid name = (Lookup (name_of name) \<noteq> None)"

definition ValidVersion :: "string \<Rightarrow> int \<Rightarrow> bool" where
  "ValidVersion eventName version =
     (case Lookup (name_of eventName) of None \<Rightarrow> False | Some d \<Rightarrow> Supports d version)"

definition CurrentVersion :: "Name \<Rightarrow> int result" where
  "CurrentVersion name =
     (case Lookup name of
        None \<Rightarrow> Inl (OtherError ''panic: event is not registered'')
      | Some d \<Rightarrow> Inr (Current d))"

section \<open>Payloads\<close>

text \<open>
  One constructor per payload struct, its arguments the struct's fields in their order.
  \<open>OrderStatusChangedPayload\<close> has the unexported \<open>name\<close> as its last argument.
\<close>

datatype Payload =
    OrderCreatedPayload string string int int int int bool time
  | OrderStatusChangedPayload string string string string string string string Name
  | OrderSLAEscalatedPayload string string string time
  | OrderConfirmationChasePayload string string time
  | CatalogRequestedPayload string string string time
  | CatalogRequestResolvedPayload string string string string
  | OfferCreatedPayload string string int string
  | OfferUpdatedPayload string string int string string
  | FeedbackCreatedPayload string string bool "string list" string
  | RefundBecameOverduePayload string int time

fun EventName :: "Payload \<Rightarrow> Name" where
  "EventName (OrderCreatedPayload _ _ _ _ _ _ _ _) = OrderCreated"
| "EventName (OrderStatusChangedPayload _ _ _ _ _ _ _ name) = name"
| "EventName (OrderSLAEscalatedPayload _ _ _ _) = OrderSLAEscalated"
| "EventName (OrderConfirmationChasePayload _ _ _) = OrderConfirmationChaseRequested"
| "EventName (CatalogRequestedPayload _ _ _ _) = CatalogRequested"
| "EventName (CatalogRequestResolvedPayload _ _ _ _) = CatalogRequestResolved"
| "EventName (OfferCreatedPayload _ _ _ _) = OfferCreated"
| "EventName (OfferUpdatedPayload _ _ _ _ _) = OfferUpdated"
| "EventName (FeedbackCreatedPayload _ _ _ _ _) = FeedbackCreated"
| "EventName (RefundBecameOverduePayload _ _ _) = RefundBecameOverdue"

section \<open>What the registry guarantees\<close>

lemma name_of_text: "n \<in> set declared_names \<Longrightarrow> name_of (name_text n) = n"
proof -
  have "list_all (\<lambda>n. name_of (name_text n) = n) declared_names" by code_simp
  then show "n \<in> set declared_names \<Longrightarrow> name_of (name_text n) = n" by (simp add: list_all_iff)
qed

lemma Lookup_eq_None: "Lookup n = None \<longleftrightarrow> n \<notin> set declared_names"
  by (cases n) (simp_all add: declared_names_def)

lemma Lookup_current: "Lookup n = Some d \<Longrightarrow> Current d = 1 \<and> Supports d (Current d)"
  by (cases n) (auto simp: Current_def Supports_def)

end
