(* ===== verification/OrderStatus.thy ===== *)
theory OrderStatus
  imports EventCatalog "HOL-Library.List_Lexorder" "HOL-Library.Char_ord"
begin

text \<open>
  \<open>internal/modules/orders/status.go\<close>: the lifecycle of an order as a table of transitions.
  \<open>Status\<close>, \<open>Actor\<close>, \<open>Source\<close> and \<open>Trigger\<close> are strings in Go; the declared constants
  are constructors here, and any other trigger string is \<open>UnknownTrigger\<close>. An empty
  \<open>Then\<close> is \<open>None\<close>, an empty \<open>Event\<close> is \<open>no_event\<close>.
\<close>

section \<open>Data\<close>

datatype Status =
    StatusCreated
  | StatusDeclined
  | StatusExpired
  | StatusBuyerDecisionPending
  | StatusAccepted
  | StatusAwaitingPayment
  | StatusPaid
  | StatusPaymentReview
  | StatusPreparing
  | StatusReady
  | StatusDelivered
  | StatusPickedUpByBuyer
  | StatusClosed
  | StatusCancelledByBuyerSLA
  | StatusCancelledByOperator
  | StatusRefundRequested
  | StatusRefunded
  | StatusRefundOverdue

fun status_text :: "Status \<Rightarrow> string" where
  "status_text StatusCreated = ''created''"
| "status_text StatusDeclined = ''declined''"
| "status_text StatusExpired = ''expired''"
| "status_text StatusBuyerDecisionPending = ''buyer_decision_pending''"
| "status_text StatusAccepted = ''accepted''"
| "status_text StatusAwaitingPayment = ''awaiting_payment''"
| "status_text StatusPaid = ''paid''"
| "status_text StatusPaymentReview = ''payment_review''"
| "status_text StatusPreparing = ''preparing''"
| "status_text StatusReady = ''ready''"
| "status_text StatusDelivered = ''delivered''"
| "status_text StatusPickedUpByBuyer = ''picked_up_by_buyer''"
| "status_text StatusClosed = ''closed''"
| "status_text StatusCancelledByBuyerSLA = ''cancelled_by_buyer_sla''"
| "status_text StatusCancelledByOperator = ''cancelled_by_operator''"
| "status_text StatusRefundRequested = ''refund_requested''"
| "status_text StatusRefunded = ''refunded''"
| "status_text StatusRefundOverdue = ''refund_overdue''"

definition AllStatuses :: "Status list" where
  "AllStatuses =
     [StatusCreated,
      StatusDeclined,
      StatusExpired,
      StatusBuyerDecisionPending,
      StatusAccepted,
      StatusAwaitingPayment,
      StatusPaid,
      StatusPaymentReview,
      StatusPreparing,
      StatusReady,
      StatusDelivered,
      StatusPickedUpByBuyer,
      StatusClosed,
      StatusCancelledByBuyerSLA,
      StatusCancelledByOperator,
      StatusRefundRequested,
      StatusRefunded,
      StatusRefundOverdue]"

datatype Actor = ActorBuyer | ActorSeller | ActorOperator | ActorSystem

fun actor_text :: "Actor \<Rightarrow> string" where
  "actor_text ActorBuyer = ''buyer''"
| "actor_text ActorSeller = ''seller''"
| "actor_text ActorOperator = ''operator''"
| "actor_text ActorSystem = ''system''"

datatype Source = SourceApp | SourceSMSToken | SourcePhoneCall | SourceWebhook | SourceCron

fun source_text :: "Source \<Rightarrow> string" where
  "source_text SourceApp = ''app''"
| "source_text SourceSMSToken = ''sms_token''"
| "source_text SourcePhoneCall = ''phone_call''"
| "source_text SourceWebhook = ''webhook''"
| "source_text SourceCron = ''cron''"

datatype Trigger =
    TriggerSupplierConfirm
  | TriggerTokenConfirm
  | TriggerSupplierDecline
  | TriggerBuyerCancel
  | TriggerOperatorCancel
  | TriggerExpire
  | TriggerIssueInvoice
  | TriggerSubmitReceipt
  | TriggerConfirmPayment
  | TriggerRejectPayment
  | TriggerStartPreparing
  | TriggerMarkReady
  | TriggerConfirmPickup
  | TriggerConfirmDelivery
  | TriggerCloseOrder
  | TriggerPaymentExpire
  | TriggerRefundRequest
  | TriggerRefundOverdue
  | TriggerConfirmRefund
  | UnknownTrigger string

fun trigger_text :: "Trigger \<Rightarrow> string" where
  "trigger_text TriggerSupplierConfirm = ''supplier_confirm''"
| "trigger_text TriggerTokenConfirm = ''token_confirm''"
| "trigger_text TriggerSupplierDecline = ''supplier_decline''"
| "trigger_text TriggerBuyerCancel = ''buyer_cancel''"
| "trigger_text TriggerOperatorCancel = ''operator_cancel''"
| "trigger_text TriggerExpire = ''expire''"
| "trigger_text TriggerIssueInvoice = ''issue_invoice''"
| "trigger_text TriggerSubmitReceipt = ''submit_receipt''"
| "trigger_text TriggerConfirmPayment = ''confirm_payment''"
| "trigger_text TriggerRejectPayment = ''reject_payment''"
| "trigger_text TriggerStartPreparing = ''start_preparing''"
| "trigger_text TriggerMarkReady = ''mark_ready''"
| "trigger_text TriggerConfirmPickup = ''confirm_pickup''"
| "trigger_text TriggerConfirmDelivery = ''confirm_delivery''"
| "trigger_text TriggerCloseOrder = ''close_order''"
| "trigger_text TriggerPaymentExpire = ''payment_expire''"
| "trigger_text TriggerRefundRequest = ''refund_request''"
| "trigger_text TriggerRefundOverdue = ''refund_overdue''"
| "trigger_text TriggerConfirmRefund = ''confirm_refund''"
| "trigger_text (UnknownTrigger s) = s"

record Transition =
  From :: "Status list"
  To :: Status
  ActorOf :: Actor
  SourceOf :: Source
  Event :: Name
  Then :: "Trigger option"
  ReleasesStock :: bool
  ConsumesStock :: bool

definition no_event :: Name where
  "no_event = UnregisteredName ''''"

section \<open>The table\<close>

fun transitionTable :: "Trigger \<Rightarrow> Transition option" where
  "transitionTable TriggerSupplierConfirm = Some
     \<lparr>From = [StatusCreated], To = StatusAccepted,
      ActorOf = ActorSeller, SourceOf = SourceApp, Event = OrderAccepted,
      Then = Some TriggerIssueInvoice, ReleasesStock = False, ConsumesStock = False\<rparr>"
| "transitionTable TriggerTokenConfirm = Some
     \<lparr>From = [StatusCreated], To = StatusAccepted,
      ActorOf = ActorSeller, SourceOf = SourceSMSToken, Event = OrderAccepted,
      Then = Some TriggerIssueInvoice, ReleasesStock = False, ConsumesStock = False\<rparr>"
| "transitionTable TriggerSupplierDecline = Some
     \<lparr>From = [StatusCreated], To = StatusBuyerDecisionPending,
      ActorOf = ActorSeller, SourceOf = SourceApp, Event = OrderDeclined,
      Then = None, ReleasesStock = True, ConsumesStock = False\<rparr>"
| "transitionTable TriggerBuyerCancel = Some
     \<lparr>From = [StatusCreated, StatusBuyerDecisionPending, StatusAwaitingPayment], To = StatusCancelledByBuyerSLA,
      ActorOf = ActorBuyer, SourceOf = SourceApp, Event = OrderCancelled,
      Then = None, ReleasesStock = True, ConsumesStock = False\<rparr>"
| "transitionTable TriggerOperatorCancel = Some
     \<lparr>From = [StatusCreated, StatusBuyerDecisionPending, StatusAwaitingPayment, StatusPaymentReview], To = StatusCancelledByOperator,
      ActorOf = ActorOperator, SourceOf = SourceApp, Event = OrderCancelled,
      Then = None, ReleasesStock = True, ConsumesStock = False\<rparr>"
| "transitionTable TriggerIssueInvoice = Some
     \<lparr>From = [StatusAccepted], To = StatusAwaitingPayment,
      ActorOf = ActorSystem, SourceOf = SourceApp, Event = OrderAwaitingPayment,
      Then = None, ReleasesStock = False, ConsumesStock = False\<rparr>"
| "transitionTable TriggerSubmitReceipt = Some
     \<lparr>From = [StatusAwaitingPayment], To = StatusPaymentReview,
      ActorOf = ActorBuyer, SourceOf = SourceApp, Event = PaymentReviewStarted,
      Then = None, ReleasesStock = False, ConsumesStock = False\<rparr>"
| "transitionTable TriggerConfirmPayment = Some
     \<lparr>From = [StatusPaymentReview], To = StatusPaid,
      ActorOf = ActorSeller, SourceOf = SourceApp, Event = OrderPaid,
      Then = None, ReleasesStock = False, ConsumesStock = False\<rparr>"
| "transitionTable TriggerRejectPayment = Some
     \<lparr>From = [StatusPaymentReview], To = StatusAwaitingPayment,
      ActorOf = ActorSeller, SourceOf = SourceApp, Event = OrderAwaitingPayment,
      Then = None, ReleasesStock = False, ConsumesStock = False\<rparr>"
| "transitionTable TriggerStartPreparing = Some
     \<lparr>From = [StatusPaid], To = StatusPreparing,
      ActorOf = ActorSeller, SourceOf = SourceApp, Event = OrderPreparing,
      Then = None, ReleasesStock = False, ConsumesStock = False\<rparr>"
| "transitionTable TriggerMarkReady = Some
     \<lparr>From = [StatusPreparing], To = StatusReady,
      ActorOf = ActorSeller, SourceOf = SourceApp, Event = OrderReady,
      Then = None, ReleasesStock = False, ConsumesStock = False\<rparr>"
| "transitionTable TriggerConfirmPickup = Some
     \<lparr>From = [StatusReady, StatusPaid], To = StatusPickedUpByBuyer,
      ActorOf = ActorBuyer, SourceOf = SourceApp, Event = OrderPickupConfirmed,
      Then = Some TriggerCloseOrder, ReleasesStock = False, ConsumesStock = False\<rparr>"
| "transitionTable TriggerConfirmDelivery = Some
     \<lparr>From = [StatusReady, StatusPaid], To = StatusDelivered,
      ActorOf = ActorSeller, SourceOf = SourceApp, Event = OrderDelivered,
      Then = Some TriggerCloseOrder, ReleasesStock = False, ConsumesStock = False\<rparr>"
| "transitionTable TriggerCloseOrder = Some
     \<lparr>From = [StatusPickedUpByBuyer, StatusDelivered], To = StatusClosed,
      ActorOf = ActorSystem, SourceOf = SourceApp, Event = OrderClosed,
      Then = None, ReleasesStock = False, ConsumesStock = True\<rparr>"
| "transitionTable TriggerExpire = Some
     \<lparr>From = [StatusCreated], To = StatusExpired,
      ActorOf = ActorSystem, SourceOf = SourceCron, Event = OrderExpired,
      Then = None, ReleasesStock = True, ConsumesStock = False\<rparr>"
| "transitionTable TriggerPaymentExpire = Some
     \<lparr>From = [StatusAwaitingPayment], To = StatusExpired,
      ActorOf = ActorSystem, SourceOf = SourceCron, Event = OrderExpired,
      Then = None, ReleasesStock = True, ConsumesStock = False\<rparr>"
| "transitionTable TriggerRefundRequest = Some
     \<lparr>From = [StatusPaid, StatusPreparing, StatusReady], To = StatusRefundRequested,
      ActorOf = ActorOperator, SourceOf = SourceApp, Event = RefundRequested,
      Then = None, ReleasesStock = True, ConsumesStock = False\<rparr>"
| "transitionTable TriggerRefundOverdue = Some
     \<lparr>From = [StatusRefundRequested], To = StatusRefundOverdue,
      ActorOf = ActorSystem, SourceOf = SourceCron, Event = no_event,
      Then = None, ReleasesStock = False, ConsumesStock = False\<rparr>"
| "transitionTable TriggerConfirmRefund = Some
     \<lparr>From = [StatusRefundRequested, StatusRefundOverdue], To = StatusRefunded,
      ActorOf = ActorBuyer, SourceOf = SourceApp, Event = OrderRefunded,
      Then = None, ReleasesStock = False, ConsumesStock = False\<rparr>"
| "transitionTable (UnknownTrigger s) = None"

definition TransitionFor :: "Trigger \<Rightarrow> Transition option" where
  "TransitionFor trigger = transitionTable trigger"

definition declared_triggers :: "Trigger list" where
  "declared_triggers =
     [TriggerSupplierConfirm,
      TriggerTokenConfirm,
      TriggerSupplierDecline,
      TriggerBuyerCancel,
      TriggerOperatorCancel,
      TriggerExpire,
      TriggerIssueInvoice,
      TriggerSubmitReceipt,
      TriggerConfirmPayment,
      TriggerRejectPayment,
      TriggerStartPreparing,
      TriggerMarkReady,
      TriggerConfirmPickup,
      TriggerConfirmDelivery,
      TriggerCloseOrder,
      TriggerPaymentExpire,
      TriggerRefundRequest,
      TriggerRefundOverdue,
      TriggerConfirmRefund]"

definition Triggers :: "Trigger list" where
  "Triggers = sort_key trigger_text declared_triggers"

definition Permits :: "Transition \<Rightarrow> Status \<Rightarrow> bool" where
  "Permits t from = List.member (From t) from"

section \<open>The table is well formed\<close>

lemmas TransitionFor_cases = transitionTable.cases [of t for t]

lemma TransitionFor_None: "TransitionFor t = None \<longleftrightarrow> (\<exists>s. t = UnknownTrigger s)"
  by (cases t) (simp_all add: TransitionFor_def)

lemma in_AllStatuses: "s \<in> set AllStatuses"
  by (cases s) (simp_all add: AllStatuses_def)

lemma status_text_inj: "status_text a = status_text b \<longleftrightarrow> a = b"
proof -
  have "list_all (\<lambda>a. list_all (\<lambda>b. status_text a = status_text b \<longrightarrow> a = b) AllStatuses) AllStatuses"
    by code_simp
  then show ?thesis using in_AllStatuses by (auto simp: list_all_iff)
qed

lemma transition_wf:
  assumes "TransitionFor t = Some tr"
  shows "From tr \<noteq> []" and "To tr \<notin> set (From tr)"
    and "Event tr \<noteq> no_event \<Longrightarrow> \<exists>d. Lookup (Event tr) = Some d \<and> Producer d = ''orders''"
    and "\<not> (ReleasesStock tr \<and> ConsumesStock tr)"
  using assms by (cases t; auto simp: TransitionFor_def no_event_def)+

lemma follow_on_wf:
  assumes "TransitionFor t = Some tr" "Then tr = Some t'"
  shows "\<exists>f. TransitionFor t' = Some f \<and> Then f = None \<and> Permits f (To tr)"
  using assms by (cases t) (auto simp: TransitionFor_def Permits_def)

section \<open>The lifecycle as a step relation\<close>

text \<open>
  \<open>settled t s\<close> is the status a committed request with trigger \<open>t\<close> leaves an order in:
  the target of its transition or, when the transition declares a follow-on, of that.
\<close>

definition settled :: "Trigger \<Rightarrow> Status \<Rightarrow> Status option" where
  "settled t s = (case TransitionFor t of
     None \<Rightarrow> None
   | Some tr \<Rightarrow>
     if \<not> Permits tr s then None
     else case Then tr of
       None \<Rightarrow> Some (To tr)
     | Some t' \<Rightarrow> (case TransitionFor t' of
         None \<Rightarrow> None
       | Some f \<Rightarrow> if Permits f (To tr) then Some (To f) else None))"

inductive lifecycle :: "Status \<Rightarrow> Trigger list \<Rightarrow> Status \<Rightarrow> bool" where
  stay: "lifecycle s [] s"
| move: "lifecycle s ts s' \<Longrightarrow> settled t s' = Some s'' \<Longrightarrow> lifecycle s (ts @ [t]) s''"

inductive_cases lifecycle_snocE: "lifecycle s (ts @ [t]) s''"

definition at_rest :: "Status list" where
  "at_rest = [StatusCreated, StatusBuyerDecisionPending, StatusAwaitingPayment, StatusPaymentReview,
     StatusPaid, StatusPreparing, StatusReady, StatusClosed, StatusExpired, StatusCancelledByBuyerSLA,
     StatusCancelledByOperator, StatusRefundRequested, StatusRefundOverdue, StatusRefunded]"

definition terminal :: "Status \<Rightarrow> bool" where
  "terminal s \<longleftrightarrow> s \<in> {StatusDeclined, StatusExpired, StatusClosed, StatusCancelledByBuyerSLA,
     StatusCancelledByOperator, StatusRefunded}"

lemma settled_cases:
  "settled t s = Some s' \<longleftrightarrow> (t, s, s') \<in>
     {(TriggerSupplierConfirm, StatusCreated, StatusAwaitingPayment),
      (TriggerTokenConfirm, StatusCreated, StatusAwaitingPayment),
      (TriggerSupplierDecline, StatusCreated, StatusBuyerDecisionPending),
      (TriggerBuyerCancel, StatusCreated, StatusCancelledByBuyerSLA),
      (TriggerBuyerCancel, StatusBuyerDecisionPending, StatusCancelledByBuyerSLA),
      (TriggerBuyerCancel, StatusAwaitingPayment, StatusCancelledByBuyerSLA),
      (TriggerOperatorCancel, StatusCreated, StatusCancelledByOperator),
      (TriggerOperatorCancel, StatusBuyerDecisionPending, StatusCancelledByOperator),
      (TriggerOperatorCancel, StatusAwaitingPayment, StatusCancelledByOperator),
      (TriggerOperatorCancel, StatusPaymentReview, StatusCancelledByOperator),
      (TriggerExpire, StatusCreated, StatusExpired),
      (TriggerIssueInvoice, StatusAccepted, StatusAwaitingPayment),
      (TriggerSubmitReceipt, StatusAwaitingPayment, StatusPaymentReview),
      (TriggerConfirmPayment, StatusPaymentReview, StatusPaid),
      (TriggerRejectPayment, StatusPaymentReview, StatusAwaitingPayment),
      (TriggerStartPreparing, StatusPaid, StatusPreparing),
      (TriggerMarkReady, StatusPreparing, StatusReady),
      (TriggerConfirmPickup, StatusReady, StatusClosed),
      (TriggerConfirmPickup, StatusPaid, StatusClosed),
      (TriggerConfirmDelivery, StatusReady, StatusClosed),
      (TriggerConfirmDelivery, StatusPaid, StatusClosed),
      (TriggerCloseOrder, StatusPickedUpByBuyer, StatusClosed),
      (TriggerCloseOrder, StatusDelivered, StatusClosed),
      (TriggerPaymentExpire, StatusAwaitingPayment, StatusExpired),
      (TriggerRefundRequest, StatusPaid, StatusRefundRequested),
      (TriggerRefundRequest, StatusPreparing, StatusRefundRequested),
      (TriggerRefundRequest, StatusReady, StatusRefundRequested),
      (TriggerRefundOverdue, StatusRefundRequested, StatusRefundOverdue),
      (TriggerConfirmRefund, StatusRefundRequested, StatusRefunded),
      (TriggerConfirmRefund, StatusRefundOverdue, StatusRefunded)}"
  by (cases t; cases s; simp add: settled_def TransitionFor_def Permits_def; blast)

lemma settled_at_rest: "settled t s = Some s' \<Longrightarrow> s' \<in> set at_rest"
  unfolding settled_cases by (auto simp: at_rest_def)

lemma lifecycle_at_rest: "lifecycle s ts s' \<Longrightarrow> s \<in> set at_rest \<Longrightarrow> s' \<in> set at_rest"
  by (induction rule: lifecycle.induct) (auto intro: settled_at_rest)

lemma terminal_iff: "terminal s \<longleftrightarrow> (\<forall>t. settled t s = None)"
proof
  assume "terminal s"
  then show "\<forall>t. settled t s = None"
    using settled_cases by (auto simp: terminal_def not_Some_eq [symmetric] simp del: not_Some_eq)
next
  assume n: "\<forall>t. settled t s = None"
  have "\<not> terminal s \<Longrightarrow> \<exists>t s'. settled t s = Some s'"
    unfolding settled_cases by (cases s) (auto simp: terminal_def)
  with n show "terminal s" by auto
qed

text \<open>
  What is left to an order: every settled request lowers \<open>remaining\<close>, except that a rejected
  receipt sends it back from review to the invoice.
\<close>

fun remaining :: "Status \<Rightarrow> nat" where
  "remaining StatusCreated = 9"
| "remaining StatusAccepted = 8"
| "remaining StatusAwaitingPayment = 7"
| "remaining StatusPaymentReview = 6"
| "remaining StatusPaid = 5"
| "remaining StatusPreparing = 4"
| "remaining StatusReady = 3"
| "remaining StatusRefundRequested = 2"
| "remaining StatusRefundOverdue = 1"
| "remaining StatusBuyerDecisionPending = 1"
| "remaining StatusDelivered = 1"
| "remaining StatusPickedUpByBuyer = 1"
| "remaining s = 0"

lemma settled_remaining:
  "settled t s = Some s' \<Longrightarrow>
     if t = TriggerRejectPayment then remaining s' = Suc (remaining s) else remaining s' < remaining s"
  unfolding settled_cases by auto

lemma lifecycle_bound:
  "lifecycle s ts s' \<Longrightarrow> length ts + remaining s' \<le> remaining s + 2 * count_list ts TriggerRejectPayment"
proof (induction rule: lifecycle.induct)
  case (move s ts s' t s'')
  then show ?case using settled_remaining [of t s' s''] by (auto split: if_splits)
qed simp

end
