(* ===== verification/Sql.thy ===== *)
theory Sql
  imports Prelude
begin

text \<open>
  The environment of a request (the third-party functions it calls, the ids and the randomness
  it draws, the failures the database injects) and the statements the code runs on the tables
  of PostgreSQL. A table is the list of its rows. A statement that fails aborts its
  transaction, and the transaction's effects are dropped (\<open>commit\<close>). Transactions are modelled
  as executed one after another: every transaction modelled here locks the rows it decides on
  (\<open>FOR UPDATE\<close>, a conditional \<open>UPDATE\<close>, \<open>ON CONFLICT\<close>).
\<close>

named_theorems sql_simps \<open>what a statement returned\<close>

section \<open>Environment\<close>

text \<open>
  Functions of packages outside the repository: \<open>google/uuid\<close>, \<open>pgx/pgtype\<close>. They are
  parameters; what the proofs need of them is stated as a hypothesis where it is needed.
  \<open>url_Parse\<close> is the scheme and the host of \<open>net/url\<close>'s \<open>Parse\<close>,
  \<open>sha256_hex\<close> the hex digest of a SHA-256, \<open>to_char_date\<close> PostgreSQL's
  \<open>to_char(... AT TIME ZONE 'UTC', 'YYYYMMDD')\<close>.
\<close>

record lib =
  uuid_Parse :: "string \<Rightarrow> uuid option"
  uuid_String :: "uuid \<Rightarrow> string"
  Numeric_Scan :: "string \<Rightarrow> rat option"
  Numeric_Value :: "rat \<Rightarrow> string"
  sha256_hex :: "string \<Rightarrow> string"
  to_char_date :: "int \<Rightarrow> string"
  url_Parse :: "string \<Rightarrow> (string \<times> string) option"

text \<open>
  What one request draws and suffers: \<open>newID\<close> is the id it draws for the resource it
  creates, \<open>rowID n\<close> the id it draws for the row number \<open>n\<close> it adds beside that resource,
  \<open>newV7 n\<close> the id drawn for the event number \<open>n\<close> of the outbox,
  \<open>rand_token\<close> the outcome of generating a confirmation token, \<open>clock_Now\<close> what the clock
  reads, \<open>fault q\<close> the error the driver reports for statement \<open>q\<close>, if it reports one
  (\<open>begin\<close> and \<open>commit\<close> are statements too).
\<close>

record env = lib +
  newID :: uuid
  rowID :: "nat \<Rightarrow> uuid"
  newV7 :: "nat \<Rightarrow> uuid"
  rand_token :: "string result"
  clock_Now :: time
  fault :: "string \<Rightarrow> go_error option"

definition lossless_ids :: "'a lib_scheme \<Rightarrow> bool" where
  "lossless_ids L \<longleftrightarrow> (\<forall>u. uuid_Parse L (uuid_String L u) = Some u)"

definition lossless_numerics :: "'a lib_scheme \<Rightarrow> bool" where
  "lossless_numerics L \<longleftrightarrow>
     (\<forall>s q. Numeric_Scan L s = Some q \<longrightarrow> Numeric_Scan L (Numeric_Value L q) = Some q)"

lemma lossless_idsD [simp]: "lossless_ids L \<Longrightarrow> uuid_Parse L (uuid_String L u) = Some u"
  by (simp add: lossless_ids_def)

lemma lossless_numericsD:
  "lossless_numerics L \<Longrightarrow> Numeric_Scan L s = Some q \<Longrightarrow> Numeric_Scan L (Numeric_Value L q) = Some q"
  by (auto simp: lossless_numerics_def)

text \<open>\<open>uuid.Validate\<close> accepts what \<open>uuid.Parse\<close> parses.\<close>

definition uuid_Validate :: "'a lib_scheme \<Rightarrow> string \<Rightarrow> bool" where
  "uuid_Validate L s = (uuid_Parse L s \<noteq> None)"

definition stmt :: "'a env_scheme \<Rightarrow> string \<Rightarrow> 'b result \<Rightarrow> 'b result" where
  "stmt env q r = (case fault env q of Some e \<Rightarrow> Inl e | None \<Rightarrow> r)"

lemma stmt_eq_Inr [sql_simps]: "stmt env q r = Inr x \<longleftrightarrow> fault env q = None \<and> r = Inr x"
  by (auto simp: stmt_def split: option.splits)

lemma stmt_None [simp]: "fault env q = None \<Longrightarrow> stmt env q r = r"
  by (simp add: stmt_def)

section \<open>Statements on a table\<close>

text \<open>\<open>SELECT ... :one\<close>: the first row that satisfies the predicate.\<close>

fun sql_one :: "('r \<Rightarrow> bool) \<Rightarrow> 'r list \<Rightarrow> 'r result" where
  "sql_one p [] = Inl NoRows"
| "sql_one p (r # rs) = (if p r then Inr r else sql_one p rs)"

text \<open>
  \<open>UPDATE ... WHERE\<close>: the number of rows changed and the new table. \<open>chk\<close> is the
  conjunction of the table's CHECK constraints (SQLSTATE 23514).
\<close>

definition sql_update ::
  "('r \<Rightarrow> bool) \<Rightarrow> ('r \<Rightarrow> bool) \<Rightarrow> ('r \<Rightarrow> 'r) \<Rightarrow> 'r list \<Rightarrow> (nat \<times> 'r list) result" where
  "sql_update chk p f rs =
     (if list_all (\<lambda>r. p r \<longrightarrow> chk (f r)) rs
      then Inr (length (filter p rs), map (\<lambda>r. if p r then f r else r) rs)
      else Inl (PgError ''23514''))"

text \<open>\<open>UPDATE ... WHERE ... RETURNING *\<close> read by \<open>:one\<close>: no row is \<open>ErrNoRows\<close>.\<close>

definition sql_update_one ::
  "('r \<Rightarrow> bool) \<Rightarrow> ('r \<Rightarrow> bool) \<Rightarrow> ('r \<Rightarrow> 'r) \<Rightarrow> 'r list \<Rightarrow> ('r \<times> 'r list) result" where
  "sql_update_one chk p f rs =
     andThen (sql_update chk p f rs) (\<lambda>(n, rs').
       case filter p rs of [] \<Rightarrow> Inl NoRows | r # _ \<Rightarrow> Inr (f r, rs'))"

text \<open>
  \<open>INSERT\<close>: a CHECK violation (23514), then a UNIQUE violation against a row already there
  (23505), then a dangling foreign key (23503).
\<close>

definition sql_insert ::
  "('r \<Rightarrow> bool) \<Rightarrow> ('r \<Rightarrow> 'r \<Rightarrow> bool) \<Rightarrow> bool \<Rightarrow> 'r \<Rightarrow> 'r list \<Rightarrow> ('r list) result" where
  "sql_insert chk clash fk r rs =
     (if \<not> chk r then Inl (PgError ''23514'')
      else if list_ex (clash r) rs then Inl (PgError ''23505'')
      else if \<not> fk then Inl (PgError ''23503'')
      else Inr (rs @ [r]))"

text \<open>An invalid \<open>pgtype.UUID\<close> in a NOT NULL column (23502).\<close>

definition not_null :: "'v option \<Rightarrow> 'v result" where
  "not_null x = (case x of None \<Rightarrow> Inl (PgError ''23502'') | Some v \<Rightarrow> Inr v)"

lemma not_null_Inr [sql_simps]: "not_null x = Inr v \<longleftrightarrow> x = Some v"
  by (simp add: not_null_def split: option.splits)

text \<open>
  \<open>DELETE ... WHERE key IN (SELECT ... ORDER BY ... LIMIT)\<close>: the oldest of the rows whose time
  is before the cutoff, at most \<open>limit\<close> of them.
\<close>

definition delete_oldest :: "('r \<Rightarrow> time option) \<Rightarrow> ('r \<Rightarrow> 'k) \<Rightarrow> time \<Rightarrow> int \<Rightarrow> 'r list \<Rightarrow> 'r list" where
  "delete_oldest tm key cutoff limit rows =
     (let old = take (nat limit) (sort_key (\<lambda>r. case tm r of None \<Rightarrow> 0 | Some t \<Rightarrow> t)
                  (filter (\<lambda>r. case tm r of None \<Rightarrow> False | Some t \<Rightarrow> t < cutoff) rows))
      in filter (\<lambda>r. key r \<notin> key ` set old) rows)"

subsection \<open>Their laws\<close>

lemma sql_one_Inr: "sql_one p rs = Inr r \<Longrightarrow> r \<in> set rs \<and> p r"
  by (induction rs) (auto split: if_splits)

lemma sql_one_NoRows: "sql_one p rs = Inl e \<longleftrightarrow> e = NoRows \<and> (\<forall>r \<in> set rs. \<not> p r)"
  by (induction rs) auto

lemma sql_one_unique:
  assumes "distinct (map key rs)" "r \<in> set rs"
  shows "sql_one (\<lambda>r'. key r' = key r) rs = Inr r"
  using assms by (induction rs) (auto simp: rev_image_eqI)

lemma sql_update_Inr [sql_simps]:
  "sql_update chk p f rs = Inr (n, rs') \<longleftrightarrow>
     list_all (\<lambda>r. p r \<longrightarrow> chk (f r)) rs \<and> n = length (filter p rs)
     \<and> rs' = map (\<lambda>r. if p r then f r else r) rs"
  by (auto simp: sql_update_def)

lemma sql_update_one_Inr [sql_simps]:
  "sql_update_one chk p f rs = Inr (r', rs') \<longleftrightarrow>
     list_all (\<lambda>r. p r \<longrightarrow> chk (f r)) rs
     \<and> (\<exists>r ps. filter p rs = r # ps \<and> r' = f r)
     \<and> rs' = map (\<lambda>r. if p r then f r else r) rs"
  by (auto simp: sql_update_one_def sql_update_def go_simps split: list.splits)

lemma sql_update_one_NoRows:
  "(\<forall>r \<in> set rs. \<not> p r) \<Longrightarrow> sql_update_one chk p f rs = Inl NoRows"
  by (simp add: sql_update_one_def sql_update_def list_all_iff)

lemma sql_insert_Inr [sql_simps]:
  "sql_insert chk clash fk r rs = Inr rs' \<longleftrightarrow>
     chk r \<and> \<not> list_ex (clash r) rs \<and> fk \<and> rs' = rs @ [r]"
  by (auto simp: sql_insert_def)

lemma update_chk:
  assumes "list_all chk rs" "list_all (\<lambda>r. p r \<longrightarrow> chk (f r)) rs"
  shows "list_all chk (map (\<lambda>r. if p r then f r else r) rs)"
  using assms by (auto simp: list_all_iff)

lemma filter_first: "filter p rs = r # ps \<Longrightarrow> r \<in> set rs \<and> p r"
  by (metis filter_eq_Cons_iff in_set_conv_decomp)

lemma map_update_key:
  "(\<And>r. key (f r) = key r) \<Longrightarrow> map key (map (\<lambda>r. if p r then f r else r) rs) = map key rs"
  by simp

lemma delete_oldest_spared:
  assumes "r \<in> set rows" "tm r = None" "distinct (map key rows)"
  shows "r \<in> set (delete_oldest tm key cutoff limit rows)"
proof -
  let ?f = "\<lambda>r. case tm r of None \<Rightarrow> 0 | Some t \<Rightarrow> t"
  let ?p = "\<lambda>r. case tm r of None \<Rightarrow> False | Some t \<Rightarrow> t < cutoff"
  have "r' \<in> set rows \<and> tm r' \<noteq> None" if "r' \<in> set (take (nat limit) (sort_key ?f (filter ?p rows)))" for r'
    using in_set_takeD [OF that] by (simp split: option.splits)
  then have old: "\<And>r'. r' \<in> set (take (nat limit) (sort_key ?f (filter ?p rows))) \<Longrightarrow> key r \<noteq> key r'"
    using assms by (metis distinct_map inj_onD)
  show ?thesis unfolding delete_oldest_def Let_def set_filter image_iff using assms(1) old by blast
qed

lemma delete_oldest_subset: "set (delete_oldest tm key cutoff limit rows) \<subseteq> set rows"
  by (auto simp: delete_oldest_def Let_def)

lemma distinct_delete_oldest:
  "distinct (map key rows) \<Longrightarrow> distinct (map key (delete_oldest tm key cutoff limit rows))"
  unfolding delete_oldest_def Let_def by (rule distinct_map_filter)

section \<open>Transactions\<close>

text \<open>
  A request runs the body of its transaction and commits it; an error return runs the deferred
  rollback. A body that returns early without committing returns the state it started from.
\<close>

definition commit :: "'db \<Rightarrow> ('a \<times> 'db) result \<Rightarrow> 'a result \<times> 'db" where
  "commit db r = (case r of Inl e \<Rightarrow> (Inl e, db) | Inr (a, db') \<Rightarrow> (Inr a, db'))"

lemma commit_simps [simp]:
  "commit db (Inl e) = (Inl e, db)"
  "commit db (Inr (a, db')) = (Inr a, db')"
  by (simp_all add: commit_def)

lemma commit_cases:
  obtains (rolled_back) e where "r = Inl e" "commit db r = (Inl e, db)"
  | (committed) a db' where "r = Inr (a, db')" "commit db r = (Inr a, db')"
  by (cases r) auto

lemma commit_Inr [sql_simps]: "commit db r = (Inr a, db') \<longleftrightarrow> r = Inr (a, db')"
  by (cases r) auto

lemma commit_Inl: "commit db r = (Inl e, db') \<Longrightarrow> db' = db"
  by (cases r rule: sum.exhaust) auto

lemma commit_keeps:
  "P db \<Longrightarrow> (\<And>a db'. r = Inr (a, db') \<Longrightarrow> P db') \<Longrightarrow> P (snd (commit db r))"
  by (cases r) auto

text \<open>A history of requests, each started on the state the one before left.\<close>

definition run_all :: "('c \<Rightarrow> 'db \<Rightarrow> 'r \<times> 'db) \<Rightarrow> 'c list \<Rightarrow> 'db \<Rightarrow> 'db" where
  "run_all exec cs db = fold (\<lambda>c d. snd (exec c d)) cs db"

fun all_ok :: "('c \<Rightarrow> 'db \<Rightarrow> 'r \<times> 'db) \<Rightarrow> ('db \<Rightarrow> 'c \<Rightarrow> bool) \<Rightarrow> 'c list \<Rightarrow> 'db \<Rightarrow> bool" where
  "all_ok exec ok [] d = True"
| "all_ok exec ok (c # cs) d = (ok d c \<and> all_ok exec ok cs (snd (exec c d)))"

lemma run_all_simps [simp]:
  "run_all exec [] d = d"
  "run_all exec (c # cs) d = run_all exec cs (snd (exec c d))"
  by (simp_all add: run_all_def)

text \<open>A handler whose every request moves the state along a preorder.\<close>

locale tx_rel =
  fixes exec :: "'c \<Rightarrow> 'db \<Rightarrow> 'r \<times> 'db"
    and R :: "'db \<Rightarrow> 'db \<Rightarrow> bool"
  assumes R_refl: "R d d"
    and R_trans: "R d d' \<Longrightarrow> R d' d'' \<Longrightarrow> R d d''"
    and exec_R: "R d (snd (exec c d))"
begin

lemma run_R: "R d (run_all exec cs d)"
  by (induction cs arbitrary: d) (auto intro: R_refl R_trans exec_R)

end

text \<open>
  A handler that keeps an invariant on the requests that are allowed in the state they meet.
\<close>

locale tx_guarded =
  fixes exec :: "'c \<Rightarrow> 'db \<Rightarrow> 'r \<times> 'db"
    and ok :: "'db \<Rightarrow> 'c \<Rightarrow> bool"
    and inv :: "'db \<Rightarrow> bool"
  assumes exec_inv: "inv d \<Longrightarrow> ok d c \<Longrightarrow> inv (snd (exec c d))"
begin

lemma run_inv: "inv d \<Longrightarrow> all_ok exec ok cs d \<Longrightarrow> inv (run_all exec cs d)"
  by (induction cs arbitrary: d) (auto intro: exec_inv)

end

text \<open>A handler that keeps an invariant on every request: a preorder like any other.\<close>

locale tx_invariant =
  fixes exec :: "'c \<Rightarrow> 'db \<Rightarrow> 'r \<times> 'db"
    and inv :: "'db \<Rightarrow> bool"
  assumes exec_keeps: "inv d \<Longrightarrow> inv (snd (exec c d))"

sublocale tx_invariant \<subseteq> tx_rel exec "\<lambda>d d'. inv d \<longrightarrow> inv d'"
  by unfold_locales (auto intro: exec_keeps)

end
