(* ===== verification/Authz.thy ===== *)
theory Authz
  imports Prelude
begin

text \<open>
  The package \<open>internal/platform/authz\<close>: the principal of a request and the ownership checks.
  A Go \<open>context.Context\<close> is a record of the two values the code reads from it: the
  principal and the operation key that \<open>httpx.Mutating\<close> (or a background job) binds.
\<close>

datatype Role = RoleBuyer | RoleSeller | RoleOperator

fun role_text :: "Role \<Rightarrow> string" where
  "role_text RoleBuyer = ''buyer''"
| "role_text RoleSeller = ''seller''"
| "role_text RoleOperator = ''operator''"

definition ValidRole :: "string \<Rightarrow> bool" where
  "ValidRole value = list_ex (\<lambda>r. role_text r = value) [RoleBuyer, RoleSeller, RoleOperator]"

record Principal =
  UserID :: string
  Roles :: "Role list"

definition Authenticated :: "Principal \<Rightarrow> bool" where
  "Authenticated p = (UserID p \<noteq> [])"

definition Has :: "Principal \<Rightarrow> Role \<Rightarrow> bool" where
  "Has p role = List.member (Roles p) role"

record ctx =
  ctx_principal :: "Principal option"
  OperationKey :: string

definition WithOperationKey :: "ctx \<Rightarrow> string \<Rightarrow> ctx" where
  "WithOperationKey c key = c\<lparr>OperationKey := key\<rparr>"

definition FromContext :: "ctx \<Rightarrow> Principal option" where
  "FromContext c = (case ctx_principal c of
     None \<Rightarrow> None
   | Some p \<Rightarrow> if Authenticated p then Some p else None)"

definition Subject :: "ctx \<Rightarrow> string" where
  "Subject c = (case FromContext c of None \<Rightarrow> [] | Some p \<Rightarrow> UserID p)"

definition Require :: "ctx \<Rightarrow> Principal result" where
  "Require c = (case FromContext c of None \<Rightarrow> Inl AuthzUnauthenticated | Some p \<Rightarrow> Inr p)"

definition RequireRole :: "ctx \<Rightarrow> Role \<Rightarrow> Principal result" where
  "RequireRole c role =
     andThen (Require c) (\<lambda>p. if \<not> Has p role then Inl AuthzForbidden else Inr p)"

definition EnsureSelf :: "ctx \<Rightarrow> string \<Rightarrow> unit result" where
  "EnsureSelf c userID =
     andThen (Require c) (\<lambda>p. if UserID p \<noteq> userID then Inl AuthzForbidden else Inr ())"

definition HTTPStatus :: "go_error \<Rightarrow> nat option" where
  "HTTPStatus e = (case e of
     AuthzUnauthenticated \<Rightarrow> Some 401
   | AuthzForbidden \<Rightarrow> Some 403
   | _ \<Rightarrow> None)"

lemma Require_Inr: "Require c = Inr p \<longleftrightarrow> ctx_principal c = Some p \<and> UserID p \<noteq> []"
  by (auto simp: Require_def FromContext_def Authenticated_def split: option.splits)

lemma RequireRole_Inr: "RequireRole c r = Inr p \<longleftrightarrow> Require c = Inr p \<and> r \<in> set (Roles p)"
  by (auto simp: RequireRole_def Has_def go_simps)

lemma EnsureSelf_Inr: "EnsureSelf c u = Inr () \<longleftrightarrow> (\<exists>p. Require c = Inr p \<and> UserID p = u)"
  by (auto simp: EnsureSelf_def go_simps)

lemma Require_Inl: "Require c = Inl e \<Longrightarrow> e = AuthzUnauthenticated"
  by (auto simp: Require_def split: option.splits)

end
