(* ===== verification/Platform.thy ===== *)
theory Platform
  imports Sql Authz EventCatalog
begin

text \<open>
  The schema \<open>platform\<close>: the receipts of \<open>internal/platform/database/dedup\<close> and the rows
  of \<open>internal/platform/messaging/outbox\<close>, with the two operations every business transaction
  runs on them: claiming its operation key and writing its domain event.
\<close>

section \<open>State\<close>

record receipt =
  rc_operation_key :: string
  rc_resource_id :: "uuid option"
  rc_created_at :: time

record outbox_row =
  ob_id :: int
  ob_event_id :: uuid
  ob_module :: string
  ob_event_name :: Name
  ob_event_version :: int
  ob_aggregate_id :: string
  ob_payload :: Payload
  ob_occurred_at :: time
  ob_claimed_at :: "time option"
  ob_dispatched_at :: "time option"
  ob_attempt_count :: int
  ob_last_error :: "string option"
  ob_next_attempt_at :: "time option"
  ob_dead_lettered_at :: "time option"

record platform =
  mutation_receipts :: "receipt list"
  outbox :: "outbox_row list"
  outbox_seq :: nat

text \<open>
  The database is one record, grown by the schema of each component: a transaction of a component
  works on the database of the components before it and of those after it.
\<close>

record pdb =
  plat :: platform

section \<open>Deduplication\<close>

definition nullableUUID :: "uuid \<Rightarrow> uuid option" where
  "nullableUUID i = (if i = 0 then None else Some i)"

definition receipt_chk :: "receipt \<Rightarrow> bool" where
  "receipt_chk r \<longleftrightarrow> 1 \<le> length (rc_operation_key r) \<and> length (rc_operation_key r) \<le> 512"

text \<open>
  \<open>claim\<close> inserts the receipt; \<open>ON CONFLICT DO NOTHING\<close> returns no row when the key is
  taken, and the stored resource is read instead. A NULL resource reads as \<open>uuid.Nil\<close>.
\<close>

definition claim ::
  "'a env_scheme \<Rightarrow> string \<Rightarrow> uuid \<Rightarrow> time \<Rightarrow> platform \<Rightarrow> ((uuid \<times> bool) \<times> platform) result" where
  "claim env operationKey resourceID tm p =
     (if operationKey = [] then Inl (OtherError ''dedup: operation key is required'')
      else
        let row = \<lparr>rc_operation_key = operationKey, rc_resource_id = nullableUUID resourceID,
                   rc_created_at = tm\<rparr>
        in stmt env ''ReserveMutation''
          (if \<not> receipt_chk row then Inl (PgError ''23514'')
           else case sql_one (\<lambda>r. rc_operation_key r = operationKey) (mutation_receipts p) of
             Inl _ \<Rightarrow>
               Inr ((case rc_resource_id row of None \<Rightarrow> 0 | Some i \<Rightarrow> i, True),
                    p\<lparr>mutation_receipts := mutation_receipts p @ [row]\<rparr>)
           | Inr r \<Rightarrow>
               stmt env ''ReadMutationReceipt''
                 (Inr ((case rc_resource_id r of None \<Rightarrow> 0 | Some i \<Rightarrow> i, False), p))))"

definition ReserveNew ::
  "'a env_scheme \<Rightarrow> string \<Rightarrow> uuid \<Rightarrow> time \<Rightarrow> platform \<Rightarrow> ((bool \<times> uuid) \<times> platform) result" where
  "ReserveNew env operationKey newResourceID tm p =
     andThen (claim env operationKey newResourceID tm p) (\<lambda>((stored, claimed), p').
       if claimed then Inr ((False, newResourceID), p') else Inr ((True, stored), p'))"

definition ReserveFor ::
  "'a env_scheme \<Rightarrow> string \<Rightarrow> uuid \<Rightarrow> time \<Rightarrow> platform \<Rightarrow> (bool \<times> platform) result" where
  "ReserveFor env operationKey resourceID tm p =
     andThen (claim env operationKey resourceID tm p) (\<lambda>((stored, claimed), p').
       if claimed then Inr (False, p')
       else if stored \<noteq> resourceID then Inl DedupKeyReuse
       else Inr (True, p'))"

section \<open>The transactional outbox\<close>

text \<open>
  The payloads are Go structs, so their JSON is always an object and the three payload checks
  of \<open>Write\<close> after the marshalling cannot fail.
\<close>

definition Write ::
  "'a env_scheme \<Rightarrow> string \<Rightarrow> string \<Rightarrow> Payload \<Rightarrow> platform \<Rightarrow> platform result" where
  "Write env modul aggregateID payload p =
     (if modul = [] then Inl (OtherError ''outbox: module is required'')
      else case Lookup (EventName payload) of
        None \<Rightarrow> Inl (OtherError ''outbox: event name is not registered'')
      | Some definition_ \<Rightarrow>
        (case uuid_Parse env aggregateID of
           None \<Rightarrow> Inl (OtherError ''outbox: aggregate id'')
         | Some _ \<Rightarrow>
           let eventID = newV7 env (outbox_seq p);
               row = \<lparr>ob_id = int (outbox_seq p) + 1, ob_event_id = eventID, ob_module = modul,
                      ob_event_name = EventName payload, ob_event_version = Current definition_,
                      ob_aggregate_id = aggregateID, ob_payload = payload,
                      ob_occurred_at = clock_Now env, ob_claimed_at = None,
                      ob_dispatched_at = None, ob_attempt_count = 0, ob_last_error = None,
                      ob_next_attempt_at = None, ob_dead_lettered_at = None\<rparr>
           in andThen (stmt env ''InsertOutbox''
                (sql_insert (\<lambda>r. 0 \<le> ob_attempt_count r) (\<lambda>a b. ob_event_id a = ob_event_id b)
                   True row (outbox p)))
                (\<lambda>rows. Inr (p\<lparr>outbox := rows, outbox_seq := Suc (outbox_seq p)\<rparr>))))"

section \<open>Laws\<close>

text \<open>
  \<open>receipts_keyed\<close> is the primary key of the receipts table. \<open>platform_extends\<close> says that
  nothing was taken away: receipts and events are only appended.
\<close>

definition receipts_keyed :: "platform \<Rightarrow> bool" where
  "receipts_keyed p \<longleftrightarrow> distinct (map rc_operation_key (mutation_receipts p))"

definition platform_extends :: "platform \<Rightarrow> platform \<Rightarrow> bool" where
  "platform_extends p p' \<longleftrightarrow>
     (\<exists>rs. mutation_receipts p' = mutation_receipts p @ rs) \<and>
     (\<exists>es. outbox p' = outbox p @ es)"

definition receipt_of :: "platform \<Rightarrow> string \<Rightarrow> uuid option" where
  "receipt_of p key = (case sql_one (\<lambda>r. rc_operation_key r = key) (mutation_receipts p) of
     Inl _ \<Rightarrow> None
   | Inr r \<Rightarrow> Some (case rc_resource_id r of None \<Rightarrow> 0 | Some i \<Rightarrow> i))"

lemma platform_extends_refl: "platform_extends p p"
  by (simp add: platform_extends_def)

lemma platform_extends_trans:
  "platform_extends p p' \<Longrightarrow> platform_extends p' p'' \<Longrightarrow> platform_extends p p''"
  by (auto simp: platform_extends_def)

lemma sql_one_append: "sql_one P (xs @ ys) = (case sql_one P xs of Inl _ \<Rightarrow> sql_one P ys | Inr r \<Rightarrow> Inr r)"
  by (induction xs) (auto split: sum.splits)

lemma claim_Inr:
  assumes "claim env key res tm p = Inr ((stored, claimed), p')"
  shows "key \<noteq> []"
    and "claimed \<Longrightarrow> receipt_of p key = None \<and> receipt_of p' key = Some res \<and>
           mutation_receipts p' = mutation_receipts p @
             [\<lparr>rc_operation_key = key, rc_resource_id = nullableUUID res, rc_created_at = tm\<rparr>]"
    and "\<not> claimed \<Longrightarrow> receipt_of p key = Some stored \<and> p' = p"
    and "outbox p' = outbox p" "outbox_seq p' = outbox_seq p"
  using assms
  by (auto simp: claim_def Let_def sql_simps receipt_of_def nullableUUID_def sql_one_append
      split: if_splits sum.splits)

lemma ReserveFor_replay:
  "ReserveFor env key res tm p = Inr (True, p') \<longleftrightarrow>
     (\<exists>st. claim env key res tm p = Inr ((res, False), p') \<and> st = res)"
  by (auto simp: ReserveFor_def go_simps split: if_splits)

lemma ReserveFor_first:
  "ReserveFor env key res tm p = Inr (False, p') \<longleftrightarrow>
     (\<exists>st. claim env key res tm p = Inr ((st, True), p'))"
  by (auto simp: ReserveFor_def go_simps split: if_splits)

lemma ReserveNew_first:
  "ReserveNew env key res tm p = Inr ((False, i), p') \<longleftrightarrow>
     i = res \<and> (\<exists>st. claim env key res tm p = Inr ((st, True), p'))"
  by (auto simp: ReserveNew_def go_simps split: if_splits)

lemma ReserveNew_replay:
  "ReserveNew env key res tm p = Inr ((True, i), p') \<longleftrightarrow>
     claim env key res tm p = Inr ((i, False), p')"
  by (auto simp: ReserveNew_def go_simps split: if_splits)

lemma claim_extends:
  "claim env key res tm p = Inr ((stored, claimed), p') \<Longrightarrow> platform_extends p p'"
  using claim_Inr [of env key res tm p stored claimed p']
  by (cases claimed) (auto simp: platform_extends_def)

lemma receipt_of_None: "receipt_of p key = None \<longleftrightarrow> key \<notin> rc_operation_key ` set (mutation_receipts p)"
  by (auto simp: receipt_of_def sql_one_NoRows split: sum.splits dest: sql_one_Inr)

lemma claim_keyed:
  "claim env key res tm p = Inr ((stored, claimed), p') \<Longrightarrow> receipts_keyed p \<Longrightarrow> receipts_keyed p'"
  using claim_Inr [of env key res tm p stored claimed p']
  by (cases claimed) (auto simp: receipts_keyed_def receipt_of_None)

lemma receipt_of_extends:
  "platform_extends p p' \<Longrightarrow> receipt_of p key = Some i \<Longrightarrow> receipt_of p' key = Some i"
  by (auto simp: platform_extends_def receipt_of_def sql_one_append split: sum.splits)

text \<open>A key already bound to another resource is refused; bound to this one it is a replay.\<close>

lemma ReserveFor_known:
  assumes "receipt_of p key = Some i" "key \<noteq> []" "length key \<le> 512" "\<And>q. fault env q = None"
  shows "ReserveFor env key res tm p = (if i = res then Inr (True, p) else Inl DedupKeyReuse)"
  using assms
  by (auto simp: ReserveFor_def claim_def Let_def receipt_of_def receipt_chk_def Suc_le_eq
      split: sum.splits)

lemma Write_Inr:
  assumes "Write env modul agg payload p = Inr p'"
  shows "\<exists>row. outbox p' = outbox p @ [row] \<and> ob_module row = modul \<and> ob_aggregate_id row = agg
      \<and> ob_payload row = payload \<and> ob_event_name row = EventName payload
      \<and> Lookup (EventName payload) \<noteq> None \<and> ob_id row = int (outbox_seq p) + 1
      \<and> ob_dispatched_at row = None"
    and "mutation_receipts p' = mutation_receipts p" "outbox_seq p' = Suc (outbox_seq p)"
  using assms by (auto simp: Write_def Let_def go_simps sql_simps split: option.splits if_splits)

lemma Write_extends: "Write env modul agg payload p = Inr p' \<Longrightarrow> platform_extends p p'"
  using Write_Inr [of env modul agg payload p p'] by (auto simp: platform_extends_def)

lemma Write_receipt_of: "Write env modul agg payload p = Inr p' \<Longrightarrow> receipt_of p' key = receipt_of p key"
  using Write_Inr(2) [of env modul agg payload p p'] by (simp add: receipt_of_def)

lemma Write_keyed: "Write env modul agg payload p = Inr p' \<Longrightarrow> receipts_keyed p \<Longrightarrow> receipts_keyed p'"
  using Write_Inr(2) [of env modul agg payload p p'] by (simp add: receipts_keyed_def)

lemma reserve_platform:
  "ReserveNew env key i tm p = Inr (x, p') \<Longrightarrow> platform_extends p p' \<and> (receipts_keyed p \<longrightarrow> receipts_keyed p')"
  "ReserveFor env key i tm p = Inr (y, p') \<Longrightarrow> platform_extends p p' \<and> (receipts_keyed p \<longrightarrow> receipts_keyed p')"
  by (auto simp: ReserveNew_def ReserveFor_def go_simps split: if_splits
      dest: claim_extends claim_keyed)

lemma Write_platform:
  "Write env m a pl p = Inr p' \<Longrightarrow> platform_extends p p' \<and> (receipts_keyed p \<longrightarrow> receipts_keyed p')"
  by (auto dest: Write_extends Write_keyed)

end
