(* ===== verification/CoreTheorems.thy ===== *)
theory CoreTheorems
  imports Money OrderStatus Platform
begin

text \<open>
  The theorems about the shared packages: exact money, and the transition table of orders seen as
  a state machine.
\<close>

section \<open>Money\<close>

text \<open>
  C40: \<open>Multiply\<close> is exact up to one rounding: for every plain decimal its answer is the integer
  nearest to quantity times price, the one farther from zero when two are equally near, and it
  fails exactly when the quantity is no plain decimal or that integer does not fit 64 bits.
\<close>

theorem Multiply_nearest:
  "case Multiply s price of
     Inl e \<Rightarrow> e = MoneyNotRepresentable \<and> (\<not> IsNonNegativeDecimal s \<or>
       (case Rat_SetString s of None \<Rightarrow> False | Some q \<Rightarrow> \<not> is_int64 (round_away (q * of_int price))))
   | Inr m \<Rightarrow> IsNonNegativeDecimal s \<and> is_int64 m \<and> (case Rat_SetString s of None \<Rightarrow> False | Some q \<Rightarrow>
       \<bar>of_int m - q * of_int price\<bar> \<le> 1 / 2 \<and>
       (\<bar>of_int m - q * of_int price\<bar> < 1 / 2 \<or> \<bar>q * of_int price\<bar> < \<bar>of_int m\<bar>))"
proof (cases "IsNonNegativeDecimal s")
  case True
  then obtain q where q: "Rat_SetString s = Some q" using Rat_SetString_nonneg by blast
  let ?m = "round_away (q * of_int price)"
  have n: "\<bar>of_int ?m - q * of_int price\<bar> \<le> 1 / 2" by (rule round_away_nearest)
  have "\<bar>of_int ?m - q * of_int price\<bar> < 1 / 2 \<or> \<bar>q * of_int price\<bar> < \<bar>of_int ?m\<bar>"
    using n round_away_tie [of "q * of_int price"] by linarith
  with n show ?thesis by (simp add: Multiply_eq [OF True q] q True)
next
  case False
  then show ?thesis by (simp add: Multiply_invalid)
qed

theorem Multiply_nearest_witness: "Multiply ''2.5'' 3 = Inr 8 \<and> is_int64 8 \<and> IsNonNegativeDecimal ''2.5''"
proof -
  have m: "Multiply ''2.5'' 3 = Inr 8" by code_simp
  show ?thesis using Multiply_nearest [of "''2.5''" 3] unfolding m by simp
qed

text \<open>
  The two decimal validators agree with the number a string denotes: a string is a non-negative
  decimal exactly when it is digits with at most one dot between digits, every such string
  denotes a number that is not negative, and it is a positive decimal exactly when that number
  is positive.
\<close>

theorem decimal_validators:
  "IsNonNegativeDecimal s = (\<exists>w f. decimal_shape s w f) \<and>
   IsPositiveDecimal s = (IsNonNegativeDecimal s \<and>
     (case Rat_SetString s of None \<Rightarrow> False | Some q \<Rightarrow> 0 < q))"
  by (rule conjI, rule IsNonNegativeDecimal_shape) (auto simp: IsPositiveDecimal_iff split: option.splits)

text \<open>
  A share of an amount in basis points is at least nothing and at most the amount, for every
  rate of the schema, and computing it never overflows.
\<close>

theorem basis_points_bounded:
  assumes "0 \<le> amount" "amount < 2 ^ 63" "0 \<le> bps" "bps \<le> 10000"
  shows "\<exists>c. ApplyBasisPoints amount bps = Inr c \<and> 0 \<le> c \<and> c \<le> amount"
  by (rule ApplyBasisPoints_bounds [OF assms])

theorem basis_points_bounded_witness:
  "\<exists>c. ApplyBasisPoints (2 ^ 63 - 1) 10000 = Inr c \<and> 0 \<le> c \<and> c \<le> 2 ^ 63 - 1"
  by (rule basis_points_bounded) simp_all

section \<open>The order lifecycle\<close>

text \<open>
  The six statuses the code lists as terminal are exactly those no trigger leaves, and every
  other status is left by some trigger.
\<close>

theorem terminal_statuses: "terminal s = (\<forall>t. settled t s = None)"
  by (rule terminal_iff)

text \<open>
  C36: Every life of an order ends: along any sequence of settled triggers their number is at most
  nine and two for every receipt the seller rejects, so that only rejected receipts can keep an
  order going.
\<close>

theorem lifecycle_terminates:
  assumes "lifecycle StatusCreated ts s"
  shows "length ts + remaining s \<le> 9 + 2 * count_list ts TriggerRejectPayment"
  using lifecycle_bound [OF assms] by simp

theorem lifecycle_terminates_witness:
  "length [TriggerSupplierConfirm, TriggerSubmitReceipt, TriggerRejectPayment] + remaining StatusAwaitingPayment \<le> 11"
proof -
  have "lifecycle StatusCreated ((([] @ [TriggerSupplierConfirm]) @ [TriggerSubmitReceipt]) @ [TriggerRejectPayment])
      StatusAwaitingPayment"
    by (rule lifecycle.move [OF lifecycle.move [OF lifecycle.move [OF lifecycle.stay]]])
       (simp_all add: settled_cases)
  from lifecycle_terminates [OF this] show ?thesis by simp
qed

end
