(* ===== verification/Dispatcher.thy ===== *)
theory Dispatcher
  imports Platform
begin

text \<open>
  The relay of the outbox to its consumer (\<open>internal/platform/messaging/outbox/dispatcher.go\<close>):
  one pass claims a batch of events, sends it, marks what was delivered and schedules what
  failed. The consumer is a parameter \<open>send\<close> with a state of its own, so that it may answer
  differently every time. \<open>Delivery\<close> proves what several dispatchers do to the table together.
\<close>

section \<open>Configuration\<close>

text \<open>Durations in nanoseconds. The polling interval and the metrics are left out.\<close>

record DispatcherConfig =
  BatchSize :: int
  ClaimTTL :: int
  MaxAttempts :: int
  RetryBase :: int
  Retention :: int
  ReceiptRetention :: int
  CleanupBatch :: int

definition second :: int where "second = 10 ^ 9"
definition hour :: int where "hour = 3600 * second"

definition NewDispatcher :: "DispatcherConfig \<Rightarrow> DispatcherConfig" where
  "NewDispatcher cfg = cfg\<lparr>
     MaxAttempts := (if MaxAttempts cfg < 1 then 1 else MaxAttempts cfg),
     RetryBase := (if RetryBase cfg \<le> 0 then second else RetryBase cfg),
     Retention := (if Retention cfg \<le> 0 then 7 * 24 * hour else Retention cfg),
     ReceiptRetention := (if ReceiptRetention cfg \<le> 0 then 48 * hour else ReceiptRetention cfg),
     CleanupBatch := (if CleanupBatch cfg \<le> 0 then 1000 else CleanupBatch cfg)\<rparr>"

section \<open>Claiming a batch\<close>

record Record =
  r_ID :: int
  r_EventID :: uuid
  r_Module :: string
  r_EventName :: Name
  r_EventVersion :: int
  r_AggregateID :: string
  r_Payload :: Payload
  r_OccurredAt :: time
  r_AttemptCount :: int

definition record_of :: "outbox_row \<Rightarrow> Record" where
  "record_of r = \<lparr>r_ID = ob_id r, r_EventID = ob_event_id r, r_Module = ob_module r,
     r_EventName = ob_event_name r, r_EventVersion = ob_event_version r,
     r_AggregateID = ob_aggregate_id r, r_Payload = ob_payload r, r_OccurredAt = ob_occurred_at r,
     r_AttemptCount = ob_attempt_count r\<rparr>"

definition undelivered :: "outbox_row \<Rightarrow> bool" where
  "undelivered r \<longleftrightarrow> ob_dispatched_at r = None \<and> ob_dead_lettered_at r = None"

definition claimable :: "time \<Rightarrow> int \<Rightarrow> outbox_row list \<Rightarrow> outbox_row \<Rightarrow> bool" where
  "claimable now ttl rows r \<longleftrightarrow> undelivered r \<and>
     (case ob_next_attempt_at r of None \<Rightarrow> True | Some tm \<Rightarrow> tm \<le> now) \<and>
     (case ob_claimed_at r of None \<Rightarrow> True | Some tm \<Rightarrow> tm < now - ttl) \<and>
     \<not> list_ex (\<lambda>prior. ob_aggregate_id prior = ob_aggregate_id r \<and> ob_id prior < ob_id r \<and>
          undelivered prior) rows"

text \<open>The order of \<open>RETURNING\<close> is not specified; the model takes the order of the table.\<close>

definition Dispatcher_claim ::
  "DispatcherConfig \<Rightarrow> 'a env_scheme \<Rightarrow> platform \<Rightarrow> (Record list \<times> platform) result" where
  "Dispatcher_claim cfg env p = stmt env ''begin'' (stmt env ''ClaimOutbox''
     (if BatchSize cfg < 0 then Inl (PgError ''2201W'')
      else
        let now = clock_Now env;
            ids = map ob_id (take (nat (BatchSize cfg))
                    (sort_key ob_id (filter (claimable now (ClaimTTL cfg) (outbox p)) (outbox p))))
        in stmt env ''commit'' (Inr
             (map record_of (filter (\<lambda>r. ob_id r \<in> set ids) (outbox p)),
              p\<lparr>outbox := map (\<lambda>r. if ob_id r \<in> set ids then r\<lparr>ob_claimed_at := Some now\<rparr> else r)
                            (outbox p)\<rparr>))))"

section \<open>Reporting\<close>

definition markDispatched :: "'a env_scheme \<Rightarrow> Record list \<Rightarrow> platform \<Rightarrow> platform result" where
  "markDispatched env batch p = stmt env ''MarkDispatched''
     (Inr (p\<lparr>outbox := map (\<lambda>r. if ob_id r \<in> r_ID ` set batch
                                then r\<lparr>ob_dispatched_at := Some (clock_Now env)\<rparr> else r) (outbox p)\<rparr>))"

text \<open>The exponent is not negative where \<open>retryDelay\<close> is called: attempts count from one.\<close>

definition retryDelay :: "DispatcherConfig \<Rightarrow> int \<Rightarrow> int" where
  "retryDelay cfg attempt =
     (let exponent = attempt - 1;
          exponent = (if 10 < exponent then 10 else exponent);
          delay = wrap64 (RetryBase cfg * 2 ^ nat exponent)
      in if hour < delay then hour else delay)"

definition Milliseconds :: "int \<Rightarrow> int" where "Milliseconds d = d sdiv 10 ^ 6"

definition recordFailure ::
  "DispatcherConfig \<Rightarrow> 'a env_scheme \<Rightarrow> Record \<Rightarrow> string \<Rightarrow> platform \<Rightarrow> platform result" where
  "recordFailure cfg env rec message p =
     (let attempts = r_AttemptCount rec + 1;
          deadLetter = (MaxAttempts cfg \<le> attempts);
          delayMillis = Milliseconds (retryDelay cfg attempts);
          now = clock_Now env
      in stmt env ''RecordFailure''
        (andThen (sql_update (\<lambda>r. 0 \<le> ob_attempt_count r) (\<lambda>r. ob_id r = r_ID rec)
           (\<lambda>r. r\<lparr>ob_attempt_count := attempts, ob_last_error := Some (take 2000 message),
                  ob_claimed_at := None,
                  ob_next_attempt_at := (if deadLetter then None else Some (now + delayMillis * 10 ^ 6)),
                  ob_dead_lettered_at := (if deadLetter then Some now else None)\<rparr>) (outbox p))
          (\<lambda>(_, rows). Inr (p\<lparr>outbox := rows\<rparr>))))"

fun recordBatchFailure ::
  "DispatcherConfig \<Rightarrow> 'a env_scheme \<Rightarrow> Record list \<Rightarrow> string \<Rightarrow> platform \<Rightarrow> go_error list \<times> platform" where
  "recordBatchFailure cfg env [] message p = ([], p)"
| "recordBatchFailure cfg env (r # rs) message p =
     (case recordFailure cfg env r message p of
        Inl e \<Rightarrow> apfst (Cons e) (recordBatchFailure cfg env rs message p)
      | Inr p1 \<Rightarrow> recordBatchFailure cfg env rs message p1)"

section \<open>The relay\<close>

text \<open>
  What the consumer answers: success, a \<open>PermanentSinkError\<close> somewhere in its chain, or another
  error; the text is the error's message.
\<close>

datatype send_outcome = SendOk | SendPermanent string | SendFailed string

text \<open>
  A batch with an event no retry can repair is halved until the event stands alone. The relay
  of an empty batch with such an error would not return; \<open>None\<close> stands for that.
\<close>

partial_function (option) relay ::
  "DispatcherConfig \<Rightarrow> 'a env_scheme \<Rightarrow> ('s \<Rightarrow> Record list \<Rightarrow> send_outcome \<times> 's) \<Rightarrow> Record list \<Rightarrow>
     's \<Rightarrow> platform \<Rightarrow> ((nat \<times> go_error list) \<times> 's \<times> platform) option" where
  "relay cfg env send batch sk p =
     (case send sk batch of (outcome, sk1) \<Rightarrow>
      (case outcome of
        SendOk \<Rightarrow>
          (case markDispatched env batch p of
             Inl e \<Rightarrow> Some ((0, [e]), sk1, p)
           | Inr p1 \<Rightarrow> Some ((length batch, []), sk1, p1))
      | SendFailed message \<Rightarrow>
          (case recordBatchFailure cfg env batch message p of (failures, p1) \<Rightarrow>
             Some ((0, OtherError message # failures), sk1, p1))
      | SendPermanent message \<Rightarrow>
          if length batch = 1
          then (case recordFailure cfg env (hd batch) message p of
                  Inl e \<Rightarrow> Some ((0, [OtherError message, e]), sk1, p)
                | Inr p1 \<Rightarrow> Some ((0, [OtherError message]), sk1, p1))
          else
            Option.bind (relay cfg env send (take (length batch div 2) batch) sk1 p)
              (\<lambda>((leftCount, leftErr), sk2, p2).
            Option.bind (relay cfg env send (drop (length batch div 2) batch) sk2 p2)
              (\<lambda>((rightCount, rightErr), sk3, p3).
            Some ((leftCount + rightCount, leftErr @ rightErr), sk3, p3)))))"

declare relay.simps [code]

section \<open>Retention\<close>

text \<open>Both deletes only log their errors.\<close>

definition cleanup :: "DispatcherConfig \<Rightarrow> 'a env_scheme \<Rightarrow> platform \<Rightarrow> platform" where
  "cleanup cfg env p =
     (let now = clock_Now env;
          p1 = (case stmt env ''CleanupOutbox'' (Inr (delete_oldest ob_dispatched_at ob_id
                  (now - Retention cfg) (CleanupBatch cfg) (outbox p))) of
                  Inl _ \<Rightarrow> p | Inr rows \<Rightarrow> p\<lparr>outbox := rows\<rparr>)
      in case stmt env ''CleanupReceipts'' (Inr (delete_oldest (\<lambda>r. Some (rc_created_at r)) rc_operation_key
                  (now - ReceiptRetention cfg) (CleanupBatch cfg) (mutation_receipts p1))) of
           Inl _ \<Rightarrow> p1 | Inr rows \<Rightarrow> p1\<lparr>mutation_receipts := rows\<rparr>)"

section \<open>One pass\<close>

definition Dispatcher_RunOnce ::
  "DispatcherConfig \<Rightarrow> 'a env_scheme \<Rightarrow> ('s \<Rightarrow> Record list \<Rightarrow> send_outcome \<times> 's) \<Rightarrow> 's \<Rightarrow> platform \<Rightarrow>
     ((nat \<times> go_error list) \<times> 's \<times> platform) option" where
  "Dispatcher_RunOnce cfg env send sk p =
     (case Dispatcher_claim cfg env p of
        Inl e \<Rightarrow> Some ((0, [e]), sk, p)
      | Inr (batch, p1) \<Rightarrow>
          if batch = [] then Some ((0, []), sk, cleanup cfg env p1)
          else Option.bind (relay cfg env send batch sk p1)
            (\<lambda>(res, sk1, p2). Some (res, sk1, cleanup cfg env p2)))"

section \<open>Laws\<close>

lemma second_pos [simp]: "0 < second" "0 < hour" "hour = 3600000000000" "second = 1000000000"
  by (simp_all add: second_def hour_def)

text \<open>The relay of a batch that holds an event returns, whatever the consumer answers.\<close>

lemma relay_returns: "batch \<noteq> [] \<Longrightarrow> \<exists>x. relay cfg env send batch sk p = Some x"
proof (induction "length batch" arbitrary: batch sk p rule: less_induct)
  case less
  let ?m = "length batch div 2"
  have halves: "length (take ?m batch) < length batch \<and> take ?m batch \<noteq> []
      \<and> length (drop ?m batch) < length batch \<and> drop ?m batch \<noteq> []" if "length batch \<noteq> 1"
    using that less.prems by (cases batch; cases "tl batch") auto
  show ?case
  proof (cases "\<exists>message sk1. send sk batch = (SendPermanent message, sk1) \<and> length batch \<noteq> 1")
    case True
    then obtain message sk1 where s: "send sk batch = (SendPermanent message, sk1)" "length batch \<noteq> 1" by blast
    from less.hyps [of "take ?m batch" sk1 p] halves s(2)
    obtain n1 e1 sk2 p2 where l: "relay cfg env send (take ?m batch) sk1 p = Some ((n1, e1), sk2, p2)"
      by (metis prod.collapse)
    from less.hyps [of "drop ?m batch" sk2 p2] halves s(2)
    obtain n2 e2 sk3 p3 where r: "relay cfg env send (drop ?m batch) sk2 p2 = Some ((n2, e2), sk3, p3)"
      by (metis prod.collapse)
    show ?thesis by (subst relay.simps) (use s l r in simp)
  next
    case False
    then show ?thesis
      by (subst relay.simps) (auto split: prod.splits send_outcome.splits sum.splits)
  qed
qed

lemma Dispatcher_returns: "Dispatcher_RunOnce cfg env send sk p \<noteq> None"
proof (cases "Dispatcher_claim cfg env p")
  case (Inl e)
  then show ?thesis by (simp add: Dispatcher_RunOnce_def)
next
  case (Inr bp)
  obtain batch p1 where bp: "bp = (batch, p1)" by force
  show ?thesis
  proof (cases "batch = []")
    case False
    then obtain res sk1 p2 where "relay cfg env send batch sk p1 = Some (res, sk1, p2)"
      using relay_returns by (metis prod.collapse)
    then show ?thesis using Inr bp False by (simp add: Dispatcher_RunOnce_def)
  qed (simp add: Dispatcher_RunOnce_def Inr bp)
qed

text \<open>Without overflow the delay doubles with every attempt, up to an hour.\<close>

lemma retry_delay:
  assumes "0 < RetryBase cfg" "RetryBase cfg * 1024 < 2 ^ 63" "1 \<le> attempt"
  shows "Milliseconds (retryDelay cfg attempt)
     = min hour (RetryBase cfg * 2 ^ min (nat (attempt - 1)) 10) div 10 ^ 6"
proof -
  let ?k = "min (nat (attempt - 1)) 10"
  have k: "nat (if 10 < attempt - 1 then 10 else attempt - 1) = ?k" using assms(3) by (auto simp: min_def)
  have "(2::int) ^ ?k \<le> 2 ^ 10" by (rule power_increasing) simp_all
  then have "RetryBase cfg * 2 ^ ?k \<le> RetryBase cfg * 1024" using assms(1) by simp
  moreover have "0 < RetryBase cfg * 2 ^ ?k" using assms(1) by simp
  ultimately have "wrap64 (RetryBase cfg * 2 ^ ?k) = RetryBase cfg * 2 ^ ?k"
    using assms(2) by (intro wrap64_id) (simp add: is_int64_def)
  then have d: "retryDelay cfg attempt = min hour (RetryBase cfg * 2 ^ ?k)"
    unfolding retryDelay_def Let_def k by (simp only: min_def not_less [symmetric] if_not_P if_cancel split: if_split) auto
  have "0 < min hour (RetryBase cfg * 2 ^ ?k)" using \<open>0 < RetryBase cfg * 2 ^ ?k\<close> by simp
  then show ?thesis unfolding d Milliseconds_def by (simp add: signed_divide_int_def)
qed

end
