(* ===== verification/Delivery.thy ===== *)
theory Delivery
  imports Dispatcher
begin

text \<open>
  Several dispatchers at work on one outbox: the steps they take, interleaved in any way with the
  transactions that write events, and what holds of every run. A pass of the dispatcher is such
  a run.
\<close>

section \<open>Runs\<close>

text \<open>
  Beside the tables the state has what every worker holds from its last claim and, for the
  statements only, the trail of what the consumer acknowledged and what was given up, and the
  ids and aggregates of all events ever written.
\<close>

datatype mark = Delivered Record | GaveUp int

record 'w delivery =
  table :: platform
  leases :: "'w \<Rightarrow> Record list"
  trail :: "mark list"
  published :: "(int \<times> string) list"

inductive deliver :: "DispatcherConfig \<Rightarrow> 'w delivery \<Rightarrow> 'w delivery \<Rightarrow> bool"
  for cfg :: DispatcherConfig where
  publish: "Write (env :: env) modul agg payload (table s) = Inr p \<Longrightarrow>
     deliver cfg s (s\<lparr>table := p, published := published s @ [(int (outbox_seq (table s)) + 1, agg)]\<rparr>)"
| claim: "Dispatcher_claim cfg (env :: env) (table s) = Inr (batch, p) \<Longrightarrow>
     deliver cfg s (s\<lparr>table := p, leases := (leases s)(w := batch)\<rparr>)"
| acknowledge: "set batch \<subseteq> set (leases s w) \<Longrightarrow> deliver cfg s (s\<lparr>trail := trail s @ map Delivered batch\<rparr>)"
| mark: "\<forall>r \<in> set batch. Delivered r \<in> set (trail s) \<Longrightarrow>
     markDispatched (env :: env) batch (table s) = Inr p \<Longrightarrow> deliver cfg s (s\<lparr>table := p\<rparr>)"
| fail: "rec \<in> set (leases s w) \<Longrightarrow> recordFailure cfg (env :: env) rec message (table s) = Inr p \<Longrightarrow>
     deliver cfg s (s\<lparr>table := p,
       trail := trail s @ (if MaxAttempts cfg \<le> r_AttemptCount rec + 1 then [GaveUp (r_ID rec)] else [])\<rparr>)"
| clean: "deliver cfg s (s\<lparr>table := cleanup cfg (env :: env) (table s)\<rparr>)"

definition delivered :: "mark list \<Rightarrow> Record list" where
  "delivered tr = concat (map (\<lambda>m. case m of Delivered r \<Rightarrow> [r] | GaveUp _ \<Rightarrow> []) tr)"

definition settled_mark :: "mark list \<Rightarrow> int \<Rightarrow> bool" where
  "settled_mark tr i \<longleftrightarrow> (\<exists>r. Delivered r \<in> set tr \<and> r_ID r = i) \<or> GaveUp i \<in> set tr"

text \<open>Nothing of an aggregate is delivered before what was written earlier is settled.\<close>

definition in_order :: "(int \<times> string) list \<Rightarrow> mark list \<Rightarrow> bool" where
  "in_order pub tr \<longleftrightarrow> (\<forall>pre r post. tr = pre @ Delivered r # post \<longrightarrow>
     (\<forall>i. (i, r_AggregateID r) \<in> set pub \<and> i < r_ID r \<longrightarrow> settled_mark pre i))"

section \<open>The statements, row by row\<close>

text \<open>No statement but the deletes takes a row away, and none changes what an event is.\<close>

definition row_core :: "outbox_row \<Rightarrow> int \<times> string" where
  "row_core r = (ob_id r, ob_aggregate_id r)"

lemma row_core_simps [simp]:
  "row_core (r\<lparr>ob_claimed_at := x\<rparr>) = row_core r"
  "row_core (r\<lparr>ob_dispatched_at := x\<rparr>) = row_core r"
  "row_core (r\<lparr>ob_attempt_count := a, ob_last_error := b, ob_claimed_at := c,
     ob_next_attempt_at := d, ob_dead_lettered_at := e\<rparr>) = row_core r"
  by (simp_all add: row_core_def)

lemma Write_row:
  assumes "Write env modul agg payload p = Inr p'"
  shows "\<exists>row. outbox p' = outbox p @ [row] \<and> row_core row = (int (outbox_seq p) + 1, agg) \<and>
     undelivered row \<and> outbox_seq p' = Suc (outbox_seq p)"
  using assms
  by (auto simp: Write_def Let_def sql_simps go_simps row_core_def undelivered_def split: option.splits if_splits)

lemma claim_batch:
  assumes "Dispatcher_claim cfg env p = Inr (batch, p')"
  obtains ids where "ids \<subseteq> ob_id ` set (filter (claimable (clock_Now env) (ClaimTTL cfg) (outbox p)) (outbox p))"
    and "batch = map record_of (filter (\<lambda>r. ob_id r \<in> ids) (outbox p))"
    and "outbox p' = map (\<lambda>r. if ob_id r \<in> ids then r\<lparr>ob_claimed_at := Some (clock_Now env)\<rparr> else r) (outbox p)"
    and "outbox_seq p' = outbox_seq p"
proof -
  let ?ids = "set (map ob_id (take (nat (BatchSize cfg))
     (sort_key ob_id (filter (claimable (clock_Now env) (ClaimTTL cfg) (outbox p)) (outbox p)))))"
  have "batch = map record_of (filter (\<lambda>r. ob_id r \<in> ?ids) (outbox p)) \<and>
     p' = p\<lparr>outbox := map (\<lambda>r. if ob_id r \<in> ?ids then r\<lparr>ob_claimed_at := Some (clock_Now env)\<rparr> else r) (outbox p)\<rparr>"
    using assms unfolding Dispatcher_claim_def Let_def stmt_eq_Inr if_eq_Inr sum.inject prod.inject by blast
  moreover have "?ids \<subseteq> ob_id ` set (filter (claimable (clock_Now env) (ClaimTTL cfg) (outbox p)) (outbox p))"
    by (metis image_mono list.set_map set_sort set_take_subset)
  ultimately show thesis using that [of ?ids] by simp
qed

lemma mark_rows:
  assumes "markDispatched env batch p = Inr p'"
  shows "outbox p' = map (\<lambda>r. if ob_id r \<in> r_ID ` set batch
       then r\<lparr>ob_dispatched_at := Some (clock_Now env)\<rparr> else r) (outbox p)" "outbox_seq p' = outbox_seq p"
  using assms by (auto simp: markDispatched_def sql_simps)

lemma failure_rows:
  assumes "recordFailure cfg env rec message p = Inr p'"
  shows "outbox p' = map (\<lambda>r. if ob_id r = r_ID rec
       then r\<lparr>ob_attempt_count := r_AttemptCount rec + 1, ob_last_error := Some (take 2000 message),
          ob_claimed_at := None,
          ob_next_attempt_at := (if MaxAttempts cfg \<le> r_AttemptCount rec + 1 then None
             else Some (clock_Now env + Milliseconds (retryDelay cfg (r_AttemptCount rec + 1)) * 10 ^ 6)),
          ob_dead_lettered_at := (if MaxAttempts cfg \<le> r_AttemptCount rec + 1 then Some (clock_Now env) else None)\<rparr>
       else r) (outbox p)" "outbox_seq p' = outbox_seq p"
  using assms by (auto simp: recordFailure_def Let_def sql_simps go_simps)

lemma cleanup_rows:
  "outbox (cleanup cfg env p) = (if fault env ''CleanupOutbox'' = None
     then delete_oldest ob_dispatched_at ob_id (clock_Now env - Retention cfg) (CleanupBatch cfg) (outbox p)
     else outbox p)"
  "outbox_seq (cleanup cfg env p) = outbox_seq p"
  by (cases "fault env ''CleanupOutbox''"; cases "fault env ''CleanupReceipts''";
      simp add: cleanup_def Let_def stmt_def)+

section \<open>The invariant\<close>

text \<open>
  Ids grow along the table; a row marked as dispatched was acknowledged, one marked as given up
  was given up; every event ever written has its row or was acknowledged; and what a worker
  holds has nothing unsettled before it.
\<close>

definition rows_ok :: "mark list \<Rightarrow> platform \<Rightarrow> bool" where
  "rows_ok tr p \<longleftrightarrow> distinct (map ob_id (outbox p)) \<and>
     (\<forall>r \<in> set (outbox p). ob_id r \<le> int (outbox_seq p) \<and>
        (ob_dispatched_at r \<noteq> None \<longrightarrow> ob_id r \<in> r_ID ` set (delivered tr)) \<and>
        (ob_dead_lettered_at r \<noteq> None \<longrightarrow> GaveUp (ob_id r) \<in> set tr))"

definition published_ok :: "(int \<times> string) list \<Rightarrow> mark list \<Rightarrow> platform \<Rightarrow> bool" where
  "published_ok pub tr p \<longleftrightarrow> (\<forall>e \<in> set pub. fst e \<le> int (outbox_seq p) \<and>
     (e \<in> row_core ` set (outbox p) \<or> fst e \<in> r_ID ` set (delivered tr)))"

definition unblocked :: "(int \<times> string) list \<Rightarrow> mark list \<Rightarrow> Record \<Rightarrow> bool" where
  "unblocked pub tr r \<longleftrightarrow> (\<forall>i. (i, r_AggregateID r) \<in> set pub \<and> i < r_ID r \<longrightarrow> settled_mark tr i)"

definition delivery_inv :: "'w delivery \<Rightarrow> bool" where
  "delivery_inv s \<longleftrightarrow>
     rows_ok (trail s) (table s) \<and> published_ok (published s) (trail s) (table s) \<and>
     (\<forall>w. \<forall>r \<in> set (leases s w). r_ID r \<le> int (outbox_seq (table s)) \<and> unblocked (published s) (trail s) r) \<and>
     (\<forall>r \<in> set (delivered (trail s)). r_ID r \<le> int (outbox_seq (table s))) \<and>
     in_order (published s) (trail s)"

lemma delivered_simps [simp]:
  "delivered [] = []"
  "delivered (tr @ tr') = delivered tr @ delivered tr'"
  "delivered (map Delivered batch) = batch"
  "delivered [GaveUp i] = []"
  "r \<in> set (delivered tr) \<longleftrightarrow> Delivered r \<in> set tr"
  by (auto simp: delivered_def comp_def split: mark.splits)

lemma settled_mark_iff: "settled_mark tr i \<longleftrightarrow> i \<in> r_ID ` set (delivered tr) \<or> GaveUp i \<in> set tr"
  by (auto simp: settled_mark_def image_iff)

lemma settled_mark_mono: "settled_mark tr i \<Longrightarrow> settled_mark (tr @ tr') i"
  by (auto simp: settled_mark_def)

lemma in_order_Nil: "in_order pub []"
  by (simp add: in_order_def)

lemma in_order_GaveUp: "in_order pub tr \<Longrightarrow> in_order pub (tr @ [GaveUp i])"
  by (auto simp: in_order_def append_eq_append_conv2 Cons_eq_append_conv append_eq_Cons_conv)

lemma in_order_Delivered:
  assumes "in_order pub tr" "unblocked pub tr r"
  shows "in_order pub (tr @ [Delivered r])"
  unfolding in_order_def
proof (intro allI impI)
  fix pre r' post i
  assume e: "tr @ [Delivered r] = pre @ Delivered r' # post"
    and i: "(i, r_AggregateID r') \<in> set pub \<and> i < r_ID r'"
  show "settled_mark pre i"
  proof (cases post rule: rev_cases)
    case Nil
    then show ?thesis using e i assms(2) by (simp add: unblocked_def)
  next
    case (snoc post' m)
    then have "tr = pre @ Delivered r' # post'" using e by simp
    then show ?thesis using i assms(1) by (auto simp: in_order_def)
  qed
qed

lemma unblocked_mono: "unblocked pub tr r \<Longrightarrow> unblocked pub (tr @ tr') r"
  by (auto simp: unblocked_def settled_mark_mono)

lemma in_order_acknowledge:
  assumes "in_order pub tr" "\<forall>r \<in> set batch. unblocked pub tr r"
  shows "in_order pub (tr @ map Delivered batch)"
  using assms(2)
proof (induction batch rule: rev_induct)
  case (snoc r batch)
  have "in_order pub ((tr @ map Delivered batch) @ [Delivered r])"
    by (rule in_order_Delivered) (use snoc unblocked_mono in auto)
  then show ?case by simp
qed (simp add: assms(1))

text \<open>A new event comes after everything that was ever claimed.\<close>

lemma unblocked_publish: "unblocked pub tr r \<Longrightarrow> r_ID r < i \<Longrightarrow> unblocked (pub @ [(i, a)]) tr r"
  by (auto simp: unblocked_def)

lemma in_order_publish:
  assumes "in_order pub tr" "\<forall>r \<in> set (delivered tr). r_ID r < i"
  shows "in_order (pub @ [(i, a)]) tr"
  unfolding in_order_def
proof (intro allI impI)
  fix pre r post j
  assume e: "tr = pre @ Delivered r # post" and j: "(j, r_AggregateID r) \<in> set (pub @ [(i, a)]) \<and> j < r_ID r"
  from e assms(2) have "r_ID r < i" by simp
  with j have "(j, r_AggregateID r) \<in> set pub" by auto
  with j e assms(1) show "settled_mark pre j" by (simp add: in_order_def)
qed

section \<open>Every step keeps it\<close>

lemma rows_ok_map:
  assumes "rows_ok tr p" "outbox p' = map f (outbox p)" "outbox_seq p' = outbox_seq p"
    and "\<And>r. ob_id (f r) = ob_id r"
    and "\<And>r. ob_dispatched_at (f r) \<noteq> None \<Longrightarrow> ob_dispatched_at r \<noteq> None \<or> ob_id r \<in> r_ID ` set (delivered tr')"
    and "\<And>r. ob_dead_lettered_at (f r) \<noteq> None \<Longrightarrow> ob_dead_lettered_at r \<noteq> None \<or> GaveUp (ob_id r) \<in> set tr'"
    and "set tr \<subseteq> set tr'"
  shows "rows_ok tr' p'"
proof -
  have d: "r_ID ` set (delivered tr) \<subseteq> r_ID ` set (delivered tr')" using assms(7) by auto
  have m: "map ob_id (map f (outbox p)) = map ob_id (outbox p)" by (simp add: assms(4))
  have all: "ob_id (f r) \<le> int (outbox_seq p') \<and>
      (ob_dispatched_at (f r) \<noteq> None \<longrightarrow> ob_id (f r) \<in> r_ID ` set (delivered tr')) \<and>
      (ob_dead_lettered_at (f r) \<noteq> None \<longrightarrow> GaveUp (ob_id (f r)) \<in> set tr')" if "r \<in> set (outbox p)" for r
  proof -
    have h: "ob_id r \<le> int (outbox_seq p)" "ob_dispatched_at r \<noteq> None \<Longrightarrow> ob_id r \<in> r_ID ` set (delivered tr)"
      "ob_dead_lettered_at r \<noteq> None \<Longrightarrow> GaveUp (ob_id r) \<in> set tr"
      using assms(1) that unfolding rows_ok_def by blast+
    show ?thesis unfolding assms(3,4) using h d assms(5,6) [of r] assms(7) by blast
  qed
  show ?thesis
    unfolding rows_ok_def assms(2) set_map m
  proof (intro conjI ballI)
    show "distinct (map ob_id (outbox p))" using assms(1) by (simp add: rows_ok_def)
  qed (use all in \<open>auto simp del: not_None_eq\<close>)
qed

lemma published_ok_map:
  assumes "published_ok pub tr p" "outbox p' = map f (outbox p)" "outbox_seq p' = outbox_seq p"
    and "\<And>r. row_core (f r) = row_core r" "set tr \<subseteq> set tr'"
  shows "published_ok pub tr' p'"
proof -
  have "row_core ` set (outbox p') = row_core ` set (outbox p)" by (simp add: assms(2,4) image_image)
  moreover have "r_ID ` set (delivered tr) \<subseteq> r_ID ` set (delivered tr')" using assms(5) by auto
  ultimately show ?thesis using assms(1) unfolding published_ok_def assms(3) by (metis subsetD)
qed

lemma publish_keeps:
  assumes "delivery_inv s" "Write env modul agg payload (table s) = Inr p"
  shows "delivery_inv (s\<lparr>table := p, published := published s @ [(int (outbox_seq (table s)) + 1, agg)]\<rparr>)"
proof -
  from Write_row [OF assms(2)] obtain row where o: "outbox p = outbox (table s) @ [row]"
    "row_core row = (int (outbox_seq (table s)) + 1, agg)" "undelivered row" "outbox_seq p = Suc (outbox_seq (table s))"
    by blast
  then have i: "ob_id row = int (outbox_seq (table s)) + 1" "ob_dispatched_at row = None" "ob_dead_lettered_at row = None"
    by (simp_all add: row_core_def undelivered_def)
  have inv: "rows_ok (trail s) (table s)" "published_ok (published s) (trail s) (table s)"
    "\<And>w r. r \<in> set (leases s w) \<Longrightarrow> r_ID r \<le> int (outbox_seq (table s)) \<and> unblocked (published s) (trail s) r"
    "\<And>r. r \<in> set (delivered (trail s)) \<Longrightarrow> r_ID r \<le> int (outbox_seq (table s))"
    "in_order (published s) (trail s)"
    using assms(1) unfolding delivery_inv_def by blast+
  have "\<forall>r \<in> set (outbox (table s)). ob_id r \<noteq> ob_id row" using inv(1) i(1) unfolding rows_ok_def by fastforce
  then have "rows_ok (trail s) p"
    using inv(1) i unfolding rows_ok_def o(1,4) by (simp add: image_iff) (metis add_increasing zero_le_one)
  moreover have "published_ok (published s @ [(int (outbox_seq (table s)) + 1, agg)]) (trail s) p"
    unfolding published_ok_def
  proof (intro ballI)
    fix e assume "e \<in> set (published s @ [(int (outbox_seq (table s)) + 1, agg)])"
    then consider "e \<in> set (published s)" | "e = row_core row" using o(2) by auto
    then show "fst e \<le> int (outbox_seq p) \<and>
        (e \<in> row_core ` set (outbox p) \<or> fst e \<in> r_ID ` set (delivered (trail s)))"
    proof cases
      case 1
      then show ?thesis using inv(2) unfolding published_ok_def o(1,4) by fastforce
    next
      case 2
      then show ?thesis by (simp add: o(1,4) i(1) row_core_def)
    qed
  qed
  moreover have "in_order (published s @ [(int (outbox_seq (table s)) + 1, agg)]) (trail s)"
    using inv(4) by (intro in_order_publish inv(5) ballI) fastforce
  moreover have "r_ID r \<le> int (outbox_seq p) \<and>
      unblocked (published s @ [(int (outbox_seq (table s)) + 1, agg)]) (trail s) r" if "r \<in> set (leases s w)" for r w
    using inv(3) [OF that] o(4) unblocked_publish by fastforce
  moreover have "r_ID r \<le> int (outbox_seq p)" if "r \<in> set (delivered (trail s))" for r
    using inv(4) [OF that] o(4) by simp
  ultimately show ?thesis unfolding delivery_inv_def by simp
qed

lemma claim_keeps:
  assumes "delivery_inv s" "Dispatcher_claim cfg env (table s) = Inr (batch, p)"
  shows "delivery_inv (s\<lparr>table := p, leases := (leases s)(w := batch)\<rparr>)"
proof -
  note inv = assms(1) [unfolded delivery_inv_def]
  obtain ids where c:
    "ids \<subseteq> ob_id ` set (filter (claimable (clock_Now env) (ClaimTTL cfg) (outbox (table s))) (outbox (table s)))"
    "batch = map record_of (filter (\<lambda>r. ob_id r \<in> ids) (outbox (table s)))"
    "outbox p = map (\<lambda>r. if ob_id r \<in> ids then r\<lparr>ob_claimed_at := Some (clock_Now env)\<rparr> else r) (outbox (table s))"
    "outbox_seq p = outbox_seq (table s)" by (rule claim_batch [OF assms(2)])
  have "rows_ok (trail s) p" by (rule rows_ok_map [OF conjunct1 [OF inv] c(3,4)]) (auto split: if_splits)
  moreover have "published_ok (published s) (trail s) p"
    by (rule published_ok_map [OF conjunct1 [OF conjunct2 [OF inv]] c(3,4)]) auto
  moreover have "r_ID r \<le> int (outbox_seq (table s)) \<and> unblocked (published s) (trail s) r" if "r \<in> set batch" for r
  proof -
    from that c(2) obtain row where row: "row \<in> set (outbox (table s))" "ob_id row \<in> ids" "r = record_of row" by auto
    have "claimable (clock_Now env) (ClaimTTL cfg) (outbox (table s)) row"
    proof -
      from row(2) c(1) obtain row' where row': "row' \<in> set (outbox (table s))" "ob_id row' = ob_id row"
        "claimable (clock_Now env) (ClaimTTL cfg) (outbox (table s)) row'" by auto
      moreover have "inj_on ob_id (set (outbox (table s)))" using inv by (simp add: rows_ok_def distinct_map)
      then have "row' = row" using row(1) row'(1,2) by (auto dest: inj_onD)
      ultimately show ?thesis by simp
    qed
    then have prior: "\<not> undelivered r'" if "r' \<in> set (outbox (table s))" "ob_aggregate_id r' = ob_aggregate_id row"
      "ob_id r' < ob_id row" for r' using that by (auto simp: claimable_def list_ex_iff)
    have "settled_mark (trail s) i" if "(i, ob_aggregate_id row) \<in> set (published s)" "i < ob_id row" for i
    proof -
      from inv that(1) consider "(i, ob_aggregate_id row) \<in> row_core ` set (outbox (table s))"
        | "i \<in> r_ID ` set (delivered (trail s))" unfolding published_ok_def by fastforce
      then show ?thesis
      proof cases
        case 1
        then obtain r' where r': "r' \<in> set (outbox (table s))" "ob_id r' = i" "ob_aggregate_id r' = ob_aggregate_id row"
          by (auto simp: row_core_def)
        then have "\<not> undelivered r'" using prior that(2) by simp
        then show ?thesis using inv r' unfolding settled_mark_iff undelivered_def rows_ok_def by blast
      next
        case 2
        then show ?thesis unfolding settled_mark_iff by blast
      qed
    qed
    then have "unblocked (published s) (trail s) r" by (simp add: unblocked_def row(3) record_of_def)
    moreover have "r_ID r \<le> int (outbox_seq (table s))"
      using inv row(1,3) by (simp add: rows_ok_def record_of_def)
    ultimately show ?thesis by simp
  qed
  ultimately show ?thesis using inv unfolding delivery_inv_def by (simp add: c(4))
qed

lemma acknowledge_keeps:
  assumes "delivery_inv s" "set batch \<subseteq> set (leases s w)"
  shows "delivery_inv (s\<lparr>trail := trail s @ map Delivered batch\<rparr>)"
proof -
  note inv = assms(1) [unfolded delivery_inv_def]
  have "rows_ok (trail s @ map Delivered batch) (table s)"
    by (rule rows_ok_map [OF conjunct1 [OF inv], where f = id]) auto
  moreover have "published_ok (published s) (trail s @ map Delivered batch) (table s)"
    by (rule published_ok_map [OF conjunct1 [OF conjunct2 [OF inv]], where f = id]) auto
  moreover have "in_order (published s) (trail s @ map Delivered batch)"
    by (rule in_order_acknowledge) (use inv assms(2) in blast)+
  moreover have "r_ID r \<le> int (outbox_seq (table s))" if "r \<in> set (delivered (trail s @ map Delivered batch))" for r
    using that inv assms(2) by fastforce
  ultimately show ?thesis using inv unblocked_mono unfolding delivery_inv_def by simp
qed

lemma mark_keeps:
  assumes "delivery_inv s" "\<forall>r \<in> set batch. Delivered r \<in> set (trail s)"
    "markDispatched env batch (table s) = Inr p"
  shows "delivery_inv (s\<lparr>table := p\<rparr>)"
proof -
  note inv = assms(1) [unfolded delivery_inv_def] and m = mark_rows [OF assms(3)]
  have "rows_ok (trail s) p"
    by (rule rows_ok_map [OF conjunct1 [OF inv] m]) (use assms(2) in \<open>auto split: if_splits\<close>)
  moreover have "published_ok (published s) (trail s) p"
    by (rule published_ok_map [OF conjunct1 [OF conjunct2 [OF inv]] m]) auto
  ultimately show ?thesis using inv unfolding delivery_inv_def by (simp add: m(2))
qed

lemma fail_keeps:
  assumes "delivery_inv s" "recordFailure cfg env rec message (table s) = Inr p"
    "tr = (if MaxAttempts cfg \<le> r_AttemptCount rec + 1 then [GaveUp (r_ID rec)] else [])"
  shows "delivery_inv (s\<lparr>table := p, trail := trail s @ tr\<rparr>)"
proof -
  note inv = assms(1) [unfolded delivery_inv_def] and m = failure_rows [OF assms(2)]
  have "rows_ok (trail s @ tr) p"
    by (rule rows_ok_map [OF conjunct1 [OF inv] m]) (auto simp: assms(3) split: if_splits)
  moreover have "published_ok (published s) (trail s @ tr) p"
    by (rule published_ok_map [OF conjunct1 [OF conjunct2 [OF inv]] m]) auto
  moreover have "in_order (published s) (trail s @ tr)" using inv in_order_GaveUp by (auto simp: assms(3))
  moreover have "delivered (trail s @ tr) = delivered (trail s)" by (simp add: assms(3))
  ultimately show ?thesis using inv unblocked_mono unfolding delivery_inv_def by (simp add: m(2))
qed

lemma clean_keeps:
  assumes "delivery_inv s"
  shows "delivery_inv (s\<lparr>table := cleanup cfg env (table s)\<rparr>)"
proof -
  note inv = assms(1) [unfolded delivery_inv_def]
  let ?rows = "outbox (cleanup cfg env (table s))"
  have sub: "set ?rows \<subseteq> set (outbox (table s))"
    unfolding cleanup_rows by (simp add: delete_oldest_subset)
  have d: "distinct (map ob_id (outbox (table s)))" using inv by (simp add: rows_ok_def)
  have spared: "r \<in> set ?rows" if "r \<in> set (outbox (table s))" "ob_dispatched_at r = None" for r
    unfolding cleanup_rows using that d by (simp add: delete_oldest_spared)
  have "rows_ok (trail s) (cleanup cfg env (table s))"
    using inv sub distinct_delete_oldest [OF d] unfolding rows_ok_def by (auto simp: cleanup_rows)
  moreover have "published_ok (published s) (trail s) (cleanup cfg env (table s))"
    unfolding published_ok_def cleanup_rows(2)
  proof (intro ballI conjI)
    fix e assume e: "e \<in> set (published s)"
    then show "fst e \<le> int (outbox_seq (table s))" using inv by (simp add: published_ok_def)
    from e inv consider r where "r \<in> set (outbox (table s))" "e = row_core r" | "fst e \<in> r_ID ` set (delivered (trail s))"
      unfolding published_ok_def by blast
    then show "e \<in> row_core ` set ?rows \<or> fst e \<in> r_ID ` set (delivered (trail s))"
    proof cases
      case 1
      show ?thesis
      proof (cases "ob_dispatched_at r = None")
        case True
        then show ?thesis using spared 1 by blast
      next
        case False
        then show ?thesis using inv 1 by (simp add: rows_ok_def row_core_def)
      qed
    qed simp
  qed
  ultimately show ?thesis using inv unfolding delivery_inv_def by (simp add: cleanup_rows(2))
qed

lemma deliver_keeps: "deliver cfg s s' \<Longrightarrow> delivery_inv s \<Longrightarrow> delivery_inv s'"
proof (induction rule: deliver.induct)
  case (fail rec s w env message p)
  then show ?case by (blast intro: fail_keeps)
qed (blast intro: publish_keeps claim_keeps acknowledge_keeps mark_keeps clean_keeps)+

lemma run_keeps: "(deliver cfg)\<^sup>*\<^sup>* s s' \<Longrightarrow> delivery_inv s \<Longrightarrow> delivery_inv s'"
  by (induction rule: rtranclp_induct) (auto intro: deliver_keeps)

text \<open>A run starts with an empty outbox.\<close>

definition start :: "platform \<Rightarrow> 'w delivery" where
  "start p = \<lparr>table = p, leases = (\<lambda>_. []), trail = [], published = []\<rparr>"

lemma start_inv: "outbox p = [] \<Longrightarrow> delivery_inv (start p)"
  by (simp add: start_def delivery_inv_def rows_ok_def published_ok_def in_order_Nil)

section \<open>A pass is a run\<close>

text \<open>The consumer, with the list of what it acknowledged.\<close>

fun recording :: "('s \<Rightarrow> Record list \<Rightarrow> send_outcome \<times> 's) \<Rightarrow> 's \<times> Record list \<Rightarrow> Record list \<Rightarrow>
    send_outcome \<times> ('s \<times> Record list)" where
  "recording send (sk, acked) batch =
     (case send sk batch of (outcome, sk') \<Rightarrow> (outcome, (sk', if outcome = SendOk then acked @ batch else acked)))"

text \<open>What a worker that holds \<open>held\<close> does to the state on its own.\<close>

definition works :: "DispatcherConfig \<Rightarrow> 'w delivery \<Rightarrow> platform \<Rightarrow> Record list \<Rightarrow> bool" where
  "works cfg s p acked \<longleftrightarrow> (\<exists>s'. (deliver cfg)\<^sup>*\<^sup>* s s' \<and> table s' = p \<and> delivered (trail s') = acked \<and>
     leases s' = leases s \<and> published s' = published s)"

lemma works_refl: "works cfg s (table s) (delivered (trail s))"
  by (auto simp: works_def)

lemma works_step:
  assumes "deliver cfg s s1" "leases s1 = leases s" "published s1 = published s"
  shows "works cfg s (table s1) (delivered (trail s1))"
  using assms by (auto simp: works_def)

lemma works_trans:
  assumes "works cfg s p acked"
    and "\<And>s'. table s' = p \<Longrightarrow> delivered (trail s') = acked \<Longrightarrow> leases s' = leases s \<Longrightarrow> works cfg s' p' acked'"
  shows "works cfg s p' acked'"
proof -
  from assms(1) obtain s1 where s1: "(deliver cfg)\<^sup>*\<^sup>* s s1" "table s1 = p" "delivered (trail s1) = acked"
    "leases s1 = leases s" "published s1 = published s" unfolding works_def by blast
  from assms(2) [OF s1(2-4)] obtain s2 where s2: "(deliver cfg)\<^sup>*\<^sup>* s1 s2" "table s2 = p'" "delivered (trail s2) = acked'"
    "leases s2 = leases s1" "published s2 = published s1" unfolding works_def by blast
  then show ?thesis unfolding works_def using s1 rtranclp_trans [OF s1(1) s2(1)] by auto
qed

lemma works_fail:
  assumes "rec \<in> set (leases s w)" "recordFailure cfg (env :: env) rec message (table s) = Inr p"
  shows "works cfg s p (delivered (trail s))"
proof -
  have "works cfg s p (delivered (trail s @
      (if MaxAttempts cfg \<le> r_AttemptCount rec + 1 then [GaveUp (r_ID rec)] else [])))"
    using works_step [OF deliver.fail [OF assms]] by simp
  then show ?thesis by (simp split: if_splits)
qed

lemma works_failures:
  fixes s :: "'a delivery"
  shows "set rs \<subseteq> set (leases s w) \<Longrightarrow>
     works cfg s (snd (recordBatchFailure cfg (env :: env) rs message (table s))) (delivered (trail s))"
proof (induction rs arbitrary: s)
  case Nil
  show ?case using works_refl by simp
next
  case (Cons r rs)
  show ?case
  proof (cases "recordFailure cfg env r message (table s)")
    case (Inl e)
    then show ?thesis using Cons by simp
  next
    case (Inr p1)
    have "works cfg s p1 (delivered (trail s))" by (rule works_fail [where w = w, OF _ Inr]) (use Cons.prems in simp)
    then have "works cfg s (snd (recordBatchFailure cfg env rs message p1)) (delivered (trail s))"
    proof (rule works_trans)
      fix s' :: "'a delivery"
      assume "table s' = p1" "delivered (trail s') = delivered (trail s)" "leases s' = leases s"
      then show "works cfg s' (snd (recordBatchFailure cfg env rs message p1)) (delivered (trail s))"
        using Cons.IH [of s'] Cons.prems by simp
    qed
    then show ?thesis by (simp add: Inr)
  qed
qed

lemma works_sent:
  fixes s :: "'w delivery"
  assumes "set batch \<subseteq> set (leases s w)" "markDispatched (env :: env) batch (table s) = Inr p"
  shows "works cfg s p (delivered (trail s) @ batch)"
proof -
  have "works cfg s (table s) (delivered (trail s) @ batch)"
    using works_step [OF acknowledge [OF assms(1)]] by simp
  then show ?thesis
  proof (rule works_trans)
    fix s' :: "'w delivery"
    assume s': "table s' = table s" "delivered (trail s') = delivered (trail s) @ batch"
    have "\<forall>r \<in> set batch. r \<in> set (delivered (trail s'))" by (simp only: s'(2)) simp
    then have "\<forall>r \<in> set batch. Delivered r \<in> set (trail s')" by simp
    then show "works cfg s' p (delivered (trail s) @ batch)"
      using works_step [OF deliver.mark [of batch s' env p cfg]] assms(2) s' by simp
  qed
qed

lemma works_acknowledged:
  assumes "set batch \<subseteq> set (leases s w)"
  shows "works cfg s (table s) (delivered (trail s) @ batch)"
  using works_step [OF acknowledge [OF assms]] by simp

lemma relay_works:
  fixes s :: "'w delivery"
  assumes "relay cfg (env :: env) (recording send) batch (sk, delivered (trail s)) (table s) = Some (res, (sk', acked'), p')"
    and "batch \<noteq> []" "set batch \<subseteq> set (leases s w)"
  shows "works cfg s p' acked'"
  using assms
proof (induction "length batch" arbitrary: batch s sk res sk' acked' p' rule: less_induct)
  case less
  let ?m = "length batch div 2"
  obtain outcome sk1 where o: "send sk batch = (outcome, sk1)" by force
  note run = less.prems(1) [unfolded relay.simps [of cfg env "recording send" batch] recording.simps o prod.case]
  show ?case
  proof (cases outcome)
    case SendOk
    show ?thesis
    proof (cases "markDispatched env batch (table s)")
      case (Inl e)
      then show ?thesis using run SendOk works_acknowledged [OF less.prems(3)] by auto
    next
      case (Inr p1)
      then show ?thesis using run SendOk works_sent [OF less.prems(3) Inr] by auto
    qed
  next
    case (SendFailed message)
    then show ?thesis using run works_failures [OF less.prems(3), of cfg env message] by (auto split: prod.splits)
  next
    case (SendPermanent message)
    show ?thesis
    proof (cases "length batch = 1")
      case True
      then have h: "hd batch \<in> set (leases s w)" using less.prems(2,3) by (meson hd_in_set subsetD)
      show ?thesis
      proof (cases "recordFailure cfg env (hd batch) message (table s)")
        case (Inl e)
        then show ?thesis using run SendPermanent True works_refl by auto
      next
        case (Inr p1)
        then show ?thesis using run SendPermanent True works_fail [OF h Inr] by auto
      qed
    next
      case False
      have len: "length (take ?m batch) < length batch" "take ?m batch \<noteq> []"
        "length (drop ?m batch) < length batch" "drop ?m batch \<noteq> []"
        using False less.prems(2) by (cases batch; cases "tl batch"; auto)+
      have sub: "set (take ?m batch) \<subseteq> set (leases s w)" "set (drop ?m batch) \<subseteq> set (leases s w)"
        using less.prems(3) set_take_subset set_drop_subset by (metis order_trans)+
      from run SendPermanent False obtain res1 sk2 acked2 p2 res2
        where l: "relay cfg env (recording send) (take ?m batch) (sk1, delivered (trail s)) (table s)
            = Some (res1, (sk2, acked2), p2)"
          and r: "relay cfg env (recording send) (drop ?m batch) (sk2, acked2) p2 = Some (res2, (sk', acked'), p')"
        by (auto simp: bind_eq_Some_conv)
      show ?thesis
      proof (rule works_trans [OF less.hyps [OF len(1) l len(2) sub(1)]])
        fix s' :: "'w delivery"
        assume s': "table s' = p2" "delivered (trail s') = acked2" "leases s' = leases s"
        show "works cfg s' p' acked'"
          by (rule less.hyps [OF len(3) _ len(4)]) (use r s' sub(2) in simp_all)
      qed
    qed
  qed
qed

text \<open>A pass of the worker \<open>w\<close>: only its own lease changes.\<close>

lemma pass_runs:
  assumes "Dispatcher_RunOnce cfg (env :: env) (recording send) (sk, delivered (trail s)) (table s)
      = Some (res, (sk', acked'), p')"
  shows "\<exists>s'. (deliver cfg)\<^sup>*\<^sup>* s s' \<and> table s' = p' \<and> delivered (trail s') = acked' \<and> published s' = published s \<and>
     (\<forall>w'. w' \<noteq> w \<longrightarrow> leases s' w' = leases s w')"
proof (cases "Dispatcher_claim cfg env (table s)")
  case (Inl e)
  then show ?thesis using assms by (auto simp: Dispatcher_RunOnce_def)
next
  case (Inr bp)
  obtain batch p1 where bp: "bp = (batch, p1)" by force
  let ?s1 = "s\<lparr>table := p1, leases := (leases s)(w := batch)\<rparr>"
  have c: "deliver cfg s ?s1" by (rule deliver.claim) (use Inr bp in simp)
  have "works cfg ?s1 p' acked'"
  proof (cases "batch = []")
    case True
    then have "p' = cleanup cfg env p1" "acked' = delivered (trail s)"
      using assms Inr bp by (auto simp: Dispatcher_RunOnce_def)
    then show ?thesis using works_step [OF deliver.clean [of cfg ?s1 env]] by simp
  next
    case False
    then obtain p2 where r: "relay cfg env (recording send) batch (sk, delivered (trail s)) p1 = Some (res, (sk', acked'), p2)"
      and p': "p' = cleanup cfg env p2"
      using assms Inr bp by (auto simp: Dispatcher_RunOnce_def bind_eq_Some_conv)
    have "works cfg ?s1 p2 acked'" by (rule relay_works [where w = w, OF _ False]) (use r in simp_all)
    then show ?thesis
      by (rule works_trans) (use works_step [OF deliver.clean] in \<open>fastforce simp: p'\<close>)
  qed
  then obtain s' where "(deliver cfg)\<^sup>*\<^sup>* ?s1 s'" "table s' = p'" "delivered (trail s') = acked'"
    "leases s' = leases ?s1" "published s' = published ?s1" unfolding works_def by blast
  moreover from this(1) c have "(deliver cfg)\<^sup>*\<^sup>* s s'" by (rule converse_rtranclp_into_rtranclp [rotated])
  ultimately show ?thesis by (intro exI [of _ s']) simp
qed

section \<open>Draining a backlog\<close>

text \<open>Everything undelivered may be claimed from \<open>t0\<close> on, as soon as nothing older waits before it.\<close>

definition due :: "time \<Rightarrow> int \<Rightarrow> outbox_row list \<Rightarrow> bool" where
  "due t0 ttl rows \<longleftrightarrow> (\<forall>r \<in> set rows. undelivered r \<longrightarrow>
     (case ob_next_attempt_at r of None \<Rightarrow> True | Some tm \<Rightarrow> tm \<le> t0) \<and>
     (case ob_claimed_at r of None \<Rightarrow> True | Some tm \<Rightarrow> tm < t0 - ttl))"

fun passes ::
  "DispatcherConfig \<Rightarrow> ('s \<Rightarrow> Record list \<Rightarrow> send_outcome \<times> 's) \<Rightarrow> env list \<Rightarrow> 's \<Rightarrow> platform \<Rightarrow> ('s \<times> platform) option" where
  "passes cfg send [] sk p = Some (sk, p)"
| "passes cfg send (env # envs) sk p =
     Option.bind (Dispatcher_RunOnce cfg env send sk p) (\<lambda>(_, sk1, p1). passes cfg send envs sk1 p1)"

lemma due_undelivered: "due t0 ttl rows \<Longrightarrow> set (filter undelivered rows') \<subseteq> set rows \<Longrightarrow> due t0 ttl rows'"
  by (auto simp: due_def)

lemma oldest_claimable:
  assumes "due t0 ttl rows" "t0 \<le> now" "filter undelivered rows \<noteq> []"
  shows "filter (claimable now ttl rows) rows \<noteq> []"
proof -
  let ?ids = "ob_id ` set (filter undelivered rows)"
  have "?ids \<noteq> {}" using assms(3) by (metis image_is_empty set_empty)
  then have "Min ?ids \<in> ?ids" by (intro Min_in) simp_all
  then obtain r where r: "r \<in> set rows" "undelivered r" "ob_id r = Min ?ids" by auto
  have "\<not> ob_id r' < ob_id r" if "r' \<in> set rows" "undelivered r'" for r'
    using that by (simp add: r(3) not_less)
  then have "claimable now ttl rows r"
    using assms(1,2) r(1,2) by (fastforce simp: claimable_def due_def list_ex_iff split: option.splits)
  then show ?thesis using r(1) by (auto simp: filter_empty_conv)
qed

lemma cleanup_undelivered:
  assumes "distinct (map ob_id (outbox p))"
  shows "filter undelivered (outbox (cleanup cfg env p)) = filter undelivered (outbox p)"
    and "distinct (map ob_id (outbox (cleanup cfg env p)))"
proof -
  have "filter undelivered (delete_oldest ob_dispatched_at ob_id c l (outbox p)) = filter undelivered (outbox p)" for c l
  proof -
    obtain K where K: "delete_oldest ob_dispatched_at ob_id c l (outbox p) = filter K (outbox p)"
      by (simp add: delete_oldest_def Let_def)
    have "K r" if "r \<in> set (outbox p)" "undelivered r" for r
      using delete_oldest_spared [of r "outbox p" ob_dispatched_at ob_id] that assms K
      by (metis (no_types, lifting) mem_Collect_eq set_filter undelivered_def)
    then show ?thesis unfolding K filter_filter by (auto intro: filter_cong)
  qed
  then show "filter undelivered (outbox (cleanup cfg env p)) = filter undelivered (outbox p)"
    by (simp add: cleanup_rows)
  show "distinct (map ob_id (outbox (cleanup cfg env p)))"
    unfolding cleanup_rows using assms distinct_delete_oldest [OF assms] by simp
qed

text \<open>A pass with a consumer that accepts takes what it claims off the backlog and leaves the rest.\<close>

lemma pass_drains:
  assumes "distinct (map ob_id (outbox p))" "due t0 (ClaimTTL cfg) (outbox p)" "t0 \<le> clock_Now env"
    and "fault env = (\<lambda>_. None)" "1 \<le> BatchSize cfg" "\<And>sk batch. fst (send sk batch) = SendOk"
  shows "\<exists>res sk' p'. Dispatcher_RunOnce cfg env send sk p = Some (res, sk', p') \<and>
     distinct (map ob_id (outbox p')) \<and> due t0 (ClaimTTL cfg) (outbox p') \<and>
     length (filter undelivered (outbox p')) \<le> length (filter undelivered (outbox p)) - 1"
proof -
  define ids where "ids = set (map ob_id (take (nat (BatchSize cfg))
     (sort_key ob_id (filter (claimable (clock_Now env) (ClaimTTL cfg) (outbox p)) (outbox p)))))"
  define batch where "batch = map record_of (filter (\<lambda>r. ob_id r \<in> ids) (outbox p))"
  let ?claim = "\<lambda>r. if ob_id r \<in> ids then r\<lparr>ob_claimed_at := Some (clock_Now env)\<rparr> else r"
  let ?mark = "\<lambda>r. if ob_id r \<in> ids then r\<lparr>ob_claimed_at := Some (clock_Now env),
     ob_dispatched_at := Some (clock_Now env)\<rparr> else r"
  let ?p1 = "p\<lparr>outbox := map ?claim (outbox p)\<rparr>" and ?p2 = "p\<lparr>outbox := map ?mark (outbox p)\<rparr>"
  have c: "Dispatcher_claim cfg env p = Inr (batch, ?p1)"
    using assms(4,5) by (simp add: Dispatcher_claim_def Let_def ids_def batch_def)
  have ids: "i \<in> ids \<Longrightarrow> \<exists>r. r \<in> set (outbox p) \<and> undelivered r \<and> ob_id r = i" for i
    by (auto simp: ids_def claimable_def dest!: in_set_takeD)
  have some: "filter undelivered (outbox p) = [] \<or> ids \<noteq> {}"
  proof -
    have "filter (claimable (clock_Now env) (ClaimTTL cfg) (outbox p)) (outbox p) = []" if "ids = {}"
      using that assms(5) unfolding ids_def by (simp flip: length_0_conv)
    then show ?thesis using oldest_claimable [OF assms(2,3)] by blast
  qed
  have batch: "batch = [] \<longleftrightarrow> ids = {}" using ids by (fastforce simp: batch_def filter_empty_conv)
  have batch_ids: "r_ID ` set batch = ids"
    using ids unfolding batch_def by (force simp: record_of_def image_image)
  show ?thesis
  proof (cases "ids = {}")
    case True
    then have "Dispatcher_RunOnce cfg env send sk p = Some ((0, []), sk, cleanup cfg env p)"
      unfolding Dispatcher_RunOnce_def c sum.case prod.case batch by simp
    moreover have "due t0 (ClaimTTL cfg) (outbox (cleanup cfg env p))"
      by (rule due_undelivered [OF assms(2)])
        (use some True in \<open>simp only: cleanup_undelivered(1) [OF assms(1)] simp_thms list.set, simp\<close>)
    ultimately show ?thesis
      using cleanup_undelivered [OF assms(1), of cfg env] some True by simp
  next
    case False
    have m: "markDispatched env batch ?p1 = Inr ?p2"
      using assms(4) by (simp add: markDispatched_def comp_def batch_ids)
    obtain sk1 where sk1: "send sk batch = (SendOk, sk1)" using assms(6) by (metis prod.collapse)
    have run: "Dispatcher_RunOnce cfg env send sk p = Some ((length batch, []), sk1, cleanup cfg env ?p2)"
      unfolding Dispatcher_RunOnce_def c sum.case prod.case relay.simps [of cfg env send batch] sk1 m
      using False batch by simp
    have "map ob_id (map ?mark (outbox p)) = map ob_id (outbox p)" by simp
    moreover have "outbox ?p2 = map ?mark (outbox p)" by simp
    ultimately have d: "distinct (map ob_id (outbox ?p2))" using assms(1) by metis
    have "filter undelivered (map ?mark rows) = filter (\<lambda>r. ob_id r \<notin> ids) (filter undelivered rows)" for rows
      by (induction rows) (simp_all add: undelivered_def)
    then have u: "filter undelivered (outbox ?p2) = filter (\<lambda>r. ob_id r \<notin> ids) (filter undelivered (outbox p))"
      by simp
    from False ids obtain r where "r \<in> set (filter undelivered (outbox p))" "ob_id r \<in> ids" by fastforce
    then have "length (filter undelivered (outbox ?p2)) < length (filter undelivered (outbox p))"
      unfolding u by (intro length_filter_less) auto
    moreover have "due t0 (ClaimTTL cfg) (outbox (cleanup cfg env ?p2))"
    proof (rule due_undelivered [OF assms(2)])
      show "set (filter undelivered (outbox (cleanup cfg env ?p2))) \<subseteq> set (outbox p)"
        unfolding cleanup_undelivered(1) [OF d] u by auto
    qed
    ultimately show ?thesis using run cleanup_undelivered [OF d, of cfg env] by auto
  qed
qed

lemma passes_drain:
  assumes "\<And>env. env \<in> set envs \<Longrightarrow> t0 \<le> clock_Now env \<and> fault env = (\<lambda>_. None)" "1 \<le> BatchSize cfg"
    and "\<And>sk batch. fst (send sk batch) = SendOk"
    and "distinct (map ob_id (outbox p))" "due t0 (ClaimTTL cfg) (outbox p)"
  shows "\<exists>sk' p'. passes cfg send envs sk p = Some (sk', p') \<and>
     length (filter undelivered (outbox p')) \<le> length (filter undelivered (outbox p)) - length envs"
  using assms(1,4,5)
proof (induction envs arbitrary: sk p)
  case (Cons env envs)
  have "t0 \<le> clock_Now env" "fault env = (\<lambda>_. None)" using Cons.prems(1) by simp_all
  then obtain res sk1 p1 where
    s: "Dispatcher_RunOnce cfg env send sk p = Some (res, sk1, p1)" "distinct (map ob_id (outbox p1))"
      "due t0 (ClaimTTL cfg) (outbox p1)"
      "length (filter undelivered (outbox p1)) \<le> length (filter undelivered (outbox p)) - 1"
    using pass_drains [OF Cons.prems(2,3) _ _ assms(2), where env = env and sk = sk and send = send] assms(3) by blast
  have "\<And>env. env \<in> set envs \<Longrightarrow> t0 \<le> clock_Now env \<and> fault env = (\<lambda>_. None)" using Cons.prems(1) by simp
  from Cons.IH [OF this s(2,3), where sk = sk1] obtain sk' p' where
    "passes cfg send envs sk1 p1 = Some (sk', p')"
    "length (filter undelivered (outbox p')) \<le> length (filter undelivered (outbox p1)) - length envs"
    by blast
  then show ?case using s(1,4) by auto
qed simp

end
