(* ===== verification/Location.thy ===== *)
theory Location
  imports Platform
begin

text \<open>
  The part of \<open>internal/modules/location\<close> the order path rests on: the sale gate
  (\<open>saleport.go\<close>) and the ownership guard (\<open>guard.go\<close>) over the stores and owners. Only the
  columns these queries read are in the rows.
\<close>

section \<open>State\<close>

record owner_row =
  ow_id :: uuid
  ow_user_id :: uuid
  ow_tin :: string
  ow_legal_name :: string
  ow_bank_account :: "string option"
  ow_mfo :: "string option"
  ow_status :: string

record store_row =
  st_id :: uuid
  st_owner_id :: uuid
  st_name :: string
  st_phone :: "string option"
  st_status :: string

record location =
  owners :: "owner_row list"
  stores :: "store_row list"
  districts :: "int list"

record ldb = pdb +
  loc :: location

definition ownerActive :: string where "ownerActive = ''active''"
definition storeActive :: string where "storeActive = ''active''"

section \<open>The sale gate\<close>

text \<open>The join of a store with its owner.\<close>

definition GetStoreSaleState :: "'a env_scheme \<Rightarrow> uuid \<Rightarrow> location \<Rightarrow> (store_row \<times> owner_row) result" where
  "GetStoreSaleState env storeID lc = stmt env ''GetStoreSaleState''
     (andThen (sql_one (\<lambda>s. st_id s = storeID) (stores lc)) (\<lambda>s.
      andThen (sql_one (\<lambda>w. ow_id w = st_owner_id s) (owners lc)) (\<lambda>w. Inr (s, w))))"

record Seller =
  sl_StoreID :: string
  sl_StoreName :: string
  sl_OwnerID :: string
  sl_TIN :: string
  sl_LegalName :: string
  sl_BankAccount :: string
  sl_MFO :: string
  sl_Phone :: string

definition no_seller :: Seller where
  "no_seller = \<lparr>sl_StoreID = [], sl_StoreName = [], sl_OwnerID = [], sl_TIN = [],
     sl_LegalName = [], sl_BankAccount = [], sl_MFO = [], sl_Phone = []\<rparr>"

text \<open>
  The seller is returned together with \<open>StoreUnavailable\<close> or \<open>OwnerBlocked\<close>, which one caller
  (the commission) deliberately tolerates.
\<close>

definition ResolveSellerForOrder ::
  "'a env_scheme \<Rightarrow> string \<Rightarrow> location \<Rightarrow> Seller \<times> go_error option" where
  "ResolveSellerForOrder env storeID lc =
     (case uuid_Parse env storeID of
        None \<Rightarrow> (no_seller, Some StoreUnavailable)
      | Some i \<Rightarrow>
        (case GetStoreSaleState env i lc of
           Inl e \<Rightarrow> (no_seller, Some (if e = NoRows then StoreUnavailable else e))
         | Inr (s, w) \<Rightarrow>
           let seller = \<lparr>sl_StoreID = uuid_String env (st_id s), sl_StoreName = st_name s,
                 sl_OwnerID = uuid_String env (ow_id w), sl_TIN = TrimSpace (ow_tin w),
                 sl_LegalName = ow_legal_name w,
                 sl_BankAccount = TrimSpace (deref (ow_bank_account w)),
                 sl_MFO = TrimSpace (deref (ow_mfo w)), sl_Phone = TrimSpace (deref (st_phone s))\<rparr>
           in if st_status s \<noteq> storeActive then (seller, Some StoreUnavailable)
              else if ow_status w \<noteq> ownerActive then (seller, Some OwnerBlocked)
              else (seller, None)))"

section \<open>The ownership guard\<close>

definition store_StoreBelongsToUser :: "'a env_scheme \<Rightarrow> uuid \<Rightarrow> uuid \<Rightarrow> location \<Rightarrow> bool result" where
  "store_StoreBelongsToUser env storeID userID lc = stmt env ''StoreBelongsToUser''
     (Inr (list_ex (\<lambda>s. st_id s = storeID \<and>
        list_ex (\<lambda>w. ow_id w = st_owner_id s \<and> ow_user_id w = userID) (owners lc)) (stores lc)))"

definition store_OwnerBelongsToUser :: "'a env_scheme \<Rightarrow> uuid \<Rightarrow> uuid \<Rightarrow> location \<Rightarrow> bool result" where
  "store_OwnerBelongsToUser env ownerID userID lc = stmt env ''OwnerBelongsToUser''
     (Inr (list_ex (\<lambda>w. ow_id w = ownerID \<and> ow_user_id w = userID) (owners lc)))"

definition GetOwnerByUser :: "'a env_scheme \<Rightarrow> uuid \<Rightarrow> location \<Rightarrow> owner_row result" where
  "GetOwnerByUser env userID lc = stmt env ''GetOwnerByUser'' (sql_one (\<lambda>w. ow_user_id w = userID) (owners lc))"

text \<open>An id that does not parse belongs to nobody, and nothing is asked of the database.\<close>

definition StoreBelongsToUser :: "'a env_scheme \<Rightarrow> string \<Rightarrow> string \<Rightarrow> location \<Rightarrow> bool result" where
  "StoreBelongsToUser env userID storeID lc =
     (case (uuid_Parse env storeID, uuid_Parse env userID) of
        (Some target, Some user) \<Rightarrow> store_StoreBelongsToUser env target user lc
      | _ \<Rightarrow> Inr False)"

definition OwnerBelongsToUser :: "'a env_scheme \<Rightarrow> string \<Rightarrow> string \<Rightarrow> location \<Rightarrow> bool result" where
  "OwnerBelongsToUser env userID ownerID lc =
     (case (uuid_Parse env ownerID, uuid_Parse env userID) of
        (Some own, Some user) \<Rightarrow> store_OwnerBelongsToUser env own user lc
      | _ \<Rightarrow> Inr False)"

definition OwnerIDForUser :: "'a env_scheme \<Rightarrow> string \<Rightarrow> location \<Rightarrow> string result" where
  "OwnerIDForUser env userID lc =
     (case uuid_Parse env userID of
        None \<Rightarrow> Inl LocationNotFound
      | Some user \<Rightarrow> andThen (mapErr (\<lambda>e. if e = NoRows then LocationNotFound else e) (GetOwnerByUser env user lc))
          (\<lambda>w. Inr (uuid_String env (ow_id w))))"

definition Guard_OwnerID :: "'a env_scheme \<Rightarrow> ctx \<Rightarrow> location \<Rightarrow> string result" where
  "Guard_OwnerID env c lc =
     andThen (Require c) (\<lambda>principal.
       mapErr (\<lambda>e. if e = LocationNotFound then AuthzForbidden else e) (OwnerIDForUser env (UserID principal) lc))"

definition EnsureOwnsStore :: "'a env_scheme \<Rightarrow> ctx \<Rightarrow> string \<Rightarrow> location \<Rightarrow> unit result" where
  "EnsureOwnsStore env c storeID lc =
     andThen (Require c) (\<lambda>principal.
       if \<not> Has principal RoleSeller then Inl AuthzForbidden
       else andThen (StoreBelongsToUser env (UserID principal) storeID lc) (\<lambda>allowed.
         if \<not> allowed then Inl AuthzForbidden else Inr ()))"

definition EnsureOwner :: "'a env_scheme \<Rightarrow> ctx \<Rightarrow> string \<Rightarrow> location \<Rightarrow> unit result" where
  "EnsureOwner env c ownerID lc =
     andThen (Require c) (\<lambda>principal.
       andThen (OwnerBelongsToUser env (UserID principal) ownerID lc) (\<lambda>allowed.
         if \<not> allowed then Inl AuthzForbidden else Inr ()))"

section \<open>Laws\<close>

lemma GetStoreSaleState_Inr [sql_simps]:
  "GetStoreSaleState env i lc = Inr (s, w) \<longleftrightarrow> fault env ''GetStoreSaleState'' = None \<and>
     sql_one (\<lambda>s. st_id s = i) (stores lc) = Inr s \<and>
     sql_one (\<lambda>w. ow_id w = st_owner_id s) (owners lc) = Inr w"
  by (auto simp: GetStoreSaleState_def go_simps stmt_eq_Inr)

lemma ResolveSellerForOrder_ok:
  assumes "ResolveSellerForOrder env storeID lc = (seller, None)"
  obtains s w where "s \<in> set (stores lc)" "w \<in> set (owners lc)" "uuid_Parse env storeID = Some (st_id s)"
    "st_owner_id s = ow_id w" "st_status s = storeActive" "ow_status w = ownerActive"
    "sl_OwnerID seller = uuid_String env (ow_id w)"
proof -
  from assms obtain i s w where i: "uuid_Parse env storeID = Some i"
    and sw: "GetStoreSaleState env i lc = Inr (s, w)"
    and ok: "st_status s = storeActive" "ow_status w = ownerActive"
      "sl_OwnerID seller = uuid_String env (ow_id w)"
    by (auto simp: ResolveSellerForOrder_def Let_def split: option.splits sum.splits if_splits)
  from sw have "s \<in> set (stores lc) \<and> st_id s = i" "w \<in> set (owners lc) \<and> ow_id w = st_owner_id s"
    by (auto simp: sql_simps dest: sql_one_Inr)
  with i ok show thesis by (intro that) auto
qed

lemma EnsureOwnsStore_Inr:
  "EnsureOwnsStore env c storeID lc = Inr () \<longleftrightarrow>
     (\<exists>p. Require c = Inr p \<and> RoleSeller \<in> set (Roles p) \<and> fault env ''StoreBelongsToUser'' = None \<and>
       (\<exists>s \<in> set (stores lc). \<exists>w \<in> set (owners lc). uuid_Parse env storeID = Some (st_id s) \<and>
          ow_id w = st_owner_id s \<and> uuid_Parse env (UserID p) = Some (ow_user_id w)))"
proof -
  have sb: "StoreBelongsToUser env u storeID lc = Inr True \<longleftrightarrow> fault env ''StoreBelongsToUser'' = None \<and>
       (\<exists>s \<in> set (stores lc). \<exists>w \<in> set (owners lc). uuid_Parse env storeID = Some (st_id s) \<and>
          ow_id w = st_owner_id s \<and> uuid_Parse env u = Some (ow_user_id w))" for u
    by (auto simp: StoreBelongsToUser_def store_StoreBelongsToUser_def sql_simps list_ex_iff split: option.splits)
  show ?thesis
    unfolding EnsureOwnsStore_def Has_def go_simps by (auto simp: sb) (metis sb)+
qed

end
