(* ===== verification/Catalog.thy ===== *)
theory Catalog
  imports Location Money "HOL-Library.Multiset" "HOL-Library.List_Lexorder" "HOL-Library.Char_ord"
begin

text \<open>
  The module \<open>internal/modules/catalog\<close>: offers with their declared and reserved stock, the
  pricing and reservation port the orders use (\<open>lineport.go\<close>), the queries of its store with
  the CHECK and UNIQUE constraints of \<open>migrations/catalog\<close>, the repository and the service.
  A quantity is a rational number: \<open>NUMERIC\<close> without NaN, which no accepted decimal scans to.
\<close>

section \<open>State\<close>

record category =
  ct_ID :: uuid
  ct_ConfirmWindowMinutes :: int
  ct_CommissionBps :: int
  ct_IsActive :: bool

record product =
  pr_ID :: uuid
  pr_CategoryID :: uuid
  pr_IsActive :: bool

record offer =
  of_ID :: uuid
  of_StoreID :: uuid
  of_ProductID :: uuid
  of_Price :: int
  of_DeclaredQty :: rat
  of_ReservedQty :: rat
  of_FreshnessAt :: time
  of_Status :: string

record delivery_tariff =
  dt_StoreID :: uuid
  dt_DistrictID :: int
  dt_Price :: int

record catalog_request =
  cr_ID :: uuid
  cr_StoreID :: uuid
  cr_Name :: string
  cr_Unit :: string
  cr_Description :: "string option"
  cr_ImageUrl :: "string option"
  cr_Status :: string
  cr_ProductID :: "uuid option"
  cr_RejectReason :: "string option"
  cr_ResolvedAt :: "time option"
  cr_CreatedAt :: time

record catalog =
  categories :: "category list"
  products :: "product list"
  offers :: "offer list"
  delivery_tariffs :: "delivery_tariff list"
  catalog_requests :: "catalog_request list"

record cdb = ldb +
  cat :: catalog

definition offerPublished :: string where "offerPublished = ''published''"
definition offerHidden :: string where "offerHidden = ''hidden''"

definition offer_chk :: "offer \<Rightarrow> bool" where
  "offer_chk r \<longleftrightarrow> 0 < of_Price r \<and> 0 \<le> of_DeclaredQty r \<and> 0 \<le> of_ReservedQty r \<and>
     of_ReservedQty r \<le> of_DeclaredQty r \<and>
     of_Status r \<in> {''published'', ''hidden'', ''archived''}"

definition offer_clash :: "offer \<Rightarrow> offer \<Rightarrow> bool" where
  "offer_clash a b \<longleftrightarrow> of_ID a = of_ID b \<or>
     of_StoreID a = of_StoreID b \<and> of_ProductID a = of_ProductID b"

definition catalog_request_chk :: "catalog_request \<Rightarrow> bool" where
  "catalog_request_chk r \<longleftrightarrow> cr_Status r \<in> {''pending'', ''added'', ''rejected''} \<and>
     (cr_Status r \<noteq> ''rejected'' \<or> cr_RejectReason r \<noteq> None) \<and>
     (cr_Status r \<noteq> ''added'' \<or> cr_ProductID r \<noteq> None)"

text \<open>The targets of foreign keys.\<close>

definition store_exists :: "uuid \<Rightarrow> location \<Rightarrow> bool" where
  "store_exists i lc = list_ex (\<lambda>s. st_id s = i) (stores lc)"

definition product_exists :: "uuid \<Rightarrow> catalog \<Rightarrow> bool" where
  "product_exists i ct = list_ex (\<lambda>p. pr_ID p = i) (products ct)"

section \<open>Queries\<close>

definition GetOfferForOrder ::
  "'a env_scheme \<Rightarrow> uuid \<Rightarrow> uuid \<Rightarrow> catalog \<Rightarrow> (offer \<times> category) result" where
  "GetOfferForOrder env storeID productID ct = stmt env ''GetOfferForOrder''
     (andThen (sql_one (\<lambda>r. of_StoreID r = storeID \<and> of_ProductID r = productID \<and>
                 of_Status r = ''published'') (offers ct)) (\<lambda>r.
      andThen (sql_one (\<lambda>p. pr_ID p = of_ProductID r \<and> pr_IsActive p) (products ct)) (\<lambda>p.
      andThen (sql_one (\<lambda>c. ct_ID c = pr_CategoryID p \<and> ct_IsActive c) (categories ct)) (\<lambda>c.
        Inr (r, c)))))"

definition ReserveOfferQuantity ::
  "'a env_scheme \<Rightarrow> rat \<Rightarrow> uuid \<Rightarrow> catalog \<Rightarrow> (offer \<times> catalog) result" where
  "ReserveOfferQuantity env qty i ct = stmt env ''ReserveOfferQuantity''
     (andThen (sql_update_one offer_chk
        (\<lambda>r. of_ID r = i \<and> of_Status r = ''published'' \<and> qty \<le> of_DeclaredQty r - of_ReservedQty r)
        (\<lambda>r. r\<lparr>of_ReservedQty := of_ReservedQty r + qty\<rparr>) (offers ct))
      (\<lambda>(r, rows). Inr (r, ct\<lparr>offers := rows\<rparr>)))"

definition ReleaseOfferQuantity ::
  "'a env_scheme \<Rightarrow> uuid \<Rightarrow> uuid \<Rightarrow> rat \<Rightarrow> catalog \<Rightarrow> (nat \<times> catalog) result" where
  "ReleaseOfferQuantity env storeID productID qty ct = stmt env ''ReleaseOfferQuantity''
     (andThen (sql_update offer_chk
        (\<lambda>r. of_StoreID r = storeID \<and> of_ProductID r = productID \<and> qty \<le> of_ReservedQty r)
        (\<lambda>r. r\<lparr>of_ReservedQty := of_ReservedQty r - qty\<rparr>) (offers ct))
      (\<lambda>(n, rows). Inr (n, ct\<lparr>offers := rows\<rparr>)))"

definition ConsumeOfferQuantity ::
  "'a env_scheme \<Rightarrow> uuid \<Rightarrow> uuid \<Rightarrow> rat \<Rightarrow> catalog \<Rightarrow> (nat \<times> catalog) result" where
  "ConsumeOfferQuantity env storeID productID qty ct = stmt env ''ConsumeOfferQuantity''
     (andThen (sql_update offer_chk
        (\<lambda>r. of_StoreID r = storeID \<and> of_ProductID r = productID \<and> qty \<le> of_ReservedQty r)
        (\<lambda>r. r\<lparr>of_DeclaredQty := of_DeclaredQty r - qty, of_ReservedQty := of_ReservedQty r - qty\<rparr>)
        (offers ct))
      (\<lambda>(n, rows). Inr (n, ct\<lparr>offers := rows\<rparr>)))"

definition GetDeliveryTariff ::
  "'a env_scheme \<Rightarrow> uuid \<Rightarrow> int \<Rightarrow> catalog \<Rightarrow> delivery_tariff result" where
  "GetDeliveryTariff env storeID districtID ct = stmt env ''GetDeliveryTariff''
     (sql_one (\<lambda>d. dt_StoreID d = storeID \<and> dt_DistrictID d = districtID) (delivery_tariffs ct))"

section \<open>Pricing and reservation\<close>

record RequestedLine =
  rl_ProductID :: string
  rl_Qty :: string

record ReserveRequest =
  rr_StoreID :: string
  rr_DistrictID :: int
  rr_Delivery :: bool
  rr_Lines :: "RequestedLine list"
  rr_At :: time

record QuotedLine =
  ql_ProductID :: string
  ql_Qty :: string
  ql_UnitPrice :: int
  ql_LineAmount :: int
  ql_CommissionBps :: int

record Quote =
  q_Lines :: "QuotedLine list"
  q_GoodsAmount :: int
  q_DeliveryFee :: int
  q_TotalAmount :: int
  q_ConfirmationDeadline :: time

record ReleaseRequest =
  rel_StoreID :: string
  rel_Lines :: "RequestedLine list"

definition no_rows_is :: "go_error \<Rightarrow> go_error \<Rightarrow> go_error" where
  "no_rows_is e' e = (if e = NoRows then e' else e)"

definition minute :: int where "minute = 60 * 10 ^ 9"

text \<open>One turn of the loop of \<open>ReserveOrderLines\<close>.\<close>

definition reserve_line ::
  "'a env_scheme \<Rightarrow> uuid \<Rightarrow> time \<Rightarrow> RequestedLine \<Rightarrow> Quote \<times> catalog \<Rightarrow> (Quote \<times> catalog) result" where
  "reserve_line env storeID tm line = (\<lambda>(quote, ct).
     case uuid_Parse env (rl_ProductID line) of None \<Rightarrow> Inl OfferUnavailable | Some productID \<Rightarrow>
     case Numeric_Scan env (rl_Qty line) of None \<Rightarrow> Inl OfferUnavailable | Some quantity \<Rightarrow>
     andThen (mapErr (no_rows_is OfferUnavailable) (GetOfferForOrder env storeID productID ct)) (\<lambda>(r, c).
     andThen (mapErr (no_rows_is OfferUnavailable) (ReserveOfferQuantity env quantity (of_ID r) ct)) (\<lambda>(_, ct').
     andThen (mapErr (\<lambda>_. OfferUnavailable) (Multiply (rl_Qty line) (of_Price r))) (\<lambda>lineAmount.
       let deadline = tm + wrap64 (ct_ConfirmWindowMinutes c * minute) in
       Inr (quote\<lparr>q_GoodsAmount := wrap64 (q_GoodsAmount quote + lineAmount),
             q_Lines := q_Lines quote @
               [\<lparr>ql_ProductID = rl_ProductID line, ql_Qty = rl_Qty line, ql_UnitPrice = of_Price r,
                 ql_LineAmount = lineAmount, ql_CommissionBps = ct_CommissionBps c\<rparr>],
             q_ConfirmationDeadline :=
               (if q_ConfirmationDeadline quote < deadline then deadline
                else q_ConfirmationDeadline quote)\<rparr>, ct')))))"

definition empty_quote :: "time \<Rightarrow> Quote" where
  "empty_quote tm = \<lparr>q_Lines = [], q_GoodsAmount = 0, q_DeliveryFee = 0, q_TotalAmount = 0,
     q_ConfirmationDeadline = tm\<rparr>"

text \<open>
  \<open>slices.SortFunc\<close> orders the lines by their product id as text. It is not stable, but an
  order with two lines of one product is refused before it comes here.
\<close>

definition ReserveOrderLines ::
  "'a env_scheme \<Rightarrow> ReserveRequest \<Rightarrow> catalog \<Rightarrow> (Quote \<times> catalog) result" where
  "ReserveOrderLines env request ct =
     (if rr_Lines request = [] then Inl OfferUnavailable
      else case uuid_Parse env (rr_StoreID request) of
        None \<Rightarrow> Inl OfferUnavailable
      | Some storeID \<Rightarrow>
        andThen (foldE (reserve_line env storeID (rr_At request))
                   (sort_key rl_ProductID (rr_Lines request)) (empty_quote (rr_At request), ct))
          (\<lambda>(quote, ct').
           andThen (if rr_Delivery request
                    then andThen (mapErr (no_rows_is TariffUnavailable)
                                    (GetDeliveryTariff env storeID (rr_DistrictID request) ct'))
                           (\<lambda>tariff. Inr (dt_Price tariff))
                    else Inr 0) (\<lambda>fee.
             Inr (quote\<lparr>q_DeliveryFee := fee, q_TotalAmount := wrap64 (q_GoodsAmount quote + fee)\<rparr>,
                  ct'))))"

text \<open>
  The loop of \<open>adjustOrderLines\<close>. The counter is the metric \<open>ObserveStockNoop\<close>: how many lines
  matched no row.
\<close>

definition adjust_line ::
  "'a env_scheme \<Rightarrow> (uuid \<Rightarrow> uuid \<Rightarrow> rat \<Rightarrow> catalog \<Rightarrow> (nat \<times> catalog) result) \<Rightarrow> uuid \<Rightarrow>
     RequestedLine \<Rightarrow> nat \<times> catalog \<Rightarrow> (nat \<times> catalog) result" where
  "adjust_line env adjust storeID line = (\<lambda>(noops, ct).
     case uuid_Parse env (rl_ProductID line) of
       None \<Rightarrow> Inl (OtherError ''catalog: malformed product id'')
     | Some productID \<Rightarrow>
     case Numeric_Scan env (rl_Qty line) of
       None \<Rightarrow> Inl (OtherError ''catalog: malformed quantity'')
     | Some quantity \<Rightarrow>
       andThen (adjust storeID productID quantity ct) (\<lambda>(rows, ct').
         Inr (if rows = 0 then Suc noops else noops, ct')))"

definition adjustOrderLines ::
  "'a env_scheme \<Rightarrow> (uuid \<Rightarrow> uuid \<Rightarrow> rat \<Rightarrow> catalog \<Rightarrow> (nat \<times> catalog) result) \<Rightarrow>
     ReleaseRequest \<Rightarrow> catalog \<Rightarrow> (nat \<times> catalog) result" where
  "adjustOrderLines env adjust request ct =
     (case uuid_Parse env (rel_StoreID request) of
        None \<Rightarrow> Inl (OtherError ''catalog: malformed store id'')
      | Some storeID \<Rightarrow> foldE (adjust_line env adjust storeID) (rel_Lines request) (0, ct))"

definition ReleaseOrderLines ::
  "'a env_scheme \<Rightarrow> ReleaseRequest \<Rightarrow> catalog \<Rightarrow> (nat \<times> catalog) result" where
  "ReleaseOrderLines env request ct = adjustOrderLines env (ReleaseOfferQuantity env) request ct"

definition ConsumeOrderLines ::
  "'a env_scheme \<Rightarrow> ReleaseRequest \<Rightarrow> catalog \<Rightarrow> (nat \<times> catalog) result" where
  "ConsumeOrderLines env request ct = adjustOrderLines env (ConsumeOfferQuantity env) request ct"

section \<open>The stock ledger\<close>

text \<open>
  \<open>catalog_inv\<close> collects the table's constraints. What is reserved of a product in a store is
  what its offer holds, and nothing where there is no offer.
\<close>

definition offer_key :: "offer \<Rightarrow> uuid \<times> uuid" where
  "offer_key r = (of_StoreID r, of_ProductID r)"

definition catalog_inv :: "catalog \<Rightarrow> bool" where
  "catalog_inv ct \<longleftrightarrow> list_all offer_chk (offers ct) \<and> distinct (map of_ID (offers ct)) \<and>
     distinct (map offer_key (offers ct)) \<and> list_all catalog_request_chk (catalog_requests ct) \<and>
     distinct (map cr_ID (catalog_requests ct))"

definition reserved_of :: "catalog \<Rightarrow> uuid \<Rightarrow> uuid \<Rightarrow> rat" where
  "reserved_of ct s p = sum_list (map of_ReservedQty (filter (\<lambda>r. offer_key r = (s, p)) (offers ct)))"

definition declared_of :: "catalog \<Rightarrow> uuid \<Rightarrow> uuid \<Rightarrow> rat" where
  "declared_of ct s p = sum_list (map of_DeclaredQty (filter (\<lambda>r. offer_key r = (s, p)) (offers ct)))"

definition line_qty :: "'a env_scheme \<Rightarrow> uuid \<Rightarrow> RequestedLine \<Rightarrow> rat" where
  "line_qty env p l = (if uuid_Parse env (rl_ProductID l) = Some p
     then (case Numeric_Scan env (rl_Qty l) of None \<Rightarrow> 0 | Some q \<Rightarrow> q) else 0)"

definition lines_qty :: "'a env_scheme \<Rightarrow> uuid \<Rightarrow> RequestedLine list \<Rightarrow> rat" where
  "lines_qty env p ls = sum_list (map (line_qty env p) ls)"

lemma filter_key_unique:
  assumes "distinct (map key xs)" "x \<in> set xs" "key x = k"
  shows "filter (\<lambda>y. key y = k) xs = [x]"
  using assms by (induction xs) (auto simp: filter_empty_conv image_iff)

lemma filter_key_none: "k \<notin> key ` set xs \<Longrightarrow> filter (\<lambda>y. key y = k) xs = []"
  by (auto simp: filter_empty_conv)

lemma offer_of:
  assumes "catalog_inv ct" "r \<in> set (offers ct)"
  shows "reserved_of ct (of_StoreID r) (of_ProductID r) = of_ReservedQty r"
    and "declared_of ct (of_StoreID r) (of_ProductID r) = of_DeclaredQty r"
  using filter_key_unique [of offer_key "offers ct" r "offer_key r"] assms
  by (simp_all add: catalog_inv_def reserved_of_def declared_of_def offer_key_def)

lemma no_offer:
  assumes "(s, p) \<notin> offer_key ` set (offers ct)"
  shows "reserved_of ct s p = 0" "declared_of ct s p = 0"
  using filter_key_none [OF assms] by (simp_all add: reserved_of_def declared_of_def)

lemma no_oversell:
  assumes "catalog_inv ct"
  shows "0 \<le> reserved_of ct s p \<and> reserved_of ct s p \<le> declared_of ct s p"
proof (cases "(s, p) \<in> offer_key ` set (offers ct)")
  case True
  then obtain r where "r \<in> set (offers ct)" "s = of_StoreID r" "p = of_ProductID r"
    by (auto simp: offer_key_def)
  moreover from this assms have "offer_chk r" by (auto simp: catalog_inv_def list_all_iff)
  ultimately show ?thesis using offer_of [OF assms] by (simp add: offer_chk_def)
qed (simp add: no_offer)

text \<open>An update that keeps every offer's key changes one offer of a key at most.\<close>

lemma filter_key_update:
  assumes "distinct (map key xs)" "r \<in> set xs" "key r = k" "\<And>x. key (f x) = key x"
  shows "filter (\<lambda>x. key x = k) (map (\<lambda>x. if P x then f x else x) xs) = [if P r then f r else r]"
proof -
  let ?h = "\<lambda>x. if P x then f x else x"
  have k: "key (?h x) = key x" for x using assms(4) by simp
  have "filter (\<lambda>x. key x = k) (map ?h xs) = map ?h (filter (\<lambda>x. key x = k) xs)"
    by (simp add: filter_map o_def k)
  also have "filter (\<lambda>x. key x = k) xs = [r]" by (rule filter_key_unique [OF assms(1-3)])
  finally show ?thesis by simp
qed

definition offers_updated ::
  "(offer \<Rightarrow> bool) \<Rightarrow> (offer \<Rightarrow> offer) \<Rightarrow> catalog \<Rightarrow> catalog" where
  "offers_updated P f ct = ct\<lparr>offers := map (\<lambda>r. if P r then f r else r) (offers ct)\<rparr>"

lemma offers_updated_inv:
  assumes "catalog_inv ct" "list_all (\<lambda>r. P r \<longrightarrow> offer_chk (f r)) (offers ct)"
    and "\<And>r. offer_key (f r) = offer_key r" "\<And>r. of_ID (f r) = of_ID r"
  shows "catalog_inv (offers_updated P f ct)"
  using assms update_chk [of offer_chk "offers ct" P f]
    map_update_key [of offer_key f P "offers ct"] map_update_key [of of_ID f P "offers ct"]
  unfolding catalog_inv_def offers_updated_def by (simp del: map_map)

lemma offers_updated_of:
  assumes "catalog_inv ct" "\<And>r. offer_key (f r) = offer_key r"
    and "r \<in> set (offers ct)" "offer_key r = (s, p)"
  shows "reserved_of (offers_updated P f ct) s p = (if P r then of_ReservedQty (f r) else of_ReservedQty r)"
    and "declared_of (offers_updated P f ct) s p = (if P r then of_DeclaredQty (f r) else of_DeclaredQty r)"
  using filter_key_update [of offer_key "offers ct" r "(s, p)" f P] assms
  by (simp_all add: catalog_inv_def offers_updated_def reserved_of_def declared_of_def del: split_paired_All)

lemma offers_updated_none:
  assumes "(s, p) \<notin> offer_key ` set (offers ct)" "\<And>r. offer_key (f r) = offer_key r"
  shows "reserved_of (offers_updated P f ct) s p = 0" "declared_of (offers_updated P f ct) s p = 0"
  using assms by (intro no_offer; auto simp: offers_updated_def)+

text \<open>
  An update of the quantities: which offers it meets and what it does to the two quantities
  decide the whole ledger.
\<close>

lemma qty_update_ledger:
  assumes inv: "catalog_inv ct"
    and key: "\<And>r. offer_key (f r) = offer_key r"
    and P: "\<And>r. r \<in> set (offers ct) \<Longrightarrow> P r \<longleftrightarrow> offer_key r = (s, p) \<and> B"
    and res: "\<And>r. of_ReservedQty (f r) = of_ReservedQty r + dr"
    and dec: "\<And>r. of_DeclaredQty (f r) = of_DeclaredQty r + dd"
    and hit: "B \<Longrightarrow> (s, p) \<in> offer_key ` set (offers ct)"
  shows "reserved_of (offers_updated P f ct) s' p' =
           reserved_of ct s' p' + (if (s', p') = (s, p) \<and> B then dr else 0)"
    and "declared_of (offers_updated P f ct) s' p' =
           declared_of ct s' p' + (if (s', p') = (s, p) \<and> B then dd else 0)"
proof -
  have "reserved_of (offers_updated P f ct) s' p' =
           reserved_of ct s' p' + (if (s', p') = (s, p) \<and> B then dr else 0)
      \<and> declared_of (offers_updated P f ct) s' p' =
           declared_of ct s' p' + (if (s', p') = (s, p) \<and> B then dd else 0)"
  proof (cases "(s', p') \<in> offer_key ` set (offers ct)")
    case True
    then obtain r where r: "r \<in> set (offers ct)" "offer_key r = (s', p')" by auto
    then have "reserved_of ct s' p' = of_ReservedQty r" "declared_of ct s' p' = of_DeclaredQty r"
      using offer_of [OF inv r(1)] by (auto simp: offer_key_def)
    with offers_updated_of [OF inv key r, of P] P [OF r(1)] r(2) show ?thesis
      by (auto simp: res dec)
  next
    case False
    then have "\<not> ((s', p') = (s, p) \<and> B)" using hit by blast
    with no_offer [OF False] offers_updated_none [OF False key, of P] show ?thesis by auto
  qed
  then show "reserved_of (offers_updated P f ct) s' p' =
           reserved_of ct s' p' + (if (s', p') = (s, p) \<and> B then dr else 0)"
    and "declared_of (offers_updated P f ct) s' p' =
           declared_of ct s' p' + (if (s', p') = (s, p) \<and> B then dd else 0)" by simp_all
qed

section \<open>The contract of a stock adjustment\<close>

text \<open>
  What \<open>adjustOrderLines\<close> may rely on: an adjustment of a positive quantity meets the one offer
  of the product when it reserves as much, takes the quantity off the reservation and
  \<open>sold\<close> times the quantity off the declared stock, and touches nothing else.
\<close>

lemma adjust_line_Inr:
  "adjust_line env adjust s l (k, ct) = Inr (n, ct') \<longleftrightarrow>
     (\<exists>p q r. uuid_Parse env (rl_ProductID l) = Some p \<and> Numeric_Scan env (rl_Qty l) = Some q \<and>
        adjust s p q ct = Inr (r, ct') \<and> (if r = 0 then Suc k else k) = n)"
  by (cases "uuid_Parse env (rl_ProductID l)"; cases "Numeric_Scan env (rl_Qty l)")
     (simp_all add: adjust_line_def andThen_eq_Inr)

definition adjusted :: "rat \<Rightarrow> uuid \<Rightarrow> uuid \<Rightarrow> rat \<Rightarrow> catalog \<Rightarrow> catalog \<Rightarrow> bool" where
  "adjusted sold s p q ct ct' \<longleftrightarrow>
     (\<forall>s' p'. reserved_of ct' s' p' = reserved_of ct s' p' - (if (s', p') = (s, p) then q else 0)
        \<and> declared_of ct' s' p' = declared_of ct s' p' - (if (s', p') = (s, p) then sold * q else 0))"

locale stock_adjust =
  fixes adjust :: "uuid \<Rightarrow> uuid \<Rightarrow> rat \<Rightarrow> catalog \<Rightarrow> (nat \<times> catalog) result"
    and sold :: rat
  assumes adjust_inv: "adjust s p q ct = Inr (n, ct') \<Longrightarrow> catalog_inv ct \<Longrightarrow> catalog_inv ct'"
    and adjust_hit: "adjust s p q ct = Inr (n, ct') \<Longrightarrow> catalog_inv ct \<Longrightarrow> 0 < q \<Longrightarrow>
          q \<le> reserved_of ct s p \<Longrightarrow> n \<noteq> 0 \<and> adjusted sold s p q ct ct'"
    and adjust_miss: "adjust s p q ct = Inr (n, ct') \<Longrightarrow> catalog_inv ct \<Longrightarrow> 0 < q \<Longrightarrow>
          reserved_of ct s p < q \<Longrightarrow> n = 0 \<and> ct' = ct"
begin

lemma adjust_lines_inv:
  assumes "foldE (adjust_line env adjust s) ls (k, ct) = Inr (n, ct')" "catalog_inv ct"
  shows "catalog_inv ct'"
proof -
  have "case (n, ct') of (n, c) \<Rightarrow> catalog_inv c"
    by (rule foldE_invariant [OF assms(1)]) (auto simp: assms(2) adjust_line_Inr dest: adjust_inv)
  then show ?thesis by simp
qed

text \<open>Lines that hold what they return: every adjustment meets its offer.\<close>

lemma adjust_lines_all:
  assumes "foldE (adjust_line env adjust s) ls (k, ct) = Inr (n, ct')" "catalog_inv ct"
    and "\<forall>l \<in> set ls. \<forall>q. Numeric_Scan env (rl_Qty l) = Some q \<longrightarrow> 0 < q"
    and "\<And>p. lines_qty env p ls \<le> reserved_of ct s p"
  shows "n = k \<and> (\<forall>s' p'. reserved_of ct' s' p' =
             reserved_of ct s' p' - (if s' = s then lines_qty env p' ls else 0)
           \<and> declared_of ct' s' p' =
             declared_of ct s' p' - (if s' = s then sold * lines_qty env p' ls else 0))"
  using assms
proof (induction ls arbitrary: k ct)
  case Nil
  then show ?case by (simp add: lines_qty_def)
next
  case (Cons l ls)
  from Cons.prems(1) obtain p q r ct1 where
    p: "uuid_Parse env (rl_ProductID l) = Some p" and q: "Numeric_Scan env (rl_Qty l) = Some q"
    and a: "adjust s p q ct = Inr (r, ct1)"
    and rest: "foldE (adjust_line env adjust s) ls (if r = 0 then Suc k else k, ct1) = Inr (n, ct')"
    by (simp only: foldE.simps andThen_eq_Inr split_paired_Ex adjust_line_Inr) blast
  have pos: "0 < q" using Cons.prems(3) q by auto
  have nonneg: "0 \<le> lines_qty env p' ls" for p'
    unfolding lines_qty_def
  proof (rule sum_list_nonneg)
    fix x assume "x \<in> set (map (line_qty env p') ls)"
    then obtain l' where "l' \<in> set ls" "x = line_qty env p' l'" by auto
    with Cons.prems(3) show "0 \<le> x"
      by (auto simp: line_qty_def less_imp_le split: option.splits)
  qed
  have split: "lines_qty env p' (l # ls) = (if p' = p then q else 0) + lines_qty env p' ls" for p'
    by (simp add: lines_qty_def line_qty_def p q)
  have "q \<le> reserved_of ct s p"
    using Cons.prems(4) [of p] nonneg [of p] by (simp add: split)
  with adjust_hit [OF a Cons.prems(2) pos]
  have r: "r \<noteq> 0" and adj: "adjusted sold s p q ct ct1" by simp_all
  have "n = k \<and> (\<forall>s' p'. reserved_of ct' s' p' =
             reserved_of ct1 s' p' - (if s' = s then lines_qty env p' ls else 0)
           \<and> declared_of ct' s' p' =
             declared_of ct1 s' p' - (if s' = s then sold * lines_qty env p' ls else 0))"
  proof (rule Cons.IH)
    show "foldE (adjust_line env adjust s) ls (k, ct1) = Inr (n, ct')" using rest r by simp
    show "catalog_inv ct1" by (rule adjust_inv [OF a Cons.prems(2)])
    show "\<forall>l \<in> set ls. \<forall>q. Numeric_Scan env (rl_Qty l) = Some q \<longrightarrow> 0 < q"
      using Cons.prems(3) by simp
    show "lines_qty env p' ls \<le> reserved_of ct1 s p'" for p'
      using Cons.prems(4) [of p'] adj by (auto simp: adjusted_def split)
  qed
  moreover from adj have
    "reserved_of ct1 s' p' = reserved_of ct s' p' - (if (s', p') = (s, p) then q else 0)"
    "declared_of ct1 s' p' = declared_of ct s' p' - (if (s', p') = (s, p) then sold * q else 0)"
    for s' p' by (simp_all add: adjusted_def)
  ultimately show ?case by (simp add: split distrib_left diff_diff_eq)
qed

end

text \<open>Both adjustments are one update of the offers that hold the quantity.\<close>

definition holds_qty :: "uuid \<Rightarrow> uuid \<Rightarrow> rat \<Rightarrow> offer \<Rightarrow> bool" where
  "holds_qty s p q r \<longleftrightarrow> of_StoreID r = s \<and> of_ProductID r = p \<and> q \<le> of_ReservedQty r"

definition take_qty :: "rat \<Rightarrow> rat \<Rightarrow> offer \<Rightarrow> offer" where
  "take_qty sold q r = r\<lparr>of_DeclaredQty := of_DeclaredQty r - sold * q,
     of_ReservedQty := of_ReservedQty r - q\<rparr>"

lemma ReleaseOfferQuantity_Inr:
  "ReleaseOfferQuantity env s p q ct = Inr (n, ct') \<longleftrightarrow> fault env ''ReleaseOfferQuantity'' = None \<and>
     list_all (\<lambda>r. holds_qty s p q r \<longrightarrow> offer_chk (take_qty 0 q r)) (offers ct) \<and>
     n = length (filter (holds_qty s p q) (offers ct)) \<and>
     ct' = offers_updated (holds_qty s p q) (take_qty 0 q) ct"
proof -
  have "take_qty 0 q r = r\<lparr>of_ReservedQty := of_ReservedQty r - q\<rparr>" for r
    by (simp add: take_qty_def)
  then show ?thesis
    by (auto simp: ReleaseOfferQuantity_def sql_simps go_simps offers_updated_def holds_qty_def [abs_def])
qed

lemma ConsumeOfferQuantity_Inr:
  "ConsumeOfferQuantity env s p q ct = Inr (n, ct') \<longleftrightarrow> fault env ''ConsumeOfferQuantity'' = None \<and>
     list_all (\<lambda>r. holds_qty s p q r \<longrightarrow> offer_chk (take_qty 1 q r)) (offers ct) \<and>
     n = length (filter (holds_qty s p q) (offers ct)) \<and>
     ct' = offers_updated (holds_qty s p q) (take_qty 1 q) ct"
  by (auto simp: ConsumeOfferQuantity_def sql_simps go_simps offers_updated_def holds_qty_def [abs_def]
      take_qty_def)

lemma take_qty_key [simp]: "offer_key (take_qty k q r) = offer_key r" "of_ID (take_qty k q r) = of_ID r"
  by (simp_all add: take_qty_def offer_key_def)

lemma holds_qty_iff:
  assumes "catalog_inv ct" "r \<in> set (offers ct)"
  shows "holds_qty s p q r \<longleftrightarrow> offer_key r = (s, p) \<and> q \<le> reserved_of ct s p"
  using offer_of [OF assms] by (auto simp: holds_qty_def offer_key_def)

lemma holds_some:
  assumes "catalog_inv ct" "0 < q" "q \<le> reserved_of ct s p"
  obtains r where "r \<in> set (offers ct)" "offer_key r = (s, p)" "holds_qty s p q r"
proof -
  have "(s, p) \<in> offer_key ` set (offers ct)" using no_offer(1) [of s p ct] assms by force
  then obtain r where "r \<in> set (offers ct)" "offer_key r = (s, p)" by auto
  with holds_qty_iff [OF assms(1), of r s p q] assms(3) show thesis by (intro that) auto
qed

lemma take_qty_hit:
  assumes "catalog_inv ct" "0 < q" "q \<le> reserved_of ct s p"
  shows "filter (holds_qty s p q) (offers ct) \<noteq> []"
    and "adjusted sold s p q ct (offers_updated (holds_qty s p q) (take_qty sold q) ct)"
proof -
  show "filter (holds_qty s p q) (offers ct) \<noteq> []"
    by (rule holds_some [OF assms]) (auto simp: filter_empty_conv)
  have key: "(s, p) \<in> offer_key ` set (offers ct)"
    by (rule holds_some [OF assms]) (metis imageI)
  have P: "holds_qty s p q r \<longleftrightarrow> offer_key r = (s, p) \<and> True" if "r \<in> set (offers ct)" for r
    using holds_qty_iff [OF assms(1) that] assms(3) by auto
  note L = qty_update_ledger [OF assms(1), where f = "take_qty sold q" and P = "holds_qty s p q"
      and B = True and dr = "- q" and dd = "- (sold * q)", OF take_qty_key(1) P]
  show "adjusted sold s p q ct (offers_updated (holds_qty s p q) (take_qty sold q) ct)"
    using L key by (simp add: adjusted_def) (simp add: take_qty_def)
qed

lemma take_qty_miss:
  assumes "catalog_inv ct" "reserved_of ct s p < q"
  shows "filter (holds_qty s p q) (offers ct) = []"
    and "offers_updated (holds_qty s p q) f ct = ct"
proof -
  have "\<not> holds_qty s p q r" if "r \<in> set (offers ct)" for r
    using holds_qty_iff [OF assms(1) that, of s p q] assms(2) by auto
  then show "filter (holds_qty s p q) (offers ct) = []" "offers_updated (holds_qty s p q) f ct = ct"
    by (simp_all add: filter_empty_conv offers_updated_def map_idI)
qed

interpretation release: stock_adjust "ReleaseOfferQuantity env" 0 for env :: "'e env_scheme"
  by unfold_locales
    (auto simp: ReleaseOfferQuantity_Inr take_qty_hit take_qty_miss intro: offers_updated_inv)

interpretation consume: stock_adjust "ConsumeOfferQuantity env" 1 for env :: "'e env_scheme"
  by unfold_locales
    (auto simp: ConsumeOfferQuantity_Inr take_qty_hit take_qty_miss intro: offers_updated_inv)

text \<open>
  A release and a consumption of lines the store's reservations cover: no line misses its offer,
  every reservation drops by exactly what the lines hold, and a consumption takes the same off
  the declared stock.
\<close>

definition positive_lines :: "'a env_scheme \<Rightarrow> RequestedLine list \<Rightarrow> bool" where
  "positive_lines env ls \<longleftrightarrow>
     list_all (\<lambda>l. case Numeric_Scan env (rl_Qty l) of None \<Rightarrow> True | Some q \<Rightarrow> 0 < q) ls"

lemma ReleaseOrderLines_exact:
  assumes "ReleaseOrderLines env request ct = Inr (n, ct')" "catalog_inv ct"
    and "uuid_Parse env (rel_StoreID request) = Some s" "positive_lines env (rel_Lines request)"
    and "\<And>p. lines_qty env p (rel_Lines request) \<le> reserved_of ct s p"
  shows "n = 0" and "catalog_inv ct'"
    and "reserved_of ct' s' p = reserved_of ct s' p - (if s' = s then lines_qty env p (rel_Lines request) else 0)"
    and "declared_of ct' s' p = declared_of ct s' p"
  using release.adjust_lines_all [of env env s "rel_Lines request" 0 ct n ct']
    release.adjust_lines_inv [of env env s "rel_Lines request" 0 ct n ct'] assms
  by (auto simp: ReleaseOrderLines_def adjustOrderLines_def positive_lines_def list_all_iff
      split: option.splits)

lemma ConsumeOrderLines_exact:
  assumes "ConsumeOrderLines env request ct = Inr (n, ct')" "catalog_inv ct"
    and "uuid_Parse env (rel_StoreID request) = Some s" "positive_lines env (rel_Lines request)"
    and "\<And>p. lines_qty env p (rel_Lines request) \<le> reserved_of ct s p"
  shows "n = 0" and "catalog_inv ct'"
    and "reserved_of ct' s' p = reserved_of ct s' p - (if s' = s then lines_qty env p (rel_Lines request) else 0)"
    and "declared_of ct' s' p = declared_of ct s' p - (if s' = s then lines_qty env p (rel_Lines request) else 0)"
  using consume.adjust_lines_all [of env env s "rel_Lines request" 0 ct n ct']
    consume.adjust_lines_inv [of env env s "rel_Lines request" 0 ct n ct'] assms
  by (auto simp: ConsumeOrderLines_def adjustOrderLines_def positive_lines_def list_all_iff
      split: option.splits)

lemma ReleaseOrderLines_inv: "ReleaseOrderLines env request ct = Inr (n, ct') \<Longrightarrow> catalog_inv ct \<Longrightarrow> catalog_inv ct'"
  by (auto simp: ReleaseOrderLines_def adjustOrderLines_def split: option.splits dest: release.adjust_lines_inv)

lemma ConsumeOrderLines_inv: "ConsumeOrderLines env request ct = Inr (n, ct') \<Longrightarrow> catalog_inv ct \<Longrightarrow> catalog_inv ct'"
  by (auto simp: ConsumeOrderLines_def adjustOrderLines_def split: option.splits dest: consume.adjust_lines_inv)

section \<open>What a reservation does\<close>

text \<open>What of an offer no stock movement changes.\<close>

definition offer_terms :: "offer \<Rightarrow> uuid \<times> (uuid \<times> uuid) \<times> int \<times> string" where
  "offer_terms r = (of_ID r, offer_key r, of_Price r, of_Status r)"

definition line_priced :: "'a env_scheme \<Rightarrow> uuid \<Rightarrow> catalog \<Rightarrow> RequestedLine \<Rightarrow> QuotedLine \<Rightarrow> bool" where
  "line_priced env s ct l ql \<longleftrightarrow> ql_ProductID ql = rl_ProductID l \<and> ql_Qty ql = rl_Qty l \<and>
     Multiply (rl_Qty l) (ql_UnitPrice ql) = Inr (ql_LineAmount ql) \<and>
     (\<exists>i p. uuid_Parse env (rl_ProductID l) = Some p \<and>
        (i, (s, p), ql_UnitPrice ql, ''published'') \<in> set (map offer_terms (offers ct)))"

lemma ReserveOfferQuantity_Inr:
  "ReserveOfferQuantity env q i ct = Inr (r', ct') \<Longrightarrow>
     \<exists>P. ct' = offers_updated P (\<lambda>r. r\<lparr>of_ReservedQty := of_ReservedQty r + q\<rparr>) ct \<and>
       list_all (\<lambda>r. P r \<longrightarrow> offer_chk (r\<lparr>of_ReservedQty := of_ReservedQty r + q\<rparr>)) (offers ct) \<and>
       (\<forall>r. P r \<longrightarrow> of_ID r = i) \<and> (\<exists>r \<in> set (offers ct). P r)"
  unfolding ReserveOfferQuantity_def offers_updated_def
  by (intro exI [of _ "\<lambda>r. of_ID r = i \<and> of_Status r = ''published'' \<and>
        q \<le> of_DeclaredQty r - of_ReservedQty r"])
     (auto simp: sql_simps go_simps dest!: filter_first)

lemma ReserveOfferQuantity_ledger:
  assumes "ReserveOfferQuantity env q i ct = Inr (r', ct')" "catalog_inv ct"
    and "r \<in> set (offers ct)" "of_ID r = i"
  shows "catalog_inv ct'" and "map offer_terms (offers ct') = map offer_terms (offers ct)"
    and "reserved_of ct' s p = reserved_of ct s p + (if (s, p) = offer_key r then q else 0)"
    and "declared_of ct' s p = declared_of ct s p"
proof -
  let ?f = "\<lambda>r. r\<lparr>of_ReservedQty := of_ReservedQty r + q\<rparr>"
  from ReserveOfferQuantity_Inr [OF assms(1)] obtain P where
    ct': "ct' = offers_updated P ?f ct" and chk: "list_all (\<lambda>r. P r \<longrightarrow> offer_chk (?f r)) (offers ct)"
    and i: "\<And>x. P x \<Longrightarrow> of_ID x = i" and some: "\<exists>r \<in> set (offers ct). P r" by blast
  have keep: "offer_key (?f x) = offer_key x" "of_ID (?f x) = of_ID x" for x
    by (simp_all add: offer_key_def)
  from some i obtain r0 where r0: "r0 \<in> set (offers ct)" "P r0" "of_ID r0 = i" by blast
  have ids: "distinct (map of_ID (offers ct))" and keys: "distinct (map offer_key (offers ct))"
    using assms(2) by (simp_all add: catalog_inv_def)
  from ids r0 assms(3,4) have "r0 = r" by (auto simp: distinct_map inj_on_def)
  with r0 have Pr: "P r" by simp
  have P: "P x \<longleftrightarrow> offer_key x = offer_key r \<and> True" if "x \<in> set (offers ct)" for x
    using that i Pr assms(3,4) ids keys by (auto simp: distinct_map inj_on_def)
  obtain s0 p0 where k: "offer_key r = (s0, p0)" by (cases "offer_key r")
  note L = qty_update_ledger [OF assms(2), where f = ?f and P = P and B = True and dr = q and dd = 0
      and s = s0 and p = p0, OF keep(1) P [unfolded k]]
  show "catalog_inv ct'" unfolding ct' by (rule offers_updated_inv [OF assms(2) chk keep])
  show "map offer_terms (offers ct') = map offer_terms (offers ct)"
    unfolding ct' offers_updated_def by (simp add: offer_terms_def offer_key_def)
  have key: "(s0, p0) \<in> offer_key ` set (offers ct)" using k assms(3) by (metis imageI)
  show "reserved_of ct' s p = reserved_of ct s p + (if (s, p) = offer_key r then q else 0)"
    "declared_of ct' s p = declared_of ct s p"
    using L key unfolding ct' k by simp_all
qed

lemma reserve_line_Inr:
  assumes "reserve_line env s tm l (qt, ct) = Inr (qt', ct')"
  obtains p q r c r' amount where "uuid_Parse env (rl_ProductID l) = Some p"
    "Numeric_Scan env (rl_Qty l) = Some q" "GetOfferForOrder env s p ct = Inr (r, c)"
    "ReserveOfferQuantity env q (of_ID r) ct = Inr (r', ct')"
    "Multiply (rl_Qty l) (of_Price r) = Inr amount"
    "q_Lines qt' = q_Lines qt @ [\<lparr>ql_ProductID = rl_ProductID l, ql_Qty = rl_Qty l,
       ql_UnitPrice = of_Price r, ql_LineAmount = amount, ql_CommissionBps = ct_CommissionBps c\<rparr>]"
    "q_GoodsAmount qt' = wrap64 (q_GoodsAmount qt + amount)"
    "q_ConfirmationDeadline qt' = max (q_ConfirmationDeadline qt)
       (tm + wrap64 (ct_ConfirmWindowMinutes c * minute))"
  using assms
  by (auto simp: reserve_line_def Let_def go_simps max_def split: option.splits)

lemma GetOfferForOrder_Inr:
  assumes "GetOfferForOrder env s p ct = Inr (r, c)"
  shows "r \<in> set (offers ct)" "offer_key r = (s, p)" "of_Status r = ''published''"
    and "c \<in> set (categories ct)" "ct_IsActive c"
  using assms by (auto simp: GetOfferForOrder_def sql_simps go_simps offer_key_def dest!: sql_one_Inr)

lemma reserve_line_ledger:
  assumes "reserve_line env s tm l (qt, ct) = Inr (qt', ct')" "catalog_inv ct"
  shows "catalog_inv ct'" and "map offer_terms (offers ct') = map offer_terms (offers ct)"
    and "reserved_of ct' s' p' = reserved_of ct s' p' + (if s' = s then line_qty env p' l else 0)"
    and "declared_of ct' s' p' = declared_of ct s' p'"
    and "\<exists>ql. line_priced env s ct l ql \<and> q_Lines qt' = q_Lines qt @ [ql] \<and>
           q_GoodsAmount qt' = wrap64 (q_GoodsAmount qt + ql_LineAmount ql)"
proof -
  from assms(1) obtain p q r c r' amount where
    p: "uuid_Parse env (rl_ProductID l) = Some p" "Numeric_Scan env (rl_Qty l) = Some q"
    and g: "GetOfferForOrder env s p ct = Inr (r, c)"
    and u: "ReserveOfferQuantity env q (of_ID r) ct = Inr (r', ct')"
    and m: "Multiply (rl_Qty l) (of_Price r) = Inr amount"
      "q_Lines qt' = q_Lines qt @ [\<lparr>ql_ProductID = rl_ProductID l, ql_Qty = rl_Qty l,
         ql_UnitPrice = of_Price r, ql_LineAmount = amount, ql_CommissionBps = ct_CommissionBps c\<rparr>]"
      "q_GoodsAmount qt' = wrap64 (q_GoodsAmount qt + amount)"
    by (rule reserve_line_Inr)
  note o = GetOfferForOrder_Inr [OF g]
  note L = ReserveOfferQuantity_ledger [OF u assms(2) o(1) refl]
  show "catalog_inv ct'" "map offer_terms (offers ct') = map offer_terms (offers ct)"
    "declared_of ct' s' p' = declared_of ct s' p'" by (rule L)+
  show "reserved_of ct' s' p' = reserved_of ct s' p' + (if s' = s then line_qty env p' l else 0)"
    using L(3) [of s' p'] o(2) p by (auto simp: line_qty_def)
  have "(of_ID r, (s, p), of_Price r, ''published'') \<in> set (map offer_terms (offers ct))"
    using o(1-3) by (auto simp: offer_terms_def image_iff intro!: bexI [of _ r])
  then show "\<exists>ql. line_priced env s ct l ql \<and> q_Lines qt' = q_Lines qt @ [ql] \<and>
           q_GoodsAmount qt' = wrap64 (q_GoodsAmount qt + ql_LineAmount ql)"
    using m p unfolding line_priced_def by (intro exI [of _ "last (q_Lines qt')"]) auto
qed

lemma line_priced_terms:
  "map offer_terms (offers ct') = map offer_terms (offers ct) \<Longrightarrow> line_priced env s ct' = line_priced env s ct"
  by (intro ext) (simp only: line_priced_def)

lemma reserve_lines_ledger:
  assumes "foldE (reserve_line env s tm) ls (qt, ct) = Inr (qt', ct')" "catalog_inv ct"
  shows "catalog_inv ct' \<and> map offer_terms (offers ct') = map offer_terms (offers ct) \<and>
     (\<forall>s' p'. reserved_of ct' s' p' = reserved_of ct s' p' + (if s' = s then lines_qty env p' ls else 0)
        \<and> declared_of ct' s' p' = declared_of ct s' p') \<and>
     (\<exists>ns. q_Lines qt' = q_Lines qt @ ns \<and> list_all2 (line_priced env s ct) ls ns \<and>
        (ns = [] \<longrightarrow> qt' = qt) \<and>
        (ns \<noteq> [] \<longrightarrow> q_GoodsAmount qt' =
             wrap64 (q_GoodsAmount qt + sum_list (map ql_LineAmount ns))))"
  using assms
proof (induction ls arbitrary: qt ct)
  case Nil
  then show ?case by (simp add: lines_qty_def)
next
  case (Cons l ls)
  from Cons.prems(1) obtain qt1 ct1 where
    l: "reserve_line env s tm l (qt, ct) = Inr (qt1, ct1)" and
    ls: "foldE (reserve_line env s tm) ls (qt1, ct1) = Inr (qt', ct')" by (auto simp: go_simps)
  note L = reserve_line_ledger [OF l Cons.prems(2)]
  from L(5) obtain ql where ql: "line_priced env s ct l ql" "q_Lines qt1 = q_Lines qt @ [ql]"
    "q_GoodsAmount qt1 = wrap64 (q_GoodsAmount qt + ql_LineAmount ql)" by blast
  from Cons.IH [OF ls L(1)] obtain ns where
    I: "catalog_inv ct'" "map offer_terms (offers ct') = map offer_terms (offers ct1)"
    and led: "\<And>s' p'. reserved_of ct' s' p' = reserved_of ct1 s' p' + (if s' = s then lines_qty env p' ls else 0)"
      "\<And>s' p'. declared_of ct' s' p' = declared_of ct1 s' p'"
    and ns: "q_Lines qt' = q_Lines qt1 @ ns" "list_all2 (line_priced env s ct1) ls ns"
      "ns = [] \<longrightarrow> qt' = qt1"
      "ns \<noteq> [] \<longrightarrow> q_GoodsAmount qt' = wrap64 (q_GoodsAmount qt1 + sum_list (map ql_LineAmount ns))"
    by blast
  have "\<exists>ns. q_Lines qt' = q_Lines qt @ ns \<and> list_all2 (line_priced env s ct) (l # ls) ns \<and>
        (ns = [] \<longrightarrow> qt' = qt) \<and>
        (ns \<noteq> [] \<longrightarrow> q_GoodsAmount qt' =
             wrap64 (q_GoodsAmount qt + sum_list (map ql_LineAmount ns)))"
    using ns ql line_priced_terms [OF L(2), of env s]
    by (intro exI [of _ "ql # ns"]) (cases "ns = []"; simp add: add.assoc)
  then show ?case using I L(2) by (auto simp: led L(3,4) lines_qty_def algebra_simps)
qed

lemma lines_qty_sort: "lines_qty env p (sort_key k ls) = lines_qty env p ls"
  unfolding lines_qty_def
  by (metis mset_map mset_sort sum_mset_sum_list)

text \<open>
  A reservation holds exactly what was asked for, of the store's published offers at their
  prices; the quote's amounts are the lines' products summed, in 64 bits.
\<close>

lemma ReserveOrderLines_ledger:
  assumes "ReserveOrderLines env request ct = Inr (qt, ct')" "catalog_inv ct"
    and "uuid_Parse env (rr_StoreID request) = Some s"
  shows "catalog_inv ct'" "map offer_terms (offers ct') = map offer_terms (offers ct)"
    and "reserved_of ct' s' p = reserved_of ct s' p + (if s' = s then lines_qty env p (rr_Lines request) else 0)"
    and "declared_of ct' s' p = declared_of ct s' p"
    and "list_all2 (line_priced env s ct) (sort_key rl_ProductID (rr_Lines request)) (q_Lines qt)"
    and "q_GoodsAmount qt = wrap64 (sum_list (map ql_LineAmount (q_Lines qt)))"
    and "q_TotalAmount qt = wrap64 (q_GoodsAmount qt + q_DeliveryFee qt)"
    and "\<not> rr_Delivery request \<Longrightarrow> q_DeliveryFee qt = 0"
proof -
  from assms obtain q0 where
    f: "foldE (reserve_line env s (rr_At request)) (sort_key rl_ProductID (rr_Lines request))
          (empty_quote (rr_At request), ct) = Inr (q0, ct')"
    and qt: "q_Lines qt = q_Lines q0" "q_GoodsAmount qt = q_GoodsAmount q0"
      "q_TotalAmount qt = wrap64 (q_GoodsAmount qt + q_DeliveryFee qt)"
      "\<not> rr_Delivery request \<Longrightarrow> q_DeliveryFee qt = 0"
    by (auto simp: ReserveOrderLines_def go_simps split: if_splits)
  from reserve_lines_ledger [OF f assms(2)] obtain ns where
    L: "catalog_inv ct'" "map offer_terms (offers ct') = map offer_terms (offers ct)"
      "\<And>s' p'. reserved_of ct' s' p' = reserved_of ct s' p' + (if s' = s then lines_qty env p' (rr_Lines request) else 0)"
      "\<And>s' p'. declared_of ct' s' p' = declared_of ct s' p'"
    and ns: "q_Lines q0 = ns" "list_all2 (line_priced env s ct) (sort_key rl_ProductID (rr_Lines request)) ns"
      "ns = [] \<Longrightarrow> q0 = empty_quote (rr_At request)"
      "ns \<noteq> [] \<Longrightarrow> q_GoodsAmount q0 = wrap64 (sum_list (map ql_LineAmount ns))"
    by (auto simp: lines_qty_sort empty_quote_def)
  show "catalog_inv ct'" "map offer_terms (offers ct') = map offer_terms (offers ct)"
    "reserved_of ct' s' p = reserved_of ct s' p + (if s' = s then lines_qty env p (rr_Lines request) else 0)"
    "declared_of ct' s' p = declared_of ct s' p" by (rule L)+
  show "list_all2 (line_priced env s ct) (sort_key rl_ProductID (rr_Lines request)) (q_Lines qt)"
    using ns qt by simp
  show "q_GoodsAmount qt = wrap64 (sum_list (map ql_LineAmount (q_Lines qt)))"
    using ns qt by (cases "ns = []") (simp_all add: empty_quote_def)
  show "q_TotalAmount qt = wrap64 (q_GoodsAmount qt + q_DeliveryFee qt)"
    "\<not> rr_Delivery request \<Longrightarrow> q_DeliveryFee qt = 0" by (rule qt, simp add: qt)
qed

end
