(* ===== verification/CatalogService.thy ===== *)
theory CatalogService
  imports Catalog
begin

text \<open>
  The seller's and the operator's side of the catalogue: the repository (\<open>repository.go\<close>: offers
  and catalogue requests, each in one transaction with its operation key and its event) and the
  service that checks who may call it and what the input is (\<open>service.go\<close>).
\<close>

section \<open>Inputs\<close>

record CatalogRequestInput =
  cq_StoreID :: string
  cq_Name :: string
  cq_Unit :: string
  cq_Description :: string
  cq_ImageURL :: string

record CatalogResolution =
  cx_ID :: string
  cx_Status :: string
  cx_ProductID :: string
  cx_RejectReason :: string

record OfferInput =
  oi_StoreID :: string
  oi_ProductID :: string
  oi_DeclaredQty :: string
  oi_Price :: int

record OfferUpdate =
  ou_ID :: string
  ou_Price :: "int option"
  ou_DeclaredQty :: "string option"
  ou_Status :: "string option"

section \<open>Queries\<close>

definition store_CreateCatalogRequest ::
  "'a env_scheme \<Rightarrow> uuid \<Rightarrow> uuid option \<Rightarrow> CatalogRequestInput \<Rightarrow> time \<Rightarrow> 'z cdb_scheme \<Rightarrow> catalog result" where
  "store_CreateCatalogRequest env i storeID input tm db = stmt env ''CreateCatalogRequest''
     (andThen (not_null storeID) (\<lambda>s.
      andThen (sql_insert catalog_request_chk (\<lambda>a b. cr_ID a = cr_ID b) (store_exists s (loc db))
        \<lparr>cr_ID = i, cr_StoreID = s, cr_Name = cq_Name input, cr_Unit = cq_Unit input,
         cr_Description = optional (cq_Description input), cr_ImageUrl = optional (cq_ImageURL input),
         cr_Status = ''pending'', cr_ProductID = None, cr_RejectReason = None, cr_ResolvedAt = None,
         cr_CreatedAt = tm\<rparr> (catalog_requests (cat db)))
      (\<lambda>rows. Inr ((cat db)\<lparr>catalog_requests := rows\<rparr>))))"

definition GetCatalogRequestForUpdate :: "'a env_scheme \<Rightarrow> uuid \<Rightarrow> catalog \<Rightarrow> catalog_request result" where
  "GetCatalogRequestForUpdate env i ct = stmt env ''GetCatalogRequestForUpdate''
     (sql_one (\<lambda>r. cr_ID r = i) (catalog_requests ct))"

text \<open>The foreign key of \<open>product_id\<close> holds for a NULL.\<close>

definition store_ResolveCatalogRequest ::
  "'a env_scheme \<Rightarrow> string \<Rightarrow> uuid option \<Rightarrow> string option \<Rightarrow> time \<Rightarrow> uuid \<Rightarrow> catalog \<Rightarrow> catalog result" where
  "store_ResolveCatalogRequest env status productID rejectReason tm i ct = stmt env ''ResolveCatalogRequest''
     (andThen (sql_update_one catalog_request_chk (\<lambda>r. cr_ID r = i \<and> cr_Status r = ''pending'')
        (\<lambda>r. r\<lparr>cr_Status := status, cr_ProductID := productID, cr_RejectReason := rejectReason,
               cr_ResolvedAt := Some tm\<rparr>) (catalog_requests ct)) (\<lambda>(_, rows).
        if case productID of None \<Rightarrow> False | Some p \<Rightarrow> \<not> product_exists p ct
        then Inl (PgError ''23503'')
        else Inr (ct\<lparr>catalog_requests := rows\<rparr>)))"

definition GetOfferForUpdate :: "'a env_scheme \<Rightarrow> uuid \<Rightarrow> catalog \<Rightarrow> offer result" where
  "GetOfferForUpdate env i ct = stmt env ''GetOfferForUpdate'' (sql_one (\<lambda>r. of_ID r = i) (offers ct))"

definition GetOfferStore :: "'a env_scheme \<Rightarrow> uuid \<Rightarrow> catalog \<Rightarrow> uuid result" where
  "GetOfferStore env i ct = stmt env ''GetOfferStore''
     (andThen (sql_one (\<lambda>r. of_ID r = i) (offers ct)) (\<lambda>r. Inr (of_StoreID r)))"

definition store_CreateOffer ::
  "'a env_scheme \<Rightarrow> uuid \<Rightarrow> uuid option \<Rightarrow> uuid option \<Rightarrow> int \<Rightarrow> rat \<Rightarrow> time \<Rightarrow> 'z cdb_scheme \<Rightarrow> catalog result" where
  "store_CreateOffer env i storeID productID price declaredQty tm db = stmt env ''CreateOffer''
     (andThen (not_null storeID) (\<lambda>s. andThen (not_null productID) (\<lambda>p.
      andThen (sql_insert offer_chk offer_clash (store_exists s (loc db) \<and> product_exists p (cat db))
        \<lparr>of_ID = i, of_StoreID = s, of_ProductID = p, of_Price = price, of_DeclaredQty = declaredQty,
         of_ReservedQty = 0, of_FreshnessAt = tm, of_Status = ''published''\<rparr> (offers (cat db)))
      (\<lambda>rows. Inr ((cat db)\<lparr>offers := rows\<rparr>)))))"

definition UpdateOfferValues ::
  "'a env_scheme \<Rightarrow> int \<Rightarrow> rat \<Rightarrow> time \<Rightarrow> uuid \<Rightarrow> catalog \<Rightarrow> catalog result" where
  "UpdateOfferValues env price declaredQty changedAt i ct = stmt env ''UpdateOfferValues''
     (andThen (sql_update_one offer_chk (\<lambda>r. of_ID r = i)
        (\<lambda>r. r\<lparr>of_Price := price, of_DeclaredQty := declaredQty,
               of_FreshnessAt := (if of_Price r \<noteq> price \<or> of_DeclaredQty r \<noteq> declaredQty
                                  then changedAt else of_FreshnessAt r)\<rparr>) (offers ct))
      (\<lambda>(_, rows). Inr (ct\<lparr>offers := rows\<rparr>)))"

definition UpdateOfferStatus ::
  "'a env_scheme \<Rightarrow> string \<Rightarrow> uuid \<Rightarrow> catalog \<Rightarrow> (offer \<times> catalog) result" where
  "UpdateOfferStatus env status i ct = stmt env ''UpdateOfferStatus''
     (andThen (sql_update_one offer_chk
        (\<lambda>r. of_ID r = i \<and> of_Status r \<in> {''published'', ''hidden''})
        (\<lambda>r. r\<lparr>of_Status := status\<rparr>) (offers ct))
      (\<lambda>(r, rows). Inr (r, ct\<lparr>offers := rows\<rparr>)))"

section \<open>Repository\<close>

definition catalog_mapDedupError :: "go_error \<Rightarrow> go_error" where
  "catalog_mapDedupError e = (if e = DedupKeyReuse then CatalogConflict else e)"

definition catalog_mapError :: "go_error \<Rightarrow> go_error" where
  "catalog_mapError e = (if e = NoRows then CatalogNotFound
     else if e \<in> {PgError ''23505'', PgError ''23514'', PgError ''23503''} then CatalogConflict
     else e)"

definition catalogRequestSLA :: int where "catalogRequestSLA = 24 * 60 * minute"

text \<open>\<open>numericText\<close> of a rational number; the value of a NULL is not met here.\<close>

definition Repository_OfferStore :: "'a env_scheme \<Rightarrow> string \<Rightarrow> catalog \<Rightarrow> string result" where
  "Repository_OfferStore env offerID ct =
     (case uuid_Parse env offerID of None \<Rightarrow> Inl CatalogInvalid
      | Some i \<Rightarrow> andThen (mapErr (no_rows_is CatalogNotFound) (GetOfferStore env i ct))
          (\<lambda>s. Inr (uuid_String env s)))"

definition Repository_CreateCatalogRequest ::
  "'a env_scheme \<Rightarrow> ctx \<Rightarrow> CatalogRequestInput \<Rightarrow> time \<Rightarrow> 'z cdb_scheme \<Rightarrow> string result \<times> 'z cdb_scheme" where
  "Repository_CreateCatalogRequest env c input tm db =
     (let i = newID env in commit db (stmt env ''begin''
       (andThen (ReserveNew env (OperationKey c) i tm (plat db)) (\<lambda>((replay, resourceID), p1).
        if replay then Inr (uuid_String env resourceID, db)
        else
        andThen (mapErr catalog_mapError
                  (store_CreateCatalogRequest env i (uuid_Parse env (cq_StoreID input)) input tm db)) (\<lambda>ct.
        andThen (Write env ''catalog'' (uuid_String env i)
                  (CatalogRequestedPayload (cq_StoreID input) (cq_Name input) (cq_Unit input)
                     (tm + catalogRequestSLA)) p1) (\<lambda>p2.
        stmt env ''commit'' (Inr (uuid_String env i, db\<lparr>plat := p2, cat := ct\<rparr>))))))))"

definition Repository_ResolveCatalogRequest ::
  "'a env_scheme \<Rightarrow> ctx \<Rightarrow> CatalogResolution \<Rightarrow> time \<Rightarrow> 'z cdb_scheme \<Rightarrow> unit result \<times> 'z cdb_scheme" where
  "Repository_ResolveCatalogRequest env c input tm db =
     (case uuid_Parse env (cx_ID input) of None \<Rightarrow> (Inl CatalogInvalid, db)
      | Some requestID \<Rightarrow> commit db (stmt env ''begin''
       (andThen (mapErr catalog_mapDedupError (ReserveFor env (OperationKey c) requestID tm (plat db)))
        (\<lambda>(replay, p1). if replay then Inr ((), db)
        else
        andThen (mapErr catalog_mapError (GetCatalogRequestForUpdate env requestID (cat db))) (\<lambda>current.
        if cr_Status current \<noteq> ''pending'' then Inl CatalogConflict
        else
        andThen (mapErr catalog_mapError (store_ResolveCatalogRequest env (cx_Status input)
                  (uuid_Parse env (cx_ProductID input)) (optional (cx_RejectReason input)) tm requestID
                  (cat db))) (\<lambda>ct.
        andThen (Write env ''catalog'' (cx_ID input)
                  (CatalogRequestResolvedPayload (uuid_String env (cr_StoreID current)) (cx_Status input)
                     (cx_ProductID input) (cx_RejectReason input)) p1) (\<lambda>p2.
        stmt env ''commit'' (Inr ((), db\<lparr>plat := p2, cat := ct\<rparr>)))))))))"

definition Repository_CreateOffer ::
  "'a env_scheme \<Rightarrow> ctx \<Rightarrow> OfferInput \<Rightarrow> time \<Rightarrow> 'z cdb_scheme \<Rightarrow> string result \<times> 'z cdb_scheme" where
  "Repository_CreateOffer env c input tm db =
     (let i = newID env in
      case Numeric_Scan env (oi_DeclaredQty input) of None \<Rightarrow> (Inl CatalogInvalid, db)
      | Some quantity \<Rightarrow> commit db (stmt env ''begin''
       (andThen (ReserveNew env (OperationKey c) i tm (plat db)) (\<lambda>((replay, resourceID), p1).
        if replay then Inr (uuid_String env resourceID, db)
        else
        andThen (mapErr catalog_mapError (store_CreateOffer env i (uuid_Parse env (oi_StoreID input))
                  (uuid_Parse env (oi_ProductID input)) (oi_Price input) quantity tm db)) (\<lambda>ct.
        andThen (Write env ''catalog'' (uuid_String env i)
                  (OfferCreatedPayload (oi_StoreID input) (oi_ProductID input) (oi_Price input)
                     (oi_DeclaredQty input)) p1) (\<lambda>p2.
        stmt env ''commit'' (Inr (uuid_String env i, db\<lparr>plat := p2, cat := ct\<rparr>))))))))"

text \<open>What an update leaves of the offer's price, quantity and status.\<close>

definition change_status ::
  "'a env_scheme \<Rightarrow> OfferUpdate \<Rightarrow> uuid \<Rightarrow> offer \<Rightarrow> catalog \<Rightarrow> (string \<times> catalog) result" where
  "change_status env input offerID current ct =
     (case ou_Status input of
        None \<Rightarrow> Inr (of_Status current, ct)
      | Some status \<Rightarrow>
        if status = of_Status current then Inr (of_Status current, ct)
        else mapErr (\<lambda>e. if e = NoRows then CatalogConflict else catalog_mapError e)
          (andThen (UpdateOfferStatus env status offerID ct) (\<lambda>(updated, ct').
             Inr (of_Status updated, ct'))))"

definition Repository_UpdateOffer ::
  "'a env_scheme \<Rightarrow> ctx \<Rightarrow> OfferUpdate \<Rightarrow> time \<Rightarrow> 'z cdb_scheme \<Rightarrow> unit result \<times> 'z cdb_scheme" where
  "Repository_UpdateOffer env c input tm db =
     (case uuid_Parse env (ou_ID input) of None \<Rightarrow> (Inl CatalogInvalid, db)
      | Some offerID \<Rightarrow> commit db (stmt env ''begin''
       (andThen (mapErr catalog_mapDedupError (ReserveFor env (OperationKey c) offerID tm (plat db)))
        (\<lambda>(replay, p1). if replay then Inr ((), db)
        else
        andThen (mapErr (\<lambda>e. if e = NoRows then CatalogNotFound else catalog_mapError e)
                  (GetOfferForUpdate env offerID (cat db))) (\<lambda>current.
        let price = (case ou_Price input of None \<Rightarrow> of_Price current | Some v \<Rightarrow> v) in
        andThen (case ou_DeclaredQty input of
                   None \<Rightarrow> Inr (of_DeclaredQty current)
                 | Some text \<Rightarrow> (case Numeric_Scan env text of None \<Rightarrow> Inl CatalogInvalid | Some q \<Rightarrow> Inr q))
         (\<lambda>quantity.
        andThen (mapErr catalog_mapError (UpdateOfferValues env price quantity tm offerID (cat db))) (\<lambda>ct1.
        andThen (change_status env input offerID current ct1) (\<lambda>(status, ct2).
        andThen (Write env ''catalog'' (ou_ID input)
                  (OfferUpdatedPayload (uuid_String env (of_StoreID current))
                     (uuid_String env (of_ProductID current)) price (Numeric_Value env quantity) status) p1)
         (\<lambda>p2. stmt env ''commit'' (Inr ((), db\<lparr>plat := p2, cat := ct2\<rparr>)))))))))))"

section \<open>Service\<close>

definition Service_CreateCatalogRequest ::
  "'a env_scheme \<Rightarrow> ctx \<Rightarrow> CatalogRequestInput \<Rightarrow> 'z cdb_scheme \<Rightarrow> string result \<times> 'z cdb_scheme" where
  "Service_CreateCatalogRequest env c input0 db =
     (let input = input0\<lparr>cq_Name := TrimSpace (cq_Name input0), cq_Unit := TrimSpace (cq_Unit input0)\<rparr> in
      if \<not> uuid_Validate env (cq_StoreID input) \<or> cq_Name input = [] \<or> 200 < length (cq_Name input) \<or>
         cq_Unit input = [] \<or> 30 < length (cq_Unit input) \<or> 2000 < length (cq_Description input)
      then (Inl CatalogInvalid, db)
      else case EnsureOwnsStore env c (cq_StoreID input) (loc db) of
        Inl e \<Rightarrow> (Inl e, db)
      | Inr _ \<Rightarrow> Repository_CreateCatalogRequest env c input (clock_Now env) db)"

definition Service_ResolveCatalogRequest ::
  "'a env_scheme \<Rightarrow> ctx \<Rightarrow> CatalogResolution \<Rightarrow> 'z cdb_scheme \<Rightarrow> unit result \<times> 'z cdb_scheme" where
  "Service_ResolveCatalogRequest env c input db =
     (case RequireRole c RoleOperator of
        Inl e \<Rightarrow> (Inl e, db)
      | Inr _ \<Rightarrow>
        if \<not> uuid_Validate env (cx_ID input) \<or>
           cx_Status input \<noteq> ''added'' \<and> cx_Status input \<noteq> ''rejected'' \<or>
           cx_Status input = ''added'' \<and> \<not> uuid_Validate env (cx_ProductID input) \<or>
           cx_Status input = ''rejected'' \<and> TrimSpace (cx_RejectReason input) = [] \<or>
           1000 < length (cx_RejectReason input)
        then (Inl CatalogInvalid, db)
        else Repository_ResolveCatalogRequest env c input (clock_Now env) db)"

definition Service_CreateOffer ::
  "'a env_scheme \<Rightarrow> ctx \<Rightarrow> OfferInput \<Rightarrow> 'z cdb_scheme \<Rightarrow> string result \<times> 'z cdb_scheme" where
  "Service_CreateOffer env c input db =
     (if \<not> uuid_Validate env (oi_StoreID input) \<or> \<not> uuid_Validate env (oi_ProductID input) \<or>
         oi_Price input \<le> 0 \<or> \<not> IsNonNegativeDecimal (oi_DeclaredQty input)
      then (Inl CatalogInvalid, db)
      else case EnsureOwnsStore env c (oi_StoreID input) (loc db) of
        Inl e \<Rightarrow> (Inl e, db)
      | Inr _ \<Rightarrow> Repository_CreateOffer env c input (clock_Now env) db)"

definition Service_UpdateOffer ::
  "'a env_scheme \<Rightarrow> ctx \<Rightarrow> OfferUpdate \<Rightarrow> 'z cdb_scheme \<Rightarrow> unit result \<times> 'z cdb_scheme" where
  "Service_UpdateOffer env c input db =
     (if \<not> uuid_Validate env (ou_ID input) \<or>
         ou_Price input = None \<and> ou_DeclaredQty input = None \<and> ou_Status input = None \<or>
         (case ou_Price input of None \<Rightarrow> False | Some v \<Rightarrow> v \<le> 0) \<or>
         (case ou_DeclaredQty input of None \<Rightarrow> False | Some q \<Rightarrow> \<not> IsNonNegativeDecimal q) \<or>
         (case ou_Status input of None \<Rightarrow> False | Some s \<Rightarrow> s \<noteq> offerPublished \<and> s \<noteq> offerHidden)
      then (Inl CatalogInvalid, db)
      else case Repository_OfferStore env (ou_ID input) (cat db) of
        Inl e \<Rightarrow> (Inl e, db)
      | Inr storeID \<Rightarrow>
        (case EnsureOwnsStore env c storeID (loc db) of
           Inl e \<Rightarrow> (Inl e, db)
         | Inr _ \<Rightarrow> Repository_UpdateOffer env c input (clock_Now env) db))"

text \<open>The mutating requests of the module.\<close>

datatype catalog_call =
    CallCreateCatalogRequest CatalogRequestInput
  | CallResolveCatalogRequest CatalogResolution
  | CallCreateOffer OfferInput
  | CallUpdateOffer OfferUpdate

text \<open>Each request comes with its own environment and context.\<close>

fun catalog_exec ::
  "env \<times> ctx \<times> catalog_call \<Rightarrow> 'z cdb_scheme \<Rightarrow> string result \<times> 'z cdb_scheme" where
  "catalog_exec (env, c, CallCreateCatalogRequest input) db = Service_CreateCatalogRequest env c input db"
| "catalog_exec (env, c, CallResolveCatalogRequest input) db =
     apfst (\<lambda>r. andThen r (\<lambda>_. Inr [])) (Service_ResolveCatalogRequest env c input db)"
| "catalog_exec (env, c, CallCreateOffer input) db = Service_CreateOffer env c input db"
| "catalog_exec (env, c, CallUpdateOffer input) db =
     apfst (\<lambda>r. andThen r (\<lambda>_. Inr [])) (Service_UpdateOffer env c input db)"

section \<open>What the queries keep\<close>

text \<open>The constraints hold on, and no reservation changes: that is the orders' business alone.\<close>

definition catalog_step :: "catalog \<Rightarrow> catalog \<Rightarrow> bool" where
  "catalog_step ct ct' \<longleftrightarrow> (catalog_inv ct \<longrightarrow> catalog_inv ct') \<and>
     (\<forall>s p. reserved_of ct' s p = reserved_of ct s p)"

lemma catalog_step_refl [simp]: "catalog_step ct ct"
  by (simp add: catalog_step_def)

lemma catalog_step_trans: "catalog_step a b \<Longrightarrow> catalog_step b c \<Longrightarrow> catalog_step a c"
  by (simp add: catalog_step_def)

lemma catalog_requests_step:
  assumes "catalog_inv ct \<Longrightarrow> list_all catalog_request_chk rows" "catalog_inv ct \<Longrightarrow> distinct (map cr_ID rows)"
  shows "catalog_step ct (ct\<lparr>catalog_requests := rows\<rparr>)"
  using assms by (auto simp: catalog_step_def catalog_inv_def reserved_of_def)

lemma offers_updated_step:
  assumes "list_all (\<lambda>r. P r \<longrightarrow> offer_chk (f r)) (offers ct)"
    and "\<And>r. offer_key (f r) = offer_key r" "\<And>r. of_ID (f r) = of_ID r"
    and "\<And>r. of_ReservedQty (f r) = of_ReservedQty r"
  shows "catalog_step ct (offers_updated P f ct)"
proof -
  have "sum_list (map of_ReservedQty (filter (\<lambda>r. offer_key r = k) (map (\<lambda>r. if P r then f r else r) xs))) =
      sum_list (map of_ReservedQty (filter (\<lambda>r. offer_key r = k) xs))" for k xs
    using assms(2,4) by (induction xs) auto
  then show ?thesis
    using offers_updated_inv [OF _ assms(1-3)]
    by (simp add: catalog_step_def offers_updated_def reserved_of_def)
qed

lemma store_CreateCatalogRequest_step:
  assumes "store_CreateCatalogRequest env i s input tm db = Inr ct"
  shows "catalog_step (cat db) ct"
  using assms
  by (auto simp: store_CreateCatalogRequest_def sql_simps go_simps catalog_inv_def list_ex_iff
      intro!: catalog_requests_step)

lemma store_ResolveCatalogRequest_step:
  assumes "store_ResolveCatalogRequest env status p reason tm i ct = Inr ct'"
  shows "catalog_step ct ct'"
proof -
  let ?f = "\<lambda>r. r\<lparr>cr_Status := status, cr_ProductID := p, cr_RejectReason := reason,
               cr_ResolvedAt := Some tm\<rparr>"
  from assms obtain P where
    ct': "ct' = ct\<lparr>catalog_requests := map (\<lambda>r. if P r then ?f r else r) (catalog_requests ct)\<rparr>" and
    chk: "list_all (\<lambda>r. P r \<longrightarrow> catalog_request_chk (?f r)) (catalog_requests ct)"
    by (auto simp: store_ResolveCatalogRequest_def sql_simps go_simps)
  show ?thesis unfolding ct'
    using update_chk [of catalog_request_chk "catalog_requests ct" P ?f] chk
      map_update_key [of cr_ID ?f P "catalog_requests ct"]
    by (intro catalog_requests_step) (auto simp: catalog_inv_def simp del: map_map)
qed

lemma store_CreateOffer_Inr:
  assumes "store_CreateOffer env i sid pid price q tm db = Inr ct"
  obtains s p where "sid = Some s" "pid = Some p" "(s, p) \<notin> offer_key ` set (offers (cat db))"
    "i \<notin> of_ID ` set (offers (cat db))" "store_exists s (loc db)"
    "offer_chk \<lparr>of_ID = i, of_StoreID = s, of_ProductID = p, of_Price = price, of_DeclaredQty = q,
       of_ReservedQty = 0, of_FreshnessAt = tm, of_Status = ''published''\<rparr>"
    "ct = (cat db)\<lparr>offers := offers (cat db) @ [\<lparr>of_ID = i, of_StoreID = s, of_ProductID = p,
       of_Price = price, of_DeclaredQty = q, of_ReservedQty = 0, of_FreshnessAt = tm,
       of_Status = ''published''\<rparr>]\<rparr>"
  using assms
  by (auto simp: store_CreateOffer_def sql_simps go_simps list_ex_iff offer_clash_def offer_key_def)

lemma store_CreateOffer_step:
  assumes "store_CreateOffer env i sid pid price q tm db = Inr ct"
  shows "catalog_step (cat db) ct"
  using assms
  by (rule store_CreateOffer_Inr)
     (auto simp: catalog_step_def catalog_inv_def offer_key_def reserved_of_def)

lemma UpdateOfferValues_step: "UpdateOfferValues env price q tm i ct = Inr ct' \<Longrightarrow> catalog_step ct ct'"
  by (auto simp: UpdateOfferValues_def sql_simps go_simps offer_key_def
      simp flip: offers_updated_def intro!: offers_updated_step)

lemma change_status_step:
  "change_status env input i current ct = Inr (status, ct') \<Longrightarrow> catalog_step ct ct'"
  by (auto simp: change_status_def UpdateOfferStatus_def sql_simps go_simps offer_key_def
      simp flip: offers_updated_def split: option.splits if_splits intro!: offers_updated_step)

section \<open>Every request keeps the constraints and only adds receipts and events\<close>

text \<open>What a transaction of the module does to the database, and to nothing else of it.\<close>

definition tx_good :: "'z cdb_scheme \<Rightarrow> 'z cdb_scheme \<Rightarrow> bool" where
  "tx_good db db' \<longleftrightarrow> db' = db\<lparr>plat := plat db', cat := cat db'\<rparr> \<and>
     platform_extends (plat db) (plat db') \<and>
     (receipts_keyed (plat db) \<longrightarrow> receipts_keyed (plat db')) \<and> catalog_step (cat db) (cat db')"

lemma tx_good_refl [simp]: "tx_good db db"
  by (simp add: tx_good_def platform_extends_refl)

lemma tx_good_trans: "tx_good db db' \<Longrightarrow> tx_good db' db'' \<Longrightarrow> tx_good db db''"
  unfolding tx_good_def
  by (intro conjI; (blast intro: platform_extends_trans catalog_step_trans)?)
     (metis (no_types, lifting) cdb.surjective cdb.update_convs(1) pdb.surjective pdb.update_convs(1) ldb.surjective cdb.cases_scheme)

lemma tx_good_written:
  assumes "platform_extends (plat db) p1 \<and> (receipts_keyed (plat db) \<longrightarrow> receipts_keyed p1)"
    and "Write env m a pl p1 = Inr p2" and "catalog_step (cat db) ct"
  shows "tx_good db (db\<lparr>plat := p2, cat := ct\<rparr>)"
  using assms(1,3) Write_platform [OF assms(2)]
  by (auto simp: tx_good_def intro: platform_extends_trans)

lemmas repository_steps = store_CreateCatalogRequest_step store_ResolveCatalogRequest_step
  store_CreateOffer_step UpdateOfferValues_step change_status_step

lemma Repository_CreateCatalogRequest_good: "tx_good db (snd (Repository_CreateCatalogRequest env c input tm db))"
  unfolding Repository_CreateCatalogRequest_def Let_def
  by (rule commit_keeps, simp)
     (auto simp: go_simps sql_simps split: if_splits intro!: tx_good_written
       dest: reserve_platform repository_steps)

lemma Repository_ResolveCatalogRequest_good: "tx_good db (snd (Repository_ResolveCatalogRequest env c input tm db))"
  unfolding Repository_ResolveCatalogRequest_def Let_def
  by (cases "uuid_Parse env (cx_ID input)"; simp; rule commit_keeps, simp)
     (auto simp: go_simps sql_simps split: if_splits intro!: tx_good_written
       dest: reserve_platform repository_steps)

lemma Repository_CreateOffer_good: "tx_good db (snd (Repository_CreateOffer env c input tm db))"
  unfolding Repository_CreateOffer_def Let_def
  by (cases "Numeric_Scan env (oi_DeclaredQty input)"; simp; rule commit_keeps, simp)
     (auto simp: go_simps sql_simps split: if_splits intro!: tx_good_written
       dest: reserve_platform repository_steps)

lemma Repository_UpdateOffer_good: "tx_good db (snd (Repository_UpdateOffer env c input tm db))"
  unfolding Repository_UpdateOffer_def Let_def
  by (cases "uuid_Parse env (ou_ID input)"; simp; rule commit_keeps, simp)
     (auto simp: andThen_eq_Inr mapErr_eq_Inr sql_simps split: if_splits intro!: tx_good_written
       dest: reserve_platform intro: repository_steps catalog_step_trans)

lemma catalog_exec_good: "tx_good db (snd (catalog_exec call db))"
  by (cases "(call, db)" rule: catalog_exec.cases)
     (auto simp: Service_CreateCatalogRequest_def Service_ResolveCatalogRequest_def Service_CreateOffer_def
       Service_UpdateOffer_def Let_def Repository_CreateCatalogRequest_good
       Repository_ResolveCatalogRequest_good Repository_CreateOffer_good Repository_UpdateOffer_good
       split: sum.splits)

interpretation catalog_tx: tx_rel catalog_exec tx_good
  by unfold_locales (auto intro: tx_good_trans catalog_exec_good)

end
