(* ===== verification/OrdersStore.thy ===== *)
theory OrdersStore
  imports Catalog OrderStatus
begin

text \<open>
  The schema \<open>orders\<close> of \<open>migrations/orders\<close> with its constraints, and the queries of
  \<open>internal/modules/orders/store\<close>. A status, an actor and a source are the declared constants,
  which are all the CHECK constraints admit; a coordinate is a rational number. The rows of
  \<open>order_events\<close> stand in the order of their serial ids.
\<close>

section \<open>Rows\<close>

record order_row =
  or_ID :: uuid
  or_BuyerID :: uuid
  or_StoreID :: uuid
  or_Status :: Status
  or_BuyerType :: string
  or_BuyerTin :: "string option"
  or_Fulfillment :: string
  or_IsUrgent :: bool
  or_GoodsAmount :: int
  or_DeliveryFee :: int
  or_TotalAmount :: int
  or_Dropoff :: "(rat \<times> rat) option"
  or_DropoffAddress :: "string option"
  or_DistrictID :: "int option"
  or_SupplierConfirmationDeadline :: time
  or_PaymentDueAt :: "time option"
  or_CreatedAt :: time
  or_ClosedAt :: "time option"

record order_item =
  oi_ID :: uuid
  oi_OrderID :: uuid
  oi_ProductID :: uuid
  oi_Qty :: rat
  oi_UnitPrice :: int
  oi_LineAmount :: int
  oi_CommissionBps :: int

record order_event =
  oe_OrderID :: uuid
  oe_FromStatus :: "Status option"
  oe_ToStatus :: Status
  oe_Actor :: Actor
  oe_Source :: Source
  oe_Payload :: "(string \<times> string) list option"
  oe_CreatedAt :: time

record confirm_token =
  tk_TokenHash :: string
  tk_OrderID :: uuid
  tk_StoreID :: uuid
  tk_ExpiresAt :: time
  tk_UsedAt :: "time option"

record order_tables =
  orders_t :: "order_row list"
  order_items :: "order_item list"
  order_events :: "order_event list"
  confirm_tokens :: "confirm_token list"

record odb = cdb +
  ord :: order_tables

section \<open>Constraints\<close>

definition is_tin :: "string \<Rightarrow> bool" where
  "is_tin s \<longleftrightarrow> length s = 9 \<and> list_all is_digit s"

definition order_chk :: "order_row \<Rightarrow> bool" where
  "order_chk r \<longleftrightarrow> or_BuyerType r \<in> {''individual'', ''legal_entity''} \<and>
     or_Fulfillment r \<in> {''delivery'', ''pickup''} \<and>
     0 \<le> or_GoodsAmount r \<and> 0 \<le> or_DeliveryFee r \<and> 0 \<le> or_TotalAmount r \<and>
     or_TotalAmount r = or_GoodsAmount r + or_DeliveryFee r \<and>
     (or_BuyerType r \<noteq> ''legal_entity'' \<or>
       (case or_BuyerTin r of None \<Rightarrow> False | Some tin \<Rightarrow> is_tin tin))"

definition order_item_chk :: "order_item \<Rightarrow> bool" where
  "order_item_chk r \<longleftrightarrow> 0 < oi_Qty r \<and> 0 < oi_UnitPrice r \<and> 0 < oi_LineAmount r \<and>
     0 \<le> oi_CommissionBps r \<and> oi_CommissionBps r \<le> 10000"

definition order_item_clash :: "order_item \<Rightarrow> order_item \<Rightarrow> bool" where
  "order_item_clash a b \<longleftrightarrow> oi_ID a = oi_ID b \<or>
     oi_OrderID a = oi_OrderID b \<and> oi_ProductID a = oi_ProductID b"

definition order_exists :: "uuid \<Rightarrow> order_tables \<Rightarrow> bool" where
  "order_exists i ot = list_ex (\<lambda>r. or_ID r = i) (orders_t ot)"

section \<open>Queries on orders\<close>

text \<open>
  The sum of the CHECK constraint \<open>chk_orders_total\<close> is a \<open>bigint\<close>: out of range it is
  the error 22003.
\<close>

definition store_CreateOrder ::
  "'a env_scheme \<Rightarrow> order_row \<Rightarrow> 'z odb_scheme \<Rightarrow> order_tables result" where
  "store_CreateOrder env row db = stmt env ''CreateOrder''
     (if \<not> is_int64 (or_GoodsAmount row + or_DeliveryFee row) then Inl (PgError ''22003'')
      else
      andThen (sql_insert order_chk (\<lambda>a b. or_ID a = or_ID b)
        (store_exists (or_StoreID row) (loc db) \<and>
         (case or_DistrictID row of None \<Rightarrow> True | Some d \<Rightarrow> d \<in> set (districts (loc db))))
        row (orders_t (ord db)))
      (\<lambda>rows. Inr ((ord db)\<lparr>orders_t := rows\<rparr>)))"

definition store_CreateOrderItem ::
  "'a env_scheme \<Rightarrow> order_item \<Rightarrow> catalog \<Rightarrow> order_tables \<Rightarrow> order_tables result" where
  "store_CreateOrderItem env row ct ot = stmt env ''CreateOrderItem''
     (andThen (sql_insert order_item_chk order_item_clash
        (order_exists (oi_OrderID row) ot \<and> product_exists (oi_ProductID row) ct)
        row (order_items ot))
      (\<lambda>rows. Inr (ot\<lparr>order_items := rows\<rparr>)))"

definition AppendOrderEvent :: "'a env_scheme \<Rightarrow> order_event \<Rightarrow> order_tables \<Rightarrow> order_tables result" where
  "AppendOrderEvent env row ot = stmt env ''AppendOrderEvent''
     (andThen (sql_insert (\<lambda>_. True) (\<lambda>_ _. False) (order_exists (oe_OrderID row) ot) row (order_events ot))
      (\<lambda>rows. Inr (ot\<lparr>order_events := rows\<rparr>)))"

definition CreateConfirmToken ::
  "'a env_scheme \<Rightarrow> confirm_token \<Rightarrow> location \<Rightarrow> order_tables \<Rightarrow> order_tables result" where
  "CreateConfirmToken env row lc ot = stmt env ''CreateConfirmToken''
     (andThen (sql_insert (\<lambda>_. True) (\<lambda>a b. tk_TokenHash a = tk_TokenHash b)
        (order_exists (tk_OrderID row) ot \<and> store_exists (tk_StoreID row) lc) row (confirm_tokens ot))
      (\<lambda>rows. Inr (ot\<lparr>confirm_tokens := rows\<rparr>)))"

definition token_live :: "string \<Rightarrow> time \<Rightarrow> confirm_token \<Rightarrow> bool" where
  "token_live hash usedAt r \<longleftrightarrow>
     tk_TokenHash r = hash \<and> tk_UsedAt r = None \<and> usedAt < tk_ExpiresAt r"

definition ConsumeConfirmToken ::
  "'a env_scheme \<Rightarrow> string \<Rightarrow> time \<Rightarrow> order_tables \<Rightarrow> (confirm_token \<times> order_tables) result" where
  "ConsumeConfirmToken env hash usedAt ot = stmt env ''ConsumeConfirmToken''
     (andThen (sql_update_one (\<lambda>_. True) (token_live hash usedAt)
        (\<lambda>r. r\<lparr>tk_UsedAt := Some usedAt\<rparr>) (confirm_tokens ot))
      (\<lambda>(r, rows). Inr (r, ot\<lparr>confirm_tokens := rows\<rparr>)))"

definition GetOrder :: "'a env_scheme \<Rightarrow> uuid \<Rightarrow> order_tables \<Rightarrow> order_row result" where
  "GetOrder env i ot = stmt env ''GetOrder'' (sql_one (\<lambda>r. or_ID r = i) (orders_t ot))"

definition GetOrderForUpdate :: "'a env_scheme \<Rightarrow> uuid \<Rightarrow> order_tables \<Rightarrow> order_row result" where
  "GetOrderForUpdate env i ot = stmt env ''GetOrderForUpdate'' (sql_one (\<lambda>r. or_ID r = i) (orders_t ot))"

definition GetOrderSummary :: "'a env_scheme \<Rightarrow> uuid \<Rightarrow> order_tables \<Rightarrow> order_row result" where
  "GetOrderSummary env i ot = stmt env ''GetOrderSummary'' (sql_one (\<lambda>r. or_ID r = i) (orders_t ot))"

definition ListOrderItems :: "'a env_scheme \<Rightarrow> uuid \<Rightarrow> order_tables \<Rightarrow> order_item list result" where
  "ListOrderItems env i ot = stmt env ''ListOrderItems''
     (Inr (sort_key oi_ID (filter (\<lambda>r. oi_OrderID r = i) (order_items ot))))"

definition SetOrderPaymentDue :: "'a env_scheme \<Rightarrow> time \<Rightarrow> uuid \<Rightarrow> order_tables \<Rightarrow> order_tables result" where
  "SetOrderPaymentDue env due i ot = stmt env ''SetOrderPaymentDue''
     (andThen (sql_update order_chk (\<lambda>r. or_ID r = i) (\<lambda>r. r\<lparr>or_PaymentDueAt := Some due\<rparr>) (orders_t ot))
      (\<lambda>(_, rows). Inr (ot\<lparr>orders_t := rows\<rparr>)))"

definition set_status :: "Status \<Rightarrow> time \<Rightarrow> order_row \<Rightarrow> order_row" where
  "set_status toStatus occurredAt r = r\<lparr>or_Status := toStatus,
     or_ClosedAt := (if toStatus = StatusClosed then Some occurredAt else or_ClosedAt r)\<rparr>"

definition TransitionOrder ::
  "'a env_scheme \<Rightarrow> Status \<Rightarrow> time \<Rightarrow> uuid \<Rightarrow> Status \<Rightarrow> order_tables \<Rightarrow> (order_row \<times> order_tables) result" where
  "TransitionOrder env toStatus occurredAt i fromStatus ot = stmt env ''TransitionOrder''
     (andThen (sql_update_one order_chk (\<lambda>r. or_ID r = i \<and> or_Status r = fromStatus)
        (set_status toStatus occurredAt) (orders_t ot))
      (\<lambda>(r, rows). Inr (r, ot\<lparr>orders_t := rows\<rparr>)))"

definition ListOrdersAwaitingConfirmation ::
  "'a env_scheme \<Rightarrow> time \<Rightarrow> int \<Rightarrow> order_tables \<Rightarrow> order_row list result" where
  "ListOrdersAwaitingConfirmation env deadline pageSize ot = stmt env ''ListOrdersAwaitingConfirmation''
     (Inr (take (nat pageSize) (sort_key or_SupplierConfirmationDeadline
        (filter (\<lambda>r. or_Status r = StatusCreated \<and> or_SupplierConfirmationDeadline r \<le> deadline) (orders_t ot)))))"

definition ListOrdersPaymentOverdue ::
  "'a env_scheme \<Rightarrow> time \<Rightarrow> int \<Rightarrow> order_tables \<Rightarrow> (order_row \<times> time) list result" where
  "ListOrdersPaymentOverdue env deadline pageSize ot = stmt env ''ListOrdersPaymentOverdue''
     (Inr (take (nat pageSize) (sort_key snd
        (concat (map (\<lambda>r. case or_PaymentDueAt r of None \<Rightarrow> []
                     | Some due \<Rightarrow> if or_Status r = StatusAwaitingPayment \<and> due \<le> deadline then [(r, due)] else [])
          (orders_t ot))))))"

section \<open>What the tables hold\<close>

definition orders_inv :: "order_tables \<Rightarrow> bool" where
  "orders_inv ot \<longleftrightarrow> list_all order_chk (orders_t ot) \<and> distinct (map or_ID (orders_t ot)) \<and>
     list_all order_item_chk (order_items ot) \<and> distinct (map oi_ID (order_items ot)) \<and>
     distinct (map (\<lambda>r. (oi_OrderID r, oi_ProductID r)) (order_items ot)) \<and>
     list_all (\<lambda>r. order_exists (oi_OrderID r) ot) (order_items ot) \<and>
     list_all (\<lambda>r. order_exists (oe_OrderID r) ot) (order_events ot) \<and>
     distinct (map tk_TokenHash (confirm_tokens ot))"

text \<open>The items of an order, and the events of its history.\<close>

definition items_of :: "order_tables \<Rightarrow> uuid \<Rightarrow> order_item list" where
  "items_of ot i = filter (\<lambda>r. oi_OrderID r = i) (order_items ot)"

definition events_of :: "order_tables \<Rightarrow> uuid \<Rightarrow> order_event list" where
  "events_of ot i = filter (\<lambda>r. oe_OrderID r = i) (order_events ot)"

end
