(* ===== verification/Billing.thy ===== *)
theory Billing
  imports OrdersStore
begin

text \<open>
  The schema \<open>billing\<close> and the settlement port the order lifecycle drives
  (\<open>internal/modules/billing/settlement.go\<close>, contract in \<open>internal/modules/orders/settlement.go\<close>):
  invoices, the buyer's payment, refunds and the owner's commission ledger. The JSON columns
  hold the values they encode.
\<close>

section \<open>Requests\<close>

record Payee =
  pe_OwnerID :: string
  pe_StoreID :: string
  pe_StoreName :: string
  pe_LegalName :: string
  pe_TIN :: string
  pe_BankAccount :: string
  pe_MFO :: string

record Payer =
  pa_BuyerID :: string
  pa_BuyerType :: string
  pa_TIN :: string

record InvoiceRequest =
  ir_OrderID :: string
  ir_TotalAmount :: int
  ir_Payee :: Payee
  ir_Payer :: Payer
  ir_IssuedAt :: time
  ir_ExpiresAt :: time

record ReceiptRequest =
  re_OrderID :: string
  re_ReceiptURL :: string
  re_GoodsAmount :: int
  re_DeliveryFee :: int
  re_At :: time

record PaymentDecision =
  pd_OrderID :: string
  pd_Accepted :: bool
  pd_At :: time

record RefundRequest =
  rq_OrderID :: string
  rq_Amount :: int
  rq_Reason :: string
  rq_At :: time
  rq_DueAt :: time

record CommissionRequest =
  co_OrderID :: string
  co_OwnerID :: string
  co_BaseAmount :: int
  co_Accrued :: int
  co_RateBps :: int
  co_At :: time

record CommissionAccrued =
  ca_Accrued :: int
  ca_Discount :: int
  ca_Payable :: int
  ca_FreeOrder :: bool
  ca_Sequence :: int

section \<open>Rows\<close>

record invoice_row =
  in_ID :: uuid
  in_OrderID :: uuid
  in_Number :: string
  in_Version :: int
  in_OwnerSnapshot :: Payee
  in_BuyerSnapshot :: Payer
  in_TotalAmount :: int
  in_Status :: string
  in_ExpiresAt :: time
  in_CreatedAt :: time

record payment_row =
  py_ID :: uuid
  py_OrderID :: uuid
  py_GoodsAmount :: int
  py_DeliveryFee :: int
  py_SellerAmount :: int
  py_Status :: string
  py_PaidAt :: "time option"
  py_ReceiptURL :: string
  py_CreatedAt :: time

record refund_row =
  rf_ID :: uuid
  rf_OrderID :: uuid
  rf_Amount :: int
  rf_Reason :: "string option"
  rf_Status :: string
  rf_DueAt :: time
  rf_EvidenceURL :: "string option"
  rf_BuyerConfirmedAt :: "time option"
  rf_CreatedAt :: time

record ledger_row =
  cl_ID :: uuid
  cl_OrderID :: uuid
  cl_OwnerID :: uuid
  cl_BaseAmount :: int
  cl_RateBps :: int
  cl_Accrued :: int
  cl_Discount :: int
  cl_Payable :: int
  cl_InvoiceID :: "uuid option"
  cl_CreatedAt :: time

record billing =
  invoices :: "invoice_row list"
  payments :: "payment_row list"
  refunds :: "refund_row list"
  commission_ledger :: "ledger_row list"
  invoice_number_seq :: nat

record bdb = odb +
  bil :: billing

section \<open>Constraints\<close>

definition invoice_chk :: "invoice_row \<Rightarrow> bool" where
  "invoice_chk r \<longleftrightarrow> 0 < in_Version r \<and> 0 \<le> in_TotalAmount r \<and>
     in_Status r \<in> {''issued'', ''paid'', ''refunded'', ''voided''}"

definition invoice_clash :: "invoice_row \<Rightarrow> invoice_row \<Rightarrow> bool" where
  "invoice_clash a b \<longleftrightarrow> in_ID a = in_ID b \<or> in_Number a = in_Number b \<or>
     in_OrderID a = in_OrderID b \<and> in_Version a = in_Version b"

text \<open>The commission of a manual payment is 0, its provider \<open>manual\<close>, its transaction id its id.\<close>

definition payment_chk :: "payment_row \<Rightarrow> bool" where
  "payment_chk r \<longleftrightarrow> 0 \<le> py_GoodsAmount r \<and> 0 \<le> py_DeliveryFee r \<and> 0 \<le> py_SellerAmount r \<and>
     py_Status r \<in> {''created'', ''paid'', ''failed'', ''reversed''}"

definition live :: "payment_row \<Rightarrow> bool" where
  "live r \<longleftrightarrow> py_Status r \<in> {''created'', ''paid''}"

text \<open>The primary key and the partial unique index \<open>ux_payments_order_live\<close>.\<close>

definition payment_clash :: "payment_row \<Rightarrow> payment_row \<Rightarrow> bool" where
  "payment_clash a b \<longleftrightarrow> py_ID a = py_ID b \<or>
     live a \<and> live b \<and> py_OrderID a = py_OrderID b"

definition refund_chk :: "refund_row \<Rightarrow> bool" where
  "refund_chk r \<longleftrightarrow> 0 < rf_Amount r \<and>
     rf_Status r \<in> {''requested'', ''evidence_uploaded'', ''refunded'', ''overdue''}"

definition ledger_chk :: "ledger_row \<Rightarrow> bool" where
  "ledger_chk r \<longleftrightarrow> 0 \<le> cl_BaseAmount r \<and> 0 \<le> cl_RateBps r \<and> 0 \<le> cl_Accrued r \<and>
     0 \<le> cl_Discount r \<and> 0 \<le> cl_Payable r \<and> cl_Payable r = cl_Accrued r - cl_Discount r"

definition ledger_clash :: "ledger_row \<Rightarrow> ledger_row \<Rightarrow> bool" where
  "ledger_clash a b \<longleftrightarrow> cl_ID a = cl_ID b \<or> cl_OrderID a = cl_OrderID b"

definition owner_exists :: "uuid \<Rightarrow> location \<Rightarrow> bool" where
  "owner_exists i lc = list_ex (\<lambda>w. ow_id w = i) (owners lc)"

section \<open>Queries\<close>

definition invoice_number :: "'a lib_scheme \<Rightarrow> time \<Rightarrow> nat \<Rightarrow> string" where
  "invoice_number L createdAt n =
     ''BINNO-'' @ to_char_date L createdAt @ ''-'' @ lpad (decimal n) 6 (CHR ''0'')"

definition next_version :: "uuid \<Rightarrow> invoice_row list \<Rightarrow> int" where
  "next_version i rows = fold max (map in_Version (filter (\<lambda>r. in_OrderID r = i) rows)) 0 + 1"

definition store_IssueInvoice ::
  "'a env_scheme \<Rightarrow> uuid \<Rightarrow> InvoiceRequest \<Rightarrow> 'z bdb_scheme \<Rightarrow> (invoice_row \<times> 'z bdb_scheme) result" where
  "store_IssueInvoice env orderID request db = stmt env ''IssueInvoice''
     (let b = bil db; n = Suc (invoice_number_seq b);
          row = \<lparr>in_ID = rowID env 0, in_OrderID = orderID,
            in_Number = invoice_number env (ir_IssuedAt request) n,
            in_Version = next_version orderID (invoices b),
            in_OwnerSnapshot = ir_Payee request, in_BuyerSnapshot = ir_Payer request,
            in_TotalAmount = ir_TotalAmount request, in_Status = ''issued'',
            in_ExpiresAt = ir_ExpiresAt request, in_CreatedAt = ir_IssuedAt request\<rparr>
      in andThen (sql_insert invoice_chk invoice_clash (order_exists orderID (ord db)) row (invoices b))
           (\<lambda>rows. Inr (row, db\<lparr>bil := b\<lparr>invoices := rows, invoice_number_seq := n\<rparr>\<rparr>)))"

text \<open>An update of the invoices, payments or refunds that satisfy a predicate.\<close>

definition update_invoices ::
  "'a env_scheme \<Rightarrow> string \<Rightarrow> (invoice_row \<Rightarrow> bool) \<Rightarrow> string \<Rightarrow> 'z bdb_scheme \<Rightarrow> (nat \<times> 'z bdb_scheme) result" where
  "update_invoices env q p status db = stmt env q
     (andThen (sql_update invoice_chk p (\<lambda>r. r\<lparr>in_Status := status\<rparr>) (invoices (bil db)))
      (\<lambda>(n, rows). Inr (n, db\<lparr>bil := (bil db)\<lparr>invoices := rows\<rparr>\<rparr>)))"

definition MarkInvoicePaid :: "'a env_scheme \<Rightarrow> uuid \<Rightarrow> 'z bdb_scheme \<Rightarrow> (nat \<times> 'z bdb_scheme) result" where
  "MarkInvoicePaid env orderID db = update_invoices env ''MarkInvoicePaid''
     (\<lambda>r. in_OrderID r = orderID \<and> in_Status r = ''issued'') ''paid'' db"

definition MarkInvoiceRefunded :: "'a env_scheme \<Rightarrow> uuid \<Rightarrow> 'z bdb_scheme \<Rightarrow> (nat \<times> 'z bdb_scheme) result" where
  "MarkInvoiceRefunded env orderID db = update_invoices env ''MarkInvoiceRefunded''
     (\<lambda>r. in_OrderID r = orderID \<and> in_Status r = ''paid'') ''refunded'' db"

definition VoidCurrentInvoice :: "'a env_scheme \<Rightarrow> uuid \<Rightarrow> 'z bdb_scheme \<Rightarrow> (nat \<times> 'z bdb_scheme) result" where
  "VoidCurrentInvoice env orderID db = update_invoices env ''VoidCurrentInvoice''
     (\<lambda>r. in_OrderID r = orderID \<and> in_Status r = ''issued'') ''voided'' db"

definition CreateManualPayment ::
  "'a env_scheme \<Rightarrow> uuid \<Rightarrow> ReceiptRequest \<Rightarrow> int \<Rightarrow> 'z bdb_scheme \<Rightarrow> 'z bdb_scheme result" where
  "CreateManualPayment env orderID request sellerAmount db = stmt env ''CreateManualPayment''
     (andThen (sql_insert payment_chk payment_clash (order_exists orderID (ord db))
        \<lparr>py_ID = rowID env 0, py_OrderID = orderID, py_GoodsAmount = re_GoodsAmount request,
         py_DeliveryFee = re_DeliveryFee request, py_SellerAmount = sellerAmount,
         py_Status = ''created'', py_PaidAt = None, py_ReceiptURL = re_ReceiptURL request,
         py_CreatedAt = re_At request\<rparr> (payments (bil db)))
      (\<lambda>rows. Inr (db\<lparr>bil := (bil db)\<lparr>payments := rows\<rparr>\<rparr>)))"

definition SettleManualPayment ::
  "'a env_scheme \<Rightarrow> string \<Rightarrow> time \<Rightarrow> uuid \<Rightarrow> 'z bdb_scheme \<Rightarrow> (payment_row \<times> 'z bdb_scheme) result" where
  "SettleManualPayment env status decidedAt orderID db = stmt env ''SettleManualPayment''
     (andThen (sql_update_one payment_chk (\<lambda>r. py_OrderID r = orderID \<and> py_Status r = ''created'')
        (\<lambda>r. r\<lparr>py_Status := status,
               py_PaidAt := (if status = ''paid'' then Some decidedAt else py_PaidAt r)\<rparr>) (payments (bil db)))
      (\<lambda>(r, rows). Inr (r, db\<lparr>bil := (bil db)\<lparr>payments := rows\<rparr>\<rparr>)))"

definition update_payments ::
  "'a env_scheme \<Rightarrow> string \<Rightarrow> (payment_row \<Rightarrow> bool) \<Rightarrow> string \<Rightarrow> 'z bdb_scheme \<Rightarrow> (nat \<times> 'z bdb_scheme) result" where
  "update_payments env q p status db = stmt env q
     (andThen (sql_update payment_chk p (\<lambda>r. r\<lparr>py_Status := status\<rparr>) (payments (bil db)))
      (\<lambda>(n, rows). Inr (n, db\<lparr>bil := (bil db)\<lparr>payments := rows\<rparr>\<rparr>)))"

definition FailLivePayment :: "'a env_scheme \<Rightarrow> uuid \<Rightarrow> 'z bdb_scheme \<Rightarrow> (nat \<times> 'z bdb_scheme) result" where
  "FailLivePayment env orderID db = update_payments env ''FailLivePayment''
     (\<lambda>r. py_OrderID r = orderID \<and> py_Status r = ''created'') ''failed'' db"

definition ReversePaidPayment :: "'a env_scheme \<Rightarrow> uuid \<Rightarrow> 'z bdb_scheme \<Rightarrow> (nat \<times> 'z bdb_scheme) result" where
  "ReversePaidPayment env orderID db = update_payments env ''ReversePaidPayment''
     (\<lambda>r. py_OrderID r = orderID \<and> py_Status r = ''paid'') ''reversed'' db"

definition CreateRefund ::
  "'a env_scheme \<Rightarrow> uuid \<Rightarrow> RefundRequest \<Rightarrow> 'z bdb_scheme \<Rightarrow> 'z bdb_scheme result" where
  "CreateRefund env orderID request db = stmt env ''CreateRefund''
     (andThen (sql_insert refund_chk (\<lambda>a b. rf_ID a = rf_ID b) (order_exists orderID (ord db))
        \<lparr>rf_ID = rowID env 0, rf_OrderID = orderID, rf_Amount = rq_Amount request,
         rf_Reason = optional (rq_Reason request), rf_Status = ''requested'', rf_DueAt = rq_DueAt request,
         rf_EvidenceURL = None, rf_BuyerConfirmedAt = None, rf_CreatedAt = rq_At request\<rparr> (refunds (bil db)))
      (\<lambda>rows. Inr (db\<lparr>bil := (bil db)\<lparr>refunds := rows\<rparr>\<rparr>)))"

definition refund_open :: "refund_row \<Rightarrow> bool" where
  "refund_open r \<longleftrightarrow> rf_Status r \<in> {''requested'', ''evidence_uploaded'', ''overdue''}"

definition store_CompleteRefund ::
  "'a env_scheme \<Rightarrow> time \<Rightarrow> uuid \<Rightarrow> 'z bdb_scheme \<Rightarrow> (refund_row \<times> 'z bdb_scheme) result" where
  "store_CompleteRefund env confirmedAt orderID db = stmt env ''CompleteRefund''
     (andThen (sql_update_one refund_chk (\<lambda>r. rf_OrderID r = orderID \<and> refund_open r)
        (\<lambda>r. r\<lparr>rf_Status := ''refunded'', rf_BuyerConfirmedAt := Some confirmedAt\<rparr>) (refunds (bil db)))
      (\<lambda>(r, rows). Inr (r, db\<lparr>bil := (bil db)\<lparr>refunds := rows\<rparr>\<rparr>)))"

definition CountOwnerCommissionEntries :: "'a env_scheme \<Rightarrow> uuid \<Rightarrow> billing \<Rightarrow> int result" where
  "CountOwnerCommissionEntries env ownerID b = stmt env ''CountOwnerCommissionEntries''
     (Inr (int (length (filter (\<lambda>r. cl_OwnerID r = ownerID) (commission_ledger b)))))"

definition CreateCommissionLedgerEntry ::
  "'a env_scheme \<Rightarrow> ledger_row \<Rightarrow> 'z bdb_scheme \<Rightarrow> 'z bdb_scheme result" where
  "CreateCommissionLedgerEntry env row db = stmt env ''CreateCommissionLedgerEntry''
     (andThen (sql_insert ledger_chk ledger_clash
        (order_exists (cl_OrderID row) (ord db) \<and> owner_exists (cl_OwnerID row) (loc db))
        row (commission_ledger (bil db)))
      (\<lambda>rows. Inr (db\<lparr>bil := (bil db)\<lparr>commission_ledger := rows\<rparr>\<rparr>)))"

section \<open>The settlement port\<close>

definition foundingFreeOrders :: int where "foundingFreeOrders = 10"

definition IssueInvoice :: "'a env_scheme \<Rightarrow> InvoiceRequest \<Rightarrow> 'z bdb_scheme \<Rightarrow> (invoice_row \<times> 'z bdb_scheme) result" where
  "IssueInvoice env request db =
     (case uuid_Parse env (ir_OrderID request) of None \<Rightarrow> Inl SettlementInvalid
      | Some orderID \<Rightarrow>
        if ir_TotalAmount request < 0 then Inl SettlementInvalid
        else store_IssueInvoice env orderID request db)"

definition RecordPaymentReceipt :: "'a env_scheme \<Rightarrow> ReceiptRequest \<Rightarrow> 'z bdb_scheme \<Rightarrow> 'z bdb_scheme result" where
  "RecordPaymentReceipt env request db =
     (case uuid_Parse env (re_OrderID request) of None \<Rightarrow> Inl SettlementInvalid
      | Some orderID \<Rightarrow>
        if re_ReceiptURL request = [] \<or> re_GoodsAmount request < 0 \<or> re_DeliveryFee request < 0
        then Inl SettlementInvalid
        else mapErr (\<lambda>e. if e = PgError ''23505'' then SettlementConflict else e)
               (CreateManualPayment env orderID request
                 (wrap64 (re_GoodsAmount request + re_DeliveryFee request)) db))"

definition SettlePayment :: "'a env_scheme \<Rightarrow> PaymentDecision \<Rightarrow> 'z bdb_scheme \<Rightarrow> 'z bdb_scheme result" where
  "SettlePayment env decision db =
     (case uuid_Parse env (pd_OrderID decision) of None \<Rightarrow> Inl SettlementInvalid
      | Some orderID \<Rightarrow>
        let status = (if pd_Accepted decision then ''paid'' else ''failed'') in
        andThen (mapErr (no_rows_is SettlementConflict)
                  (SettleManualPayment env status (pd_At decision) orderID db)) (\<lambda>(_, db1).
        if pd_Accepted decision
        then andThen (MarkInvoicePaid env orderID db1) (\<lambda>(_, db2). Inr db2)
        else Inr db1))"

definition CancelSettlement :: "'a env_scheme \<Rightarrow> string \<Rightarrow> 'z bdb_scheme \<Rightarrow> 'z bdb_scheme result" where
  "CancelSettlement env orderIDValue db =
     (case uuid_Parse env orderIDValue of None \<Rightarrow> Inl SettlementInvalid
      | Some orderID \<Rightarrow>
        andThen (VoidCurrentInvoice env orderID db) (\<lambda>(_, db1).
        andThen (FailLivePayment env orderID db1) (\<lambda>(_, db2). Inr db2)))"

definition OpenRefund :: "'a env_scheme \<Rightarrow> RefundRequest \<Rightarrow> 'z bdb_scheme \<Rightarrow> 'z bdb_scheme result" where
  "OpenRefund env request db =
     (case uuid_Parse env (rq_OrderID request) of None \<Rightarrow> Inl SettlementInvalid
      | Some orderID \<Rightarrow>
        if rq_Amount request \<le> 0 then Inl SettlementInvalid
        else CreateRefund env orderID request db)"

definition CompleteRefund :: "'a env_scheme \<Rightarrow> string \<Rightarrow> time \<Rightarrow> 'z bdb_scheme \<Rightarrow> 'z bdb_scheme result" where
  "CompleteRefund env orderIDValue tm db =
     (case uuid_Parse env orderIDValue of None \<Rightarrow> Inl SettlementInvalid
      | Some orderID \<Rightarrow>
        andThen (mapErr (no_rows_is SettlementConflict) (store_CompleteRefund env tm orderID db)) (\<lambda>(_, db1).
        andThen (ReversePaidPayment env orderID db1) (\<lambda>(_, db2).
        andThen (MarkInvoiceRefunded env orderID db2) (\<lambda>(_, db3). Inr db3))))"

definition AccrueCommission ::
  "'a env_scheme \<Rightarrow> CommissionRequest \<Rightarrow> 'z bdb_scheme \<Rightarrow> (CommissionAccrued \<times> 'z bdb_scheme) result" where
  "AccrueCommission env request db =
     (case uuid_Parse env (co_OrderID request) of None \<Rightarrow> Inl SettlementInvalid
      | Some orderID \<Rightarrow>
     case uuid_Parse env (co_OwnerID request) of None \<Rightarrow> Inl SettlementInvalid
      | Some ownerID \<Rightarrow>
        if co_BaseAmount request < 0 \<or> co_Accrued request < 0 \<or> co_RateBps request < 0
        then Inl SettlementInvalid
        else if co_BaseAmount request < co_Accrued request then Inl SettlementInvalid
        else
        andThen (stmt env ''LockOwnerCommissionLedger'' (Inr ())) (\<lambda>_.
        andThen (CountOwnerCommissionEntries env ownerID (bil db)) (\<lambda>completed.
        let sequence = wrap64 (completed + 1);
            discount = (if sequence \<le> foundingFreeOrders then co_Accrued request else 0);
            payable = wrap64 (co_Accrued request - discount) in
        andThen (mapErr (\<lambda>e. if e = PgError ''23505'' then SettlementConflict else e)
          (CreateCommissionLedgerEntry env
            \<lparr>cl_ID = rowID env 0, cl_OrderID = orderID, cl_OwnerID = ownerID,
             cl_BaseAmount = co_BaseAmount request, cl_RateBps = co_RateBps request,
             cl_Accrued = co_Accrued request, cl_Discount = discount, cl_Payable = payable,
             cl_InvoiceID = None, cl_CreatedAt = co_At request\<rparr> db)) (\<lambda>db1.
        Inr (\<lparr>ca_Accrued = co_Accrued request, ca_Discount = discount, ca_Payable = payable,
              ca_FreeOrder = (discount = co_Accrued request \<and> 0 < co_Accrued request),
              ca_Sequence = sequence\<rparr>, db1)))))"

section \<open>What the port keeps\<close>

definition billing_inv :: "billing \<Rightarrow> bool" where
  "billing_inv b \<longleftrightarrow> list_all invoice_chk (invoices b) \<and> distinct (map in_Number (invoices b)) \<and>
     distinct (map (\<lambda>r. (in_OrderID r, in_Version r)) (invoices b)) \<and>
     list_all payment_chk (payments b) \<and> distinct (map py_OrderID (filter live (payments b))) \<and>
     list_all refund_chk (refunds b) \<and>
     list_all ledger_chk (commission_ledger b) \<and> distinct (map cl_OrderID (commission_ledger b))"

text \<open>Only the billing schema changed, and its constraints still hold.\<close>

definition billing_step :: "'z bdb_scheme \<Rightarrow> 'z bdb_scheme \<Rightarrow> bool" where
  "billing_step db db' \<longleftrightarrow> db' = db\<lparr>bil := bil db'\<rparr> \<and> (billing_inv (bil db) \<longrightarrow> billing_inv (bil db'))"

lemma billing_step_refl [simp]: "billing_step db db"
  by (simp add: billing_step_def)

lemma billing_step_trans: "billing_step db db' \<Longrightarrow> billing_step db' db'' \<Longrightarrow> billing_step db db''"
  unfolding billing_step_def by (metis bdb.surjective bdb.update_convs(1))

lemma billing_step_frame:
  assumes "billing_step db db'"
  shows "plat db' = plat db" "loc db' = loc db" "cat db' = cat db" "ord db' = ord db"
    "billing_inv (bil db) \<Longrightarrow> billing_inv (bil db')"
proof -
  from assms have d: "db' = db\<lparr>bil := bil db'\<rparr>" by (simp add: billing_step_def)
  show "plat db' = plat db" "loc db' = loc db" "cat db' = cat db" "ord db' = ord db"
    by (subst d, simp)+
  show "billing_inv (bil db) \<Longrightarrow> billing_inv (bil db')" using assms by (simp add: billing_step_def)
qed

lemma distinct_filter_map:
  assumes "distinct (map k (filter P xs))" "\<And>x. k (h x) = k x" "\<And>x. P (h x) \<Longrightarrow> P x"
  shows "distinct (map k (filter P (map h xs)))"
  using assms(1)
proof (induction xs)
  case (Cons x xs)
  have "k ` {y \<in> h ` set xs. P y} \<subseteq> k ` {y \<in> set xs. P y}"
    using assms(2,3) by force
  then show ?case using Cons assms(2,3) [of x] by (cases "P x") (auto simp: o_def)
qed simp

lemma update_invoices_step:
  "update_invoices env q p status db = Inr (n, db') \<Longrightarrow> billing_step db db'"
  using update_chk [of invoice_chk "invoices (bil db)" p "\<lambda>r. r\<lparr>in_Status := status\<rparr>"]
    map_update_key [of in_Number "\<lambda>r. r\<lparr>in_Status := status\<rparr>" p "invoices (bil db)"]
    map_update_key [of "\<lambda>r. (in_OrderID r, in_Version r)" "\<lambda>r. r\<lparr>in_Status := status\<rparr>" p "invoices (bil db)"]
  by (auto simp: update_invoices_def sql_simps go_simps billing_step_def billing_inv_def simp del: map_map)

lemma payments_step:
  assumes "list_all (\<lambda>r. p r \<longrightarrow> payment_chk (f r)) (payments (bil db))"
    and "\<And>r. py_OrderID (f r) = py_OrderID r" "\<And>r. p r \<Longrightarrow> live (f r) \<Longrightarrow> live r"
  shows "billing_step db (db\<lparr>bil := (bil db)\<lparr>payments := map (\<lambda>r. if p r then f r else r) (payments (bil db))\<rparr>\<rparr>)"
proof -
  have "distinct (map py_OrderID (filter live (map (\<lambda>r. if p r then f r else r) (payments (bil db)))))"
    if "billing_inv (bil db)"
    using that assms(2,3) by (intro distinct_filter_map) (auto simp: billing_inv_def split: if_splits)
  then show ?thesis
    using update_chk [of payment_chk "payments (bil db)" p f] assms(1) by (auto simp: billing_step_def billing_inv_def simp del: map_map)
qed

lemma update_payments_step:
  assumes "update_payments env q p status db = Inr (n, db')" "status \<notin> {''created'', ''paid''}"
  shows "billing_step db db'"
  using assms
  by (auto simp: update_payments_def sql_simps go_simps live_def intro!: payments_step)

lemmas invoice_updates = MarkInvoicePaid_def MarkInvoiceRefunded_def VoidCurrentInvoice_def
lemmas payment_updates = FailLivePayment_def ReversePaidPayment_def

lemma invoice_updates_step:
  "MarkInvoicePaid env i db = Inr (n, db') \<Longrightarrow> billing_step db db'"
  "MarkInvoiceRefunded env i db = Inr (n, db') \<Longrightarrow> billing_step db db'"
  "VoidCurrentInvoice env i db = Inr (n, db') \<Longrightarrow> billing_step db db'"
  by (simp_all add: invoice_updates update_invoices_step)

lemma payment_updates_step:
  "FailLivePayment env i db = Inr (n, db') \<Longrightarrow> billing_step db db'"
  "ReversePaidPayment env i db = Inr (n, db') \<Longrightarrow> billing_step db db'"
  by (auto simp: payment_updates intro: update_payments_step)

lemma SettleManualPayment_step:
  "SettleManualPayment env status tm i db = Inr (r, db') \<Longrightarrow> billing_step db db'"
  by (auto simp: SettleManualPayment_def sql_simps go_simps live_def intro!: payments_step)

lemma store_IssueInvoice_step:
  "store_IssueInvoice env i request db = Inr (r, db') \<Longrightarrow> billing_step db db'"
  by (auto simp: store_IssueInvoice_def Let_def sql_simps go_simps billing_step_def billing_inv_def
      invoice_clash_def list_ex_iff)

lemma CreateManualPayment_step:
  "CreateManualPayment env i request amount db = Inr db' \<Longrightarrow> billing_step db db'"
  by (auto simp: CreateManualPayment_def sql_simps go_simps billing_step_def billing_inv_def
      payment_clash_def list_ex_iff live_def)

lemma CreateRefund_step: "CreateRefund env i request db = Inr db' \<Longrightarrow> billing_step db db'"
  by (auto simp: CreateRefund_def sql_simps go_simps billing_step_def billing_inv_def)

lemma store_CompleteRefund_step: "store_CompleteRefund env tm i db = Inr (r, db') \<Longrightarrow> billing_step db db'"
  using update_chk [of refund_chk "refunds (bil db)" "\<lambda>r. rf_OrderID r = i \<and> refund_open r"
      "\<lambda>r. r\<lparr>rf_Status := ''refunded'', rf_BuyerConfirmedAt := Some tm\<rparr>"]
  by (auto simp: store_CompleteRefund_def sql_simps go_simps billing_step_def billing_inv_def)

lemma CreateCommissionLedgerEntry_step: "CreateCommissionLedgerEntry env row db = Inr db' \<Longrightarrow> billing_step db db'"
  by (auto simp: CreateCommissionLedgerEntry_def sql_simps go_simps billing_step_def billing_inv_def
      ledger_clash_def list_ex_iff)

lemmas billing_query_steps = invoice_updates_step payment_updates_step SettleManualPayment_step
  store_IssueInvoice_step CreateManualPayment_step CreateRefund_step store_CompleteRefund_step
  CreateCommissionLedgerEntry_step

lemma settlement_steps:
  "IssueInvoice env request db = Inr (invc, db') \<Longrightarrow> billing_step db db'"
  "RecordPaymentReceipt env receipt db = Inr db' \<Longrightarrow> billing_step db db'"
  "SettlePayment env decision db = Inr db' \<Longrightarrow> billing_step db db'"
  "CancelSettlement env i db = Inr db' \<Longrightarrow> billing_step db db'"
  "OpenRefund env refund db = Inr db' \<Longrightarrow> billing_step db db'"
  "CompleteRefund env i tm db = Inr db' \<Longrightarrow> billing_step db db'"
  "AccrueCommission env commission db = Inr (acc, db') \<Longrightarrow> billing_step db db'"
  by (auto simp: IssueInvoice_def RecordPaymentReceipt_def SettlePayment_def CancelSettlement_def
      OpenRefund_def CompleteRefund_def AccrueCommission_def Let_def go_simps
      split: option.splits if_splits
      intro: billing_query_steps)
    (meson billing_query_steps billing_step_trans)+

section \<open>What the port does\<close>

subsection \<open>Commission\<close>

definition completed_orders :: "uuid \<Rightarrow> billing \<Rightarrow> nat" where
  "completed_orders ownerID b = length (filter (\<lambda>r. cl_OwnerID r = ownerID) (commission_ledger b))"

lemma AccrueCommission_Inr:
  assumes "AccrueCommission env request db = Inr (acc, db')"
    and "is_int64 (co_Accrued request)" "length (commission_ledger (bil db)) < 2 ^ 62"
  obtains orderID ownerID row where
    "uuid_Parse env (co_OrderID request) = Some orderID" "uuid_Parse env (co_OwnerID request) = Some ownerID"
    "commission_ledger (bil db') = commission_ledger (bil db) @ [row]"
    "cl_OrderID row = orderID" "cl_OwnerID row = ownerID" "cl_Accrued row = co_Accrued request"
    "cl_BaseAmount row = co_BaseAmount request"
    "ca_Sequence acc = int (completed_orders ownerID (bil db)) + 1"
    "cl_Discount row = (if completed_orders ownerID (bil db) < 10 then co_Accrued request else 0)"
    "cl_Payable row = (if completed_orders ownerID (bil db) < 10 then 0 else co_Accrued request)"
    "ca_Accrued acc = cl_Accrued row" "ca_Discount acc = cl_Discount row" "ca_Payable acc = cl_Payable row"
    "0 \<le> cl_Accrued row" "cl_Accrued row \<le> cl_BaseAmount row"
proof -
  have count: "completed_orders i (bil db) < 2 ^ 62" for i
    unfolding completed_orders_def by (rule le_less_trans [OF length_filter_le assms(3)])
  have w: "wrap64 (int (completed_orders i (bil db)) + 1) = int (completed_orders i (bil db)) + 1" for i
    using count [of i] by (intro wrap64_id) (simp add: is_int64_def)
  from assms(1) obtain orderID ownerID where
    p: "uuid_Parse env (co_OrderID request) = Some orderID" "uuid_Parse env (co_OwnerID request) = Some ownerID"
    by (auto simp: AccrueCommission_def split: option.splits)
  let ?n = "completed_orders ownerID (bil db)"
  let ?d = "if ?n < 10 then co_Accrued request else 0"
  let ?row = "\<lparr>cl_ID = rowID env 0, cl_OrderID = orderID, cl_OwnerID = ownerID,
             cl_BaseAmount = co_BaseAmount request, cl_RateBps = co_RateBps request,
             cl_Accrued = co_Accrued request, cl_Discount = ?d, cl_Payable = co_Accrued request - ?d,
             cl_InvoiceID = None, cl_CreatedAt = co_At request\<rparr>"
  have pay: "wrap64 (co_Accrued request - ?d) = co_Accrued request - ?d"
    using assms(2) by (intro wrap64_id) (simp add: is_int64_def)
  have "(wrap64 (int ?n + 1) \<le> foundingFreeOrders) = (?n < 10)"
    by (auto simp: w foundingFreeOrders_def)
  with assms(1) p pay have
    "commission_ledger (bil db') = commission_ledger (bil db) @ [?row] \<and>
     acc = \<lparr>ca_Accrued = co_Accrued request, ca_Discount = ?d, ca_Payable = co_Accrued request - ?d,
              ca_FreeOrder = (?d = co_Accrued request \<and> 0 < co_Accrued request),
              ca_Sequence = int ?n + 1\<rparr> \<and> 0 \<le> co_Accrued request \<and> co_Accrued request \<le> co_BaseAmount request"
    by (auto simp: AccrueCommission_def CountOwnerCommissionEntries_def CreateCommissionLedgerEntry_def
        completed_orders_def [symmetric] Let_def w sql_simps go_simps split: if_splits)
  then show thesis using p by (intro that [of orderID ownerID ?row]) auto
qed

subsection \<open>A verdict settles a payment once\<close>

definition undecided :: "uuid \<Rightarrow> billing \<Rightarrow> bool" where
  "undecided i b = list_ex (\<lambda>r. py_OrderID r = i \<and> py_Status r = ''created'') (payments b)"

definition payable_invoice :: "uuid \<Rightarrow> billing \<Rightarrow> bool" where
  "payable_invoice i b = list_ex (\<lambda>r. in_OrderID r = i \<and> in_Status r = ''issued'') (invoices b)"

lemma update_invoices_Inr:
  "update_invoices env q p status db = Inr (n, db') \<Longrightarrow> payments (bil db') = payments (bil db) \<and>
     invoices (bil db') = map (\<lambda>r. if p r then r\<lparr>in_Status := status\<rparr> else r) (invoices (bil db))"
  by (auto simp: update_invoices_def sql_simps go_simps)

lemma update_payments_Inr:
  "update_payments env q p status db = Inr (n, db') \<Longrightarrow> invoices (bil db') = invoices (bil db) \<and>
     payments (bil db') = map (\<lambda>r. if p r then r\<lparr>py_Status := status\<rparr> else r) (payments (bil db))"
  by (auto simp: update_payments_def sql_simps go_simps)

lemma SettlePayment_iff:
  "SettlePayment env decision db = Inr db' \<longleftrightarrow>
     (\<exists>i r db1. uuid_Parse env (pd_OrderID decision) = Some i \<and>
        SettleManualPayment env (if pd_Accepted decision then ''paid'' else ''failed'') (pd_At decision) i db
          = Inr (r, db1) \<and>
        (if pd_Accepted decision then \<exists>n. MarkInvoicePaid env i db1 = Inr (n, db') else db1 = db'))"
  by (cases "uuid_Parse env (pd_OrderID decision)"; cases "pd_Accepted decision")
     (simp_all add: SettlePayment_def andThen_eq_Inr mapErr_eq_Inr)

lemma SettleManualPayment_Inr:
  assumes "SettleManualPayment env status tm i db = Inr (r, db')" "status \<noteq> ''created''"
  shows "undecided i (bil db)" "\<not> undecided i (bil db')"
  using assms
  by (auto simp: SettleManualPayment_def sql_simps go_simps undecided_def list_ex_iff
      dest!: filter_first split: if_splits)

lemma no_longer_payable:
  assumes "update_invoices env q (\<lambda>r. in_OrderID r = i \<and> in_Status r = ''issued'') status db = Inr (n, db')"
    and "status \<noteq> ''issued''"
  shows "\<not> payable_invoice i (bil db')"
proof -
  have "\<not> list_ex (\<lambda>r. in_OrderID r = i \<and> in_Status r = ''issued'')
     (map (\<lambda>r. if in_OrderID r = i \<and> in_Status r = ''issued'' then r\<lparr>in_Status := status\<rparr> else r) xs)" for xs
    using assms(2) by (induction xs) auto
  then show ?thesis using update_invoices_Inr [OF assms(1)] by (simp add: payable_invoice_def)
qed

lemma no_longer_undecided:
  assumes "update_payments env q (\<lambda>r. py_OrderID r = i \<and> py_Status r = ''created'') status db = Inr (n, db')"
    and "status \<noteq> ''created''"
  shows "\<not> undecided i (bil db')"
proof -
  have "\<not> list_ex (\<lambda>r. py_OrderID r = i \<and> py_Status r = ''created'')
     (map (\<lambda>r. if py_OrderID r = i \<and> py_Status r = ''created'' then r\<lparr>py_Status := status\<rparr> else r) xs)" for xs
    using assms(2) by (induction xs) auto
  then show ?thesis using update_payments_Inr [OF assms(1)] by (simp add: undecided_def)
qed

lemma SettlePayment_Inr:
  assumes "SettlePayment env decision db = Inr db'"
  obtains i where "uuid_Parse env (pd_OrderID decision) = Some i" "undecided i (bil db)"
    "\<not> undecided i (bil db')" "pd_Accepted decision \<Longrightarrow> \<not> payable_invoice i (bil db')"
proof -
  let ?s = "if pd_Accepted decision then ''paid'' else ''failed''"
  from assms obtain i r db1 where
    i: "uuid_Parse env (pd_OrderID decision) = Some i" and
    s: "SettleManualPayment env ?s (pd_At decision) i db = Inr (r, db1)" and
    m: "if pd_Accepted decision then \<exists>n. MarkInvoicePaid env i db1 = Inr (n, db') else db1 = db'"
    by (simp only: SettlePayment_iff) blast
  have "?s \<noteq> ''created''" by simp
  note u = SettleManualPayment_Inr(1) [OF s this] and d = SettleManualPayment_Inr(2) [OF s this]
  from m d have "\<not> undecided i (bil db')"
    by (auto simp: undecided_def MarkInvoicePaid_def split: if_splits dest: update_invoices_Inr)
  moreover have "\<not> payable_invoice i (bil db')" if "pd_Accepted decision"
  proof -
    from m that obtain n where "MarkInvoicePaid env i db1 = Inr (n, db')" by auto
    then show ?thesis unfolding MarkInvoicePaid_def by (rule no_longer_payable) simp
  qed
  ultimately show thesis using that [OF i u] by simp
qed

lemma SettlePayment_decided:
  assumes "uuid_Parse env (pd_OrderID decision) = Some i" "\<not> undecided i (bil db)"
    and "fault env ''SettleManualPayment'' = None"
  shows "SettlePayment env decision db = Inl SettlementConflict"
  using assms
  by (simp add: SettlePayment_def SettleManualPayment_def Let_def undecided_def list_ex_iff
      sql_update_one_NoRows no_rows_is_def)

lemma CancelSettlement_Inr:
  assumes "CancelSettlement env oid db = Inr db'" "uuid_Parse env oid = Some i"
  shows "\<not> undecided i (bil db')" "\<not> payable_invoice i (bil db')"
proof -
  from assms have "andThen (VoidCurrentInvoice env i db) (\<lambda>(_, db1).
      andThen (FailLivePayment env i db1) (\<lambda>(_, db2). Inr db2)) = Inr db'"
    by (simp add: CancelSettlement_def)
  then obtain n db1 m where v: "VoidCurrentInvoice env i db = Inr (n, db1)"
    and f: "FailLivePayment env i db1 = Inr (m, db')"
    by (elim andThen_pairE) simp
  from f show "\<not> undecided i (bil db')"
    unfolding FailLivePayment_def by (rule no_longer_undecided) simp
  from v have "\<not> payable_invoice i (bil db1)"
    unfolding VoidCurrentInvoice_def by (rule no_longer_payable) simp
  with update_payments_Inr [OF f [unfolded FailLivePayment_def]]
  show "\<not> payable_invoice i (bil db')" by (simp add: payable_invoice_def)
qed

text \<open>A second payment is refused while one is live.\<close>

lemma RecordPaymentReceipt_live:
  assumes "uuid_Parse env (re_OrderID request) = Some i" "p \<in> set (payments (bil db))" "live p"
    "py_OrderID p = i" "re_ReceiptURL request \<noteq> []" "0 \<le> re_GoodsAmount request" "0 \<le> re_DeliveryFee request"
    "is_int64 (re_GoodsAmount request + re_DeliveryFee request)" "fault env ''CreateManualPayment'' = None"
  shows "RecordPaymentReceipt env request db = Inl SettlementConflict"
  using assms
  by (auto simp: RecordPaymentReceipt_def CreateManualPayment_def sql_insert_def payment_chk_def
      payment_clash_def list_ex_iff live_def wrap64_id)

subsection \<open>Invoice numbers\<close>

lemma length_decimal: "10 ^ k \<le> n \<Longrightarrow> n < 10 ^ Suc k \<Longrightarrow> length (decimal n) = Suc k"
proof (induction k arbitrary: n)
  case 0
  then show ?case by (simp add: decimal.simps [of n])
next
  case (Suc k)
  then have "10 ^ k \<le> n div 10" "n div 10 < 10 ^ Suc k" by simp_all
  with Suc.IH have "length (decimal (n div 10)) = Suc k" by blast
  moreover have "\<not> n < 10" using Suc.prems(1) order_trans [of 10 "10 ^ Suc k" n] by simp
  ultimately show ?case by (simp add: decimal.simps [of n])
qed

text \<open>\<open>lpad\<close> cuts a seventh digit off: ten numbers in a row read the same.\<close>

lemma invoice_number_cut:
  assumes "10 ^ 6 \<le> n" "n < 10 ^ 7"
  shows "invoice_number L tm n = ''BINNO-'' @ to_char_date L tm @ ''-'' @ decimal (n div 10)"
proof -
  have "10 ^ 5 \<le> n div 10" "n div 10 < 10 ^ 6" using assms by simp_all
  then have l: "length (decimal (n div 10)) = 6" using length_decimal [of 5 "n div 10"] by simp
  have "decimal n = decimal (n div 10) @ [char_of (48 + n mod 10)]"
    using assms by (subst decimal.simps) simp
  then show ?thesis by (simp add: invoice_number_def lpad_def l)
qed

lemma IssueInvoice_number_taken:
  assumes "r \<in> set (invoices (bil db))"
    and "in_Number r = invoice_number env (ir_IssuedAt request) (Suc (invoice_number_seq (bil db)))"
    and "uuid_Parse env (ir_OrderID request) = Some i" "0 \<le> ir_TotalAmount request"
    and "fault env ''IssueInvoice'' = None"
  shows "IssueInvoice env request db = Inl (PgError ''23505'')"
proof -
  have m: "a \<le> fold max xs a" for xs :: "int list" and a
    by (induction xs arbitrary: a) (auto intro: order_trans max.cobounded2)
  have "0 < next_version i (invoices (bil db))" using m [of 0] by (simp add: next_version_def add_pos_nonneg zless_add1_eq add.commute)
  moreover have "\<exists>x \<in> set (invoices (bil db)).
      invoice_number env (ir_IssuedAt request) (Suc (invoice_number_seq (bil db))) = in_Number x"
    by (rule bexI [of _ r]) (simp_all add: assms(1,2))
  ultimately show ?thesis using assms(3-5)
    by (auto simp: IssueInvoice_def store_IssueInvoice_def Let_def sql_insert_def invoice_chk_def
        invoice_clash_def list_ex_iff)
qed

end
