(* ===== verification/OrdersRepo.thy ===== *)
theory OrdersRepo
  imports Billing
begin

text \<open>
  The order repository (\<open>internal/modules/orders/repository.go\<close>): placing an order, the one
  transition engine every later request goes through, the SMS token, and what each transition
  does to the stock, the settlement and the outbox. Every function of this theory runs inside
  one transaction of \<open>Sql.commit\<close>.
\<close>

section \<open>Commands\<close>

record ItemInput =
  it_ProductID :: string
  it_Qty :: string

record CreateInput =
  ci_StoreID :: string
  ci_BuyerType :: string
  ci_BuyerTIN :: string
  ci_Fulfillment :: string
  ci_DropoffAddress :: string
  ci_DistrictID :: int
  ci_Items :: "ItemInput list"
  ci_Dropoff :: "(rat \<times> rat) option"
  ci_Urgent :: bool

record CreateCommand = CreateInput +
  cc_BuyerID :: string
  cc_At :: time

record Created =
  cd_OrderID :: string
  cd_Status :: Status
  cd_GoodsAmount :: int
  cd_DeliveryFee :: int
  cd_TotalAmount :: int
  cd_SupplierConfirmationDeadline :: time

record TransitionCommand =
  tc_OrderID :: string
  tc_Trigger :: Trigger
  tc_Reason :: string
  tc_ReceiptURL :: string
  tc_PickupCode :: string
  tc_PickupSignatureURL :: string
  tc_At :: time

definition command :: "string \<Rightarrow> Trigger \<Rightarrow> string \<Rightarrow> time \<Rightarrow> TransitionCommand" where
  "command orderID trigger reason tm = \<lparr>tc_OrderID = orderID, tc_Trigger = trigger, tc_Reason = reason,
     tc_ReceiptURL = [], tc_PickupCode = [], tc_PickupSignatureURL = [], tc_At = tm\<rparr>"

definition fulfilDelivery :: string where "fulfilDelivery = ''delivery''"
definition fulfilPickup :: string where "fulfilPickup = ''pickup''"

definition defaultPaymentWindow :: int where "defaultPaymentWindow = 72 * 60 * minute"
definition defaultRefundWindow :: int where "defaultRefundWindow = 72 * 60 * minute"

section \<open>Errors\<close>

definition IsRetryableConflict :: "go_error \<Rightarrow> bool" where
  "IsRetryableConflict e \<longleftrightarrow> e \<in> {PgError ''40001'', PgError ''40P01''}"

definition IsContentionTimeout :: "go_error \<Rightarrow> bool" where
  "IsContentionTimeout e \<longleftrightarrow> e \<in> {PgError ''55P03'', PgError ''57014''}"

definition classifyContention :: "go_error \<Rightarrow> go_error option" where
  "classifyContention e = (if IsRetryableConflict e then Some OrdersConflict
     else if IsContentionTimeout e then Some OrdersUnavailable else None)"

definition mapError :: "go_error \<Rightarrow> go_error" where
  "mapError e = (if e = NoRows then OrdersNotFound
     else case classifyContention e of Some e' \<Rightarrow> e' | None \<Rightarrow>
       if e \<in> {PgError ''23505'', PgError ''23503'', PgError ''23514''} then OrdersConflict else e)"

definition mapCatalogError :: "go_error \<Rightarrow> go_error" where
  "mapCatalogError e = (if e = OfferUnavailable \<or> e = TariffUnavailable then OrdersConflict
     else if e = CatalogInvalid then OrdersInvalid
     else case classifyContention e of Some e' \<Rightarrow> e' | None \<Rightarrow> e)"

definition mapDedupError :: "go_error \<Rightarrow> go_error" where
  "mapDedupError e = (if e = DedupKeyReuse then OrdersConflict else e)"

definition mapLocationError :: "go_error \<Rightarrow> go_error" where
  "mapLocationError e = (if e = OwnerBlocked \<or> e = StoreUnavailable then OrdersConflict else e)"

definition mapSettlementError :: "go_error \<Rightarrow> go_error" where
  "mapSettlementError e = (if e = SettlementConflict then OrdersConflict
     else if e = SettlementInvalid then OrdersInvalid else e)"

section \<open>Placing an order\<close>

definition requestedLines :: "ItemInput list \<Rightarrow> RequestedLine list" where
  "requestedLines items = map (\<lambda>i. \<lparr>rl_ProductID = it_ProductID i, rl_Qty = it_Qty i\<rparr>) items"

definition order_of :: "CreateCommand \<Rightarrow> Quote \<Rightarrow> uuid \<Rightarrow> uuid \<Rightarrow> uuid \<Rightarrow> order_row" where
  "order_of cmd quote orderID buyerID storeID =
     \<lparr>or_ID = orderID, or_BuyerID = buyerID, or_StoreID = storeID, or_Status = StatusCreated,
      or_BuyerType = ci_BuyerType cmd, or_BuyerTin = optional (ci_BuyerTIN cmd),
      or_Fulfillment = ci_Fulfillment cmd, or_IsUrgent = ci_Urgent cmd,
      or_GoodsAmount = q_GoodsAmount quote, or_DeliveryFee = q_DeliveryFee quote,
      or_TotalAmount = q_TotalAmount quote, or_Dropoff = ci_Dropoff cmd,
      or_DropoffAddress = optional (ci_DropoffAddress cmd), or_DistrictID = Some (ci_DistrictID cmd),
      or_SupplierConfirmationDeadline = q_ConfirmationDeadline quote, or_PaymentDueAt = None,
      or_CreatedAt = cc_At cmd, or_ClosedAt = None\<rparr>"

text \<open>One turn of the loop over the quoted lines, with the number of the line.\<close>

definition create_item ::
  "'a env_scheme \<Rightarrow> catalog \<Rightarrow> uuid \<Rightarrow> nat \<times> QuotedLine \<Rightarrow> order_tables \<Rightarrow> order_tables result" where
  "create_item env ct orderID = (\<lambda>(n, line) ot.
     case Numeric_Scan env (ql_Qty line) of None \<Rightarrow> Inl OrdersInvalid
     | Some quantity \<Rightarrow> mapErr mapError
        (andThen (not_null (uuid_Parse env (ql_ProductID line))) (\<lambda>productID.
         store_CreateOrderItem env
           \<lparr>oi_ID = rowID env n, oi_OrderID = orderID, oi_ProductID = productID, oi_Qty = quantity,
            oi_UnitPrice = ql_UnitPrice line, oi_LineAmount = ql_LineAmount line,
            oi_CommissionBps = ql_CommissionBps line\<rparr> ct ot)))"

text \<open>The rows of a new order: the order, its items, its first event, its token.\<close>

definition insert_order ::
  "'a env_scheme \<Rightarrow> CreateCommand \<Rightarrow> uuid \<Rightarrow> Quote \<Rightarrow> 'z odb_scheme \<Rightarrow> order_tables result" where
  "insert_order env cmd orderID quote db =
     andThen (mapErr mapError
       (andThen (not_null (uuid_Parse env (cc_BuyerID cmd))) (\<lambda>buyerID.
        andThen (not_null (uuid_Parse env (ci_StoreID cmd))) (\<lambda>storeID.
        store_CreateOrder env (order_of cmd quote orderID buyerID storeID) db)))) (\<lambda>ot1.
     andThen (foldE (create_item env (cat db) orderID) (enumerate 0 (q_Lines quote)) ot1) (\<lambda>ot2.
     mapErr mapError (AppendOrderEvent env
       \<lparr>oe_OrderID = orderID, oe_FromStatus = None, oe_ToStatus = StatusCreated,
        oe_Actor = ActorBuyer, oe_Source = SourceApp, oe_Payload = None, oe_CreatedAt = cc_At cmd\<rparr> ot2)))"

definition insert_token ::
  "'a env_scheme \<Rightarrow> CreateCommand \<Rightarrow> uuid \<Rightarrow> Quote \<Rightarrow> string \<Rightarrow> location \<Rightarrow> order_tables \<Rightarrow> order_tables result" where
  "insert_token env cmd orderID quote token lc ot = mapErr mapError
     (andThen (not_null (uuid_Parse env (ci_StoreID cmd))) (\<lambda>storeID.
      CreateConfirmToken env
        \<lparr>tk_TokenHash = sha256_hex env token, tk_OrderID = orderID, tk_StoreID = storeID,
         tk_ExpiresAt = q_ConfirmationDeadline quote, tk_UsedAt = None\<rparr> lc ot))"

text \<open>
  \<open>OrderNeedsConfirmation\<close>: the number and the text sent, when the process has SMS delivery
  (\<open>notify\<close> is the link prefix) and the store a phone. It runs after the commit.
\<close>

definition OrderNeedsConfirmation ::
  "string option \<Rightarrow> string \<Rightarrow> string \<Rightarrow> string \<Rightarrow> (string \<times> string) option" where
  "OrderNeedsConfirmation notify orderID storePhone token =
     (case notify of None \<Rightarrow> None
      | Some linkBase \<Rightarrow> if storePhone = [] then None
        else Some (storePhone, ''BINNO: yangi buyurtma. Tasdiqlash: '' @ linkBase @ ''/'' @ orderID
                               @ ''?token='' @ token))"

definition replayCreated :: "'a env_scheme \<Rightarrow> uuid \<Rightarrow> order_tables \<Rightarrow> Created result" where
  "replayCreated env orderID ot =
     andThen (mapErr mapError (GetOrder env orderID ot)) (\<lambda>order.
       Inr \<lparr>cd_OrderID = uuid_String env orderID, cd_Status = or_Status order,
            cd_GoodsAmount = or_GoodsAmount order, cd_DeliveryFee = or_DeliveryFee order,
            cd_TotalAmount = or_TotalAmount order,
            cd_SupplierConfirmationDeadline = or_SupplierConfirmationDeadline order\<rparr>)"

definition reserve_request :: "CreateCommand \<Rightarrow> ReserveRequest" where
  "reserve_request cmd = \<lparr>rr_StoreID = ci_StoreID cmd, rr_DistrictID = ci_DistrictID cmd,
     rr_Delivery = (ci_Fulfillment cmd = fulfilDelivery), rr_Lines = requestedLines (ci_Items cmd),
     rr_At = cc_At cmd\<rparr>"

text \<open>The body of the transaction of a request that is not a replay.\<close>

definition place_order ::
  "'a env_scheme \<Rightarrow> string option \<Rightarrow> CreateCommand \<Rightarrow> uuid \<Rightarrow> platform \<Rightarrow> 'z bdb_scheme \<Rightarrow>
     ((Created \<times> (string \<times> string) option) \<times> 'z bdb_scheme) result" where
  "place_order env notify cmd orderID p1 db =
     (case ResolveSellerForOrder env (ci_StoreID cmd) (loc db) of
        (seller, Some e) \<Rightarrow> Inl (mapLocationError e)
      | (seller, None) \<Rightarrow>
      andThen (mapErr mapCatalogError (ReserveOrderLines env (reserve_request cmd) (cat db))) (\<lambda>(quote, ct).
      andThen (insert_order env cmd orderID quote (db\<lparr>cat := ct\<rparr>)) (\<lambda>ot1.
      andThen (rand_token env) (\<lambda>token.
      andThen (insert_token env cmd orderID quote token (loc db) ot1) (\<lambda>ot2.
      andThen (Write env ''orders'' (uuid_String env orderID)
        (OrderCreatedPayload (ci_StoreID cmd) (cc_BuyerID cmd) (q_GoodsAmount quote) (q_DeliveryFee quote)
           (q_TotalAmount quote) (int (length (q_Lines quote))) (ci_Urgent cmd)
           (q_ConfirmationDeadline quote)) p1) (\<lambda>p2.
      stmt env ''commit'' (Inr
        ((\<lparr>cd_OrderID = uuid_String env orderID, cd_Status = StatusCreated,
           cd_GoodsAmount = q_GoodsAmount quote, cd_DeliveryFee = q_DeliveryFee quote,
           cd_TotalAmount = q_TotalAmount quote,
           cd_SupplierConfirmationDeadline = q_ConfirmationDeadline quote\<rparr>,
          OrderNeedsConfirmation notify (uuid_String env orderID) (sl_Phone seller) token),
         db\<lparr>plat := p2, cat := ct, ord := ot2\<rparr>))))))))"

definition Repository_Create ::
  "'a env_scheme \<Rightarrow> string option \<Rightarrow> ctx \<Rightarrow> CreateCommand \<Rightarrow> 'z bdb_scheme \<Rightarrow>
     (Created \<times> (string \<times> string) option) result \<times> 'z bdb_scheme" where
  "Repository_Create env notify c cmd db = commit db (stmt env ''begin''
     (let orderID = newID env in
      andThen (ReserveNew env (OperationKey c) orderID (cc_At cmd) (plat db)) (\<lambda>((replay, existingID), p1).
      if replay then andThen (replayCreated env existingID (ord db)) (\<lambda>created. Inr ((created, None), db))
      else place_order env notify cmd orderID p1 db)))"

section \<open>Stock\<close>

definition orderLines :: "'a env_scheme \<Rightarrow> order_item list \<Rightarrow> RequestedLine list" where
  "orderLines env items = map (\<lambda>i. \<lparr>rl_ProductID = uuid_String env (oi_ProductID i),
     rl_Qty = Numeric_Value env (oi_Qty i)\<rparr>) items"

definition releaseStock :: "'a env_scheme \<Rightarrow> order_row \<Rightarrow> 'z bdb_scheme \<Rightarrow> 'z bdb_scheme result" where
  "releaseStock env order db =
     andThen (mapErr mapError (ListOrderItems env (or_ID order) (ord db))) (\<lambda>items.
     let ls = orderLines env items in
     if ls = [] then Inr db
     else andThen (ReleaseOrderLines env
            \<lparr>rel_StoreID = uuid_String env (or_StoreID order), rel_Lines = ls\<rparr> (cat db)) (\<lambda>(_, ct).
          Inr (db\<lparr>cat := ct\<rparr>)))"

definition consumeStock :: "'a env_scheme \<Rightarrow> order_row \<Rightarrow> 'z bdb_scheme \<Rightarrow> 'z bdb_scheme result" where
  "consumeStock env order db =
     andThen (mapErr mapError (ListOrderItems env (or_ID order) (ord db))) (\<lambda>items.
     let ls = orderLines env items in
     if ls = [] then Inr db
     else andThen (ConsumeOrderLines env
            \<lparr>rel_StoreID = uuid_String env (or_StoreID order), rel_Lines = ls\<rparr> (cat db)) (\<lambda>(_, ct).
          Inr (db\<lparr>cat := ct\<rparr>)))"

section \<open>Settlement\<close>

definition issueInvoice :: "'a env_scheme \<Rightarrow> order_row \<Rightarrow> time \<Rightarrow> 'z bdb_scheme \<Rightarrow> 'z bdb_scheme result" where
  "issueInvoice env order tm db =
     (case ResolveSellerForOrder env (uuid_String env (or_StoreID order)) (loc db) of
        (seller, Some e) \<Rightarrow> Inl (mapLocationError e)
      | (seller, None) \<Rightarrow>
        andThen (mapErr mapSettlementError (IssueInvoice env
          \<lparr>ir_OrderID = uuid_String env (or_ID order), ir_TotalAmount = or_TotalAmount order,
           ir_Payee = \<lparr>pe_OwnerID = sl_OwnerID seller, pe_StoreID = sl_StoreID seller,
             pe_StoreName = sl_StoreName seller, pe_LegalName = sl_LegalName seller,
             pe_TIN = sl_TIN seller, pe_BankAccount = sl_BankAccount seller, pe_MFO = sl_MFO seller\<rparr>,
           ir_Payer = \<lparr>pa_BuyerID = uuid_String env (or_BuyerID order),
             pa_BuyerType = or_BuyerType order, pa_TIN = deref (or_BuyerTin order)\<rparr>,
           ir_IssuedAt = tm, ir_ExpiresAt = tm + defaultPaymentWindow\<rparr> db)) (\<lambda>(_, db1).
        andThen (mapErr mapError
          (SetOrderPaymentDue env (tm + defaultPaymentWindow) (or_ID order) (ord db1))) (\<lambda>ot.
        Inr (db1\<lparr>ord := ot\<rparr>))))"

text \<open>The sum of the lines' charges, each rounded, in 64 bits.\<close>

definition charge_line :: "order_item \<Rightarrow> int \<Rightarrow> int result" where
  "charge_line item accrued =
     andThen (ApplyBasisPoints (oi_LineAmount item) (oi_CommissionBps item)) (\<lambda>charge.
       Inr (wrap64 (accrued + charge)))"

definition maxRateBps :: int where "maxRateBps = 10000"

definition effectiveRateBps :: "int \<Rightarrow> int \<Rightarrow> int" where
  "effectiveRateBps base accrued =
     (if base \<le> 0 \<or> accrued \<le> 0 then 0
      else let rate = wrap64 (wrap64 (accrued * maxRateBps) + base sdiv 2) sdiv base
           in if maxRateBps \<le> rate then maxRateBps else signed_take_bit 31 rate)"

definition rateForLines :: "order_item list \<Rightarrow> int \<Rightarrow> int \<Rightarrow> int" where
  "rateForLines items base accrued =
     (case items of
        [] \<Rightarrow> effectiveRateBps base accrued
      | item # rest \<Rightarrow>
        if list_all (\<lambda>i. oi_CommissionBps i = oi_CommissionBps item) rest then oi_CommissionBps item
        else effectiveRateBps base accrued)"

definition accrueCommission :: "'a env_scheme \<Rightarrow> order_row \<Rightarrow> time \<Rightarrow> 'z bdb_scheme \<Rightarrow> 'z bdb_scheme result" where
  "accrueCommission env order tm db =
     andThen (mapErr mapError (ListOrderItems env (or_ID order) (ord db))) (\<lambda>items.
     andThen (foldE charge_line items 0) (\<lambda>accrued.
     let (seller, err) = ResolveSellerForOrder env (uuid_String env (or_StoreID order)) (loc db);
         request = \<lparr>co_OrderID = uuid_String env (or_ID order), co_OwnerID = sl_OwnerID seller,
           co_BaseAmount = or_GoodsAmount order, co_Accrued = accrued,
           co_RateBps = rateForLines items (or_GoodsAmount order) accrued, co_At = tm\<rparr>;
         accrue = andThen (mapErr mapSettlementError (AccrueCommission env request db)) (\<lambda>(_, db1). Inr db1)
     in case err of
          Some e \<Rightarrow> if sl_OwnerID seller = [] then Inl (mapLocationError e) else accrue
        | None \<Rightarrow> accrue))"

fun settle ::
  "'a env_scheme \<Rightarrow> order_row \<Rightarrow> Trigger \<Rightarrow> TransitionCommand \<Rightarrow> 'z bdb_scheme \<Rightarrow> 'z bdb_scheme result" where
  "settle env order TriggerIssueInvoice cmd db = issueInvoice env order (tc_At cmd) db"
| "settle env order TriggerSubmitReceipt cmd db = mapErr mapSettlementError (RecordPaymentReceipt env
     \<lparr>re_OrderID = uuid_String env (or_ID order), re_ReceiptURL = tc_ReceiptURL cmd,
      re_GoodsAmount = or_GoodsAmount order, re_DeliveryFee = or_DeliveryFee order, re_At = tc_At cmd\<rparr> db)"
| "settle env order TriggerConfirmPayment cmd db = mapErr mapSettlementError (SettlePayment env
     \<lparr>pd_OrderID = uuid_String env (or_ID order), pd_Accepted = True, pd_At = tc_At cmd\<rparr> db)"
| "settle env order TriggerRejectPayment cmd db = mapErr mapSettlementError (SettlePayment env
     \<lparr>pd_OrderID = uuid_String env (or_ID order), pd_Accepted = False, pd_At = tc_At cmd\<rparr> db)"
| "settle env order TriggerCloseOrder cmd db = accrueCommission env order (tc_At cmd) db"
| "settle env order TriggerBuyerCancel cmd db =
     mapErr mapSettlementError (CancelSettlement env (uuid_String env (or_ID order)) db)"
| "settle env order TriggerOperatorCancel cmd db =
     mapErr mapSettlementError (CancelSettlement env (uuid_String env (or_ID order)) db)"
| "settle env order TriggerPaymentExpire cmd db =
     mapErr mapSettlementError (CancelSettlement env (uuid_String env (or_ID order)) db)"
| "settle env order TriggerRefundRequest cmd db = mapErr mapSettlementError (OpenRefund env
     \<lparr>rq_OrderID = uuid_String env (or_ID order), rq_Amount = or_TotalAmount order,
      rq_Reason = tc_Reason cmd, rq_At = tc_At cmd, rq_DueAt = tc_At cmd + defaultRefundWindow\<rparr> db)"
| "settle env order TriggerConfirmRefund cmd db =
     mapErr mapSettlementError (CompleteRefund env (uuid_String env (or_ID order)) (tc_At cmd) db)"
| "settle env order _ cmd db = Inr db"

section \<open>The transition engine\<close>

text \<open>The keys of a JSON object are written in their order.\<close>

definition eventPayload :: "TransitionCommand \<Rightarrow> (string \<times> string) list option" where
  "eventPayload cmd =
     (let fields = filter (\<lambda>(k, v). v \<noteq> [])
            [(''pickup_code'', tc_PickupCode cmd), (''pickup_signature_url'', tc_PickupSignatureURL cmd),
             (''reason'', tc_Reason cmd), (''receipt_url'', tc_ReceiptURL cmd)]
      in if fields = [] then None else Some fields)"

definition transition ::
  "'a env_scheme \<Rightarrow> order_row \<Rightarrow> Trigger \<Rightarrow> Transition \<Rightarrow> TransitionCommand \<Rightarrow> 'z bdb_scheme \<Rightarrow>
     (order_row \<times> 'z bdb_scheme) result" where
  "transition env order trigger tr cmd db =
     andThen (mapErr (\<lambda>e. if e = NoRows then OrdersConflict else mapError e)
       (TransitionOrder env (To tr) (tc_At cmd) (or_ID order) (or_Status order) (ord db))) (\<lambda>(updated, ot1).
     andThen (mapErr mapError (AppendOrderEvent env
       \<lparr>oe_OrderID = or_ID order, oe_FromStatus = Some (or_Status order), oe_ToStatus = To tr,
        oe_Actor = ActorOf tr, oe_Source = SourceOf tr, oe_Payload = eventPayload cmd,
        oe_CreatedAt = tc_At cmd\<rparr> ot1)) (\<lambda>ot2.
     andThen (if ReleasesStock tr then releaseStock env order (db\<lparr>ord := ot2\<rparr>) else Inr (db\<lparr>ord := ot2\<rparr>)) (\<lambda>db2.
     andThen (if ConsumesStock tr then consumeStock env order db2 else Inr db2) (\<lambda>db3.
     andThen (settle env updated trigger cmd db3) (\<lambda>db4.
     if Event tr = no_event then Inr (updated, db4)
     else
     andThen (Write env ''orders'' (uuid_String env (or_ID order))
       (OrderStatusChangedPayload (uuid_String env (or_StoreID order)) (uuid_String env (or_BuyerID order))
          (status_text (or_Status order)) (status_text (To tr)) (actor_text (ActorOf tr))
          (source_text (SourceOf tr)) (tc_Reason cmd) (Event tr)) (plat db4)) (\<lambda>p.
     Inr (updated, db4\<lparr>plat := p\<rparr>)))))))"

definition runTransition ::
  "'a env_scheme \<Rightarrow> order_row \<Rightarrow> Trigger \<Rightarrow> TransitionCommand \<Rightarrow> 'z bdb_scheme \<Rightarrow> 'z bdb_scheme result" where
  "runTransition env order trigger cmd db =
     (case TransitionFor trigger of None \<Rightarrow> Inl (OtherError ''orders: unknown trigger'')
      | Some tr \<Rightarrow>
        if \<not> Permits tr (or_Status order) then Inl OrdersConflict
        else andThen (transition env order trigger tr cmd db) (\<lambda>(updated, db1).
          case Then tr of None \<Rightarrow> Inr db1
          | Some t' \<Rightarrow>
            (case TransitionFor t' of None \<Rightarrow> Inl (OtherError ''orders: unknown follow-on'')
             | Some follow \<Rightarrow>
               if Then follow \<noteq> None then Inl (OtherError ''orders: follow-on may not declare its own'')
               else if \<not> Permits follow (or_Status updated) then Inl OrdersConflict
               else andThen (transition env updated t' follow cmd db1) (\<lambda>(_, db2). Inr db2))))"

definition Repository_Apply ::
  "'a env_scheme \<Rightarrow> ctx \<Rightarrow> TransitionCommand \<Rightarrow> 'z bdb_scheme \<Rightarrow> unit result \<times> 'z bdb_scheme" where
  "Repository_Apply env c cmd db =
     (case TransitionFor (tc_Trigger cmd) of None \<Rightarrow> (Inl (OtherError ''orders: unknown trigger''), db)
      | Some _ \<Rightarrow>
     case uuid_Parse env (tc_OrderID cmd) of None \<Rightarrow> (Inl OrdersInvalid, db)
      | Some orderID \<Rightarrow> commit db (stmt env ''begin''
        (andThen (mapErr mapDedupError
          (ReserveFor env (OperationKey c) orderID (tc_At cmd) (plat db))) (\<lambda>(replay, p1).
         if replay then Inr ((), db)
         else
         andThen (mapErr (\<lambda>e. if e = NoRows then OrdersNotFound else mapError e)
           (GetOrderForUpdate env orderID (ord db))) (\<lambda>order.
         andThen (runTransition env order (tc_Trigger cmd) cmd (db\<lparr>plat := p1\<rparr>)) (\<lambda>db1.
         stmt env ''commit'' (Inr ((), db1))))))))"

definition Repository_ConfirmToken ::
  "'a env_scheme \<Rightarrow> ctx \<Rightarrow> string \<Rightarrow> string \<Rightarrow> time \<Rightarrow> 'z bdb_scheme \<Rightarrow> unit result \<times> 'z bdb_scheme" where
  "Repository_ConfirmToken env c i token tm db =
     (case TransitionFor TriggerTokenConfirm of
        None \<Rightarrow> (Inl (OtherError ''orders: token confirm trigger is not registered''), db)
      | Some _ \<Rightarrow>
     case uuid_Parse env i of None \<Rightarrow> (Inl OrdersInvalid, db)
      | Some orderID \<Rightarrow> commit db (stmt env ''begin''
        (andThen (mapErr mapDedupError
          (ReserveFor env (OperationKey c) orderID tm (plat db))) (\<lambda>(replay, p1).
         if replay then Inr ((), db)
         else
         andThen (mapErr (\<lambda>e. if e = NoRows then OrdersGone else mapError e)
           (ConsumeConfirmToken env (sha256_hex env token) tm (ord db))) (\<lambda>(consumed, ot1).
         if uuid_String env (tk_OrderID consumed) \<noteq> i then Inl OrdersConflict
         else
         andThen (mapErr mapError (GetOrderForUpdate env (tk_OrderID consumed) ot1)) (\<lambda>order.
         andThen (runTransition env order TriggerTokenConfirm (command i TriggerTokenConfirm [] tm)
                    (db\<lparr>plat := p1, ord := ot1\<rparr>)) (\<lambda>db1.
         stmt env ''commit'' (Inr ((), db1)))))))))"

section \<open>Reads and the escalation\<close>

record Summary =
  su_OrderID :: string
  su_BuyerID :: string
  su_StoreID :: string
  su_Status :: Status
  su_TotalAmount :: int
  su_CreatedAt :: time
  su_ClosedAt :: "time option"

definition Repository_Summary :: "'a env_scheme \<Rightarrow> string \<Rightarrow> order_tables \<Rightarrow> Summary result" where
  "Repository_Summary env i ot =
     (case uuid_Parse env i of None \<Rightarrow> Inl OrdersInvalid
      | Some orderID \<Rightarrow>
        andThen (mapErr (\<lambda>e. if e = NoRows then OrdersNotFound else mapError e) (GetOrderSummary env orderID ot))
          (\<lambda>row. Inr \<lparr>su_OrderID = uuid_String env (or_ID row), su_BuyerID = uuid_String env (or_BuyerID row),
             su_StoreID = uuid_String env (or_StoreID row), su_Status = or_Status row,
             su_TotalAmount = or_TotalAmount row, su_CreatedAt = or_CreatedAt row,
             su_ClosedAt = or_ClosedAt row\<rparr>))"

record DueOrder =
  du_OrderID :: string
  du_StoreID :: string
  du_BuyerID :: string
  du_DueAt :: time

definition due_order :: "'a env_scheme \<Rightarrow> order_row \<Rightarrow> time \<Rightarrow> DueOrder" where
  "due_order env row due = \<lparr>du_OrderID = uuid_String env (or_ID row), du_StoreID = uuid_String env (or_StoreID row),
     du_BuyerID = uuid_String env (or_BuyerID row), du_DueAt = due\<rparr>"

definition AwaitingConfirmation :: "'a env_scheme \<Rightarrow> time \<Rightarrow> int \<Rightarrow> order_tables \<Rightarrow> DueOrder list result" where
  "AwaitingConfirmation env deadline limit ot =
     andThen (ListOrdersAwaitingConfirmation env deadline limit ot) (\<lambda>rows.
       Inr (map (\<lambda>row. due_order env row (or_SupplierConfirmationDeadline row)) rows))"

definition PaymentOverdue :: "'a env_scheme \<Rightarrow> time \<Rightarrow> int \<Rightarrow> order_tables \<Rightarrow> DueOrder list result" where
  "PaymentOverdue env deadline limit ot =
     andThen (ListOrdersPaymentOverdue env deadline limit ot) (\<lambda>rows.
       Inr (map (\<lambda>(row, due). due_order env row due) rows))"

definition RecordEscalation ::
  "'a env_scheme \<Rightarrow> ctx \<Rightarrow> DueOrder \<Rightarrow> time \<Rightarrow> 'z bdb_scheme \<Rightarrow> bool result \<times> 'z bdb_scheme" where
  "RecordEscalation env c order tm db =
     (case uuid_Parse env (du_OrderID order) of None \<Rightarrow> (Inl OrdersInvalid, db)
      | Some orderID \<Rightarrow> commit db (stmt env ''begin''
        (andThen (mapErr mapDedupError (ReserveFor env (OperationKey c) orderID tm (plat db))) (\<lambda>(replay, p1).
         if replay then Inr (False, db)
         else
         andThen (Write env ''orders'' (du_OrderID order)
           (OrderSLAEscalatedPayload (du_StoreID order) (du_BuyerID order)
              ''supplier confirmation overdue'' (du_DueAt order)) p1) (\<lambda>p2.
         stmt env ''commit'' (Inr (True, db\<lparr>plat := p2\<rparr>)))))))"

end
