(* ===== verification/OrdersEffects.thy ===== *)
theory OrdersEffects
  imports OrdersRepo
begin

text \<open>
  What the pieces of a request do to the database, each as one lemma: the stock moves, the
  settlement, the status change with its audit event and its domain event. The invariants of
  the next theories rest on these alone.
\<close>

section \<open>The settlement leaves everything but billing and the payment deadline alone\<close>

definition clear_due :: "order_row \<Rightarrow> order_row" where
  "clear_due r = r\<lparr>or_PaymentDueAt := None\<rparr>"

definition orders_frame :: "order_tables \<Rightarrow> order_tables \<Rightarrow> bool" where
  "orders_frame ot ot' \<longleftrightarrow> order_items ot' = order_items ot \<and> order_events ot' = order_events ot \<and>
     confirm_tokens ot' = confirm_tokens ot \<and>
     map clear_due (orders_t ot') = map clear_due (orders_t ot)"

lemma orders_frame_refl [simp]: "orders_frame ot ot"
  by (simp add: orders_frame_def)

lemma orders_frame_trans: "orders_frame a b \<Longrightarrow> orders_frame b c \<Longrightarrow> orders_frame a c"
  by (simp add: orders_frame_def)

lemma orders_frame_map:
  assumes "orders_frame ot ot'" "\<And>r. g (clear_due r) = g r"
  shows "map g (orders_t ot') = map g (orders_t ot)"
proof -
  have g: "map g xs = map g (map clear_due xs)" for xs by (simp add: assms(2))
  have "map clear_due (orders_t ot') = map clear_due (orders_t ot)" using assms(1) by (simp add: orders_frame_def)
  then show ?thesis using g by metis
qed

lemma list_all_map_eq: "list_all P (map f xs) = list_all (\<lambda>x. P (f x)) xs"
  by (induction xs) auto

lemma order_chk_clear_due [simp]: "order_chk (clear_due r) = order_chk r"
  by (simp add: order_chk_def clear_due_def)

lemma order_exists_map: "order_exists i ot = (i \<in> set (map or_ID (orders_t ot)))"
  by (auto simp: order_exists_def list_ex_iff)

lemma orders_frame_exists: "orders_frame ot ot' \<Longrightarrow> order_exists i ot' = order_exists i ot"
  unfolding order_exists_map by (subst orders_frame_map [of ot ot' or_ID]) (simp_all add: clear_due_def)

lemma orders_inv_cong:
  assumes "map or_ID (orders_t ot') = map or_ID (orders_t ot)" "list_all order_chk (orders_t ot')"
    and "order_items ot' = order_items ot" "confirm_tokens ot' = confirm_tokens ot"
    and "list_all (\<lambda>r. order_exists (oe_OrderID r) ot') (order_events ot')" "orders_inv ot"
  shows "orders_inv ot'"
proof -
  have "order_exists i ot' = order_exists i ot" for i using assms(1) by (simp add: order_exists_map)
  then show ?thesis using assms by (simp add: orders_inv_def)
qed

lemma orders_frame_inv: 
  assumes "orders_frame ot ot'" "orders_inv ot"
  shows "orders_inv ot'"
proof (rule orders_inv_cong [OF _ _ _ _ _ assms(2)])
  show "map or_ID (orders_t ot') = map or_ID (orders_t ot)"
    by (rule orders_frame_map [OF assms(1)]) (simp add: clear_due_def)
  have "map order_chk (orders_t ot') = map order_chk (orders_t ot)"
    by (rule orders_frame_map [OF assms(1)]) simp
  moreover have "list_all order_chk xs = list_all (\<lambda>b. b) (map order_chk xs)" for xs
    by (induction xs) auto
  ultimately show "list_all order_chk (orders_t ot')"
    using assms(2) by (metis orders_inv_def)
  show "list_all (\<lambda>r. order_exists (oe_OrderID r) ot') (order_events ot')"
    using assms by (simp add: orders_frame_exists [OF assms(1)]) (simp add: orders_frame_def orders_inv_def)
qed (use assms(1) in \<open>simp_all add: orders_frame_def\<close>)

lemma SetOrderPaymentDue_frame:
  "SetOrderPaymentDue env due i ot = Inr ot' \<Longrightarrow> orders_frame ot ot'"
  by (auto simp: SetOrderPaymentDue_def sql_simps go_simps orders_frame_def clear_due_def)

definition settle_frame :: "'z bdb_scheme \<Rightarrow> 'z bdb_scheme \<Rightarrow> bool" where
  "settle_frame db db' \<longleftrightarrow> plat db' = plat db \<and> loc db' = loc db \<and> cat db' = cat db \<and>
     orders_frame (ord db) (ord db') \<and> (billing_inv (bil db) \<longrightarrow> billing_inv (bil db'))"

lemma settle_frame_billing: "billing_step db db' \<Longrightarrow> settle_frame db db'"
  using billing_step_frame [of db db'] by (simp add: settle_frame_def)

lemma issueInvoice_frame: "issueInvoice env order tm db = Inr db' \<Longrightarrow> settle_frame db db'"
  by (auto simp: issueInvoice_def settle_frame_def mapErr_eq_Inr split: prod.splits option.splits
      elim!: andThen_pairE andThenE dest!: settlement_steps(1) settle_frame_billing SetOrderPaymentDue_frame)
    (erule (1) orders_frame_trans)+

lemma accrueCommission_frame: "accrueCommission env order tm db = Inr db' \<Longrightarrow> settle_frame db db'"
  by (auto simp: accrueCommission_def mapErr_eq_Inr Let_def split: prod.splits option.splits if_splits
      elim!: andThen_pairE andThenE intro!: settle_frame_billing dest!: settlement_steps(7))

lemma settle_frame:
  "settle env order trigger cmd db = Inr db' \<Longrightarrow> settle_frame db db'"
  by (cases trigger)
     (auto simp: mapErr_eq_Inr intro: issueInvoice_frame accrueCommission_frame
       settle_frame_billing settlement_steps)

section \<open>Stock moves\<close>

definition item_qty :: "order_item list \<Rightarrow> uuid \<Rightarrow> rat" where
  "item_qty items p = sum_list (map oi_Qty (filter (\<lambda>i. oi_ProductID i = p) items))"

text \<open>The quantity of an item survives its trip through text.\<close>

definition scannable :: "'a lib_scheme \<Rightarrow> order_item list \<Rightarrow> bool" where
  "scannable env items \<longleftrightarrow>
     list_all (\<lambda>i. Numeric_Scan env (Numeric_Value env (oi_Qty i)) = Some (oi_Qty i)) items"

lemma ListOrderItems_Inr:
  "ListOrderItems env i ot = Inr items \<longleftrightarrow> fault env ''ListOrderItems'' = None \<and>
     items = sort_key oi_ID (items_of ot i)"
  by (auto simp: ListOrderItems_def items_of_def sql_simps)

lemma item_qty_sort: "item_qty (sort_key k items) p = item_qty items p"
proof -
  have "item_qty xs p = sum_mset (image_mset oi_Qty (filter_mset (\<lambda>i. oi_ProductID i = p) (mset xs)))" for xs
    by (simp add: item_qty_def flip: sum_mset_sum_list)
  then show ?thesis by simp
qed

lemma lines_qty_orderLines:
  assumes "lossless_ids env" "scannable env items"
  shows "lines_qty env p (orderLines env items) = item_qty items p"
  using assms(2)
  by (induction items)
     (auto simp: lines_qty_def line_qty_def orderLines_def item_qty_def scannable_def lossless_idsD [OF assms(1)])

lemma orderLines_positive:
  "scannable env items \<Longrightarrow> list_all order_item_chk items \<Longrightarrow> positive_lines env (orderLines env items)"
  by (auto simp: positive_lines_def orderLines_def scannable_def list_all_iff order_item_chk_def)

lemma releaseStock_iff:
  "releaseStock env order db = Inr db' \<longleftrightarrow> fault env ''ListOrderItems'' = None \<and>
     (let ls = orderLines env (sort_key oi_ID (items_of (ord db) (or_ID order))) in
      if ls = [] then db' = db
      else \<exists>n ct. ReleaseOrderLines env \<lparr>rel_StoreID = uuid_String env (or_StoreID order), rel_Lines = ls\<rparr> (cat db)
             = Inr (n, ct) \<and> db' = db\<lparr>cat := ct\<rparr>)"
  unfolding releaseStock_def andThen_eq_Inr mapErr_eq_Inr ListOrderItems_Inr Let_def
  by (auto simp: andThen_eq_Inr)

lemma consumeStock_iff:
  "consumeStock env order db = Inr db' \<longleftrightarrow> fault env ''ListOrderItems'' = None \<and>
     (let ls = orderLines env (sort_key oi_ID (items_of (ord db) (or_ID order))) in
      if ls = [] then db' = db
      else \<exists>n ct. ConsumeOrderLines env \<lparr>rel_StoreID = uuid_String env (or_StoreID order), rel_Lines = ls\<rparr> (cat db)
             = Inr (n, ct) \<and> db' = db\<lparr>cat := ct\<rparr>)"
  unfolding consumeStock_def andThen_eq_Inr mapErr_eq_Inr ListOrderItems_Inr Let_def
  by (auto simp: andThen_eq_Inr)

definition stock_frame :: "'z bdb_scheme \<Rightarrow> 'z bdb_scheme \<Rightarrow> bool" where
  "stock_frame db db' \<longleftrightarrow> plat db' = plat db \<and> loc db' = loc db \<and> ord db' = ord db \<and> bil db' = bil db \<and>
     (catalog_inv (cat db) \<longrightarrow> catalog_inv (cat db'))"

lemma stock_frame_refl [simp]: "stock_frame db db"
  by (simp add: stock_frame_def)

lemma releaseStock_frame: "releaseStock env order db = Inr db' \<Longrightarrow> stock_frame db db'"
  unfolding releaseStock_iff
  by (auto simp: Let_def stock_frame_def split: if_splits dest: ReleaseOrderLines_inv)

lemma consumeStock_frame: "consumeStock env order db = Inr db' \<Longrightarrow> stock_frame db db'"
  unfolding consumeStock_iff
  by (auto simp: Let_def stock_frame_def split: if_splits dest: ConsumeOrderLines_inv)

definition covered :: "'z bdb_scheme \<Rightarrow> order_row \<Rightarrow> bool" where
  "covered db order \<longleftrightarrow>
     (\<forall>p. item_qty (items_of (ord db) (or_ID order)) p \<le> reserved_of (cat db) (or_StoreID order) p)"

lemma items_of_chk: "orders_inv ot \<Longrightarrow> list_all order_item_chk (items_of ot i)"
  by (auto simp: orders_inv_def items_of_def list_all_iff)

lemma items_of_scannable: "scannable env (order_items ot) \<Longrightarrow> scannable env (items_of ot i)"
  by (auto simp: scannable_def items_of_def list_all_iff)

lemma scannable_sort: "scannable env items \<Longrightarrow> scannable env (sort_key k items)"
  by (simp add: scannable_def list_all_iff)

lemma list_all_sort: "list_all P items \<Longrightarrow> list_all P (sort_key k items)"
  by (simp add: list_all_iff)

lemma item_qty_Nil: "orderLines env (sort_key oi_ID items) = [] \<Longrightarrow> item_qty items p = 0"
  by (subst item_qty_sort [of oi_ID, symmetric]) (simp add: orderLines_def item_qty_def)

lemma releaseStock_exact:
  assumes "releaseStock env order db = Inr db'" "catalog_inv (cat db)" "orders_inv (ord db)"
    and "lossless_ids env" "scannable env (order_items (ord db))" "covered db order"
  shows "reserved_of (cat db') s p = reserved_of (cat db) s p
           - (if s = or_StoreID order then item_qty (items_of (ord db) (or_ID order)) p else 0)"
    and "declared_of (cat db') s p = declared_of (cat db) s p"
proof -
  let ?items = "items_of (ord db) (or_ID order)" and ?ls = "orderLines env (sort_key oi_ID (items_of (ord db) (or_ID order)))"
  have sc: "scannable env (sort_key oi_ID ?items)" by (intro scannable_sort items_of_scannable assms)
  have lq: "lines_qty env p ?ls = item_qty ?items p" for p
    using lines_qty_orderLines [OF assms(4) sc] by (simp add: item_qty_sort)
  have "reserved_of (cat db') s p = reserved_of (cat db) s p - (if s = or_StoreID order then item_qty ?items p else 0)
      \<and> declared_of (cat db') s p = declared_of (cat db) s p"
  proof (cases "?ls = []")
    case True
    then show ?thesis using assms(1) item_qty_Nil [OF True] by (simp add: releaseStock_iff Let_def)
  next
    case False
    let ?req = "\<lparr>rel_StoreID = uuid_String env (or_StoreID order), rel_Lines = ?ls\<rparr>"
    from assms(1) False obtain n ct where r: "ReleaseOrderLines env ?req (cat db) = Inr (n, ct)"
      and d: "db' = db\<lparr>cat := ct\<rparr>" by (auto simp: releaseStock_iff Let_def)
    have "positive_lines env ?ls" by (intro orderLines_positive sc list_all_sort items_of_chk assms)
    then show ?thesis
      using ReleaseOrderLines_exact(3,4) [OF r assms(2), of "or_StoreID order" s p] assms(4,6) d
      by (simp add: lq covered_def)
  qed
  then show "reserved_of (cat db') s p = reserved_of (cat db) s p - (if s = or_StoreID order then item_qty ?items p else 0)"
    "declared_of (cat db') s p = declared_of (cat db) s p" by simp_all
qed

lemma consumeStock_exact:
  assumes "consumeStock env order db = Inr db'" "catalog_inv (cat db)" "orders_inv (ord db)"
    and "lossless_ids env" "scannable env (order_items (ord db))" "covered db order"
  shows "reserved_of (cat db') s p = reserved_of (cat db) s p
           - (if s = or_StoreID order then item_qty (items_of (ord db) (or_ID order)) p else 0)"
    and "declared_of (cat db') s p = declared_of (cat db) s p
           - (if s = or_StoreID order then item_qty (items_of (ord db) (or_ID order)) p else 0)"
proof -
  let ?items = "items_of (ord db) (or_ID order)" and ?ls = "orderLines env (sort_key oi_ID (items_of (ord db) (or_ID order)))"
  let ?d = "if s = or_StoreID order then item_qty ?items p else 0"
  have sc: "scannable env (sort_key oi_ID ?items)" by (intro scannable_sort items_of_scannable assms)
  have lq: "lines_qty env p ?ls = item_qty ?items p" for p
    using lines_qty_orderLines [OF assms(4) sc] by (simp add: item_qty_sort)
  have "reserved_of (cat db') s p = reserved_of (cat db) s p - ?d
      \<and> declared_of (cat db') s p = declared_of (cat db) s p - ?d"
  proof (cases "?ls = []")
    case True
    then show ?thesis using assms(1) item_qty_Nil [OF True] by (simp add: consumeStock_iff Let_def)
  next
    case False
    let ?req = "\<lparr>rel_StoreID = uuid_String env (or_StoreID order), rel_Lines = ?ls\<rparr>"
    from assms(1) False obtain n ct where r: "ConsumeOrderLines env ?req (cat db) = Inr (n, ct)"
      and d: "db' = db\<lparr>cat := ct\<rparr>" by (auto simp: consumeStock_iff Let_def)
    have "positive_lines env ?ls" by (intro orderLines_positive sc list_all_sort items_of_chk assms)
    then show ?thesis
      using ConsumeOrderLines_exact(3,4) [OF r assms(2), of "or_StoreID order" s p] assms(4,6) d
      by (simp add: lq covered_def)
  qed
  then show "reserved_of (cat db') s p = reserved_of (cat db) s p - ?d"
    "declared_of (cat db') s p = declared_of (cat db) s p - ?d" by simp_all
qed

section \<open>One transition\<close>

definition event_of :: "order_row \<Rightarrow> Transition \<Rightarrow> TransitionCommand \<Rightarrow> order_event" where
  "event_of order tr cmd = \<lparr>oe_OrderID = or_ID order, oe_FromStatus = Some (or_Status order),
     oe_ToStatus = To tr, oe_Actor = ActorOf tr, oe_Source = SourceOf tr,
     oe_Payload = eventPayload cmd, oe_CreatedAt = tc_At cmd\<rparr>"

definition moved :: "order_row \<Rightarrow> Transition \<Rightarrow> TransitionCommand \<Rightarrow> order_row list \<Rightarrow> order_row list" where
  "moved order tr cmd rows =
     map (\<lambda>r. if or_ID r = or_ID order then set_status (To tr) (tc_At cmd) r else r) rows"

lemma moved_ids [simp]: "map or_ID (moved order tr cmd rows) = map or_ID rows"
  by (induction rows) (simp_all add: moved_def set_status_def)

lemma TransitionOrder_Inr:
  assumes "TransitionOrder env s tm i f ot = Inr (r', ot')" "distinct (map or_ID (orders_t ot))"
    and "order \<in> set (orders_t ot)" "or_ID order = i" "or_Status order = f"
  shows "r' = set_status s tm order"
    and "ot' = ot\<lparr>orders_t := map (\<lambda>r. if or_ID r = i then set_status s tm r else r) (orders_t ot)\<rparr>"
    and "list_all order_chk (orders_t ot) \<Longrightarrow> list_all order_chk (orders_t ot')"
proof -
  have u: "or_ID r = i \<and> or_Status r = f \<longleftrightarrow> or_ID r = i" if "r \<in> set (orders_t ot)" for r
    using assms(2-5) that by (auto simp: distinct_map inj_on_def)
  have f: "filter (\<lambda>r. or_ID r = i \<and> or_Status r = f) (orders_t ot) = [order]"
    using filter_key_unique [OF assms(2-4)] filter_cong [OF refl u, of "orders_t ot"] by simp
  have m: "map (\<lambda>r. if or_ID r = i \<and> or_Status r = f then g r else r) (orders_t ot)
      = map (\<lambda>r. if or_ID r = i then g r else r) (orders_t ot)" for g
    by (rule map_cong [OF refl]) (simp add: u)
  show "r' = set_status s tm order"
    using assms(1) f by (auto simp: TransitionOrder_def sql_simps go_simps)
  show "ot' = ot\<lparr>orders_t := map (\<lambda>r. if or_ID r = i then set_status s tm r else r) (orders_t ot)\<rparr>"
    using assms(1) by (auto simp: TransitionOrder_def sql_simps go_simps m)
  show "list_all order_chk (orders_t ot) \<Longrightarrow> list_all order_chk (orders_t ot')"
    using assms(1) update_chk [of order_chk "orders_t ot" "\<lambda>r. or_ID r = i \<and> or_Status r = f" "set_status s tm"]
    by (auto simp: TransitionOrder_def sql_simps go_simps)
qed

lemma AppendOrderEvent_Inr:
  "AppendOrderEvent env e ot = Inr ot' \<longleftrightarrow> fault env ''AppendOrderEvent'' = None \<and>
     order_exists (oe_OrderID e) ot \<and> ot' = ot\<lparr>order_events := order_events ot @ [e]\<rparr>"
  by (auto simp: AppendOrderEvent_def sql_simps go_simps list_ex_iff)

text \<open>The four steps a transition goes through.\<close>

lemma transition_steps:
  assumes "transition env order trigger tr cmd db = Inr (updated, db')"
  obtains ot1 ot2 db2 db3 db4 where
    "TransitionOrder env (To tr) (tc_At cmd) (or_ID order) (or_Status order) (ord db) = Inr (updated, ot1)"
    "AppendOrderEvent env (event_of order tr cmd) ot1 = Inr ot2"
    "if ReleasesStock tr then releaseStock env order (db\<lparr>ord := ot2\<rparr>) = Inr db2 else db2 = db\<lparr>ord := ot2\<rparr>"
    "if ConsumesStock tr then consumeStock env order db2 = Inr db3 else db3 = db2"
    "settle env updated trigger cmd db3 = Inr db4"
    "if Event tr = no_event then db' = db4
     else \<exists>p. Write env ''orders'' (uuid_String env (or_ID order))
       (OrderStatusChangedPayload (uuid_String env (or_StoreID order)) (uuid_String env (or_BuyerID order))
          (status_text (or_Status order)) (status_text (To tr)) (actor_text (ActorOf tr))
          (source_text (SourceOf tr)) (tc_Reason cmd) (Event tr)) (plat db4) = Inr p \<and> db' = db4\<lparr>plat := p\<rparr>"
proof -
  from assms have "\<exists>u ot1 ot2 db2 db3 db4.
    (TransitionOrder env (To tr) (tc_At cmd) (or_ID order) (or_Status order) (ord db) = Inr (u, ot1)) \<and>
    (AppendOrderEvent env (event_of order tr cmd) ot1 = Inr ot2) \<and>
    (if ReleasesStock tr then releaseStock env order (db\<lparr>ord := ot2\<rparr>) else Inr (db\<lparr>ord := ot2\<rparr>)) = Inr db2 \<and>
    (if ConsumesStock tr then consumeStock env order db2 else Inr db2) = Inr db3 \<and>
    (settle env u trigger cmd db3 = Inr db4) \<and>
    (if Event tr = no_event then Inr (u, db4)
      else andThen (Write env ''orders'' (uuid_String env (or_ID order))
       (OrderStatusChangedPayload (uuid_String env (or_StoreID order)) (uuid_String env (or_BuyerID order))
          (status_text (or_Status order)) (status_text (To tr)) (actor_text (ActorOf tr))
          (source_text (SourceOf tr)) (tc_Reason cmd) (Event tr)) (plat db4))
       (\<lambda>p. Inr (u, db4\<lparr>plat := p\<rparr>))) = Inr (updated, db')"
    unfolding transition_def event_of_def
    by (elim andThen_pairE andThenE) (unfold mapErr_eq_Inr, intro exI conjI, assumption+)
  then obtain u ot1 ot2 db2 db3 db4 where s:
    "TransitionOrder env (To tr) (tc_At cmd) (or_ID order) (or_Status order) (ord db) = Inr (u, ot1)"
    "AppendOrderEvent env (event_of order tr cmd) ot1 = Inr ot2"
    "(if ReleasesStock tr then releaseStock env order (db\<lparr>ord := ot2\<rparr>) else Inr (db\<lparr>ord := ot2\<rparr>)) = Inr db2"
    "(if ConsumesStock tr then consumeStock env order db2 else Inr db2) = Inr db3"
    "settle env u trigger cmd db3 = Inr db4"
    "(if Event tr = no_event then Inr (u, db4)
      else andThen (Write env ''orders'' (uuid_String env (or_ID order))
       (OrderStatusChangedPayload (uuid_String env (or_StoreID order)) (uuid_String env (or_BuyerID order))
          (status_text (or_Status order)) (status_text (To tr)) (actor_text (ActorOf tr))
          (source_text (SourceOf tr)) (tc_Reason cmd) (Event tr)) (plat db4))
       (\<lambda>p. Inr (u, db4\<lparr>plat := p\<rparr>))) = Inr (updated, db')"
    by blast
  from s(6) have "u = updated" by (auto simp: andThen_eq_Inr split: if_splits)
  with s show thesis
    by (intro that [of ot1 ot2 db2 db3 db4]) (auto simp: andThen_eq_Inr split: if_splits)
qed

lemma transition_effect:
  assumes "transition env order trigger tr cmd db = Inr (updated, db')"
    and "orders_inv (ord db)" "order \<in> set (orders_t (ord db))"
  shows "updated = set_status (To tr) (tc_At cmd) order"
    and "order_events (ord db') = order_events (ord db) @ [event_of order tr cmd]"
    and "order_items (ord db') = order_items (ord db)"
    and "confirm_tokens (ord db') = confirm_tokens (ord db)"
    and "map clear_due (orders_t (ord db')) = map clear_due (moved order tr cmd (orders_t (ord db)))"
    and "orders_inv (ord db')" "loc db' = loc db"
    and "catalog_inv (cat db) \<Longrightarrow> catalog_inv (cat db')"
    and "billing_inv (bil db) \<Longrightarrow> billing_inv (bil db')"
    and "platform_extends (plat db) (plat db')" "mutation_receipts (plat db') = mutation_receipts (plat db)"
proof -
  from assms(1) obtain ot1 ot2 db2 db3 db4 where
    t: "TransitionOrder env (To tr) (tc_At cmd) (or_ID order) (or_Status order) (ord db) = Inr (updated, ot1)"
    and e: "AppendOrderEvent env (event_of order tr cmd) ot1 = Inr ot2"
    and r: "if ReleasesStock tr then releaseStock env order (db\<lparr>ord := ot2\<rparr>) = Inr db2 else db2 = db\<lparr>ord := ot2\<rparr>"
    and c: "if ConsumesStock tr then consumeStock env order db2 = Inr db3 else db3 = db2"
    and s: "settle env updated trigger cmd db3 = Inr db4"
    and w: "if Event tr = no_event then db' = db4
     else \<exists>p. Write env ''orders'' (uuid_String env (or_ID order))
       (OrderStatusChangedPayload (uuid_String env (or_StoreID order)) (uuid_String env (or_BuyerID order))
          (status_text (or_Status order)) (status_text (To tr)) (actor_text (ActorOf tr))
          (source_text (SourceOf tr)) (tc_Reason cmd) (Event tr)) (plat db4) = Inr p \<and> db' = db4\<lparr>plat := p\<rparr>"
    by (rule transition_steps)
  have ids: "distinct (map or_ID (orders_t (ord db)))" and chk: "list_all order_chk (orders_t (ord db))"
    using assms(2) by (simp_all add: orders_inv_def)
  note T = TransitionOrder_Inr [OF t ids assms(3) refl refl]
  have ot1: "ot1 = (ord db)\<lparr>orders_t := moved order tr cmd (orders_t (ord db))\<rparr>"
    using T(2) by (simp add: moved_def)
  have ot2: "ot2 = ot1\<lparr>order_events := order_events (ord db) @ [event_of order tr cmd]\<rparr>"
    and ex: "order_exists (oe_OrderID (event_of order tr cmd)) ot1"
    using e ot1 by (simp_all add: AppendOrderEvent_Inr)
  have st: "stock_frame (db\<lparr>ord := ot2\<rparr>) db2" "stock_frame db2 db3"
    using r c by (auto split: if_splits intro: releaseStock_frame consumeStock_frame)
  note sf = settle_frame [OF s]
  have o4: "orders_frame ot2 (ord db4)" using st sf by (simp add: stock_frame_def settle_frame_def)
  have d: "ord db' = ord db4" "loc db' = loc db4" "cat db' = cat db4" "bil db' = bil db4"
    using w by (auto split: if_splits)
  show "updated = set_status (To tr) (tc_At cmd) order" by (rule T(1))
  show "order_events (ord db') = order_events (ord db) @ [event_of order tr cmd]"
    "order_items (ord db') = order_items (ord db)" "confirm_tokens (ord db') = confirm_tokens (ord db)"
    "map clear_due (orders_t (ord db')) = map clear_due (moved order tr cmd (orders_t (ord db)))"
    using o4 d ot1 ot2 by (simp_all add: orders_frame_def)
  have "orders_inv ot2"
  proof (rule orders_inv_cong [OF _ _ _ _ _ assms(2)])
    show "map or_ID (orders_t ot2) = map or_ID (orders_t (ord db))"
      by (simp add: ot2 ot1)
    show "list_all order_chk (orders_t ot2)" using T(3) [OF chk] by (simp add: ot2)
    have "order_exists i ot2 = order_exists i (ord db)" "order_exists i ot1 = order_exists i (ord db)" for i
      by (simp_all only: order_exists_map) (simp_all add: ot2 ot1 del: set_map)
    then show "list_all (\<lambda>r. order_exists (oe_OrderID r) ot2) (order_events ot2)"
      using assms(2) ex by (simp add: ot2 orders_inv_def)
  qed (simp_all add: ot2 ot1)
  then show "orders_inv (ord db')" using orders_frame_inv [OF o4] d by simp
  show "loc db' = loc db" using st sf d by (simp add: stock_frame_def settle_frame_def)
  show "catalog_inv (cat db) \<Longrightarrow> catalog_inv (cat db')" using st sf d by (simp add: stock_frame_def settle_frame_def)
  show "billing_inv (bil db) \<Longrightarrow> billing_inv (bil db')" using st sf d by (simp add: stock_frame_def settle_frame_def)
  have p4: "plat db4 = plat db" using st sf by (simp add: stock_frame_def settle_frame_def)
  show "platform_extends (plat db) (plat db')" "mutation_receipts (plat db') = mutation_receipts (plat db)"
    using w p4 by (auto split: if_splits dest: Write_extends Write_Inr(2) intro: platform_extends_refl)
qed

end
