(* ===== verification/OrdersAudit.thy ===== *)
theory OrdersAudit
  imports OrdersEffects
begin

text \<open>
  The audit log of an order: what one request through the transition engine leaves behind, and
  the invariants that follow: the rows of \<open>order_events\<close> retrace the transition table from the
  order's creation to the status it has, and no committed order rests in a pass-through status.
\<close>

section \<open>Retracing a log\<close>

definition edge :: "Status option \<Rightarrow> order_event \<Rightarrow> bool" where
  "edge s e \<longleftrightarrow> (case s of
     None \<Rightarrow> oe_ToStatus e = StatusCreated \<and> oe_Actor e = ActorBuyer
   | Some f \<Rightarrow> list_ex (\<lambda>t. case TransitionFor t of None \<Rightarrow> False
       | Some tr \<Rightarrow> Permits tr f \<and> oe_ToStatus e = To tr \<and> oe_Actor e = ActorOf tr \<and> oe_Source e = SourceOf tr)
       declared_triggers)"

fun audit_ok :: "Status option \<Rightarrow> order_event list \<Rightarrow> Status option \<Rightarrow> bool" where
  "audit_ok s [] s' = (s = s')"
| "audit_ok s (e # es) s' = (oe_FromStatus e = s \<and> edge s e \<and> audit_ok (Some (oe_ToStatus e)) es s')"

lemma audit_ok_snoc:
  "audit_ok s (es @ [e]) s' \<longleftrightarrow>
     audit_ok s es (oe_FromStatus e) \<and> edge (oe_FromStatus e) e \<and> s' = Some (oe_ToStatus e)"
  by (induction es arbitrary: s) auto

lemma TransitionFor_declared: "TransitionFor t = Some tr \<Longrightarrow> t \<in> set declared_triggers"
  by (cases t) (auto simp: declared_triggers_def TransitionFor_def)

lemma edge_event_of:
  assumes "TransitionFor t = Some tr" "Permits tr (or_Status order)"
  shows "edge (Some (or_Status order)) (event_of order tr cmd)"
  using TransitionFor_declared [OF assms(1)] assms
  by (auto simp: edge_def event_of_def list_ex_iff intro!: bexI [of _ t])

definition history_ok :: "order_tables \<Rightarrow> bool" where
  "history_ok ot \<longleftrightarrow>
     list_all (\<lambda>r. audit_ok None (events_of ot (or_ID r)) (Some (or_Status r))) (orders_t ot)"

definition rest_ok :: "order_tables \<Rightarrow> bool" where
  "rest_ok ot \<longleftrightarrow> list_all (\<lambda>r. or_Status r \<in> set at_rest) (orders_t ot)"

section \<open>Statuses\<close>

text \<open>All that the log and the ledger read of an order.\<close>

definition or_key :: "order_row \<Rightarrow> uuid \<times> uuid \<times> Status" where
  "or_key r = (or_ID r, or_StoreID r, or_Status r)"

lemma or_key_clear_due [simp]: "or_key (clear_due r) = or_key r"
  by (simp add: or_key_def clear_due_def)

lemma map_clear_due_cong:
  assumes "map clear_due xs = map clear_due ys" "\<And>r. g (clear_due r) = g r"
  shows "map g xs = map g ys"
proof -
  have "map g zs = map g (map clear_due zs)" for zs by (simp add: assms(2))
  then show ?thesis using assms(1) by metis
qed

lemma moved_keys:
  "map or_key (moved order tr cmd rows) =
     map (\<lambda>(i, s, st). if i = or_ID order then (i, s, To tr) else (i, s, st)) (map or_key rows)"
  by (induction rows) (auto simp: moved_def or_key_def set_status_def)

lemma history_ok_keys:
  "history_ok ot \<longleftrightarrow> list_all (\<lambda>(i, s, st). audit_ok None (events_of ot i) (Some st)) (map or_key (orders_t ot))"
  by (simp add: history_ok_def list_all_map_eq or_key_def)

lemma events_of_append:
  assumes "order_events ot' = order_events ot @ [e]"
  shows "events_of ot' i = (if oe_OrderID e = i then events_of ot i @ [e] else events_of ot i)"
  using assms by (simp add: events_of_def)

lemma transition_history:
  assumes "transition env order trigger tr cmd db = Inr (updated, db')"
    and "orders_inv (ord db)" "order \<in> set (orders_t (ord db))"
    and "TransitionFor trigger = Some tr" "Permits tr (or_Status order)" "history_ok (ord db)"
  shows "history_ok (ord db')"
proof -
  note T = transition_effect [OF assms(1-3)]
  have keys: "map or_key (orders_t (ord db')) =
     map (\<lambda>(i, s, st). if i = or_ID order then (i, s, To tr) else (i, s, st)) (map or_key (orders_t (ord db)))"
    using map_clear_due_cong [OF T(5), of or_key] moved_keys by simp
  have ev: "events_of (ord db') i = (if i = or_ID order then events_of (ord db) i @ [event_of order tr cmd]
      else events_of (ord db) i)" for i
    using events_of_append [OF T(2)] by (auto simp: event_of_def)
  have me: "audit_ok None (events_of (ord db) (or_ID order)) (Some (or_Status order))"
    using assms(3,6) by (simp add: history_ok_def list_all_iff)
  have "audit_ok None (events_of (ord db') (or_ID order)) (Some (To tr))"
    using me edge_event_of [OF assms(4,5)] by (simp add: ev audit_ok_snoc) (simp add: event_of_def)
  then show ?thesis
    using assms(6) unfolding history_ok_keys keys
    by (auto simp: list_all_iff ev or_key_def split: if_splits)
qed

section \<open>A request through the engine\<close>

lemma settle_billing:
  "settle env order trigger cmd db = Inr db' \<Longrightarrow> trigger \<noteq> TriggerIssueInvoice \<Longrightarrow> billing_step db db'"
proof -
  have "accrueCommission env order tm db = Inr db' \<Longrightarrow> billing_step db db'" for tm
    by (auto simp: accrueCommission_def mapErr_eq_Inr Let_def split: prod.splits option.splits if_splits
      elim!: andThen_pairE andThenE dest!: settlement_steps(7))
  then show "settle env order trigger cmd db = Inr db' \<Longrightarrow> trigger \<noteq> TriggerIssueInvoice \<Longrightarrow> billing_step db db'"
    by (cases trigger) (auto simp: mapErr_eq_Inr intro: settlement_steps)
qed

text \<open>The transitioned order is again a row of the table, unless its payment deadline was set.\<close>

lemma transition_updated:
  assumes "transition env order trigger tr cmd db = Inr (updated, db')"
    and "orders_inv (ord db)" "order \<in> set (orders_t (ord db))" "trigger \<noteq> TriggerIssueInvoice"
  shows "orders_t (ord db') = moved order tr cmd (orders_t (ord db))"
    and "updated \<in> set (orders_t (ord db'))"
proof -
  from assms(1) obtain ot1 ot2 db2 db3 db4 where
    t: "TransitionOrder env (To tr) (tc_At cmd) (or_ID order) (or_Status order) (ord db) = Inr (updated, ot1)"
    and e: "AppendOrderEvent env (event_of order tr cmd) ot1 = Inr ot2"
    and r: "if ReleasesStock tr then releaseStock env order (db\<lparr>ord := ot2\<rparr>) = Inr db2 else db2 = db\<lparr>ord := ot2\<rparr>"
    and c: "if ConsumesStock tr then consumeStock env order db2 = Inr db3 else db3 = db2"
    and s: "settle env updated trigger cmd db3 = Inr db4"
    and w: "ord db' = ord db4"
    by (rule transition_steps) (auto split: if_splits)
  have ids: "distinct (map or_ID (orders_t (ord db)))"
    using assms(2) by (simp add: orders_inv_def)
  note T = TransitionOrder_Inr [OF t ids assms(3) refl refl]
  have st: "stock_frame (db\<lparr>ord := ot2\<rparr>) db2" "stock_frame db2 db3"
    using r c by (auto split: if_splits intro: releaseStock_frame consumeStock_frame)
  have "ord db4 = ord db3" by (rule billing_step_frame [OF settle_billing [OF s assms(4)]])
  then have "orders_t (ord db') = orders_t ot2" using w st by (simp add: stock_frame_def)
  then show m: "orders_t (ord db') = moved order tr cmd (orders_t (ord db))"
    using e T(2) by (simp add: AppendOrderEvent_Inr moved_def)
  show "updated \<in> set (orders_t (ord db'))"
    unfolding m moved_def T(1) using assms(3) by (auto simp: image_iff intro!: bexI [of _ order])
qed

lemma Then_not_invoice: "TransitionFor t = Some tr \<Longrightarrow> Then tr = Some t' \<Longrightarrow> t \<noteq> TriggerIssueInvoice"
  by (auto simp: TransitionFor_def)

lemma runTransition_cases:
  assumes "runTransition env order trigger cmd db = Inr db'"
  obtains (one) tr u where "TransitionFor trigger = Some tr" "Permits tr (or_Status order)" "Then tr = None"
      "transition env order trigger tr cmd db = Inr (u, db')"
    | (two) tr u db1 t' follow u' where "TransitionFor trigger = Some tr" "Permits tr (or_Status order)"
      "Then tr = Some t'" "transition env order trigger tr cmd db = Inr (u, db1)"
      "TransitionFor t' = Some follow" "Permits follow (or_Status u)"
      "transition env u t' follow cmd db1 = Inr (u', db')"
proof -
  from assms obtain tr where tr: "TransitionFor trigger = Some tr" "Permits tr (or_Status order)"
    by (auto simp: runTransition_def split: option.splits if_splits)
  with assms obtain u db1 where t: "transition env order trigger tr cmd db = Inr (u, db1)"
    and k: "(case Then tr of None \<Rightarrow> Inr db1
          | Some t' \<Rightarrow>
            (case TransitionFor t' of None \<Rightarrow> Inl (OtherError ''orders: unknown follow-on'')
             | Some follow \<Rightarrow>
               if Then follow \<noteq> None then Inl (OtherError ''orders: follow-on may not declare its own'')
               else if \<not> Permits follow (or_Status u) then Inl OrdersConflict
               else andThen (transition env u t' follow cmd db1) (\<lambda>(_, db2). Inr db2))) = Inr db'"
    by (simp add: runTransition_def) (erule andThen_pairE)
  show thesis
  proof (cases "Then tr")
    case None
    then show thesis using one [OF tr] t k by simp
  next
    case (Some t')
    with k obtain follow where f: "TransitionFor t' = Some follow" "Permits follow (or_Status u)"
      and "andThen (transition env u t' follow cmd db1) (\<lambda>(_, db2). Inr db2) = Inr db'"
      by (simp split: option.splits if_splits)
    then obtain u' where "transition env u t' follow cmd db1 = Inr (u', db')"
      by (elim andThen_pairE) simp
    then show thesis by (rule two [OF tr Some t f])
  qed
qed

text \<open>
  A predicate that every single transition keeps is kept by the whole request. \<open>G\<close> may restrict
  the transitions that are looked at.
\<close>

lemma runTransition_keeps:
  assumes run: "runTransition env order trigger cmd db = Inr db'"
    and o: "orders_inv (ord db)" "order \<in> set (orders_t (ord db))" and P: "P db"
    and G: "G trigger (or_Status order)" "\<And>t tr t'. TransitionFor t = Some tr \<Longrightarrow> Then tr = Some t' \<Longrightarrow> G t' (To tr)"
    and step: "\<And>order t tr db u db'. transition env order t tr cmd db = Inr (u, db') \<Longrightarrow> orders_inv (ord db) \<Longrightarrow>
       order \<in> set (orders_t (ord db)) \<Longrightarrow> TransitionFor t = Some tr \<Longrightarrow> Permits tr (or_Status order) \<Longrightarrow>
       G t (or_Status order) \<Longrightarrow> P db \<Longrightarrow> P db'"
  shows "P db'"
  using run
proof (cases rule: runTransition_cases)
  case (one tr u)
  then show ?thesis using step [OF one(4) o one(1,2) G(1) P] by simp
next
  case (two tr u db1 t' follow u')
  have P1: "P db1" by (rule step [OF two(4) o two(1,2) G(1) P])
  note T = transition_effect [OF two(4) o] and U = transition_updated [OF two(4) o Then_not_invoice [OF two(1,3)]]
  have "or_Status u = To tr" using T(1) by (simp add: set_status_def)
  then show ?thesis using step [OF two(7) T(6) U(2) two(5,6) _ P1] G(2) [OF two(1,3)] by simp
qed

lemma runTransition_settled:
  assumes run: "runTransition env order trigger cmd db = Inr db'"
    and o: "orders_inv (ord db)" "order \<in> set (orders_t (ord db))"
  obtains s where "settled trigger (or_Status order) = Some s"
    "map or_key (orders_t (ord db')) =
       map (\<lambda>(i, st, x). if i = or_ID order then (i, st, s) else (i, st, x)) (map or_key (orders_t (ord db)))"
  using run
proof (cases rule: runTransition_cases)
  case (one tr u)
  note T = transition_effect [OF one(4) o]
  have "settled trigger (or_Status order) = Some (To tr)" using one by (simp add: settled_def)
  then show ?thesis using that map_clear_due_cong [OF T(5), of or_key] moved_keys by simp
next
  case (two tr u db1 t' follow u')
  note T = transition_effect [OF two(4) o] and U = transition_updated [OF two(4) o Then_not_invoice [OF two(1,3)]]
  note F = transition_effect [OF two(7) T(6) U(2)]
  have u: "or_Status u = To tr" "or_ID u = or_ID order" using T(1) by (simp_all add: set_status_def)
  have "settled trigger (or_Status order) = Some (To follow)" using two u by (simp add: settled_def)
  moreover have "map or_key (orders_t (ord db')) =
       map (\<lambda>(i, st, x). if i = or_ID order then (i, st, To follow) else (i, st, x)) (map or_key (orders_t (ord db)))"
    using map_clear_due_cong [OF F(5), of or_key] moved_keys [of u] moved_keys [of order] U(1) u
    by (auto simp: case_prod_beta)
  ultimately show ?thesis using that by simp
qed

lemma runTransition_history:
  assumes "runTransition env order trigger cmd db = Inr db'"
    and "orders_inv (ord db)" "order \<in> set (orders_t (ord db))" "history_ok (ord db)"
  shows "history_ok (ord db')"
  by (rule runTransition_keeps [OF assms(1-3), where P = "\<lambda>db. history_ok (ord db)" and G = "\<lambda>_ _. True"])
     (auto intro: transition_history assms(4))

lemma runTransition_rest:
  assumes "runTransition env order trigger cmd db = Inr db'"
    and "orders_inv (ord db)" "order \<in> set (orders_t (ord db))" "rest_ok (ord db)"
  shows "rest_ok (ord db')"
proof -
  have k: "rest_ok ot \<longleftrightarrow> list_all (\<lambda>(i, st, x). x \<in> set at_rest) (map or_key (orders_t ot))" for ot
    by (simp add: rest_ok_def list_all_map_eq or_key_def)
  from runTransition_settled [OF assms(1-3)] obtain s where s: "settled trigger (or_Status order) = Some s"
    and m: "map or_key (orders_t (ord db')) =
       map (\<lambda>(i, st, x). if i = or_ID order then (i, st, s) else (i, st, x)) (map or_key (orders_t (ord db)))" .
  show ?thesis using assms(4) settled_at_rest [OF s] unfolding k m
    by (auto simp: list_all_iff split: if_splits prod.splits)
qed

end
