(* ===== verification/OrdersLedger.thy ===== *)
theory OrdersLedger
  imports OrdersAudit
begin

text \<open>
  The stock ledger across the two modules: what the catalogue holds reserved of a product in a
  store is what the orders that hold stock ask for. Placing an order adds its lines, releasing
  and consuming take them off; the one request that breaks the balance is a cancellation out of
  \<open>buyer_decision_pending\<close>, whose stock the decline before it has already released.
\<close>

section \<open>What orders hold\<close>

fun holding :: "Status \<Rightarrow> bool" where
  "holding StatusCreated = True"
| "holding StatusAccepted = True"
| "holding StatusAwaitingPayment = True"
| "holding StatusPaymentReview = True"
| "holding StatusPaid = True"
| "holding StatusPreparing = True"
| "holding StatusReady = True"
| "holding StatusDelivered = True"
| "holding StatusPickedUpByBuyer = True"
| "holding _ = False"

definition contribution :: "order_item list \<Rightarrow> uuid \<Rightarrow> uuid \<Rightarrow> uuid \<times> uuid \<times> Status \<Rightarrow> rat" where
  "contribution items s p k = (if fst (snd k) = s \<and> holding (snd (snd k))
     then item_qty (filter (\<lambda>i. oi_OrderID i = fst k) items) p else 0)"

definition held :: "order_tables \<Rightarrow> uuid \<Rightarrow> uuid \<Rightarrow> rat" where
  "held ot s p = sum_list (map (contribution (order_items ot) s p) (map or_key (orders_t ot)))"

definition ledger_ok :: "'z bdb_scheme \<Rightarrow> bool" where
  "ledger_ok db \<longleftrightarrow> (\<forall>s p. reserved_of (cat db) s p = held (ord db) s p)"

text \<open>The request that releases stock twice.\<close>

definition double_release :: "Trigger \<Rightarrow> Status \<Rightarrow> bool" where
  "double_release t s \<longleftrightarrow>
     t \<in> {TriggerBuyerCancel, TriggerOperatorCancel} \<and> s = StatusBuyerDecisionPending"

lemma table_holding:
  assumes "TransitionFor t = Some tr" "Permits tr s" "\<not> double_release t s"
  shows "ReleasesStock tr \<or> ConsumesStock tr \<Longrightarrow> holding s \<and> \<not> holding (To tr)"
    and "\<not> (ReleasesStock tr \<or> ConsumesStock tr) \<Longrightarrow> holding (To tr) = holding s"
    and "\<not> (ReleasesStock tr \<and> ConsumesStock tr)"
  using assms by (cases t; auto simp: TransitionFor_def Permits_def double_release_def)+

lemma double_release_breaks:
  assumes "TransitionFor t = Some tr" "double_release t s"
  shows "Permits tr s" "ReleasesStock tr" "\<not> holding s"
  using assms by (auto simp: double_release_def TransitionFor_def Permits_def)

lemma sum_list_update:
  fixes f :: "'k \<times> 'a \<Rightarrow> rat"
  assumes "distinct (map fst ks)" "(i, a) \<in> set ks"
  shows "sum_list (map f (map (\<lambda>(j, b). if j = i then (j, g b) else (j, b)) ks)) =
     sum_list (map f ks) - f (i, a) + f (i, g a)"
  using assms
proof (induction ks)
  case (Cons k ks)
  obtain j b where k: "k = (j, b)" by (cases k)
  show ?case
  proof (cases "j = i")
    case True
    then have "i \<notin> fst ` set ks" using Cons.prems(1) k by simp
    then have "map (\<lambda>(j, b). if j = i then (j, g b) else (j, b)) ks = ks"
      by (intro map_idI) (auto simp: image_iff)
    moreover have "b = a" using Cons.prems k True by (auto simp: image_iff)
    ultimately show ?thesis by (simp add: k True del: map_map)
  next
    case False
    then show ?thesis using Cons k by auto
  qed
qed simp

lemma item_qty_nonneg: "list_all order_item_chk items \<Longrightarrow> 0 \<le> item_qty items p"
  unfolding item_qty_def by (induction items) (auto simp: order_item_chk_def)

lemma contribution_nonneg: "list_all order_item_chk items \<Longrightarrow> 0 \<le> contribution items s p k"
  unfolding contribution_def by (auto intro!: item_qty_nonneg simp: list_all_iff)

lemma member_le_sum:
  fixes f :: "'a \<Rightarrow> rat"
  assumes "x \<in> set xs" "\<And>y. 0 \<le> f y"
  shows "f x \<le> sum_list (map f xs)"
  using assms(1)
proof (induction xs)
  case (Cons y ys)
  have "0 \<le> sum_list (map f ys)" by (rule sum_list_nonneg) (use assms(2) in auto)
  then show ?case using Cons assms(2) [of y] by auto
qed simp

text \<open>An order that holds stock is covered by the ledger.\<close>

lemma ledger_covers:
  assumes "ledger_ok db" "orders_inv (ord db)" "order \<in> set (orders_t (ord db))" "holding (or_Status order)"
  shows "covered db order"
  unfolding covered_def
proof
  fix p
  have chk: "list_all order_item_chk (order_items (ord db))" using assms(2) by (simp add: orders_inv_def)
  have "contribution (order_items (ord db)) (or_StoreID order) p (or_key order) \<le> held (ord db) (or_StoreID order) p"
    unfolding held_def using assms(3) by (intro member_le_sum contribution_nonneg chk) simp
  moreover have "contribution (order_items (ord db)) (or_StoreID order) p (or_key order)
      = item_qty (items_of (ord db) (or_ID order)) p"
    using assms(4) by (simp add: contribution_def or_key_def items_of_def)
  ultimately show "item_qty (items_of (ord db) (or_ID order)) p \<le> reserved_of (cat db) (or_StoreID order) p"
    using assms(1) by (simp add: ledger_ok_def)
qed

section \<open>Transitions keep the balance\<close>

lemma held_moved:
  assumes "map or_key (orders_t ot') =
       map (\<lambda>(i, st, x). if i = or_ID order then (i, st, s') else (i, st, x)) (map or_key (orders_t ot))"
    and "order_items ot' = order_items ot" "distinct (map or_ID (orders_t ot))" "order \<in> set (orders_t ot)"
  shows "held ot' s p = held ot s p
     - (if or_StoreID order = s \<and> holding (or_Status order) then item_qty (items_of ot (or_ID order)) p else 0)
     + (if or_StoreID order = s \<and> holding s' then item_qty (items_of ot (or_ID order)) p else 0)"
proof -
  have d: "distinct (map fst (map or_key (orders_t ot)))"
    using assms(3) by (simp add: or_key_def o_def)
  have m: "(or_ID order, or_StoreID order, or_Status order) \<in> set (map or_key (orders_t ot))"
    using assms(4) by (auto simp: or_key_def image_iff intro!: bexI [of _ order])
  have f: "(\<lambda>(i, st, x). if i = or_ID order then (i, st, s') else (i, st, x)) =
     (\<lambda>(j, b). if j = or_ID order then (j, (\<lambda>(st, x). (st, s')) b) else (j, b :: uuid \<times> Status))"
    by (auto simp: fun_eq_iff)
  show ?thesis
    unfolding held_def assms(1,2) f sum_list_update [OF d m]
    by (simp add: contribution_def items_of_def)
qed

lemma transition_stock:
  fixes db :: "'z bdb_scheme"
  assumes "transition env order trigger tr cmd db = Inr (updated, db')"
    and "orders_inv (ord db)" "order \<in> set (orders_t (ord db))"
  obtains db1 db2 :: "'z bdb_scheme" where "order_items (ord db1) = order_items (ord db)" "orders_inv (ord db1)"
    "cat db1 = cat db"
    "if ReleasesStock tr then releaseStock env order db1 = Inr db2 else db2 = db1"
    "if ConsumesStock tr then \<exists>db3. consumeStock env order db2 = Inr db3 \<and> cat db' = cat db3 else cat db' = cat db2"
proof -
  from assms(1) obtain ot1 ot2 db2 db3 db4 where
    t: "TransitionOrder env (To tr) (tc_At cmd) (or_ID order) (or_Status order) (ord db) = Inr (updated, ot1)"
    and e: "AppendOrderEvent env (event_of order tr cmd) ot1 = Inr ot2"
    and r: "if ReleasesStock tr then releaseStock env order (db\<lparr>ord := ot2\<rparr>) = Inr db2 else db2 = db\<lparr>ord := ot2\<rparr>"
    and c: "if ConsumesStock tr then consumeStock env order db2 = Inr db3 else db3 = db2"
    and s: "settle env updated trigger cmd db3 = Inr db4"
    and w: "cat db' = cat db4"
    by (rule transition_steps) (auto split: if_splits)
  have ids: "distinct (map or_ID (orders_t (ord db)))" and chk: "list_all order_chk (orders_t (ord db))"
    using assms(2) by (simp_all add: orders_inv_def)
  note T = TransitionOrder_Inr [OF t ids assms(3) refl refl]
  have ot2: "ot2 = ot1\<lparr>order_events := order_events ot1 @ [event_of order tr cmd]\<rparr>"
    "order_exists (oe_OrderID (event_of order tr cmd)) ot1"
    using e by (simp_all add: AppendOrderEvent_Inr)
  have ot1: "map or_ID (orders_t ot1) = map or_ID (orders_t (ord db))"
    by (simp add: T(2) o_def set_status_def if_distrib [of or_ID] cong: if_cong)
  have "orders_inv ot1"
    by (rule orders_inv_cong [OF ot1 T(3) [OF chk] _ _ _ assms(2)])
       (use T(2) assms(2) ot1 in \<open>simp_all add: orders_inv_def order_exists_map\<close>)
  then have i: "orders_inv ot2"
    using ot2 by (intro orders_inv_cong [of ot2 ot1]) (simp_all add: orders_inv_def order_exists_map)
  have "cat db4 = cat db3" using settle_frame [OF s] by (simp add: settle_frame_def)
  then show thesis
    using that [of "db\<lparr>ord := ot2\<rparr>" db2] i r c w T(2) ot2(1) by (auto split: if_splits)
qed

text \<open>What one transition does to the two sides of the balance.\<close>

lemma transition_held:
  fixes db :: "'z bdb_scheme"
  assumes "transition env order trigger tr cmd db = Inr (updated, db')"
    and "orders_inv (ord db)" "order \<in> set (orders_t (ord db))"
  shows "held (ord db') s p = held (ord db) s p
     - (if or_StoreID order = s \<and> holding (or_Status order) then item_qty (items_of (ord db) (or_ID order)) p else 0)
     + (if or_StoreID order = s \<and> holding (To tr) then item_qty (items_of (ord db) (or_ID order)) p else 0)"
proof -
  note T = transition_effect [OF assms]
  have keys: "map or_key (orders_t (ord db')) =
     map (\<lambda>(i, s, st). if i = or_ID order then (i, s, To tr) else (i, s, st)) (map or_key (orders_t (ord db)))"
    using map_clear_due_cong [OF T(5), of or_key] moved_keys by simp
  have "distinct (map or_ID (orders_t (ord db)))" using assms(2) by (simp add: orders_inv_def)
  from held_moved [OF keys T(3) this assms(3)] show ?thesis .
qed

lemma transition_reserved:
  fixes db :: "'z bdb_scheme"
  assumes "transition env order trigger tr cmd db = Inr (updated, db')"
    and "orders_inv (ord db)" "order \<in> set (orders_t (ord db))"
    and "ReleasesStock tr \<or> ConsumesStock tr" "\<not> (ReleasesStock tr \<and> ConsumesStock tr)"
    and "catalog_inv (cat db)" "lossless_ids env" "scannable env (order_items (ord db))" "covered db order"
  shows "reserved_of (cat db') s p = reserved_of (cat db) s p
     - (if s = or_StoreID order then item_qty (items_of (ord db) (or_ID order)) p else 0)"
proof -
  obtain db1 db2 :: "'z bdb_scheme" where d1: "order_items (ord db1) = order_items (ord db)" "orders_inv (ord db1)" "cat db1 = cat db"
    and r: "if ReleasesStock tr then releaseStock env order db1 = Inr db2 else db2 = db1"
    and c: "if ConsumesStock tr then \<exists>db3. consumeStock env order db2 = Inr db3 \<and> cat db' = cat db3 else cat db' = cat db2"
    by (rule transition_stock [OF assms(1-3)])
  have it: "items_of (ord db1) i = items_of (ord db) i" for i using d1(1) by (simp add: items_of_def)
  have cov: "covered db1 order" using assms(9) by (simp add: covered_def it d1(3))
  have sc: "scannable env (order_items (ord db1))" using assms(8) d1(1) by simp
  have ci: "catalog_inv (cat db1)" using assms(6) d1(3) by simp
  show ?thesis
  proof (cases "ReleasesStock tr")
    case True
    then have "\<not> ConsumesStock tr" using assms(5) by simp
    with True r c have "releaseStock env order db1 = Inr db2" "cat db' = cat db2" by simp_all
    then show ?thesis using releaseStock_exact(1) [OF _ ci d1(2) assms(7) sc cov, of db2 s p] d1(3) it by simp
  next
    case False
    with assms(4) r c obtain db3 where "consumeStock env order db1 = Inr db3" "cat db' = cat db3" by auto
    then show ?thesis using consumeStock_exact(1) [OF _ ci d1(2) assms(7) sc cov, of db3 s p] d1(3) it by simp
  qed
qed

lemma transition_reserved_none:
  fixes db :: "'z bdb_scheme"
  assumes "transition env order trigger tr cmd db = Inr (updated, db')"
    and "orders_inv (ord db)" "order \<in> set (orders_t (ord db))" "\<not> (ReleasesStock tr \<or> ConsumesStock tr)"
  shows "cat db' = cat db"
proof -
  obtain db1 db2 :: "'z bdb_scheme" where "cat db1 = cat db"
    "if ReleasesStock tr then releaseStock env order db1 = Inr db2 else db2 = db1"
    "if ConsumesStock tr then \<exists>db3. consumeStock env order db2 = Inr db3 \<and> cat db' = cat db3 else cat db' = cat db2"
    by (rule transition_stock [OF assms(1-3)])
  then show ?thesis using assms(4) by simp
qed

lemma transition_ledger:
  fixes db :: "'z bdb_scheme"
  assumes "transition env order trigger tr cmd db = Inr (updated, db')"
    and "orders_inv (ord db)" "order \<in> set (orders_t (ord db))" "TransitionFor trigger = Some tr"
    and "Permits tr (or_Status order)" "\<not> double_release trigger (or_Status order)"
    and "catalog_inv (cat db)" "ledger_ok db" "lossless_ids env" "scannable env (order_items (ord db))"
  shows "ledger_ok db'"
proof -
  note H = table_holding [OF assms(4-6)] and M = transition_held [OF assms(1-3)]
  show ?thesis
  proof (cases "ReleasesStock tr \<or> ConsumesStock tr")
    case True
    then have h: "holding (or_Status order)" "\<not> holding (To tr)" using H(1) by auto
    have "covered db order" by (rule ledger_covers [OF assms(8,2,3) h(1)])
    note R = transition_reserved [OF assms(1-3) True H(3) assms(7,9,10) this]
    then show ?thesis using assms(8) h by (simp add: ledger_ok_def M)
  next
    case False
    then show ?thesis
      using assms(8) H(2) transition_reserved_none [OF assms(1-3) False] by (simp add: ledger_ok_def M)
  qed
qed

text \<open>
  The release of an order that has released before takes its quantities out of what other orders
  hold: nothing is held less, so the balance breaks wherever the order has an item.
\<close>

lemma double_release_ledger:
  fixes db :: "'z bdb_scheme"
  assumes "transition env order trigger tr cmd db = Inr (updated, db')"
    and "orders_inv (ord db)" "order \<in> set (orders_t (ord db))" "TransitionFor trigger = Some tr"
    and "double_release trigger (or_Status order)"
    and "catalog_inv (cat db)" "lossless_ids env" "scannable env (order_items (ord db))" "covered db order"
  shows "held (ord db') s p = held (ord db) s p"
    and "reserved_of (cat db') s p = reserved_of (cat db) s p
     - (if s = or_StoreID order then item_qty (items_of (ord db) (or_ID order)) p else 0)"
proof -
  note B = double_release_breaks [OF assms(4,5)]
  have n: "\<not> holding (To tr)" "\<not> ConsumesStock tr"
    using assms(4,5) by (auto simp: double_release_def TransitionFor_def)
  show "held (ord db') s p = held (ord db) s p"
    using transition_held [OF assms(1-3)] B(3) n by simp
  show "reserved_of (cat db') s p = reserved_of (cat db) s p
     - (if s = or_StoreID order then item_qty (items_of (ord db) (or_ID order)) p else 0)"
    by (rule transition_reserved [OF assms(1-3) _ _ assms(6-9)]) (use B(2) n in simp_all)
qed

end
