(* ===== verification/OrdersCreate.thy ===== *)
theory OrdersCreate
  imports OrdersLedger
begin

text \<open>
  What placing an order writes: the rows of the order, its items with the quantities, prices and
  rates the catalogue quoted, the first event of its log and its confirmation token, all with
  the reservation in one transaction.
\<close>

section \<open>The items\<close>

definition item_of_line :: "'a env_scheme \<Rightarrow> uuid \<Rightarrow> QuotedLine \<Rightarrow> order_item \<Rightarrow> bool" where
  "item_of_line env orderID l i \<longleftrightarrow> oi_OrderID i = orderID \<and>
     uuid_Parse env (ql_ProductID l) = Some (oi_ProductID i) \<and>
     Numeric_Scan env (ql_Qty l) = Some (oi_Qty i) \<and> oi_UnitPrice i = ql_UnitPrice l \<and>
     oi_LineAmount i = ql_LineAmount l \<and> oi_CommissionBps i = ql_CommissionBps l"

definition only_items :: "order_tables \<Rightarrow> order_tables \<Rightarrow> order_item list \<Rightarrow> bool" where
  "only_items ot ot' new \<longleftrightarrow> ot' = ot\<lparr>order_items := order_items ot @ new\<rparr> \<and> (orders_inv ot \<longrightarrow> orders_inv ot')"

lemma store_CreateOrderItem_only:
  "store_CreateOrderItem env row ct ot = Inr ot' \<Longrightarrow> only_items ot ot' [row]"
  by (auto simp: store_CreateOrderItem_def sql_simps go_simps only_items_def orders_inv_def list_ex_iff
      order_item_clash_def order_exists_def)

lemma create_item_Inr:
  assumes "create_item env ct orderID (n, l) ot = Inr ot'"
  obtains i where "item_of_line env orderID l i" "only_items ot ot' [i]"
proof -
  from assms obtain q p where q: "Numeric_Scan env (ql_Qty l) = Some q"
    and p: "uuid_Parse env (ql_ProductID l) = Some p"
    and c: "store_CreateOrderItem env \<lparr>oi_ID = rowID env n, oi_OrderID = orderID, oi_ProductID = p, oi_Qty = q,
       oi_UnitPrice = ql_UnitPrice l, oi_LineAmount = ql_LineAmount l,
       oi_CommissionBps = ql_CommissionBps l\<rparr> ct ot = Inr ot'"
    by (auto simp: create_item_def andThen_eq_Inr mapErr_eq_Inr sql_simps split: option.splits)
  show thesis
    by (rule that [OF _ store_CreateOrderItem_only [OF c]]) (simp add: item_of_line_def p q)
qed

lemma create_items_Inr:
  assumes "foldE (create_item env ct orderID) nls ot = Inr ot'"
  shows "\<exists>new. only_items ot ot' new \<and> list_all2 (item_of_line env orderID) (map snd nls) new"
  using assms
proof (induction nls arbitrary: ot)
  case Nil
  then show ?case by (auto simp: only_items_def intro!: exI [of _ "[]"])
next
  case (Cons nl nls)
  obtain n l where nl: "nl = (n, l)" by (cases nl)
  from Cons.prems nl obtain ot1 where c: "create_item env ct orderID (n, l) ot = Inr ot1"
    and r: "foldE (create_item env ct orderID) nls ot1 = Inr ot'" by (auto simp: andThen_eq_Inr)
  obtain i where i: "item_of_line env orderID l i" "only_items ot ot1 [i]" by (rule create_item_Inr [OF c])
  from Cons.IH [OF r] obtain new where "only_items ot1 ot' new" "list_all2 (item_of_line env orderID) (map snd nls) new"
    by blast
  then show ?case using i nl by (intro exI [of _ "i # new"]) (auto simp: only_items_def)
qed

section \<open>The order\<close>

definition created_event :: "uuid \<Rightarrow> CreateCommand \<Rightarrow> order_event" where
  "created_event orderID cmd = \<lparr>oe_OrderID = orderID, oe_FromStatus = None, oe_ToStatus = StatusCreated,
     oe_Actor = ActorBuyer, oe_Source = SourceApp, oe_Payload = None, oe_CreatedAt = cc_At cmd\<rparr>"

lemma insert_order_Inr:
  assumes "insert_order env cmd orderID quote db = Inr ot'"
  obtains buyerID storeID new where
    "uuid_Parse env (cc_BuyerID cmd) = Some buyerID" "uuid_Parse env (ci_StoreID cmd) = Some storeID"
    "\<not> order_exists orderID (ord db)" "order_chk (order_of cmd quote orderID buyerID storeID)"
    "list_all2 (item_of_line env orderID) (q_Lines quote) new"
    "ot' = (ord db)\<lparr>orders_t := orders_t (ord db) @ [order_of cmd quote orderID buyerID storeID],
       order_items := order_items (ord db) @ new,
       order_events := order_events (ord db) @ [created_event orderID cmd]\<rparr>"
    "orders_inv (ord db) \<Longrightarrow> orders_inv ot'"
proof -
  from assms obtain b s ot1 ot2 where
    b: "uuid_Parse env (cc_BuyerID cmd) = Some b" "uuid_Parse env (ci_StoreID cmd) = Some s"
    and o: "store_CreateOrder env (order_of cmd quote orderID b s) db = Inr ot1"
    and f: "foldE (create_item env (cat db) orderID) (enumerate 0 (q_Lines quote)) ot1 = Inr ot2"
    and e: "AppendOrderEvent env (created_event orderID cmd) ot2 = Inr ot'"
    by (auto simp: insert_order_def andThen_eq_Inr mapErr_eq_Inr sql_simps created_event_def)
  from o have ot1: "ot1 = (ord db)\<lparr>orders_t := orders_t (ord db) @ [order_of cmd quote orderID b s]\<rparr>"
    and fresh: "\<not> order_exists orderID (ord db)" and chk: "order_chk (order_of cmd quote orderID b s)"
    by (auto simp: store_CreateOrder_def sql_simps go_simps order_exists_def list_ex_iff order_of_def)
  have inv1: "orders_inv (ord db) \<Longrightarrow> orders_inv ot1"
    using fresh chk by (auto simp: ot1 orders_inv_def order_exists_def list_ex_iff list_all_iff order_of_def)
  from create_items_Inr [OF f] obtain new where new: "only_items ot1 ot2 new"
    "list_all2 (item_of_line env orderID) (q_Lines quote) new" by auto
  have ot': "ot' = ot2\<lparr>order_events := order_events ot2 @ [created_event orderID cmd]\<rparr>"
    and ex: "order_exists (oe_OrderID (created_event orderID cmd)) ot2"
    using e by (simp_all add: AppendOrderEvent_Inr)
  have "orders_inv ot2 \<Longrightarrow> orders_inv ot'"
    using ex by (simp add: ot' orders_inv_def order_exists_def)
  then show thesis
    using b fresh chk new inv1 ot' ot1
    by (intro that [of b s new]) (auto simp: only_items_def)
qed

lemma insert_token_Inr:
  assumes "insert_token env cmd orderID quote token lc ot = Inr ot'"
  shows "orders_t ot' = orders_t ot" "order_items ot' = order_items ot" "order_events ot' = order_events ot"
    and "orders_inv ot \<Longrightarrow> orders_inv ot'"
  using assms
  by (auto simp: insert_token_def CreateConfirmToken_def mapErr_eq_Inr andThen_eq_Inr sql_simps
      orders_inv_def list_ex_iff order_exists_def)

lemma place_order_Inr:
  assumes "place_order env notify cmd orderID p1 db = Inr (res, db')"
  obtains seller quote ct ot1 ot2 token p2 where
      "ResolveSellerForOrder env (ci_StoreID cmd) (loc db) = (seller, None)"
      "ReserveOrderLines env (reserve_request cmd) (cat db) = Inr (quote, ct)"
      "insert_order env cmd orderID quote (db\<lparr>cat := ct\<rparr>) = Inr ot1"
      "rand_token env = Inr token"
      "insert_token env cmd orderID quote token (loc db) ot1 = Inr ot2"
      "Write env ''orders'' (uuid_String env orderID)
        (OrderCreatedPayload (ci_StoreID cmd) (cc_BuyerID cmd) (q_GoodsAmount quote) (q_DeliveryFee quote)
           (q_TotalAmount quote) (int (length (q_Lines quote))) (ci_Urgent cmd)
           (q_ConfirmationDeadline quote)) p1 = Inr p2"
      "db' = db\<lparr>plat := p2, cat := ct, ord := ot2\<rparr>"
      "fst res = \<lparr>cd_OrderID = uuid_String env orderID, cd_Status = StatusCreated,
           cd_GoodsAmount = q_GoodsAmount quote, cd_DeliveryFee = q_DeliveryFee quote,
           cd_TotalAmount = q_TotalAmount quote,
           cd_SupplierConfirmationDeadline = q_ConfirmationDeadline quote\<rparr>"
proof -
  from assms obtain seller where s: "ResolveSellerForOrder env (ci_StoreID cmd) (loc db) = (seller, None)"
    by (auto simp: place_order_def split: prod.splits option.splits)
  show thesis
    using assms unfolding place_order_def s
    by (simp add: mapErr_eq_Inr) (elim andThenE andThen_pairE, rule that [OF s],
        auto simp: mapErr_eq_Inr stmt_eq_Inr)
qed

text \<open>A committed request: a replay, which changes nothing, or the order placed.\<close>

lemma Repository_Create_Inr:
  assumes "Repository_Create env notify c cmd db = (Inr res, db')"
  obtains (replay) st created where "db' = db" "receipt_of (plat db) (OperationKey c) = Some st"
      "replayCreated env st (ord db) = Inr created" "res = (created, None)"
    | (placed) st p1 where
      "claim env (OperationKey c) (newID env) (cc_At cmd) (plat db) = Inr ((st, True), p1)"
      "place_order env notify cmd (newID env) p1 db = Inr (res, db')"
proof -
  from assms obtain x p1 where r: "ReserveNew env (OperationKey c) (newID env) (cc_At cmd) (plat db) = Inr (x, p1)"
    and b: "(case x of (rp, i) \<Rightarrow> if rp then andThen (replayCreated env i (ord db)) (\<lambda>created. Inr ((created, None), db))
        else place_order env notify cmd (newID env) p1 db) = Inr (res, db')"
    unfolding Repository_Create_def Let_def commit_Inr stmt_eq_Inr by (auto elim: andThen_pairE)
  obtain rp i where x: "x = (rp, i)" by (cases x)
  show thesis
  proof (cases rp)
    case True
    with r x have "claim env (OperationKey c) (newID env) (cc_At cmd) (plat db) = Inr ((i, False), p1)"
      by (simp add: ReserveNew_replay)
    then have "receipt_of (plat db) (OperationKey c) = Some i" using claim_Inr(3) by blast
    then show thesis using True b x by (auto elim!: andThenE intro: replay)
  next
    case False
    with r x obtain st where k: "claim env (OperationKey c) (newID env) (cc_At cmd) (plat db) = Inr ((st, True), p1)"
      by (auto simp: ReserveNew_first)
    from False b x show thesis by (intro placed [OF k]) simp
  qed
qed

end
