(* ===== verification/OrdersInvariants.thy ===== *)
theory OrdersInvariants
  imports OrdersCreate
begin

text \<open>
  The requests of the order repository as one handler, and what every history of them keeps: the
  constraints of the schema, the audit log, the rest statuses, the append-only platform tables
  and, as long as no cancellation meets \<open>buyer_decision_pending\<close>, the stock ledger.
\<close>

section \<open>A committed request\<close>

lemma Repository_Apply_Inr:
  assumes "Repository_Apply env c cmd db = (Inr u, db')"
  obtains (replay) i where "db' = db" "uuid_Parse env (tc_OrderID cmd) = Some i"
      "receipt_of (plat db) (OperationKey c) = Some i"
    | (applied) i st p1 order where "uuid_Parse env (tc_OrderID cmd) = Some i"
      "claim env (OperationKey c) i (tc_At cmd) (plat db) = Inr ((st, True), p1)"
      "order \<in> set (orders_t (ord db))" "or_ID order = i"
      "runTransition env order (tc_Trigger cmd) cmd (db\<lparr>plat := p1\<rparr>) = Inr db'"
proof -
  from assms obtain i where i: "uuid_Parse env (tc_OrderID cmd) = Some i"
    by (auto simp: Repository_Apply_def split: option.splits)
  from assms obtain rp p1 where r: "ReserveFor env (OperationKey c) i (tc_At cmd) (plat db) = Inr (rp, p1)"
    and b: "(if rp then Inr ((), db)
         else
         andThen (mapErr (\<lambda>e. if e = NoRows then OrdersNotFound else mapError e)
           (GetOrderForUpdate env i (ord db))) (\<lambda>order.
         andThen (runTransition env order (tc_Trigger cmd) cmd (db\<lparr>plat := p1\<rparr>)) (\<lambda>db1.
         stmt env ''commit'' (Inr ((), db1))))) = Inr (u, db')"
    by (auto simp: Repository_Apply_def i commit_Inr stmt_eq_Inr mapErr_eq_Inr
        split: option.splits elim!: andThen_pairE)
  show thesis
  proof (cases rp)
    case True
    with r have "claim env (OperationKey c) i (tc_At cmd) (plat db) = Inr ((i, False), p1)"
      by (auto simp: ReserveFor_replay)
    then have "receipt_of (plat db) (OperationKey c) = Some i" using claim_Inr(3) by blast
    then show thesis using True b i by (intro replay) auto
  next
    case False
    with r obtain st where k: "claim env (OperationKey c) i (tc_At cmd) (plat db) = Inr ((st, True), p1)"
      by (auto simp: ReserveFor_first)
    from False b obtain order where o: "GetOrderForUpdate env i (ord db) = Inr order"
      and run: "runTransition env order (tc_Trigger cmd) cmd (db\<lparr>plat := p1\<rparr>) = Inr db'"
      by (auto simp: mapErr_eq_Inr stmt_eq_Inr elim!: andThenE)
    from o have "order \<in> set (orders_t (ord db))" "or_ID order = i"
      by (auto simp: GetOrderForUpdate_def stmt_eq_Inr dest: sql_one_Inr)
    then show thesis by (rule applied [OF i k _ _ run])
  qed
qed

lemma ConsumeConfirmToken_Inr:
  assumes "ConsumeConfirmToken env hash tm ot = Inr (tk, ot')"
  obtains tk0 where "tk0 \<in> set (confirm_tokens ot)" "token_live hash tm tk0" "tk = tk0\<lparr>tk_UsedAt := Some tm\<rparr>"
    "ot' = ot\<lparr>confirm_tokens := map (\<lambda>r. if token_live hash tm r then r\<lparr>tk_UsedAt := Some tm\<rparr> else r)
       (confirm_tokens ot)\<rparr>"
    "orders_inv ot \<Longrightarrow> orders_inv ot'"
proof -
  let ?ot' = "ot\<lparr>confirm_tokens := map (\<lambda>r. if token_live hash tm r then r\<lparr>tk_UsedAt := Some tm\<rparr> else r)
       (confirm_tokens ot)\<rparr>"
  from assms obtain tk0 ps where f: "filter (token_live hash tm) (confirm_tokens ot) = tk0 # ps"
    and t: "tk = tk0\<lparr>tk_UsedAt := Some tm\<rparr>" "ot' = ?ot'"
    by (auto simp: ConsumeConfirmToken_def sql_simps go_simps)
  have "orders_inv ot \<Longrightarrow> orders_inv ?ot'"
    using map_update_key [of tk_TokenHash "\<lambda>r. r\<lparr>tk_UsedAt := Some tm\<rparr>" "token_live hash tm" "confirm_tokens ot"]
    by (simp add: orders_inv_def order_exists_def del: map_map)
  then show thesis using that [of tk0] filter_first [OF f] t by blast
qed

lemma Repository_ConfirmToken_Inr:
  assumes "Repository_ConfirmToken env c i token tm db = (Inr u, db')"
  obtains (replay) oid where "db' = db" "uuid_Parse env i = Some oid"
      "receipt_of (plat db) (OperationKey c) = Some oid"
    | (applied) oid st p1 tk ot1 order where "uuid_Parse env i = Some oid"
      "claim env (OperationKey c) oid tm (plat db) = Inr ((st, True), p1)"
      "ConsumeConfirmToken env (sha256_hex env token) tm (ord db) = Inr (tk, ot1)"
      "uuid_String env (tk_OrderID tk) = i"
      "order \<in> set (orders_t (ord db))" "or_ID order = tk_OrderID tk"
      "runTransition env order TriggerTokenConfirm (command i TriggerTokenConfirm [] tm)
         (db\<lparr>plat := p1, ord := ot1\<rparr>) = Inr db'"
proof -
  from assms obtain oid where oid: "uuid_Parse env i = Some oid"
    by (auto simp: Repository_ConfirmToken_def split: option.splits)
  from assms obtain rp p1 where r: "ReserveFor env (OperationKey c) oid tm (plat db) = Inr (rp, p1)"
    and b: "(if rp then Inr ((), db)
         else
         andThen (mapErr (\<lambda>e. if e = NoRows then OrdersGone else mapError e)
           (ConsumeConfirmToken env (sha256_hex env token) tm (ord db))) (\<lambda>(consumed, ot1).
         if uuid_String env (tk_OrderID consumed) \<noteq> i then Inl OrdersConflict
         else
         andThen (mapErr mapError (GetOrderForUpdate env (tk_OrderID consumed) ot1)) (\<lambda>order.
         andThen (runTransition env order TriggerTokenConfirm (command i TriggerTokenConfirm [] tm)
                    (db\<lparr>plat := p1, ord := ot1\<rparr>)) (\<lambda>db1.
         stmt env ''commit'' (Inr ((), db1)))))) = Inr (u, db')"
    by (auto simp: Repository_ConfirmToken_def oid commit_Inr stmt_eq_Inr mapErr_eq_Inr
        split: option.splits elim!: andThen_pairE)
  show thesis
  proof (cases rp)
    case True
    with r have "claim env (OperationKey c) oid tm (plat db) = Inr ((oid, False), p1)"
      by (auto simp: ReserveFor_replay)
    then have "receipt_of (plat db) (OperationKey c) = Some oid" using claim_Inr(3) by blast
    then show thesis using True b oid by (intro replay) auto
  next
    case False
    with r obtain st where k: "claim env (OperationKey c) oid tm (plat db) = Inr ((st, True), p1)"
      by (auto simp: ReserveFor_first)
    from False b obtain tk ot1 order where t: "ConsumeConfirmToken env (sha256_hex env token) tm (ord db) = Inr (tk, ot1)"
      and tid: "uuid_String env (tk_OrderID tk) = i" and o: "GetOrderForUpdate env (tk_OrderID tk) ot1 = Inr order"
      and run: "runTransition env order TriggerTokenConfirm (command i TriggerTokenConfirm [] tm)
                    (db\<lparr>plat := p1, ord := ot1\<rparr>) = Inr db'"
      by (auto simp: mapErr_eq_Inr stmt_eq_Inr split: if_splits elim!: andThenE andThen_pairE)
    have "orders_t ot1 = orders_t (ord db)" by (rule ConsumeConfirmToken_Inr [OF t]) simp
    with o have "order \<in> set (orders_t (ord db))" "or_ID order = tk_OrderID tk"
      by (auto simp: GetOrderForUpdate_def stmt_eq_Inr dest: sql_one_Inr)
    then show thesis by (rule applied [OF oid k t tid _ _ run])
  qed
qed

section \<open>The invariant of the schema, the log and the platform\<close>

definition core_inv :: "'z bdb_scheme \<Rightarrow> bool" where
  "core_inv db \<longleftrightarrow> catalog_inv (cat db) \<and> orders_inv (ord db) \<and> billing_inv (bil db) \<and>
     history_ok (ord db) \<and> rest_ok (ord db)"

lemma transition_platform:
  assumes "transition env order trigger tr cmd db = Inr (updated, db')"
    and "orders_inv (ord db)" "order \<in> set (orders_t (ord db))"
  shows "platform_extends (plat db) (plat db')" "receipts_keyed (plat db) \<longrightarrow> receipts_keyed (plat db')"
  using transition_effect(10,11) [OF assms] by (simp_all add: receipts_keyed_def)

lemma runTransition_core:
  assumes "runTransition env order trigger cmd db = Inr db'"
    and "order \<in> set (orders_t (ord db))" "core_inv db"
  shows "core_inv db'" "platform_extends (plat db) (plat db')" "receipts_keyed (plat db) \<longrightarrow> receipts_keyed (plat db')"
proof -
  have o: "orders_inv (ord db)" using assms(3) by (simp add: core_inv_def)
  have "catalog_inv (cat db') \<and> orders_inv (ord db') \<and> billing_inv (bil db') \<and>
     platform_extends (plat db) (plat db') \<and> (receipts_keyed (plat db) \<longrightarrow> receipts_keyed (plat db'))"
    by (rule runTransition_keeps [OF assms(1) o assms(2), where G = "\<lambda>_ _. True" and
          P = "\<lambda>d. catalog_inv (cat d) \<and> orders_inv (ord d) \<and> billing_inv (bil d) \<and>
             platform_extends (plat db) (plat d) \<and> (receipts_keyed (plat db) \<longrightarrow> receipts_keyed (plat d))"])
       (use assms(3) in \<open>auto simp: core_inv_def platform_extends_refl dest: transition_effect(6,8,9)
          transition_platform(1) transition_platform(2) intro: platform_extends_trans\<close>)
  then show "core_inv db'" "platform_extends (plat db) (plat db')" "receipts_keyed (plat db) \<longrightarrow> receipts_keyed (plat db')"
    using runTransition_history [OF assms(1) o assms(2)] runTransition_rest [OF assms(1) o assms(2)] assms(3)
    by (auto simp: core_inv_def)
qed

lemma place_order_core:
  assumes "place_order env notify cmd orderID p1 db = Inr (res, db')" "core_inv db"
  shows "core_inv db'" "platform_extends p1 (plat db')" "receipts_keyed p1 \<longrightarrow> receipts_keyed (plat db')"
proof -
  from assms(1) obtain seller quote ct ot1 ot2 token p2 where
    q: "ReserveOrderLines env (reserve_request cmd) (cat db) = Inr (quote, ct)"
    and o: "insert_order env cmd orderID quote (db\<lparr>cat := ct\<rparr>) = Inr ot1"
    and t: "insert_token env cmd orderID quote token (loc db) ot1 = Inr ot2"
    and w: "Write env ''orders'' (uuid_String env orderID)
        (OrderCreatedPayload (ci_StoreID cmd) (cc_BuyerID cmd) (q_GoodsAmount quote) (q_DeliveryFee quote)
           (q_TotalAmount quote) (int (length (q_Lines quote))) (ci_Urgent cmd)
           (q_ConfirmationDeadline quote)) p1 = Inr p2"
    and d: "db' = db\<lparr>plat := p2, cat := ct, ord := ot2\<rparr>"
    by (rule place_order_Inr)
  show "platform_extends p1 (plat db')" "receipts_keyed p1 \<longrightarrow> receipts_keyed (plat db')"
    using Write_platform [OF w] d by simp_all
  from o obtain buyerID storeID new where s: "uuid_Parse env (ci_StoreID cmd) = Some storeID"
    and fresh: "\<not> order_exists orderID (ord db)"
    and ot1: "ot1 = (ord db)\<lparr>orders_t := orders_t (ord db) @ [order_of cmd quote orderID buyerID storeID],
       order_items := order_items (ord db) @ new,
       order_events := order_events (ord db) @ [created_event orderID cmd]\<rparr>"
    and inv1: "orders_inv (ord db) \<Longrightarrow> orders_inv ot1"
    by (rule insert_order_Inr) auto
  note T = insert_token_Inr [OF t]
  have inv: "orders_inv (ord db)" "catalog_inv (cat db)" "history_ok (ord db)" "rest_ok (ord db)" "billing_inv (bil db)"
    using assms(2) by (simp_all add: core_inv_def)
  have c: "catalog_inv ct" using ReserveOrderLines_ledger(1) [OF q inv(2)] s by (simp add: reserve_request_def)
  have none: "events_of (ord db) orderID = []"
    using inv(1) fresh by (auto simp: events_of_def filter_empty_conv orders_inv_def list_all_iff)
  have ev: "events_of ot2 i = (if i = orderID then [created_event orderID cmd] else events_of (ord db) i)" for i
    using T(3) none by (auto simp: ot1 events_of_def created_event_def)
  have "history_ok ot2"
    using inv(3) fresh T(1)
    by (auto simp: history_ok_def list_all_iff ot1 ev order_exists_def list_ex_iff order_of_def
        edge_def created_event_def)
  moreover have "rest_ok ot2"
    using inv(4) T(1) by (simp add: rest_ok_def ot1 order_of_def at_rest_def)
  ultimately show "core_inv db'" using d c T(4) [OF inv1 [OF inv(1)]] inv(5) by (simp add: core_inv_def)
qed

section \<open>The stock ledger\<close>

lemma follow_on_single: "TransitionFor t = Some tr \<Longrightarrow> Then tr = Some t' \<Longrightarrow> \<not> double_release t' (To tr)"
  by (cases t) (auto simp: TransitionFor_def double_release_def)

lemma runTransition_ledger:
  assumes "runTransition env order trigger cmd db = Inr db'"
    and "order \<in> set (orders_t (ord db))" "core_inv db" "ledger_ok db"
    and "\<not> double_release trigger (or_Status order)"
    and "lossless_ids env" "scannable env (order_items (ord db))"
  shows "ledger_ok db'" "order_items (ord db') = order_items (ord db)"
proof -
  have o: "orders_inv (ord db)" using assms(3) by (simp add: core_inv_def)
  have "catalog_inv (cat db') \<and> ledger_ok db' \<and> order_items (ord db') = order_items (ord db)"
    by (rule runTransition_keeps [OF assms(1) o assms(2), where G = "\<lambda>t s. \<not> double_release t s" and
          P = "\<lambda>d. catalog_inv (cat d) \<and> ledger_ok d \<and> order_items (ord d) = order_items (ord db)"])
       (use assms(3-7) in \<open>auto simp: core_inv_def
          dest: transition_effect(3,8) transition_ledger follow_on_single\<close>)
  then show "ledger_ok db'" "order_items (ord db') = order_items (ord db)" by simp_all
qed

lemma item_qty_append: "item_qty (xs @ ys) p = item_qty xs p + item_qty ys p"
  by (simp add: item_qty_def)

lemma items_of_lines:
  assumes "list_all2 (item_of_line env orderID) qls new" "list_all2 (line_priced env s ct) ls qls"
  shows "item_qty new p = lines_qty env p ls"
  using assms(2,1)
proof (induction arbitrary: new rule: list_all2_induct)
  case Nil
  then show ?case by (simp add: item_qty_def lines_qty_def)
next
  case (Cons l ls ql qls)
  then obtain i new' where n: "new = i # new'" "item_of_line env orderID ql i"
    "list_all2 (item_of_line env orderID) qls new'" by (auto simp: list_all2_Cons1)
  have "item_qty [i] p = line_qty env p l"
    using n(2) Cons.hyps(1) by (auto simp: item_of_line_def line_priced_def item_qty_def line_qty_def)
  then show ?case using Cons.IH [OF n(3)] n(1) item_qty_append [of "[i]" new' p]
    by (simp add: lines_qty_def)
qed

lemma place_order_ledger:
  assumes "place_order env notify cmd orderID p1 db = Inr (res, db')" "core_inv db" "ledger_ok db"
    and "lossless_numerics env" "scannable env (order_items (ord db))"
  shows "ledger_ok db'" "scannable env (order_items (ord db'))"
proof -
  from assms(1) obtain seller quote ct ot1 ot2 token p2 where
    q: "ReserveOrderLines env (reserve_request cmd) (cat db) = Inr (quote, ct)"
    and o: "insert_order env cmd orderID quote (db\<lparr>cat := ct\<rparr>) = Inr ot1"
    and t: "insert_token env cmd orderID quote token (loc db) ot1 = Inr ot2"
    and d: "db' = db\<lparr>plat := p2, cat := ct, ord := ot2\<rparr>"
    by (rule place_order_Inr)
  from o obtain buyerID storeID new where s: "uuid_Parse env (ci_StoreID cmd) = Some storeID"
    and fresh: "\<not> order_exists orderID (ord db)"
    and new: "list_all2 (item_of_line env orderID) (q_Lines quote) new"
    and ot1: "ot1 = (ord db)\<lparr>orders_t := orders_t (ord db) @ [order_of cmd quote orderID buyerID storeID],
       order_items := order_items (ord db) @ new,
       order_events := order_events (ord db) @ [created_event orderID cmd]\<rparr>"
    by (rule insert_order_Inr) auto
  note T = insert_token_Inr [OF t]
  have inv: "orders_inv (ord db)" "catalog_inv (cat db)" using assms(2) by (simp_all add: core_inv_def)
  have s': "uuid_Parse env (rr_StoreID (reserve_request cmd)) = Some storeID"
    using s by (simp add: reserve_request_def)
  note Q = ReserveOrderLines_ledger [OF q inv(2) s']
  have qty: "item_qty new p = lines_qty env p (rr_Lines (reserve_request cmd))" for p
    using items_of_lines [OF new Q(5)] by (simp add: lines_qty_sort)
  have mine: "list_all (\<lambda>i. oi_OrderID i = orderID) new"
    using new by (induction rule: list_all2_induct) (auto simp: item_of_line_def)
  have others: "list_all (\<lambda>i. oi_OrderID i \<noteq> orderID) (order_items (ord db))"
    using inv(1) fresh by (auto simp: orders_inv_def list_all_iff)
  have old: "contribution (order_items ot1) s p (or_key r) = contribution (order_items (ord db)) s p (or_key r)"
    if "r \<in> set (orders_t (ord db))" for r s p
  proof -
    have "or_ID r \<noteq> orderID" using that fresh by (auto simp: order_exists_def list_ex_iff)
    then have "filter (\<lambda>i. oi_OrderID i = or_ID r) new = []"
      using mine by (auto simp: filter_empty_conv list_all_iff)
    then show ?thesis by (simp add: contribution_def ot1 or_key_def)
  qed
  have "filter (\<lambda>i. oi_OrderID i = orderID) (order_items (ord db)) = []"
    using others by (auto simp: filter_empty_conv list_all_iff)
  moreover have "filter (\<lambda>i. oi_OrderID i = orderID) new = new"
    using mine by (simp add: list_all_iff filter_id_conv)
  ultimately have c: "contribution (order_items ot1) s p (or_key (order_of cmd quote orderID buyerID storeID)) =
      (if storeID = s then item_qty new p else 0)" for s p
    by (simp add: contribution_def or_key_def order_of_def ot1)
  have m: "sum_list (map (contribution (order_items ot1) s p) (map or_key (orders_t (ord db)))) = held (ord db) s p" for s p
    unfolding held_def map_map
    by (rule arg_cong [where f = sum_list], rule map_cong [OF refl]) (simp add: old)
  have k: "map or_key (orders_t ot1) = map or_key (orders_t (ord db)) @ [or_key (order_of cmd quote orderID buyerID storeID)]"
    by (simp add: ot1)
  have "held ot1 s p = held (ord db) s p + (if storeID = s then item_qty new p else 0)" for s p
    unfolding held_def [of ot1] k map_append sum_list_append m by (simp add: c)
  then have "held ot2 s p = held (ord db) s p + (if storeID = s then item_qty new p else 0)" for s p
    using T(1,2) by (simp add: held_def)
  then show "ledger_ok db'"
    using assms(3) Q(3) d by (simp add: ledger_ok_def qty)
  have "scannable env new"
    using new by (induction rule: list_all2_induct)
      (auto simp: scannable_def item_of_line_def dest: lossless_numericsD [OF assms(4)])
  then show "scannable env (order_items (ord db'))" using assms(5) T(2) d by (simp add: scannable_def ot1)
qed

end
