(* ===== verification/System.thy ===== *)
theory System
  imports CatalogService OrdersInvariants
begin

text \<open>
  The requests of the two modules as one handler, each with the environment it runs in, and the
  invariants of all their histories as interpretations of the transaction contracts of \<open>Sql\<close>.
\<close>

section \<open>The handler\<close>

datatype system_call =
    CreateOrderCall "string option" CreateCommand
  | ApplyCall TransitionCommand
  | ConfirmTokenCall string string time
  | EscalateCall DueOrder time
  | CatalogCall catalog_call

text \<open>A request answers with the id of what it made, if it made something.\<close>

fun system_exec :: "env \<times> ctx \<times> system_call \<Rightarrow> 'z bdb_scheme \<Rightarrow> string result \<times> 'z bdb_scheme" where
  "system_exec (env, c, CreateOrderCall notify cmd) db =
     apfst (\<lambda>r. andThen r (\<lambda>res. Inr (cd_OrderID (fst res)))) (Repository_Create env notify c cmd db)"
| "system_exec (env, c, ApplyCall cmd) db =
     apfst (\<lambda>r. andThen r (\<lambda>_. Inr [])) (Repository_Apply env c cmd db)"
| "system_exec (env, c, ConfirmTokenCall i token tm) db =
     apfst (\<lambda>r. andThen r (\<lambda>_. Inr [])) (Repository_ConfirmToken env c i token tm db)"
| "system_exec (env, c, EscalateCall order tm) db =
     apfst (\<lambda>r. andThen r (\<lambda>_. Inr [])) (RecordEscalation env c order tm db)"
| "system_exec (env, c, CatalogCall call) db = catalog_exec (env, c, call) db"

section \<open>A failed request leaves no trace\<close>

lemma commit_error: "fst (commit db r) = Inl e \<Longrightarrow> snd (commit db r) = db"
  by (cases r) auto

lemma Repository_Create_error: "fst (Repository_Create env notify c cmd db) = Inl e \<Longrightarrow> snd (Repository_Create env notify c cmd db) = db"
  unfolding Repository_Create_def by (rule commit_error)

lemma Repository_Apply_error: "fst (Repository_Apply env c cmd db) = Inl e \<Longrightarrow> snd (Repository_Apply env c cmd db) = db"
  by (auto simp: Repository_Apply_def split: option.splits intro: commit_error)

lemma Repository_ConfirmToken_error:
  "fst (Repository_ConfirmToken env c i token tm db) = Inl e \<Longrightarrow> snd (Repository_ConfirmToken env c i token tm db) = db"
  by (auto simp: Repository_ConfirmToken_def split: option.splits intro: commit_error)

lemma RecordEscalation_error:
  "fst (RecordEscalation env c order tm db) = Inl e \<Longrightarrow> snd (RecordEscalation env c order tm db) = db"
  by (auto simp: RecordEscalation_def split: option.splits intro: commit_error)

lemma catalog_exec_error: "fst (catalog_exec call db) = Inl e \<Longrightarrow> snd (catalog_exec call db) = db"
  by (cases "(call, db)" rule: catalog_exec.cases)
     (auto simp: Service_CreateCatalogRequest_def Service_ResolveCatalogRequest_def Service_CreateOffer_def
       Service_UpdateOffer_def Repository_CreateCatalogRequest_def Repository_ResolveCatalogRequest_def
       Repository_CreateOffer_def Repository_UpdateOffer_def Let_def andThen_eq_Inl
       split: sum.splits option.splits if_splits intro: commit_error)

lemma andThen_Inr_Inl: "andThen r (\<lambda>x. Inr (g x)) = Inl e \<longleftrightarrow> r = Inl e"
  by (cases r) auto

lemma system_exec_error: "fst (system_exec call db) = Inl e \<Longrightarrow> snd (system_exec call db) = db"
  by (cases "(call, db)" rule: system_exec.cases)
     (auto simp: andThen_Inr_Inl case_prod_beta intro: Repository_Create_error Repository_Apply_error
       Repository_ConfirmToken_error RecordEscalation_error catalog_exec_error)

section \<open>Every request keeps the core invariant\<close>

lemma claim_platform:
  "claim env key res tm p = Inr ((stored, claimed), p') \<Longrightarrow>
     platform_extends p p' \<and> (receipts_keyed p \<longrightarrow> receipts_keyed p')"
  by (auto dest: claim_extends claim_keyed)

lemma core_inv_plat: "core_inv (db\<lparr>plat := p\<rparr>) = core_inv db"
  by (simp add: core_inv_def)

lemma events_unchanged:
  assumes "orders_t ot' = orders_t ot" "order_events ot' = order_events ot"
  shows "history_ok ot' = history_ok ot" "rest_ok ot' = rest_ok ot"
  using assms by (simp_all add: history_ok_def rest_ok_def events_of_def)

text \<open>
  The step a committed request makes. Histories start on a database that satisfies the invariant.
\<close>

definition ok_step :: "'z bdb_scheme \<Rightarrow> 'z bdb_scheme \<Rightarrow> bool" where
  "ok_step db db' \<longleftrightarrow> core_inv db \<longrightarrow> core_inv db' \<and> platform_extends (plat db) (plat db') \<and>
     (receipts_keyed (plat db) \<longrightarrow> receipts_keyed (plat db'))"

lemma ok_step_refl [simp]: "ok_step db db"
  by (simp add: ok_step_def platform_extends_refl)

lemma ok_step_trans: "ok_step db db' \<Longrightarrow> ok_step db' db'' \<Longrightarrow> ok_step db db''"
  by (auto simp: ok_step_def intro: platform_extends_trans)

lemma place_order_step:
  assumes "claim env key res tm (plat db) = Inr ((st, True), p1)"
    and "place_order env notify cmd res p1 db = Inr (r, db')"
  shows "ok_step db db'"
  using claim_platform [OF assms(1)] place_order_core [OF assms(2)]
  by (auto simp: ok_step_def intro: platform_extends_trans)

lemma Repository_Create_ok: "ok_step db (snd (Repository_Create env notify c cmd db))"
proof (cases "Repository_Create env notify c cmd db")
  case (Pair r db')
  show ?thesis
  proof (cases r)
    case (Inl e)
    then show ?thesis using Repository_Create_error [of env notify c cmd db e] Pair by simp
  next
    case (Inr res)
    with Pair have "Repository_Create env notify c cmd db = (Inr res, db')" by simp
    then have "ok_step db db'"
      by (cases rule: Repository_Create_Inr)
         (auto intro: place_order_step)
    then show ?thesis using Pair by simp
  qed
qed

lemma Repository_Apply_ok: "ok_step db (snd (Repository_Apply env c cmd db))"
proof (cases "Repository_Apply env c cmd db")
  case (Pair r db')
  show ?thesis
  proof (cases r)
    case (Inl e)
    then show ?thesis using Repository_Apply_error [of env c cmd db e] Pair by simp
  next
    case (Inr u)
    with Pair have "Repository_Apply env c cmd db = (Inr u, db')" by simp
    then have "ok_step db db'"
    proof (cases rule: Repository_Apply_Inr)
      case (applied i st p1 order)
      have "order \<in> set (orders_t (ord (db\<lparr>plat := p1\<rparr>)))" using applied(3) by simp
      from runTransition_core [OF applied(5) this] claim_platform [OF applied(2)]
      show ?thesis by (auto simp: ok_step_def core_inv_plat intro: platform_extends_trans)
    qed simp
    then show ?thesis using Pair by simp
  qed
qed

lemma ConsumeConfirmToken_core:
  assumes "ConsumeConfirmToken env hash tm (ord db) = Inr (tk, ot1)" "core_inv db"
  shows "core_inv (db\<lparr>plat := p1, ord := ot1\<rparr>)"
proof -
  have "orders_t ot1 = orders_t (ord db)" "order_events ot1 = order_events (ord db)"
    "orders_inv (ord db) \<Longrightarrow> orders_inv ot1"
    by (rule ConsumeConfirmToken_Inr [OF assms(1)], simp)+
  then show ?thesis using assms(2) events_unchanged [of ot1 "ord db"] by (simp add: core_inv_def)
qed

lemma Repository_ConfirmToken_ok: "ok_step db (snd (Repository_ConfirmToken env c i token tm db))"
proof (cases "Repository_ConfirmToken env c i token tm db")
  case (Pair r db')
  show ?thesis
  proof (cases r)
    case (Inl e)
    then show ?thesis using Repository_ConfirmToken_error [of env c i token tm db e] Pair by simp
  next
    case (Inr u)
    with Pair have "Repository_ConfirmToken env c i token tm db = (Inr u, db')" by simp
    then have "ok_step db db'"
    proof (cases rule: Repository_ConfirmToken_Inr)
      case (applied oid st p1 tk ot1 order)
      have "orders_t ot1 = orders_t (ord db)" by (rule ConsumeConfirmToken_Inr [OF applied(3)]) simp
      then have "order \<in> set (orders_t (ord (db\<lparr>plat := p1, ord := ot1\<rparr>)))" using applied(5) by simp
      from runTransition_core [OF applied(7) this] claim_platform [OF applied(2)]
        ConsumeConfirmToken_core [OF applied(3)]
      show ?thesis by (auto simp: ok_step_def intro: platform_extends_trans)
    qed simp
    then show ?thesis using Pair by simp
  qed
qed

lemma RecordEscalation_ok: "ok_step db (snd (RecordEscalation env c order tm db))"
  unfolding RecordEscalation_def
  by (cases "uuid_Parse env (du_OrderID order)"; simp; rule commit_keeps, simp)
     (auto simp: andThen_eq_Inr mapErr_eq_Inr stmt_eq_Inr ok_step_def core_inv_plat split: if_splits
       dest!: reserve_platform Write_platform intro: platform_extends_trans platform_extends_refl)

lemma catalog_exec_ok: "ok_step db (snd (catalog_exec call db))"
proof -
  let ?db' = "snd (catalog_exec call db)"
  have g: "tx_good db ?db'" by (rule catalog_exec_good)
  then have d: "?db' = db\<lparr>plat := plat ?db', cat := cat ?db'\<rparr>" by (simp add: tx_good_def)
  have "ord ?db' = ord db" "bil ?db' = bil db" by (subst d, simp)+
  then show ?thesis using g by (simp add: ok_step_def core_inv_def tx_good_def catalog_step_def)
qed

lemma system_exec_ok: "ok_step db (snd (system_exec call db))"
  by (cases "(call, db)" rule: system_exec.cases)
     (auto simp: Repository_Create_ok Repository_Apply_ok Repository_ConfirmToken_ok RecordEscalation_ok catalog_exec_ok)

interpretation system_tx: tx_rel system_exec ok_step
  by unfold_locales (auto intro: ok_step_trans system_exec_ok)

interpretation system_core: tx_invariant system_exec core_inv
  by unfold_locales (use system_exec_ok in \<open>auto simp: ok_step_def\<close>)

section \<open>The stock ledger along a history\<close>

definition stock_inv :: "lib \<Rightarrow> 'z bdb_scheme \<Rightarrow> bool" where
  "stock_inv L db \<longleftrightarrow> lossless_ids L \<and> lossless_numerics L \<and> core_inv db \<and> ledger_ok db \<and>
     scannable L (order_items (ord db))"

text \<open>
  A request that runs with the functions \<open>L\<close> and does not cancel an order whose buyer is asked
  to decide.
\<close>

fun stock_safe :: "lib \<Rightarrow> 'z bdb_scheme \<Rightarrow> env \<times> ctx \<times> system_call \<Rightarrow> bool" where
  "stock_safe L db (env, c, call) = (lib.truncate env = L \<and>
     (case call of
        ApplyCall cmd \<Rightarrow> list_all (\<lambda>r. uuid_Parse env (tc_OrderID cmd) = Some (or_ID r) \<longrightarrow>
          \<not> double_release (tc_Trigger cmd) (or_Status r)) (orders_t (ord db))
      | _ \<Rightarrow> True))"

lemma lib_truncate [simp]:
  "lossless_ids (lib.truncate e) = lossless_ids e"
  "lossless_numerics (lib.truncate e) = lossless_numerics e"
  "scannable (lib.truncate e) items = scannable e items"
  by (simp_all add: lossless_ids_def lossless_numerics_def scannable_def lib.truncate_def)

lemma ledger_cong:
  "cat db' = cat db \<Longrightarrow> ord db' = ord db \<Longrightarrow> ledger_ok db' = ledger_ok db"
  by (simp add: ledger_ok_def)

lemma run_stock:
  assumes "runTransition env order trigger cmd d = Inr db'" "order \<in> set (orders_t (ord d))"
    and "\<not> double_release trigger (or_Status order)" "stock_inv (lib.truncate env) d"
  shows "stock_inv (lib.truncate env) db'"
  using runTransition_core(1) [OF assms(1,2)] runTransition_ledger [OF assms(1,2)] assms(3,4)
  by (auto simp: stock_inv_def)

lemma stock_inv_plat: "stock_inv L (db\<lparr>plat := p\<rparr>) = stock_inv L db"
  by (simp add: stock_inv_def core_inv_def ledger_ok_def)

lemma stock_inv_tokens:
  assumes "ConsumeConfirmToken env hash tm (ord db) = Inr (tk, ot1)" "stock_inv L db"
  shows "stock_inv L (db\<lparr>plat := p1, ord := ot1\<rparr>)"
proof -
  have "orders_t ot1 = orders_t (ord db)" "order_items ot1 = order_items (ord db)"
    by (rule ConsumeConfirmToken_Inr [OF assms(1)], simp)+
  then show ?thesis using assms ConsumeConfirmToken_core [OF assms(1)]
    by (simp add: stock_inv_def ledger_ok_def held_def)
qed

lemma system_exec_stock:
  assumes "stock_inv L db" "stock_safe L db call"
  shows "stock_inv L (snd (system_exec call db))"
proof (cases "fst (system_exec call db)")
  case (Inl e)
  then show ?thesis using system_exec_error [OF Inl] assms by simp
next
  case (Inr answer)
  obtain env c k where call: "call = (env, c, k)" by (cases call)
  have L: "L = lib.truncate env" using assms(2) call by simp
  have core: "core_inv (snd (system_exec call db))"
    using system_core.exec_keeps [of db call] assms(1) by (simp add: stock_inv_def)
  show ?thesis
  proof (cases k)
    case (CreateOrderCall notify cmd)
    with Inr call obtain res db' where r: "Repository_Create env notify c cmd db = (Inr res, db')"
      by (cases "Repository_Create env notify c cmd db") (auto simp: andThen_eq_Inr)
    then show ?thesis
    proof (cases rule: Repository_Create_Inr)
      case (placed st p1)
      then show ?thesis using place_order_ledger [OF placed(2)] assms(1) core r call CreateOrderCall
        by (simp add: stock_inv_def L)
    qed (use r call CreateOrderCall assms(1) in simp)
  next
    case (ApplyCall cmd)
    with Inr call obtain db' where r: "Repository_Apply env c cmd db = (Inr (), db')"
      by (cases "Repository_Apply env c cmd db") (auto simp: andThen_eq_Inr)
    then show ?thesis
    proof (cases rule: Repository_Apply_Inr)
      case (applied i st p1 order)
      have "\<not> double_release (tc_Trigger cmd) (or_Status order)"
        using assms(2) call ApplyCall applied(1,3,4) by (auto simp: list_all_iff)
      then show ?thesis
        using run_stock [OF applied(5)] applied(3) assms(1) r call ApplyCall by (simp add: L stock_inv_plat)
    qed (use r call ApplyCall assms(1) in simp)
  next
    case (ConfirmTokenCall i token tm)
    with Inr call obtain db' where r: "Repository_ConfirmToken env c i token tm db = (Inr (), db')"
      by (cases "Repository_ConfirmToken env c i token tm db") (auto simp: andThen_eq_Inr)
    then show ?thesis
    proof (cases rule: Repository_ConfirmToken_Inr)
      case (applied oid st p1 tk ot1 order)
      have "orders_t ot1 = orders_t (ord db)" by (rule ConsumeConfirmToken_Inr [OF applied(3)]) simp
      then show ?thesis
        using run_stock [OF applied(7)] applied(5) stock_inv_tokens [OF applied(3) assms(1)] r call ConfirmTokenCall
        by (simp add: L double_release_def)
    qed (use r call ConfirmTokenCall assms(1) in simp)
  next
    case (EscalateCall order tm)
    have "snd (RecordEscalation env c order tm db) = db\<lparr>plat := plat (snd (RecordEscalation env c order tm db))\<rparr>"
      unfolding RecordEscalation_def
      by (cases "uuid_Parse env (du_OrderID order)"; simp; rule commit_keeps, simp)
         (auto simp: andThen_eq_Inr stmt_eq_Inr split: if_splits)
    then show ?thesis using assms(1) call EscalateCall stock_inv_plat [where L = L and db = db] by simp metis
  next
    case (CatalogCall cc)
    let ?db' = "snd (catalog_exec (env, c, cc) db)"
    have g: "tx_good db ?db'" by (rule catalog_exec_good)
    then have d: "?db' = db\<lparr>plat := plat ?db', cat := cat ?db'\<rparr>" by (simp add: tx_good_def)
    have "ord ?db' = ord db" by (subst d, simp)
    then show ?thesis
      using g assms(1) core call CatalogCall by (simp add: stock_inv_def ledger_ok_def tx_good_def catalog_step_def)
  qed
qed

interpretation stock: tx_guarded system_exec "stock_safe L" "stock_inv L" for L
  by unfold_locales (rule system_exec_stock)

end
