(* ===== verification/OrdersTerms.thy ===== *)
theory OrdersTerms
  imports System
begin

text \<open>
  What no request can change about an order once it is placed: its parties, its lines, its amounts,
  its deadline and the events already logged. Only the status, the payment deadline and the
  closing time of a row move.
\<close>

definition order_terms :: "order_row \<Rightarrow> order_row" where
  "order_terms r = r\<lparr>or_Status := StatusCreated, or_PaymentDueAt := None, or_ClosedAt := None\<rparr>"

text \<open>A token that was used once.\<close>

definition spent :: "string \<Rightarrow> order_tables \<Rightarrow> bool" where
  "spent hash ot \<longleftrightarrow> list_ex (\<lambda>r. tk_TokenHash r = hash \<and> tk_UsedAt r \<noteq> None) (confirm_tokens ot)"

text \<open>Every order has gone on along the lifecycle.\<close>

definition orders_reach :: "order_tables \<Rightarrow> order_tables \<Rightarrow> bool" where
  "orders_reach ot ot' \<longleftrightarrow> list_all (\<lambda>(i, s, st). \<exists>ts st'. lifecycle st ts st' \<and>
     (i, s, st') \<in> set (map or_key (orders_t ot'))) (map or_key (orders_t ot))"

definition orders_extend :: "order_tables \<Rightarrow> order_tables \<Rightarrow> bool" where
  "orders_extend ot ot' \<longleftrightarrow>
     (\<exists>rows. map order_terms (orders_t ot') = map order_terms (orders_t ot) @ rows) \<and>
     (\<exists>es. order_events ot' = order_events ot @ es) \<and>
     (\<exists>items. order_items ot' = order_items ot @ items) \<and>
     (\<forall>hash. spent hash ot \<longrightarrow> spent hash ot') \<and> orders_reach ot ot'"

lemma lifecycle_append: "lifecycle b us c \<Longrightarrow> lifecycle a ts b \<Longrightarrow> lifecycle a (ts @ us) c"
  by (induction rule: lifecycle.induct) (auto simp flip: append_assoc intro: lifecycle.move)

lemma lifecycle_one: "settled t s = Some s' \<Longrightarrow> lifecycle s [t] s'"
  using lifecycle.move [OF lifecycle.stay, of t s s'] by simp

lemma lifecycle_terminal: "lifecycle s ts s' \<Longrightarrow> terminal s \<Longrightarrow> s' = s"
  by (induction rule: lifecycle.induct) (auto simp: terminal_iff)

lemma orders_reach_keys:
  assumes "\<And>k. k \<in> set (map or_key (orders_t ot)) \<Longrightarrow> k \<in> set (map or_key (orders_t ot'))"
  shows "orders_reach ot ot'"
proof -
  have "\<exists>ts st'. lifecycle st ts st' \<and> (i, s, st') \<in> set (map or_key (orders_t ot'))"
    if "(i, s, st) \<in> set (map or_key (orders_t ot))" for i s st
    using assms [OF that] lifecycle.stay by blast
  then show ?thesis by (auto simp: orders_reach_def list_all_iff simp del: set_map)
qed

lemma orders_reachE:
  assumes "orders_reach ot ot'" "(i, s, st) \<in> set (map or_key (orders_t ot))"
  obtains ts st' where "lifecycle st ts st'" "(i, s, st') \<in> set (map or_key (orders_t ot'))"
proof -
  have "case (i, s, st) of (i, s, st) \<Rightarrow> \<exists>ts st'. lifecycle st ts st' \<and> (i, s, st') \<in> set (map or_key (orders_t ot'))"
    using assms unfolding orders_reach_def list_all_iff by (rule bspec)
  then show thesis using that by auto
qed

lemma orders_reach_trans:
  assumes "orders_reach a b" "orders_reach b c"
  shows "orders_reach a c"
  unfolding orders_reach_def list_all_iff
proof (intro ballI, clarify)
  fix i s st assume "(i, s, st) \<in> set (map or_key (orders_t a))"
  then obtain ts st1 where l: "lifecycle st ts st1" "(i, s, st1) \<in> set (map or_key (orders_t b))"
    by (rule orders_reachE [OF assms(1)])
  obtain us st2 where "lifecycle st1 us st2" "(i, s, st2) \<in> set (map or_key (orders_t c))"
    by (rule orders_reachE [OF assms(2) l(2)])
  then show "\<exists>ts st'. lifecycle st ts st' \<and> (i, s, st') \<in> set (map or_key (orders_t c))"
    using lifecycle_append [OF _ l(1)] by blast
qed

lemma orders_reach_prefix: "map or_key (orders_t ot') = map or_key (orders_t ot) @ ks \<Longrightarrow> orders_reach ot ot'"
  by (rule orders_reach_keys) simp

lemma orders_extend_refl [simp]: "orders_extend ot ot"
  by (simp add: orders_extend_def orders_reach_prefix [of _ _ "[]"])

lemma orders_extend_trans:
  assumes "orders_extend a b" "orders_extend b c"
  shows "orders_extend a c"
proof -
  have "orders_reach a c" using assms orders_reach_trans by (auto simp: orders_extend_def)
  then show ?thesis using assms by (auto simp: orders_extend_def)
qed

lemma order_terms_simps [simp]:
  "order_terms (clear_due r) = order_terms r" "order_terms (set_status s tm r) = order_terms r"
  by (simp_all add: order_terms_def clear_due_def set_status_def)

lemma moved_terms: "map order_terms (moved order tr cmd rows) = map order_terms rows"
  by (induction rows) (simp_all add: moved_def)

text \<open>The log, the items, the tokens and the terms over one transition.\<close>

definition log_extends :: "order_tables \<Rightarrow> order_tables \<Rightarrow> bool" where
  "log_extends ot ot' \<longleftrightarrow> map order_terms (orders_t ot') = map order_terms (orders_t ot) \<and>
     (\<exists>es. order_events ot' = order_events ot @ es) \<and> order_items ot' = order_items ot \<and>
     confirm_tokens ot' = confirm_tokens ot"

lemma transition_log:
  assumes "transition env order trigger tr cmd db = Inr (updated, db')"
    and "orders_inv (ord db)" "order \<in> set (orders_t (ord db))"
  shows "log_extends (ord db) (ord db')"
proof -
  note T = transition_effect [OF assms]
  have "map order_terms (orders_t (ord db')) = map order_terms (orders_t (ord db))"
    using map_clear_due_cong [OF T(5), of order_terms] moved_terms by simp
  then show ?thesis using T(2-4) by (simp add: log_extends_def)
qed

lemma runTransition_log:
  assumes "runTransition env order trigger cmd db = Inr db'"
    and "orders_inv (ord db)" "order \<in> set (orders_t (ord db))"
  shows "log_extends (ord db) (ord db')"
proof (rule runTransition_keeps [OF assms, where P = "\<lambda>d. log_extends (ord db) (ord d)" and G = "\<lambda>_ _. True"])
  show "log_extends (ord db) (ord db)" by (simp add: log_extends_def)
  fix order t tr d u d'
  assume "transition env order t tr cmd d = Inr (u, d')" "orders_inv (ord d)" "order \<in> set (orders_t (ord d))"
    and l: "log_extends (ord db) (ord d)"
  from transition_log [OF this(1-3)] l show "log_extends (ord db) (ord d')" by (auto simp: log_extends_def)
qed simp_all

lemma runTransition_extends:
  assumes "runTransition env order trigger cmd db = Inr db'"
    and "orders_inv (ord db)" "order \<in> set (orders_t (ord db))"
  shows "orders_extend (ord db) (ord db')"
proof -
  from runTransition_settled [OF assms] obtain s where s: "settled trigger (or_Status order) = Some s"
    and m: "map or_key (orders_t (ord db')) =
       map (\<lambda>(i, st, x). if i = or_ID order then (i, st, s) else (i, st, x)) (map or_key (orders_t (ord db)))" .
  have ids: "distinct (map or_ID (orders_t (ord db)))" using assms(2) by (simp add: orders_inv_def)
  have "orders_reach (ord db) (ord db')"
    unfolding orders_reach_def list_all_iff
  proof (intro ballI, clarify)
    fix i st x assume k: "(i, st, x) \<in> set (map or_key (orders_t (ord db)))"
    let ?k = "if i = or_ID order then (i, st, s) else (i, st, x)"
    have k': "?k \<in> set (map or_key (orders_t (ord db')))"
      unfolding m set_map [where xs = "map or_key (orders_t (ord db))"]
      by (rule image_eqI [OF _ k]) simp
    show "\<exists>ts st'. lifecycle x ts st' \<and> (i, st, st') \<in> set (map or_key (orders_t (ord db')))"
    proof (cases "i = or_ID order")
      case True
      then have "x = or_Status order"
        using k assms(3) ids by (auto simp: or_key_def distinct_map inj_on_def)
      then show ?thesis using lifecycle_one [OF s] k' True by auto
    next
      case False
      then show ?thesis using lifecycle.stay k' by auto
    qed
  qed
  then show ?thesis
    using runTransition_log [OF assms] by (auto simp: orders_extend_def log_extends_def spent_def)
qed

lemma insert_token_spent:
  "insert_token env cmd orderID quote token lc ot = Inr ot' \<Longrightarrow> spent hash ot \<longrightarrow> spent hash ot'"
  by (auto simp: insert_token_def CreateConfirmToken_def mapErr_eq_Inr andThen_eq_Inr sql_simps spent_def)

lemma place_order_extends:
  assumes "place_order env notify cmd orderID p1 db = Inr (res, db')"
  shows "orders_extend (ord db) (ord db')"
  using assms
proof (rule place_order_Inr)
  fix quote ct ot1 ot2 token p2
  assume o: "insert_order env cmd orderID quote (db\<lparr>cat := ct\<rparr>) = Inr ot1"
    and t: "insert_token env cmd orderID quote token (loc db) ot1 = Inr ot2"
    and d: "db' = db\<lparr>plat := p2, cat := ct, ord := ot2\<rparr>"
  from o have o1: "orders_extend (ord db) ot1"
    by (rule insert_order_Inr) (simp add: orders_extend_def spent_def orders_reach_prefix)
  have "orders_extend ot1 ot2"
    using insert_token_Inr [OF t] insert_token_spent [OF t]
    by (simp add: orders_extend_def orders_reach_prefix [of _ _ "[]"])
  with o1 show ?thesis using d by (auto intro: orders_extend_trans)
qed

section \<open>Every request\<close>

definition terms_step :: "'z bdb_scheme \<Rightarrow> 'z bdb_scheme \<Rightarrow> bool" where
  "terms_step db db' \<longleftrightarrow> core_inv db \<longrightarrow> core_inv db' \<and> orders_extend (ord db) (ord db')"

lemma terms_step_refl [simp]: "terms_step db db"
  by (simp add: terms_step_def)

lemma terms_step_trans: "terms_step db db' \<Longrightarrow> terms_step db' db'' \<Longrightarrow> terms_step db db''"
  by (auto simp: terms_step_def intro: orders_extend_trans)

lemma Repository_Apply_extends:
  assumes "Repository_Apply env c cmd db = (Inr u, db')" "core_inv db"
  shows "orders_extend (ord db) (ord db')"
  using assms(1)
proof (cases rule: Repository_Apply_Inr)
  case (applied i st p1 order)
  then show ?thesis using runTransition_extends [OF applied(5)] assms(2) by (simp add: core_inv_def)
qed simp

lemma ConsumeConfirmToken_spent:
  assumes "ConsumeConfirmToken env h tm ot = Inr (tk, ot')"
  shows "spent hash ot \<longrightarrow> spent hash ot'" "spent h ot'"
proof -
  obtain tk0 where tk0: "tk0 \<in> set (confirm_tokens ot)" "token_live h tm tk0"
    and ot': "ot' = ot\<lparr>confirm_tokens := map (\<lambda>r. if token_live h tm r then r\<lparr>tk_UsedAt := Some tm\<rparr> else r)
       (confirm_tokens ot)\<rparr>"
    by (rule ConsumeConfirmToken_Inr [OF assms])
  have "spent hash ot'" if "r \<in> set (confirm_tokens ot)" "tk_TokenHash r = hash"
    "tk_UsedAt r \<noteq> None \<or> token_live h tm r" for r hash
    using that unfolding spent_def ot' list_ex_iff
    by (intro bexI [of _ "if token_live h tm r then r\<lparr>tk_UsedAt := Some tm\<rparr> else r"]) auto
  then show "spent hash ot \<longrightarrow> spent hash ot'" "spent h ot'"
    using tk0 by (auto simp: spent_def list_ex_iff token_live_def)
qed

lemma Repository_ConfirmToken_extends:
  assumes "Repository_ConfirmToken env c i token tm db = (Inr u, db')" "core_inv db"
  shows "orders_extend (ord db) (ord db')"
  using assms(1)
proof (cases rule: Repository_ConfirmToken_Inr)
  case (applied oid st p1 tk ot1 order)
  have same: "orders_t ot1 = orders_t (ord db)" "order_items ot1 = order_items (ord db)"
    "order_events ot1 = order_events (ord db)"
    by (rule ConsumeConfirmToken_Inr [OF applied(3)], simp)+
  have "core_inv (db\<lparr>plat := p1, ord := ot1\<rparr>)" by (rule ConsumeConfirmToken_core [OF applied(3) assms(2)])
  then have "orders_extend ot1 (ord db')"
    using runTransition_extends [OF applied(7)] applied(5) same by (simp add: core_inv_def)
  moreover have "orders_extend (ord db) ot1"
    using ConsumeConfirmToken_spent [OF applied(3)]
    by (simp add: orders_extend_def same orders_reach_prefix [of _ _ "[]"])
  ultimately show ?thesis by (rule orders_extend_trans [rotated])
qed simp

lemma Repository_Create_extends:
  assumes "Repository_Create env notify c cmd db = (Inr res, db')"
  shows "orders_extend (ord db) (ord db')"
  using assms by (cases rule: Repository_Create_Inr) (auto intro: place_order_extends)

lemma RecordEscalation_orders: "ord (snd (RecordEscalation env c order tm db)) = ord db"
  unfolding RecordEscalation_def
  by (cases "uuid_Parse env (du_OrderID order)"; simp; rule commit_keeps, simp)
     (auto simp: andThen_eq_Inr stmt_eq_Inr split: if_splits)

lemma RecordEscalation_kept:
  "RecordEscalation env c order tm db = (r, db') \<Longrightarrow> ord db' = ord db"
  using RecordEscalation_orders [of env c order tm db] by simp

lemma catalog_exec_orders: "ord (snd (catalog_exec call db)) = ord db"
proof -
  let ?db' = "snd (catalog_exec call db)"
  have "tx_good db ?db'" by (rule catalog_exec_good)
  then have d: "?db' = db\<lparr>plat := plat ?db', cat := cat ?db'\<rparr>" by (simp add: tx_good_def)
  show ?thesis by (subst d, simp)
qed

lemma system_exec_extends:
  assumes "core_inv db"
  shows "orders_extend (ord db) (ord (snd (system_exec call db)))"
proof (cases "fst (system_exec call db)")
  case (Inl e)
  then show ?thesis using system_exec_error [OF Inl] by simp
next
  case (Inr answer)
  then show ?thesis using assms
    by (cases "(call, db)" rule: system_exec.cases)
       (auto simp: andThen_eq_Inr catalog_exec_orders apfst_def map_prod_def
         split: prod.splits
         dest: RecordEscalation_kept Repository_Create_extends Repository_Apply_extends Repository_ConfirmToken_extends)
qed

lemma system_exec_terms: "terms_step db (snd (system_exec call db))"
  using system_exec_extends [of db call] system_core.exec_keeps [of db call] by (simp add: terms_step_def)

interpretation system_terms: tx_rel system_exec terms_step
  by unfold_locales (auto intro: terms_step_trans system_exec_terms)

text \<open>An order that exists is found again, with its terms, after any history.\<close>

lemma order_kept:
  assumes "orders_extend ot ot'" "r \<in> set (orders_t ot)"
  shows "\<exists>r' \<in> set (orders_t ot'). order_terms r' = order_terms r"
proof -
  from assms(1) obtain rows where "map order_terms (orders_t ot') = map order_terms (orders_t ot) @ rows"
    by (auto simp: orders_extend_def)
  then have "order_terms ` set (orders_t ot) \<subseteq> order_terms ` set (orders_t ot')"
    unfolding set_map [symmetric] by simp
  then have "order_terms r \<in> order_terms ` set (orders_t ot')" using assms(2) by blast
  then obtain r' where "order_terms r = order_terms r'" "r' \<in> set (orders_t ot')" by (rule imageE)
  then show ?thesis by (intro bexI [of _ r']) simp_all
qed

lemma order_terms_ID: "order_terms a = order_terms b \<Longrightarrow> or_ID a = or_ID b"
proof -
  assume "order_terms a = order_terms b"
  then have "or_ID (order_terms a) = or_ID (order_terms b)" by simp
  then show ?thesis by (simp add: order_terms_def)
qed

end
