(* ===== verification/OrdersOnce.thy ===== *)
theory OrdersOnce
  imports OrdersTerms
begin

text \<open>
  Exactly once: the operation key a request claimed stays bound to its order through every later
  history, so that the same request again is answered without doing anything, and a request
  that reuses the key for another order is refused.
\<close>

section \<open>The receipt of a request\<close>

lemma claim_key:
  "claim env key res tm p = Inr x \<Longrightarrow> key \<noteq> [] \<and> length key \<le> 512"
  by (auto simp: claim_def Let_def stmt_eq_Inr receipt_chk_def split: if_splits)

text \<open>A transaction that only adds events leaves the receipts as they are.\<close>

lemma runTransition_receipts:
  assumes "runTransition env order trigger cmd db = Inr db'"
    and "orders_inv (ord db)" "order \<in> set (orders_t (ord db))"
  shows "mutation_receipts (plat db') = mutation_receipts (plat db)"
  by (rule runTransition_keeps [OF assms,
        where P = "\<lambda>d. mutation_receipts (plat d) = mutation_receipts (plat db)" and G = "\<lambda>_ _. True"])
     (auto dest: transition_effect(11))

lemma receipt_of_cong: "mutation_receipts p' = mutation_receipts p \<Longrightarrow> receipt_of p' key = receipt_of p key"
  by (simp add: receipt_of_def)

lemma ReserveFor_key: "ReserveFor env key i tm p = Inr x \<Longrightarrow> key \<noteq> [] \<and> length key \<le> 512"
  by (auto simp: ReserveFor_def elim!: andThen_pairE dest: claim_key)

lemma ReserveNew_key: "ReserveNew env key i tm p = Inr x \<Longrightarrow> key \<noteq> [] \<and> length key \<le> 512"
  by (auto simp: ReserveNew_def elim!: andThen_pairE dest: claim_key)

lemma Repository_Apply_key:
  "Repository_Apply env c cmd db = (Inr u, db') \<Longrightarrow> OperationKey c \<noteq> [] \<and> length (OperationKey c) \<le> 512"
  unfolding Repository_Apply_def
  by (simp add: commit_Inr stmt_eq_Inr split: option.splits)
     (elim conjE andThen_pairE, unfold mapErr_eq_Inr, rule ReserveFor_key)

lemma Repository_Create_key:
  "Repository_Create env notify c cmd db = (Inr res, db') \<Longrightarrow> OperationKey c \<noteq> [] \<and> length (OperationKey c) \<le> 512"
  unfolding Repository_Create_def Let_def commit_Inr stmt_eq_Inr
  by (elim conjE andThen_pairE) (rule ReserveNew_key)

lemma Repository_Apply_receipt:
  assumes "Repository_Apply env c cmd db = (Inr u, db')" "orders_inv (ord db)"
    and "uuid_Parse env (tc_OrderID cmd) = Some i"
  shows "receipt_of (plat db') (OperationKey c) = Some i"
  using assms(1)
proof (cases rule: Repository_Apply_Inr)
  case (replay j)
  then show ?thesis using assms(3) by simp
next
  case (applied j st p1 order)
  have "mutation_receipts (plat db') = mutation_receipts p1"
    using runTransition_receipts [OF applied(5)] assms(2) applied(3) by simp
  then show ?thesis using claim_Inr(2) [OF applied(2)] applied(1) assms(3)
      receipt_of_cong [of "plat db'" p1] by simp
qed

text \<open>The answer to a request whose key is known.\<close>

lemma Repository_Apply_known:
  assumes "receipt_of (plat db) (OperationKey c) = Some i"
    and "OperationKey c \<noteq> []" "length (OperationKey c) \<le> 512" "\<And>q. fault env q = None"
    and "TransitionFor (tc_Trigger cmd) \<noteq> None" "uuid_Parse env (tc_OrderID cmd) = Some j"
  shows "Repository_Apply env c cmd db = (if j = i then Inr () else Inl OrdersConflict, db)"
proof -
  obtain tr where "TransitionFor (tc_Trigger cmd) = Some tr" using assms(5) by blast
  then show ?thesis using ReserveFor_known [OF assms(1-4), where res = j and tm = "tc_At cmd"] assms(4,6)
    by (simp add: Repository_Apply_def mapDedupError_def)
qed

section \<open>Placing an order once\<close>

text \<open>The answer of the request that placed an order.\<close>

definition created_of :: "'a env_scheme \<Rightarrow> order_row \<Rightarrow> Created" where
  "created_of env r = \<lparr>cd_OrderID = uuid_String env (or_ID r), cd_Status = or_Status r,
     cd_GoodsAmount = or_GoodsAmount r, cd_DeliveryFee = or_DeliveryFee r,
     cd_TotalAmount = or_TotalAmount r,
     cd_SupplierConfirmationDeadline = or_SupplierConfirmationDeadline r\<rparr>"

lemma created_of_terms:
  "order_terms a = order_terms b \<Longrightarrow> created_of env a = (created_of env b)\<lparr>cd_Status := or_Status a\<rparr>"
proof -
  assume "order_terms a = order_terms b"
  then have "f (order_terms a) = f (order_terms b)" for f :: "order_row \<Rightarrow> 'c" by simp
  from this [of or_ID] this [of or_GoodsAmount] this [of or_DeliveryFee] this [of or_TotalAmount]
    this [of or_SupplierConfirmationDeadline]
  show ?thesis by (simp add: created_of_def order_terms_def)
qed

lemma replayCreated_found:
  assumes "r \<in> set (orders_t ot)" "orders_inv ot" "\<And>q. fault env q = None"
  shows "replayCreated env (or_ID r) ot = Inr (created_of env r)"
proof -
  have "sql_one (\<lambda>x. or_ID x = or_ID r) (orders_t ot) = Inr r"
    using assms(1,2) by (intro sql_one_unique) (auto simp: orders_inv_def distinct_map inj_on_def)
  then show ?thesis using assms(3)
    by (simp add: replayCreated_def GetOrder_def created_of_def)
qed

lemma place_order_row:
  assumes "place_order env notify cmd orderID p1 db = Inr (res, db')"
  obtains r where "r \<in> set (orders_t (ord db'))" "or_ID r = orderID" "fst res = created_of env r"
proof -
  from assms obtain quote ct ot1 ot2 token p2 where
    o: "insert_order env cmd orderID quote (db\<lparr>cat := ct\<rparr>) = Inr ot1"
    and t: "insert_token env cmd orderID quote token (loc db) ot1 = Inr ot2"
    and d: "db' = db\<lparr>plat := p2, cat := ct, ord := ot2\<rparr>"
    and res: "fst res = \<lparr>cd_OrderID = uuid_String env orderID, cd_Status = StatusCreated,
           cd_GoodsAmount = q_GoodsAmount quote, cd_DeliveryFee = q_DeliveryFee quote,
           cd_TotalAmount = q_TotalAmount quote,
           cd_SupplierConfirmationDeadline = q_ConfirmationDeadline quote\<rparr>"
    by (rule place_order_Inr)
  from o have "\<exists>b s. order_of cmd quote orderID b s \<in> set (orders_t ot1)"
    by (rule insert_order_Inr) auto
  then obtain b s where "order_of cmd quote orderID b s \<in> set (orders_t ot1)" by blast
  then show thesis
    using that [of "order_of cmd quote orderID b s"] insert_token_Inr(1) [OF t] d res
    by (simp add: created_of_def order_of_def)
qed

text \<open>The order a committed request answers with, and the key it is bound to.\<close>

lemma Repository_Create_bound:
  assumes "Repository_Create env notify c cmd db = (Inr res, db')" "orders_inv (ord db)"
  obtains r where "receipt_of (plat db') (OperationKey c) = Some (or_ID r)" "r \<in> set (orders_t (ord db'))"
    "fst res = created_of env r"
  using assms(1)
proof (cases rule: Repository_Create_Inr)
  case (replay st created)
  then obtain r where "GetOrder env st (ord db) = Inr r" and c: "created = \<lparr>cd_OrderID = uuid_String env st,
      cd_Status = or_Status r, cd_GoodsAmount = or_GoodsAmount r, cd_DeliveryFee = or_DeliveryFee r,
      cd_TotalAmount = or_TotalAmount r,
      cd_SupplierConfirmationDeadline = or_SupplierConfirmationDeadline r\<rparr>"
    by (auto simp: replayCreated_def mapErr_eq_Inr elim!: andThenE)
  then have "r \<in> set (orders_t (ord db))" "or_ID r = st"
    by (auto simp: GetOrder_def stmt_eq_Inr dest: sql_one_Inr)
  then show thesis using that [of r] replay c by (simp add: created_of_def)
next
  case (placed st p1)
  obtain r where r: "r \<in> set (orders_t (ord db'))" "or_ID r = newID env" "fst res = created_of env r"
    by (rule place_order_row [OF placed(2)])
  have "receipt_of (plat db') (OperationKey c) = receipt_of p1 (OperationKey c)"
    by (rule place_order_Inr [OF placed(2)]) (auto dest: Write_receipt_of)
  then have "receipt_of (plat db') (OperationKey c) = Some (newID env)"
    using claim_Inr(2) [OF placed(1)] by simp
  then show thesis using that [of r] r by simp
qed

lemma Repository_Create_known:
  assumes "receipt_of (plat db) (OperationKey c) = Some (or_ID r)"
    and "OperationKey c \<noteq> []" "length (OperationKey c) \<le> 512" "\<And>q. fault env q = None"
    and "r \<in> set (orders_t (ord db))" "orders_inv (ord db)"
  shows "Repository_Create env notify c cmd db = (Inr (created_of env r, None), db)"
proof -
  have "ReserveNew env (OperationKey c) (newID env) (cc_At cmd) (plat db) = Inr ((True, or_ID r), plat db)"
    using assms(1-4)
    by (auto simp: ReserveNew_def claim_def Let_def receipt_of_def receipt_chk_def Suc_le_eq split: sum.splits)
  then show ?thesis using replayCreated_found [OF assms(5,6,4)] assms(4)
    by (simp add: Repository_Create_def)
qed

section \<open>The confirmation token\<close>

lemma Repository_ConfirmToken_spent:
  assumes "spent (sha256_hex env token) (ord db)" "orders_inv (ord db)"
    and "receipt_of (plat db) (OperationKey c) = None"
    and "OperationKey c \<noteq> []" "length (OperationKey c) \<le> 512" "\<And>q. fault env q = None"
    and "uuid_Parse env i = Some j"
  shows "Repository_ConfirmToken env c i token tm db = (Inl OrdersGone, db)"
proof -
  have "\<not> token_live (sha256_hex env token) tm r" if "r \<in> set (confirm_tokens (ord db))" for r
    using assms(1,2) that
    by (auto simp: spent_def list_ex_iff orders_inv_def token_live_def distinct_map inj_on_def)
  then have "ConsumeConfirmToken env (sha256_hex env token) tm (ord db) = Inl NoRows"
    using assms(6) by (auto simp: ConsumeConfirmToken_def sql_update_one_NoRows)
  moreover obtain p1 where "ReserveFor env (OperationKey c) j tm (plat db) = Inr (False, p1)"
    using assms(3-6)
    by (auto simp: ReserveFor_def claim_def Let_def receipt_of_def receipt_chk_def Suc_le_eq split: sum.splits)
  ultimately show ?thesis using assms(6,7)
    by (simp add: Repository_ConfirmToken_def TransitionFor_def)
qed

lemma Repository_ConfirmToken_spends:
  assumes "Repository_ConfirmToken env c i token tm db = (Inr u, db')" "core_inv db"
    and "receipt_of (plat db) (OperationKey c) = None"
  shows "spent (sha256_hex env token) (ord db')"
  using assms(1)
proof (cases rule: Repository_ConfirmToken_Inr)
  case (applied oid st p1 tk ot1 order)
  have "orders_t ot1 = orders_t (ord db)" by (rule ConsumeConfirmToken_Inr [OF applied(3)]) simp
  moreover have "core_inv (db\<lparr>plat := p1, ord := ot1\<rparr>)" by (rule ConsumeConfirmToken_core [OF applied(3) assms(2)])
  ultimately have "orders_extend ot1 (ord db')"
    using runTransition_extends [OF applied(7)] applied(5) by (simp add: core_inv_def)
  then show ?thesis using ConsumeConfirmToken_spent(2) [OF applied(3)] by (simp add: orders_extend_def)
qed (use assms(3) in simp)

end
