(* ===== verification/Sample.thy ===== *)
theory Sample
  imports CatalogService
begin

text \<open>
  A concrete environment: functions that stand for the third-party packages and satisfy what the
  theorems assume of them. An id is written as a row of letters one longer than its value, a
  quantity as the decimal digits of a natural number. The witnesses of the theorems run the
  model with it on a small market.
\<close>

definition sample_Parse :: "string \<Rightarrow> uuid option" where
  "sample_Parse s = (if s \<noteq> [] \<and> list_all (\<lambda>ch. ch = CHR ''u'') s
     then Some (of_nat (length s - 1)) else None)"

definition sample_String :: "uuid \<Rightarrow> string" where
  "sample_String u = replicate (Suc (unat u)) CHR ''u''"

definition sample_Scan :: "string \<Rightarrow> rat option" where
  "sample_Scan s = (if s \<noteq> [] \<and> list_all is_digit s then Some (of_int (digits_value 0 s)) else None)"

definition sample_Value :: "rat \<Rightarrow> string" where
  "sample_Value q = decimal (nat \<lfloor>q\<rfloor>)"

definition sample_env :: "uuid \<Rightarrow> env" where
  "sample_env i = \<lparr>uuid_Parse = sample_Parse, uuid_String = sample_String,
     Numeric_Scan = sample_Scan, Numeric_Value = sample_Value, sha256_hex = (\<lambda>s. s),
     to_char_date = (\<lambda>_. ''20260101''), url_Parse = (\<lambda>s. Some (''https'', s)), newID = i, rowID = (\<lambda>n. 100 * i + of_nat n), newV7 = of_nat, rand_token = Inr (sample_String i), clock_Now = 1000, fault = (\<lambda>_. None)\<rparr>"

lemma sample_env_simps [simp]:
  "uuid_Parse (sample_env i) = sample_Parse" "uuid_String (sample_env i) = sample_String"
  "Numeric_Scan (sample_env i) = sample_Scan" "Numeric_Value (sample_env i) = sample_Value"
  "fault (sample_env i) q = None" "newID (sample_env i) = i" "clock_Now (sample_env i) = 1000"
  "newV7 (sample_env i) n = of_nat n" "rand_token (sample_env i) = Inr (sample_String i)"
  "sha256_hex (sample_env i) s = s" "rowID (sample_env i) n = 100 * i + of_nat n"
  "to_char_date (sample_env i) tm = ''20260101''"
  by (simp_all add: sample_env_def)

lemma sample_lossless_ids [simp]: "lossless_ids (sample_env i)"
  by (simp add: lossless_ids_def sample_Parse_def sample_String_def list_all_iff)

lemma sample_lossless_numerics [simp]: "lossless_numerics (sample_env i)"
proof -
  have "sample_Scan (sample_Value q) = Some q" if "sample_Scan s = Some q" for s q
  proof -
    from that have q: "q = of_int (digits_value 0 s)" "list_all is_digit s"
      by (auto simp: sample_Scan_def split: if_splits)
    then have "0 \<le> digits_value 0 s" using digits_value_mono [of 0 s] by simp
    then show ?thesis using decimal_ok [of "nat (digits_value 0 s)"] q
      by (simp add: sample_Scan_def sample_Value_def)
  qed
  then show ?thesis by (auto simp: lossless_numerics_def)
qed

section \<open>A small market\<close>

definition buyer :: ctx where
  "buyer = \<lparr>ctx_principal = Some \<lparr>UserID = ''uu'', Roles = [RoleBuyer]\<rparr>, OperationKey = ''op1''\<rparr>"

definition seller :: ctx where
  "seller = \<lparr>ctx_principal = Some \<lparr>UserID = ''uuu'', Roles = [RoleSeller]\<rparr>, OperationKey = ''op2''\<rparr>"

definition operator :: ctx where
  "operator = \<lparr>ctx_principal = Some \<lparr>UserID = ''uuuu'', Roles = [RoleOperator]\<rparr>, OperationKey = ''op3''\<rparr>"

definition sample_platform :: platform where
  "sample_platform = \<lparr>mutation_receipts = [], outbox = [], outbox_seq = 0\<rparr>"

definition sample_location :: location where
  "sample_location = \<lparr>
     owners = [\<lparr>ow_id = 5, ow_user_id = 2, ow_tin = ''123456789'', ow_legal_name = ''Seller LLC'',
                ow_bank_account = Some ''20208000'', ow_mfo = Some ''00014'', ow_status = ''active''\<rparr>],
     stores = [\<lparr>st_id = 4, st_owner_id = 5, st_name = ''Store'', st_phone = None, st_status = ''active''\<rparr>],
     districts = [1]\<rparr>"

definition sample_catalog :: catalog where
  "sample_catalog = \<lparr>
     categories = [\<lparr>ct_ID = 1, ct_ConfirmWindowMinutes = 240, ct_CommissionBps = 250, ct_IsActive = True\<rparr>],
     products = [\<lparr>pr_ID = 6, pr_CategoryID = 1, pr_IsActive = True\<rparr>,
                 \<lparr>pr_ID = 7, pr_CategoryID = 1, pr_IsActive = True\<rparr>],
     offers = [\<lparr>of_ID = 8, of_StoreID = 4, of_ProductID = 6, of_Price = 1500, of_DeclaredQty = 10,
                of_ReservedQty = 0, of_FreshnessAt = 0, of_Status = ''published''\<rparr>],
     delivery_tariffs = [\<lparr>dt_StoreID = 4, dt_DistrictID = 1, dt_Price = 900\<rparr>],
     catalog_requests = []\<rparr>"

end
