(* ===== verification/OrdersService.thy ===== *)
theory OrdersService
  imports OrdersRepo
begin

text \<open>
  The order service (\<open>internal/modules/orders/service.go\<close>): what a request must look like, who
  may make it and which trigger it is; the SLA sweeper (\<open>sweeper.go\<close>); and the transition the
  refund sweep of billing asks for (\<open>module.go\<close>).
\<close>

section \<open>Validation\<close>

definition buyerIndividual :: string where "buyerIndividual = ''individual''"
definition buyerLegalEntity :: string where "buyerLegalEntity = ''legal_entity''"
definition maxOrderItems :: nat where "maxOrderItems = 100"
definition maxCancelReason :: nat where "maxCancelReason = 500"
definition maxReceiptURL :: nat where "maxReceiptURL = 2048"
definition legalEntityTINLen :: nat where "legalEntityTINLen = 9"

definition point_Valid :: "rat \<times> rat \<Rightarrow> bool" where
  "point_Valid p \<longleftrightarrow> -90 \<le> fst p \<and> fst p \<le> 90 \<and> -180 \<le> snd p \<and> snd p \<le> 180"

definition isDigits :: "string \<Rightarrow> bool" where
  "isDigits value = list_all is_digit value"

text \<open>The loop over the items; \<open>seen\<close> is the map of the product ids met before, as text.\<close>

fun validate_items :: "'a env_scheme \<Rightarrow> string list \<Rightarrow> ItemInput list \<Rightarrow> unit result" where
  "validate_items env seen [] = Inr ()"
| "validate_items env seen (item # items) =
     (if \<not> uuid_Validate env (it_ProductID item) \<or> \<not> IsPositiveDecimal (it_Qty item) \<or>
         it_ProductID item \<in> set seen
      then Inl OrdersInvalid
      else validate_items env (it_ProductID item # seen) items)"

definition validateCreate :: "'a env_scheme \<Rightarrow> 'i CreateInput_scheme \<Rightarrow> unit result" where
  "validateCreate env input =
     (if \<not> uuid_Validate env (ci_StoreID input) \<or> ci_DistrictID input \<le> 0 \<or>
         ci_Items input = [] \<or> maxOrderItems < length (ci_Items input) \<or>
         ci_BuyerType input \<noteq> buyerIndividual \<and> ci_BuyerType input \<noteq> buyerLegalEntity \<or>
         ci_Fulfillment input \<noteq> fulfilDelivery \<and> ci_Fulfillment input \<noteq> fulfilPickup
      then Inl OrdersInvalid
      else if ci_Fulfillment input = fulfilDelivery \<and>
         ((case ci_Dropoff input of None \<Rightarrow> True | Some p \<Rightarrow> \<not> point_Valid p) \<or>
          TrimSpace (ci_DropoffAddress input) = [])
      then Inl OrdersInvalid
      else if ci_BuyerType input = buyerLegalEntity \<and>
         (length (ci_BuyerTIN input) \<noteq> legalEntityTINLen \<or> \<not> isDigits (ci_BuyerTIN input))
      then Inl OrdersInvalid
      else validate_items env [] (ci_Items input))"

definition validateReceiptURL :: "'a env_scheme \<Rightarrow> string \<Rightarrow> unit result" where
  "validateReceiptURL env value =
     (if value = [] \<or> maxReceiptURL < length value then Inl OrdersInvalid
      else case url_Parse env value of None \<Rightarrow> Inl OrdersInvalid
      | Some (scheme, host) \<Rightarrow>
        if scheme = [] \<or> host = [] then Inl OrdersInvalid
        else if scheme \<noteq> ''https'' \<and> scheme \<noteq> ''http'' then Inl OrdersInvalid
        else Inr ())"

section \<open>Authorisation\<close>

definition authorizeBuyer :: "'a env_scheme \<Rightarrow> ctx \<Rightarrow> string \<Rightarrow> 'z bdb_scheme \<Rightarrow> Summary result" where
  "authorizeBuyer env c i db =
     (if \<not> uuid_Validate env i then Inl OrdersInvalid
      else andThen (Require c) (\<lambda>_.
        andThen (Repository_Summary env i (ord db)) (\<lambda>summary.
        andThen (mapErr (\<lambda>e. if e = AuthzForbidden then OrdersNotFound else e)
                  (EnsureSelf c (su_BuyerID summary))) (\<lambda>_. Inr summary))))"

text \<open>A check before the transaction: its error ends the request on the untouched database.\<close>

definition guarded :: "'b result \<Rightarrow> ('b \<Rightarrow> 'c result \<times> 'z) \<Rightarrow> 'z \<Rightarrow> 'c result \<times> 'z" where
  "guarded check k db = (case check of Inl e \<Rightarrow> (Inl e, db) | Inr x \<Rightarrow> k x)"

definition sellerTransition ::
  "'a env_scheme \<Rightarrow> ctx \<Rightarrow> string \<Rightarrow> Trigger \<Rightarrow> string \<Rightarrow> 'z bdb_scheme \<Rightarrow> unit result \<times> 'z bdb_scheme" where
  "sellerTransition env c i trigger reason db =
     (if \<not> uuid_Validate env i then (Inl OrdersInvalid, db)
      else guarded (andThen (Repository_Summary env i (ord db)) (\<lambda>summary.
             EnsureOwnsStore env c (su_StoreID summary) (loc db)))
        (\<lambda>_. Repository_Apply env c (command i trigger reason (clock_Now env)) db) db)"

definition buyerTransition ::
  "'a env_scheme \<Rightarrow> ctx \<Rightarrow> string \<Rightarrow> Trigger \<Rightarrow> string \<Rightarrow> 'z bdb_scheme \<Rightarrow> unit result \<times> 'z bdb_scheme" where
  "buyerTransition env c i trigger reason db = guarded (authorizeBuyer env c i db)
     (\<lambda>_. Repository_Apply env c (command i trigger reason (clock_Now env)) db) db"

section \<open>Operations\<close>

definition CreateOrder ::
  "'a env_scheme \<Rightarrow> string option \<Rightarrow> ctx \<Rightarrow> CreateInput \<Rightarrow> 'z bdb_scheme \<Rightarrow>
     (Created \<times> (string \<times> string) option) result \<times> 'z bdb_scheme" where
  "CreateOrder env notify c input db = guarded (RequireRole c RoleBuyer) (\<lambda>principal.
     guarded (validateCreate env input) (\<lambda>_.
       Repository_Create env notify c
         (CreateInput.extend input (CreateCommand.fields (UserID principal) (clock_Now env))) db) db) db"

definition SupplierConfirm where
  "SupplierConfirm env c i db = sellerTransition env c i TriggerSupplierConfirm [] db"

definition Decline where
  "Decline env c i db = sellerTransition env c i TriggerSupplierDecline [] db"

definition Cancel where
  "Cancel env c i reason db =
     (if TrimSpace reason = [] \<or> maxCancelReason < length reason then (Inl OrdersInvalid, db)
      else buyerTransition env c i TriggerBuyerCancel reason db)"

record PickupInput =
  pi_Code :: string
  pi_SignatureURL :: string

definition ConfirmPickup where
  "ConfirmPickup env c i input db =
     (if (pi_Code input = []) = (pi_SignatureURL input = []) then (Inl OrdersInvalid, db)
      else guarded (authorizeBuyer env c i db) (\<lambda>_. Repository_Apply env c
        ((command i TriggerConfirmPickup [] (clock_Now env))
           \<lparr>tc_PickupCode := pi_Code input, tc_PickupSignatureURL := pi_SignatureURL input\<rparr>) db) db)"

definition SubmitPaymentReceipt where
  "SubmitPaymentReceipt env c i receiptURL db = guarded (validateReceiptURL env receiptURL) (\<lambda>_.
     guarded (authorizeBuyer env c i db) (\<lambda>_. Repository_Apply env c
       ((command i TriggerSubmitReceipt [] (clock_Now env))\<lparr>tc_ReceiptURL := receiptURL\<rparr>) db) db) db"

definition ConfirmPayment where
  "ConfirmPayment env c i db = sellerTransition env c i TriggerConfirmPayment [] db"

definition RejectPayment where
  "RejectPayment env c i reason db =
     (if maxCancelReason < length reason then (Inl OrdersInvalid, db)
      else sellerTransition env c i TriggerRejectPayment reason db)"

definition StartPreparing where
  "StartPreparing env c i db = sellerTransition env c i TriggerStartPreparing [] db"

definition MarkReady where
  "MarkReady env c i db = sellerTransition env c i TriggerMarkReady [] db"

definition ConfirmDelivery where
  "ConfirmDelivery env c i db = sellerTransition env c i TriggerConfirmDelivery [] db"

definition RequestRefund where
  "RequestRefund env c i reason db = guarded (RequireRole c RoleOperator) (\<lambda>_.
     if \<not> uuid_Validate env i \<or> TrimSpace reason = [] \<or> maxCancelReason < length reason
     then (Inl OrdersInvalid, db)
     else Repository_Apply env c (command i TriggerRefundRequest reason (clock_Now env)) db) db"

definition ConfirmRefund where
  "ConfirmRefund env c i db = buyerTransition env c i TriggerConfirmRefund [] db"

definition TokenConfirm where
  "TokenConfirm env c i token db =
     (if \<not> uuid_Validate env i \<or> TrimSpace token = [] then (Inl OrdersInvalid, db)
      else Repository_ConfirmToken env c i token (clock_Now env) db)"

definition GetOrderSummary_port :: "'a env_scheme \<Rightarrow> string \<Rightarrow> 'z bdb_scheme \<Rightarrow> Summary result" where
  "GetOrderSummary_port env i db =
     (if \<not> uuid_Validate env i then Inl OrdersInvalid else Repository_Summary env i (ord db))"

section \<open>The SLA sweeper\<close>

record SweeperConfig =
  sc_Batch :: int
  sc_ExpiryGrace :: int

definition NewSweeper :: "SweeperConfig \<Rightarrow> SweeperConfig" where
  "NewSweeper cfg = \<lparr>sc_Batch = (if sc_Batch cfg \<le> 0 then 100 else sc_Batch cfg),
     sc_ExpiryGrace = (if sc_ExpiryGrace cfg \<le> 0 then 2 * 60 * minute else sc_ExpiryGrace cfg)\<rparr>"

record SweepResult =
  sr_Escalated :: nat
  sr_Expired :: nat
  sr_PaymentExpired :: nat

definition Unix :: "time \<Rightarrow> int" where "Unix tm = tm div 10 ^ 9"

definition escalationKey :: "DueOrder \<Rightarrow> string" where
  "escalationKey order =
     ''orders:sla_escalate:'' @ du_OrderID order @ '':'' @ int_text (Unix (du_DueAt order))"

definition expiryKey :: "string \<Rightarrow> time \<Rightarrow> string" where
  "expiryKey orderID dueAt = ''orders:expire:'' @ orderID @ '':'' @ int_text (Unix dueAt)"

definition paymentExpiryKey :: "string \<Rightarrow> time \<Rightarrow> string" where
  "paymentExpiryKey orderID dueAt = ''orders:payment_expire:'' @ orderID @ '':'' @ int_text (Unix dueAt)"

text \<open>An order that already moved on is not a failure of the sweep.\<close>

definition sweep_failure :: "go_error \<Rightarrow> go_error list \<Rightarrow> go_error list" where
  "sweep_failure e fails = (if e = OrdersConflict \<or> e = OrdersNotFound then fails else fails @ [e])"

text \<open>\<open>envs k\<close> is the environment the operation with the key \<open>k\<close> runs in.\<close>

definition sweep_due ::
  "(string \<Rightarrow> 'a env_scheme) \<Rightarrow> time \<Rightarrow> SweeperConfig \<Rightarrow> ctx \<Rightarrow> DueOrder \<Rightarrow>
     (SweepResult \<times> go_error list) \<times> 'z bdb_scheme \<Rightarrow> (SweepResult \<times> go_error list) \<times> 'z bdb_scheme" where
  "sweep_due envs now cfg c order = (\<lambda>((res, fails), db).
     let ek = escalationKey order; xk = expiryKey (du_OrderID order) (du_DueAt order) in
     case RecordEscalation (envs ek) (WithOperationKey c ek) order now db of
       (Inl e, db1) \<Rightarrow> ((res, fails @ [e]), db1)
     | (Inr escalated, db1) \<Rightarrow>
       let res1 = (if escalated then res\<lparr>sr_Escalated := Suc (sr_Escalated res)\<rparr> else res) in
       if now < du_DueAt order + sc_ExpiryGrace cfg then ((res1, fails), db1)
       else case Repository_Apply (envs xk) (WithOperationKey c xk)
              (command (du_OrderID order) TriggerExpire ''supplier confirmation window elapsed'' now) db1 of
         (Inr _, db2) \<Rightarrow> ((res1\<lparr>sr_Expired := Suc (sr_Expired res1)\<rparr>, fails), db2)
       | (Inl e, db2) \<Rightarrow> ((res1, sweep_failure e fails), db2))"

definition sweep_unpaid ::
  "(string \<Rightarrow> 'a env_scheme) \<Rightarrow> time \<Rightarrow> ctx \<Rightarrow> DueOrder \<Rightarrow>
     (SweepResult \<times> go_error list) \<times> 'z bdb_scheme \<Rightarrow> (SweepResult \<times> go_error list) \<times> 'z bdb_scheme" where
  "sweep_unpaid envs now c order = (\<lambda>((res, fails), db).
     let pk = paymentExpiryKey (du_OrderID order) (du_DueAt order) in
     case Repository_Apply (envs pk) (WithOperationKey c pk)
            (command (du_OrderID order) TriggerPaymentExpire ''payment window elapsed'' now) db of
       (Inr _, db1) \<Rightarrow> ((res\<lparr>sr_PaymentExpired := Suc (sr_PaymentExpired res)\<rparr>, fails), db1)
     | (Inl e, db1) \<Rightarrow> ((res, sweep_failure e fails), db1))"

definition Sweeper_RunOnce ::
  "(string \<Rightarrow> 'a env_scheme) \<Rightarrow> time \<Rightarrow> SweeperConfig \<Rightarrow> ctx \<Rightarrow> 'z bdb_scheme \<Rightarrow>
     (SweepResult \<times> go_error list) \<times> 'z bdb_scheme" where
  "Sweeper_RunOnce envs now cfg c db =
     (let none = \<lparr>sr_Escalated = 0, sr_Expired = 0, sr_PaymentExpired = 0\<rparr> in
      case AwaitingConfirmation (envs []) now (sc_Batch cfg) (ord db) of
        Inl e \<Rightarrow> ((none, [e]), db)
      | Inr due \<Rightarrow>
        let ((res, fails), db1) = fold (sweep_due envs now cfg c) due ((none, []), db) in
        case PaymentOverdue (envs []) now (sc_Batch cfg) (ord db1) of
          Inl e \<Rightarrow> ((res, fails @ [e]), db1)
        | Inr unpaid \<Rightarrow> fold (sweep_unpaid envs now c) unpaid ((res, fails), db1))"

section \<open>The refund sweep's transition\<close>

definition RefundOverdue ::
  "'a env_scheme \<Rightarrow> ctx \<Rightarrow> string \<Rightarrow> time \<Rightarrow> 'z bdb_scheme \<Rightarrow> unit result \<times> 'z bdb_scheme" where
  "RefundOverdue env c orderID dueAt db =
     (let key = ''orders:refund_overdue:'' @ orderID @ '':'' @ int_text (Unix dueAt) in
      case Repository_Apply env (WithOperationKey c key)
             (command orderID TriggerRefundOverdue [] (clock_Now env)) db of
        (Inl e, db1) \<Rightarrow> if e = OrdersConflict \<or> e = OrdersNotFound then (Inr (), db1) else (Inl e, db1)
      | (Inr _, db1) \<Rightarrow> (Inr (), db1))"

end
