(* ===== verification/BillingSweep.thy ===== *)
theory BillingSweep
  imports OrdersService
begin

text \<open>
  The rest of \<open>internal/modules/billing\<close> that changes refunds: the seller's evidence
  (\<open>repository.go\<close>, \<open>service.go\<close>) and the SLA sweep (\<open>refundsweep.go\<close>), whose callback moves
  the owning order before billing marks the refund.
\<close>

section \<open>Queries\<close>

definition GetCurrentPaymentInvoice :: "'a env_scheme \<Rightarrow> uuid \<Rightarrow> billing \<Rightarrow> invoice_row result" where
  "GetCurrentPaymentInvoice env orderID b = stmt env ''GetCurrentPaymentInvoice''
     (case rev (sort_key in_Version (filter (\<lambda>r. in_OrderID r = orderID \<and>
        in_Status r \<in> {''issued'', ''paid''}) (invoices b))) of [] \<Rightarrow> Inl NoRows | r # _ \<Rightarrow> Inr r)"

definition GetRefundForUpdate :: "'a env_scheme \<Rightarrow> uuid \<Rightarrow> billing \<Rightarrow> refund_row result" where
  "GetRefundForUpdate env orderID b = stmt env ''GetRefundForUpdate''
     (case rev (sort_key rf_CreatedAt (filter (\<lambda>r. rf_OrderID r = orderID) (refunds b))) of
        [] \<Rightarrow> Inl NoRows | r # _ \<Rightarrow> Inr r)"

definition store_SubmitRefundEvidence ::
  "'a env_scheme \<Rightarrow> string \<Rightarrow> uuid \<Rightarrow> 'z bdb_scheme \<Rightarrow> (refund_row \<times> 'z bdb_scheme) result" where
  "store_SubmitRefundEvidence env evidence i db = stmt env ''SubmitRefundEvidence''
     (andThen (sql_update_one refund_chk (\<lambda>r. rf_ID r = i \<and> rf_Status r = ''requested'')
        (\<lambda>r. r\<lparr>rf_EvidenceURL := Some evidence, rf_Status := ''evidence_uploaded''\<rparr>) (refunds (bil db)))
      (\<lambda>(r, rows). Inr (r, db\<lparr>bil := (bil db)\<lparr>refunds := rows\<rparr>\<rparr>)))"

definition ListRefundsDue :: "'a env_scheme \<Rightarrow> time \<Rightarrow> int \<Rightarrow> billing \<Rightarrow> refund_row list result" where
  "ListRefundsDue env deadline pageSize b = stmt env ''ListRefundsDue''
     (Inr (take (nat pageSize) (sort_key rf_DueAt (filter (\<lambda>r.
        rf_Status r \<in> {''requested'', ''evidence_uploaded''} \<and> rf_DueAt r \<le> deadline) (refunds b)))))"

definition MarkRefundOverdue :: "'a env_scheme \<Rightarrow> uuid \<Rightarrow> 'z bdb_scheme \<Rightarrow> (nat \<times> 'z bdb_scheme) result" where
  "MarkRefundOverdue env i db = stmt env ''MarkRefundOverdue''
     (andThen (sql_update refund_chk
        (\<lambda>r. rf_ID r = i \<and> rf_Status r \<in> {''requested'', ''evidence_uploaded''})
        (\<lambda>r. r\<lparr>rf_Status := ''overdue''\<rparr>) (refunds (bil db)))
      (\<lambda>(n, rows). Inr (n, db\<lparr>bil := (bil db)\<lparr>refunds := rows\<rparr>\<rparr>)))"

section \<open>Repository and service\<close>

record RefundEvidence =
  ev_OrderID :: string
  ev_EvidenceURL :: string
  ev_Amount :: int

definition Repository_GetPaymentInvoice :: "'a env_scheme \<Rightarrow> string \<Rightarrow> 'z bdb_scheme \<Rightarrow> (string \<times> int) result" where
  "Repository_GetPaymentInvoice env orderID db =
     (case uuid_Parse env orderID of None \<Rightarrow> Inl BillingInvalid
      | Some i \<Rightarrow> andThen (mapErr (no_rows_is BillingNotFound) (GetCurrentPaymentInvoice env i (bil db)))
          (\<lambda>r. Inr (in_Number r, in_TotalAmount r)))"

definition Repository_SubmitRefundEvidence ::
  "'a env_scheme \<Rightarrow> ctx \<Rightarrow> RefundEvidence \<Rightarrow> time \<Rightarrow> 'z bdb_scheme \<Rightarrow> unit result \<times> 'z bdb_scheme" where
  "Repository_SubmitRefundEvidence env c input tm db =
     (case uuid_Parse env (ev_OrderID input) of None \<Rightarrow> (Inl BillingInvalid, db)
      | Some orderID \<Rightarrow> commit db (stmt env ''begin''
        (andThen (mapErr (\<lambda>e. if e = DedupKeyReuse then BillingConflict else e)
          (ReserveFor env (OperationKey c) orderID tm (plat db))) (\<lambda>(replay, p1).
         if replay then Inr ((), db)
         else
         andThen (mapErr (no_rows_is BillingNotFound) (GetRefundForUpdate env orderID (bil db))) (\<lambda>refund.
         if rf_Status refund \<noteq> ''requested'' \<or> rf_Amount refund \<noteq> ev_Amount input then Inl BillingConflict
         else
         andThen (mapErr (no_rows_is BillingConflict)
           (store_SubmitRefundEvidence env (ev_EvidenceURL input) (rf_ID refund) (db\<lparr>plat := p1\<rparr>))) (\<lambda>(_, db1).
         stmt env ''commit'' (Inr ((), db1))))))))"

definition orderSummary :: "'a env_scheme \<Rightarrow> ctx \<Rightarrow> string \<Rightarrow> 'z bdb_scheme \<Rightarrow> Summary result" where
  "orderSummary env c orderID db =
     (if \<not> uuid_Validate env orderID then Inl BillingInvalid
      else andThen (Require c) (\<lambda>_.
        mapErr (\<lambda>e. if e = OrdersNotFound \<or> e = OrdersInvalid then BillingNotFound else e)
          (GetOrderSummary_port env orderID db)))"

definition authorizeOrderParty :: "'a env_scheme \<Rightarrow> ctx \<Rightarrow> string \<Rightarrow> 'z bdb_scheme \<Rightarrow> Summary result" where
  "authorizeOrderParty env c orderID db =
     andThen (orderSummary env c orderID db) (\<lambda>summary.
       if EnsureSelf c (su_BuyerID summary) = Inr () then Inr summary
       else andThen (mapErr (\<lambda>e. if e = AuthzForbidden then BillingNotFound else e)
              (EnsureOwnsStore env c (su_StoreID summary) (loc db))) (\<lambda>_. Inr summary))"

definition Service_GetPaymentInvoice :: "'a env_scheme \<Rightarrow> ctx \<Rightarrow> string \<Rightarrow> 'z bdb_scheme \<Rightarrow> (string \<times> int) result" where
  "Service_GetPaymentInvoice env c orderID db =
     andThen (authorizeOrderParty env c orderID db) (\<lambda>_. Repository_GetPaymentInvoice env orderID db)"

definition Service_SubmitRefundEvidence ::
  "'a env_scheme \<Rightarrow> ctx \<Rightarrow> RefundEvidence \<Rightarrow> 'z bdb_scheme \<Rightarrow> unit result \<times> 'z bdb_scheme" where
  "Service_SubmitRefundEvidence env c input db =
     (if \<not> uuid_Validate env (ev_OrderID input) \<or> ev_Amount input \<le> 0 \<or> ev_EvidenceURL input = []
      then (Inl BillingInvalid, db)
      else guarded (andThen (orderSummary env c (ev_OrderID input) db) (\<lambda>summary.
             EnsureOwnsStore env c (su_StoreID summary) (loc db)))
        (\<lambda>_. Repository_SubmitRefundEvidence env c input (clock_Now env) db) db)"

section \<open>The refund SLA sweep\<close>

definition refund_key :: "'a env_scheme \<Rightarrow> refund_row \<Rightarrow> string" where
  "refund_key env r = ''billing:refund_overdue:'' @ uuid_String env (rf_ID r) @ '':'' @ int_text (Unix (rf_DueAt r))"

definition markOverdue ::
  "'a env_scheme \<Rightarrow> refund_row \<Rightarrow> time \<Rightarrow> 'z bdb_scheme \<Rightarrow> unit result \<times> 'z bdb_scheme" where
  "markOverdue env refund tm db = commit db (stmt env ''begin''
     (andThen (ReserveFor env (refund_key env refund) (rf_ID refund) tm (plat db)) (\<lambda>(replay, p1).
      if replay then Inr ((), db)
      else
      andThen (MarkRefundOverdue env (rf_ID refund) (db\<lparr>plat := p1\<rparr>)) (\<lambda>(changed, db1).
      if changed = 0 then Inr ((), db)
      else
      andThen (Write env ''billing'' (uuid_String env (rf_OrderID refund))
        (RefundBecameOverduePayload (uuid_String env (rf_OrderID refund)) (rf_Amount refund) (rf_DueAt refund))
        (plat db1)) (\<lambda>p2.
      stmt env ''commit'' (Inr ((), db1\<lparr>plat := p2\<rparr>)))))))"

text \<open>One refund of the sweep: the callback first, then the mark. \<open>overdue\<close> counts.\<close>

definition sweep_refund ::
  "'a env_scheme \<Rightarrow> (string \<Rightarrow> time \<Rightarrow> 'z bdb_scheme \<Rightarrow> unit result \<times> 'z bdb_scheme) option \<Rightarrow> time \<Rightarrow>
     refund_row \<Rightarrow> (nat \<times> go_error list) \<times> 'z bdb_scheme \<Rightarrow> (nat \<times> go_error list) \<times> 'z bdb_scheme" where
  "sweep_refund env onOverdue now refund = (\<lambda>((overdue, fails), db).
     let (moved, db1) = (case onOverdue of None \<Rightarrow> (Inr (), db)
           | Some f \<Rightarrow> f (uuid_String env (rf_OrderID refund)) (rf_DueAt refund) db)
     in case moved of Inl e \<Rightarrow> ((overdue, fails @ [e]), db1)
        | Inr _ \<Rightarrow> (case markOverdue env refund now db1 of
            (Inl e, db2) \<Rightarrow> ((overdue, fails @ [e]), db2)
          | (Inr _, db2) \<Rightarrow> ((Suc overdue, fails), db2)))"

definition RefundSweeper_RunOnce ::
  "'a env_scheme \<Rightarrow> (string \<Rightarrow> time \<Rightarrow> 'z bdb_scheme \<Rightarrow> unit result \<times> 'z bdb_scheme) option \<Rightarrow> int \<Rightarrow>
     'z bdb_scheme \<Rightarrow> (nat \<times> go_error list) \<times> 'z bdb_scheme" where
  "RefundSweeper_RunOnce env onOverdue batch db =
     (let now = clock_Now env; size = (if batch \<le> 0 then 100 else batch) in
      case ListRefundsDue env now size (bil db) of
        Inl e \<Rightarrow> ((0, [e]), db)
      | Inr due \<Rightarrow> fold (sweep_refund env onOverdue now) due ((0, []), db))"

end
