(* ===== verification/Market.thy ===== *)
theory Market
  imports OrdersOnce Sample BillingSweep
begin

text \<open>
  A market for the witnesses: one store with one offer, a buyer, a seller and an operator, in the
  environment of the theory \<open>Sample\<close>, and the states a few requests lead to.
\<close>

definition market :: bdb where
  "market = \<lparr>plat = sample_platform, loc = sample_location, cat = sample_catalog,
     ord = \<lparr>orders_t = [], order_items = [], order_events = [], confirm_tokens = []\<rparr>,
     bil = \<lparr>invoices = [], payments = [], refunds = [], commission_ledger = [], invoice_number_seq = 0\<rparr>\<rparr>"

definition sample_lib :: lib where "sample_lib = lib.truncate (sample_env 0)"

lemma sample_lib_lossless [simp]: "lossless_ids sample_lib" "lossless_numerics sample_lib"
  by (simp_all add: sample_lib_def)

lemma truncate_sample [simp]: "lib.truncate (sample_env i) = sample_lib"
  by (simp add: sample_lib_def sample_env_def lib.truncate_def)

lemma market_core: "core_inv market"
  by (simp add: core_inv_def market_def sample_catalog_def catalog_inv_def offer_chk_def
      orders_inv_def billing_inv_def history_ok_def rest_ok_def)

lemma market_ledger: "ledger_ok market"
proof -
  have "reserved_of (cat market) s p = 0" for s p
    unfolding reserved_of_def market_def sample_catalog_def by simp
  moreover have "held (ord market) s p = 0" for s p
    unfolding held_def market_def by simp
  ultimately show ?thesis by (simp add: ledger_ok_def)
qed

lemma market_keyed: "receipts_keyed (plat market)"
  by (simp add: market_def sample_platform_def receipts_keyed_def)

lemma market_stock: "stock_inv sample_lib market"
proof -
  have "order_items (ord market) = []" by (simp add: market_def)
  then show ?thesis
    by (simp add: stock_inv_def market_core market_ledger scannable_def)
qed

definition under :: "ctx \<Rightarrow> string \<Rightarrow> ctx" where
  "under c key = c\<lparr>OperationKey := key\<rparr>"

definition order_of_three :: CreateCommand where
  "order_of_three = \<lparr>ci_StoreID = sample_String 4, ci_BuyerType = ''individual'', ci_BuyerTIN = [],
     ci_Fulfillment = ''pickup'', ci_DropoffAddress = [], ci_DistrictID = 1,
     ci_Items = [\<lparr>it_ProductID = sample_String 6, it_Qty = ''3''\<rparr>], ci_Dropoff = None,
     ci_Urgent = False, cc_BuyerID = sample_String 1, cc_At = 1000\<rparr>"

definition place :: "uuid \<Rightarrow> string \<Rightarrow> env \<times> ctx \<times> system_call" where
  "place i key = (sample_env i, under buyer key, CreateOrderCall None order_of_three)"

definition trigger_call :: "uuid \<Rightarrow> string \<Rightarrow> Trigger \<Rightarrow> env \<times> ctx \<times> system_call" where
  "trigger_call i key t = (sample_env i, under buyer key, ApplyCall (command (sample_String i) t ''why'' 2000))"

text \<open>The market with one order placed, and with one of two declined.\<close>

definition one_order :: bdb where "one_order = run_all system_exec [place 20 ''k1''] market"

definition one_declined :: bdb where
  "one_declined = run_all system_exec
     [place 20 ''k1'', place 21 ''k2'', trigger_call 20 ''k3'' TriggerSupplierDecline] market"

lemma one_order_core: "core_inv one_order"
  using system_core.run_R [of market "[place 20 ''k1'']"] market_core by (simp add: one_order_def)

definition sample_order :: order_row where
  "sample_order = \<lparr>or_ID = 20, or_BuyerID = 1, or_StoreID = 4, or_Status = StatusCreated,
     or_BuyerType = ''individual'', or_BuyerTin = None, or_Fulfillment = ''pickup'', or_IsUrgent = False,
     or_GoodsAmount = 4500, or_DeliveryFee = 0, or_TotalAmount = 4500, or_Dropoff = None,
     or_DropoffAddress = None, or_DistrictID = Some 1,
     or_SupplierConfirmationDeadline = 1000 + 240 * minute, or_PaymentDueAt = None,
     or_CreatedAt = 1000, or_ClosedAt = None\<rparr>"

lemma one_order_orders: "orders_t (ord one_order) = [sample_order]"
  by code_simp

lemma sample_order_in: "sample_order \<in> set (orders_t (ord (run_all system_exec [place 20 ''k1''] market)))"
  using one_order_orders by (simp add: one_order_def)

lemma one_declined_stock: "stock_inv sample_lib one_declined"
  unfolding one_declined_def
  by (rule stock.run_inv [OF market_stock])
     (simp add: place_def trigger_call_def command_def double_release_def list_all_iff)

end
