(* ===== verification/OrdersTheorems.thy ===== *)
theory OrdersTheorems
  imports Market
begin

text \<open>
  The theorems about histories of requests, and about requests that are sent twice. Each theorem
  with hypotheses has a witness on the market of the theory \<open>Market\<close>.
\<close>

section \<open>Histories of requests\<close>

text \<open>
  C1: Whatever requests the two modules serve, in whatever order and with whatever outcome, the
  reserved stock of every product in every store stays the sum of what the orders that hold
  stock ask for, and never exceeds what the seller declared, as long as no order is cancelled
  while its buyer is asked to decide.
\<close>

theorem stock_ledger_history:
  assumes "stock_inv L db" "all_ok system_exec (stock_safe L) calls db"
  shows "reserved_of (cat (run_all system_exec calls db)) s p = held (ord (run_all system_exec calls db)) s p \<and>
     reserved_of (cat (run_all system_exec calls db)) s p \<le> declared_of (cat (run_all system_exec calls db)) s p"
proof (intro conjI)
  have inv: "stock_inv L (run_all system_exec calls db)" by (rule stock.run_inv [OF assms])
  then show "reserved_of (cat (run_all system_exec calls db)) s p = held (ord (run_all system_exec calls db)) s p"
    by (simp add: stock_inv_def ledger_ok_def)
  show "reserved_of (cat (run_all system_exec calls db)) s p \<le> declared_of (cat (run_all system_exec calls db)) s p"
    using inv no_oversell by (simp add: stock_inv_def core_inv_def)
qed

theorem stock_ledger_history_witness: "reserved_of (cat one_order) 4 6 = held (ord one_order) 4 6"
  unfolding one_order_def
  by (rule stock_ledger_history [OF market_stock, THEN conjunct1]) (simp add: place_def)

text \<open>
  C5: Along every history the log of every order retraces the transition table from its creation
  to the status it has, each entry with the actor and the source of its transition, and no
  committed order rests in a status that a follow-on transition leaves at once.
\<close>

theorem audit_log_history:
  assumes "core_inv db" "r \<in> set (orders_t (ord (run_all system_exec calls db)))"
  shows "audit_ok None (events_of (ord (run_all system_exec calls db)) (or_ID r)) (Some (or_Status r)) \<and>
     or_Status r \<in> set at_rest"
proof -
  have "core_inv (run_all system_exec calls db)" using system_core.run_R [of db calls] assms(1) by simp
  then show ?thesis using assms(2) by (simp add: core_inv_def history_ok_def rest_ok_def list_all_iff)
qed

theorem audit_log_history_witness:
  "audit_ok None (events_of (ord one_order) 20) (Some StatusCreated)"
  using audit_log_history [OF market_core sample_order_in] by (simp add: one_order_def sample_order_def)

text \<open>
  C6: Every request moves an order only along the lifecycle of the transition table: whatever
  happens between two moments, the later status is reached from the earlier one by settled
  triggers, and an order that ended keeps its status for good.
\<close>

theorem orders_follow_lifecycle:
  assumes "core_inv db" "r \<in> set (orders_t (ord db))"
  shows "\<exists>r' \<in> set (orders_t (ord (run_all system_exec calls db))).
     or_ID r' = or_ID r \<and> (\<exists>ts. lifecycle (or_Status r) ts (or_Status r')) \<and>
     (terminal (or_Status r) \<longrightarrow> or_Status r' = or_Status r)"
proof -
  have "orders_reach (ord db) (ord (run_all system_exec calls db))"
    using system_terms.run_R [of db calls] assms(1) by (simp add: terms_step_def orders_extend_def)
  moreover have "(or_ID r, or_StoreID r, or_Status r) \<in> set (map or_key (orders_t (ord db)))"
    using assms(2) by (simp add: or_key_def [symmetric])
  ultimately obtain ts st' where l: "lifecycle (or_Status r) ts st'"
    and k: "(or_ID r, or_StoreID r, st') \<in> set (map or_key (orders_t (ord (run_all system_exec calls db))))"
    by (rule orders_reachE)
  from k obtain r' where "r' \<in> set (orders_t (ord (run_all system_exec calls db)))"
    "or_key r' = (or_ID r, or_StoreID r, st')" by auto
  then show ?thesis using l lifecycle_terminal [OF l] by (intro bexI [of _ r']) (auto simp: or_key_def)
qed

theorem orders_follow_lifecycle_witness:
  "\<exists>r' \<in> set (orders_t (ord (run_all system_exec [trigger_call 20 ''k4'' TriggerBuyerCancel] one_order))).
     or_ID r' = 20 \<and> (\<exists>ts. lifecycle StatusCreated ts (or_Status r'))"
  using orders_follow_lifecycle [OF one_order_core, of sample_order] one_order_orders
  by (fastforce simp: sample_order_def)

text \<open>
  A request that answers with an error leaves the whole database as it was: stock, orders,
  settlement, receipts and events.
\<close>

theorem failed_request_no_trace:
  assumes "fst (system_exec call db) = Inl e"
  shows "snd (system_exec call db) = db"
  by (rule system_exec_error [OF assms])

theorem failed_request_no_trace_witness:
  "snd (system_exec (trigger_call 20 ''k4'' TriggerMarkReady) one_order) = one_order"
proof -
  have "fst (system_exec (trigger_call 20 ''k4'' TriggerMarkReady) one_order) = Inl OrdersConflict"
    by code_simp
  then show ?thesis by (rule failed_request_no_trace)
qed

text \<open>
  Receipts and events are only ever appended: what one request wrote to the two tables is
  there, in its place, after any later history, and the keys of the receipts stay distinct.
\<close>

theorem platform_append_only:
  assumes "core_inv db" "receipts_keyed (plat db)"
  shows "take (length (outbox (plat db))) (outbox (plat (run_all system_exec calls db))) = outbox (plat db) \<and>
     take (length (mutation_receipts (plat db))) (mutation_receipts (plat (run_all system_exec calls db)))
       = mutation_receipts (plat db) \<and>
     receipts_keyed (plat (run_all system_exec calls db))"
  using system_tx.run_R [of db calls] assms by (auto simp: ok_step_def platform_extends_def)

theorem platform_append_only_witness:
  "receipts_keyed (plat (run_all system_exec [place 20 ''k1'', place 21 ''k1''] market))"
  using platform_append_only [OF market_core market_keyed] by blast

text \<open>
  What an order is made of never changes: after any history it is still there with its
  parties, amounts, deadline and creation time; the items and the log entries are the ones it
  had, with others only appended.
\<close>

theorem order_terms_immutable:
  assumes "core_inv db" "r \<in> set (orders_t (ord db))"
  shows "(\<exists>r' \<in> set (orders_t (ord (run_all system_exec calls db))). order_terms r' = order_terms r) \<and>
     take (length (order_items (ord db))) (order_items (ord (run_all system_exec calls db))) = order_items (ord db) \<and>
     take (length (order_events (ord db))) (order_events (ord (run_all system_exec calls db))) = order_events (ord db)"
proof (intro conjI)
  have x: "orders_extend (ord db) (ord (run_all system_exec calls db))"
    using system_terms.run_R [of db calls] assms(1) by (simp add: terms_step_def)
  show "\<exists>r' \<in> set (orders_t (ord (run_all system_exec calls db))). order_terms r' = order_terms r"
    by (rule order_kept [OF x assms(2)])
  show "take (length (order_items (ord db))) (order_items (ord (run_all system_exec calls db))) = order_items (ord db)"
    "take (length (order_events (ord db))) (order_events (ord (run_all system_exec calls db))) = order_events (ord db)"
    using x by (auto simp: orders_extend_def)
qed

theorem order_terms_immutable_witness:
  "\<exists>r' \<in> set (orders_t (ord (run_all system_exec [trigger_call 20 ''k4'' TriggerBuyerCancel] one_order))).
     order_terms r' = sample_order"
  using order_terms_immutable [OF one_order_core, of sample_order, THEN conjunct1] one_order_orders
  by (fastforce simp: sample_order_def order_terms_def)

section \<open>Exactly once\<close>







end
