(* ===== verification/PlacementTheorems.thy ===== *)
theory PlacementTheorems
  imports Market
begin

text \<open>
  The theorems about single requests: what an order is made of when it is placed, what a
  transition does to the orders, the stock and the outbox, and who may make it.
\<close>

section \<open>Placing an order\<close>







section \<open>A transition\<close>



text \<open>The events a trigger announces: that of its transition and that of the follow-on.\<close>

definition announced_by :: "Trigger \<Rightarrow> Name list" where
  "announced_by t = (case TransitionFor t of None \<Rightarrow> []
     | Some tr \<Rightarrow> if Event tr = no_event then [] else [Event tr])"

definition announced :: "Trigger \<Rightarrow> Name list" where
  "announced t = announced_by t @
     (case TransitionFor t of None \<Rightarrow> [] | Some tr \<Rightarrow>
        (case Then tr of None \<Rightarrow> [] | Some t' \<Rightarrow> announced_by t'))"

lemma transition_outbox:
  assumes "transition env order trigger tr cmd db = Inr (updated, db')" "TransitionFor trigger = Some tr"
  shows "map (\<lambda>r. (ob_event_name r, ob_aggregate_id r)) (outbox (plat db')) =
     map (\<lambda>r. (ob_event_name r, ob_aggregate_id r)) (outbox (plat db)) @
     map (\<lambda>n. (n, uuid_String env (or_ID order))) (announced_by trigger)"
proof -
  from assms(1) obtain ot1 ot2 db2 db3 db4 where
    r: "if ReleasesStock tr then releaseStock env order (db\<lparr>ord := ot2\<rparr>) = Inr db2 else db2 = db\<lparr>ord := ot2\<rparr>"
    and c: "if ConsumesStock tr then consumeStock env order db2 = Inr db3 else db3 = db2"
    and s: "settle env updated trigger cmd db3 = Inr db4"
    and w: "if Event tr = no_event then db' = db4
     else \<exists>p. Write env ''orders'' (uuid_String env (or_ID order))
       (OrderStatusChangedPayload (uuid_String env (or_StoreID order)) (uuid_String env (or_BuyerID order))
          (status_text (or_Status order)) (status_text (To tr)) (actor_text (ActorOf tr))
          (source_text (SourceOf tr)) (tc_Reason cmd) (Event tr)) (plat db4) = Inr p \<and> db' = db4\<lparr>plat := p\<rparr>"
    by (rule transition_steps)
  have "stock_frame (db\<lparr>ord := ot2\<rparr>) db2" "stock_frame db2 db3"
    using r c by (auto split: if_splits intro: releaseStock_frame consumeStock_frame)
  then have p4: "plat db4 = plat db" using settle_frame [OF s] by (simp add: stock_frame_def settle_frame_def)
  show ?thesis
  proof (cases "Event tr = no_event")
    case True
    then show ?thesis using w p4 assms(2) by (simp add: announced_by_def)
  next
    case False
    with w obtain p where "Write env ''orders'' (uuid_String env (or_ID order))
       (OrderStatusChangedPayload (uuid_String env (or_StoreID order)) (uuid_String env (or_BuyerID order))
          (status_text (or_Status order)) (status_text (To tr)) (actor_text (ActorOf tr))
          (source_text (SourceOf tr)) (tc_Reason cmd) (Event tr)) (plat db4) = Inr p" "plat db' = p" by auto
    from Write_Inr(1) [OF this(1)] this(2) False show ?thesis using p4 assms(2) by (auto simp: announced_by_def)
  qed
qed

text \<open>
  A transition and its events are one: a committed request that is no replay appends to the
  outbox exactly the events its trigger and its follow-on announce, in that order, each for the
  order it moved, and every one of them is registered with \<open>orders\<close> as its producer.
\<close>

theorem apply_announces:
  assumes "core_inv db" "Repository_Apply env c cmd db = (Inr (), db')"
    and "receipt_of (plat db) (OperationKey c) = None"
  shows "\<exists>i. uuid_Parse env (tc_OrderID cmd) = Some i \<and>
     map (\<lambda>r. (ob_event_name r, ob_aggregate_id r)) (outbox (plat db')) =
       map (\<lambda>r. (ob_event_name r, ob_aggregate_id r)) (outbox (plat db)) @
       map (\<lambda>n. (n, uuid_String env i)) (announced (tc_Trigger cmd)) \<and>
     list_all (\<lambda>n. case Lookup n of None \<Rightarrow> False | Some d \<Rightarrow> Producer d = ''orders'') (announced (tc_Trigger cmd))"
  using assms(2)
proof (cases rule: Repository_Apply_Inr)
  case (applied i st p1 order)
  have o: "orders_inv (ord (db\<lparr>plat := p1\<rparr>))" "order \<in> set (orders_t (ord (db\<lparr>plat := p1\<rparr>)))"
    using assms(1) applied(3) by (simp_all add: core_inv_def)
  let ?names = "map (\<lambda>r. (ob_event_name r, ob_aggregate_id r))"
  have "?names (outbox (plat db')) = ?names (outbox p1) @ map (\<lambda>n. (n, uuid_String env i)) (announced (tc_Trigger cmd))"
    using applied(5)
  proof (cases rule: runTransition_cases)
    case (one tr u)
    then show ?thesis using transition_outbox [OF one(4,1)] applied(4) by (simp add: announced_def)
  next
    case (two tr u db1 t' follow u')
    have "or_ID u = or_ID order" using transition_effect(1) [OF two(4) o] by (simp add: set_status_def)
    then show ?thesis using transition_outbox [OF two(4,1)] transition_outbox [OF two(7,5)] two applied(4)
      by (simp add: announced_def)
  qed
  moreover have "outbox p1 = outbox (plat db)" by (rule claim_Inr(4) [OF applied(2)])
  moreover have "list_all (\<lambda>n. case Lookup n of None \<Rightarrow> False | Some d \<Rightarrow> Producer d = ''orders'') (announced t)" for t
    using transition_wf(3) by (fastforce simp: announced_def announced_by_def split: option.splits)
  ultimately show ?thesis using applied(1) by simp
qed (use assms(3) in simp)

theorem apply_announces_witness:
  "\<exists>(db' :: bdb) i. map (\<lambda>r. (ob_event_name r, ob_aggregate_id r)) (outbox (plat db')) =
     map (\<lambda>r. (ob_event_name r, ob_aggregate_id r)) (outbox (plat one_order)) @
     [(OrderAccepted, i), (OrderAwaitingPayment, i)]"
proof -
  let ?run = "Repository_Apply (sample_env 20) (under seller ''k4'')
    (command (sample_String 20) TriggerSupplierConfirm [] 2000) one_order"
  have f: "fst ?run = Inr () \<and> receipt_of (plat one_order) (OperationKey (under seller ''k4'')) = None"
    by code_simp
  then have "?run = (Inr (), snd ?run)" by (metis prod.collapse)
  from apply_announces [OF one_order_core this] f
  obtain i where "map (\<lambda>r. (ob_event_name r, ob_aggregate_id r)) (outbox (plat (snd ?run))) =
    map (\<lambda>r. (ob_event_name r, ob_aggregate_id r)) (outbox (plat one_order)) @
    map (\<lambda>n. (n, uuid_String (sample_env 20) i)) (announced TriggerSupplierConfirm)"
    by (auto simp: command_def simp del: sample_env_simps)
  moreover have "announced TriggerSupplierConfirm = [OrderAccepted, OrderAwaitingPayment]"
    by (simp add: announced_def announced_by_def TransitionFor_def no_event_def)
  ultimately show ?thesis
    by (intro exI [of _ "snd ?run"] exI [of _ "uuid_String (sample_env 20) i"]) (simp only: list.map)
qed

section \<open>Stock released twice\<close>



section \<open>Who may move an order\<close>

text \<open>The principal of a request is the user who owns the order's store.\<close>

definition owns_order :: "'a env_scheme \<Rightarrow> ctx \<Rightarrow> order_row \<Rightarrow> location \<Rightarrow> bool" where
  "owns_order env c r lc \<longleftrightarrow> (\<exists>p. ctx_principal c = Some p \<and> RoleSeller \<in> set (Roles p) \<and>
     (\<exists>s \<in> set (stores lc). \<exists>w \<in> set (owners lc). st_id s = or_StoreID r \<and>
        ow_id w = st_owner_id s \<and> uuid_Parse env (UserID p) = Some (ow_user_id w)))"

definition buys_order :: "'a env_scheme \<Rightarrow> ctx \<Rightarrow> order_row \<Rightarrow> bool" where
  "buys_order env c r \<longleftrightarrow> (\<exists>p. ctx_principal c = Some p \<and> UserID p = uuid_String env (or_BuyerID r))"

lemma guarded_changes:
  "snd (guarded check k db) \<noteq> db \<Longrightarrow> \<exists>x. check = Inr x \<and> snd (k x) \<noteq> db"
  by (auto simp: guarded_def split: sum.splits)

lemma Repository_Summary_Inr:
  assumes "Repository_Summary env i ot = Inr summary"
  obtains r where "r \<in> set (orders_t ot)" "uuid_Parse env i = Some (or_ID r)"
    "su_StoreID summary = uuid_String env (or_StoreID r)" "su_BuyerID summary = uuid_String env (or_BuyerID r)"
  using assms
  by (auto simp: Repository_Summary_def GetOrderSummary_def andThen_eq_Inr mapErr_eq_Inr stmt_eq_Inr
      split: option.splits dest: sql_one_Inr)

text \<open>
  C37: A seller's request can change the database only if its principal is a seller and the user
  who owns the store of the order it names: confirming, declining, judging a payment, preparing,
  handing over.
\<close>

theorem seller_owns_what_moves:
  assumes "lossless_ids env" "snd (sellerTransition env c i trigger reason db) \<noteq> db"
  shows "\<exists>r \<in> set (orders_t (ord db)). uuid_Parse env i = Some (or_ID r) \<and> owns_order env c r (loc db)"
proof -
  from assms(2) have "andThen (Repository_Summary env i (ord db)) (\<lambda>summary.
      EnsureOwnsStore env c (su_StoreID summary) (loc db)) = Inr ()"
    by (auto simp: sellerTransition_def split: if_splits dest!: guarded_changes)
  then obtain summary where s: "Repository_Summary env i (ord db) = Inr summary"
    and e: "EnsureOwnsStore env c (su_StoreID summary) (loc db) = Inr ()" by (rule andThenE)
  obtain r where r: "r \<in> set (orders_t (ord db))" "uuid_Parse env i = Some (or_ID r)"
    "su_StoreID summary = uuid_String env (or_StoreID r)" by (rule Repository_Summary_Inr [OF s])
  from e obtain p st w where "ctx_principal c = Some p" "RoleSeller \<in> set (Roles p)"
    "st \<in> set (stores (loc db))" "w \<in> set (owners (loc db))"
    "uuid_Parse env (su_StoreID summary) = Some (st_id st)" "ow_id w = st_owner_id st"
    "uuid_Parse env (UserID p) = Some (ow_user_id w)"
    by (auto simp: EnsureOwnsStore_Inr Require_Inr)
  moreover have "uuid_Parse env (su_StoreID summary) = Some (or_StoreID r)" using r(3) assms(1) by simp
  ultimately have "owns_order env c r (loc db)" unfolding owns_order_def by (metis option.inject)
  then show ?thesis using r(1,2) by blast
qed

theorem seller_owns_what_moves_witness:
  "\<exists>r \<in> set (orders_t (ord one_order)). owns_order (sample_env 20) (under seller ''k4'') r (loc one_order)"
proof -
  let ?run = "sellerTransition (sample_env 20) (under seller ''k4'') (sample_String 20) TriggerSupplierConfirm [] one_order"
  have "map or_Status (orders_t (ord (snd ?run))) \<noteq> map or_Status (orders_t (ord one_order))" by code_simp
  then have "snd ?run \<noteq> one_order" by auto
  from seller_owns_what_moves [OF sample_lossless_ids this] show ?thesis by auto
qed

text \<open>
  A buyer's request can change the database only if its principal is the buyer of the order
  it names: cancelling, handing in a receipt, picking up, confirming a refund.
\<close>

theorem buyer_buys_what_moves:
  assumes "snd (buyerTransition env c i trigger reason db) \<noteq> db \<or> snd (ConfirmPickup env c i pickup db) \<noteq> db \<or>
     snd (SubmitPaymentReceipt env c i url db) \<noteq> db"
  shows "\<exists>r \<in> set (orders_t (ord db)). uuid_Parse env i = Some (or_ID r) \<and> buys_order env c r"
proof -
  from assms obtain summary where "authorizeBuyer env c i db = Inr summary"
    by (auto simp: buyerTransition_def ConfirmPickup_def SubmitPaymentReceipt_def split: if_splits
        dest!: guarded_changes)
  then have s: "Repository_Summary env i (ord db) = Inr summary"
    and e: "EnsureSelf c (su_BuyerID summary) = Inr ()"
    by (auto simp: authorizeBuyer_def andThen_eq_Inr mapErr_eq_Inr split: if_splits)
  obtain r where r: "r \<in> set (orders_t (ord db))" "uuid_Parse env i = Some (or_ID r)"
    "su_BuyerID summary = uuid_String env (or_BuyerID r)" by (rule Repository_Summary_Inr [OF s])
  show ?thesis
    by (rule bexI [OF _ r(1)]) (use e r(2,3) in \<open>auto simp: EnsureSelf_Inr Require_Inr buys_order_def\<close>)
qed

theorem buyer_buys_what_moves_witness:
  "\<exists>r \<in> set (orders_t (ord one_order)). buys_order (sample_env 20) (under buyer ''k4'') r"
proof -
  let ?run = "buyerTransition (sample_env 20) (under buyer ''k4'') (sample_String 20) TriggerBuyerCancel ''why'' one_order"
  have "map or_Status (orders_t (ord (snd ?run))) \<noteq> map or_Status (orders_t (ord one_order))" by code_simp
  then have "snd ?run \<noteq> one_order" by auto
  from buyer_buys_what_moves [OF disjI1 [OF this]] show ?thesis by auto
qed

end
