(* ===== verification/SettlementTheorems.thy ===== *)
theory SettlementTheorems
  imports Market
begin

text \<open>
  The theorems about money after the order is placed: the commission of a closed order, the
  verdict on a payment, what a cancellation leaves payable, the numbers of invoices, and the
  race the refund sweep can lose.
\<close>

section \<open>Commission\<close>

lemma charge_lines:
  assumes "list_all order_item_chk items" "0 \<le> acc" "acc + sum_list (map oi_LineAmount items) < 2 ^ 63"
  shows "\<exists>accrued. foldE charge_line items acc = Inr accrued \<and> acc \<le> accrued \<and>
     accrued \<le> acc + sum_list (map oi_LineAmount items)"
  using assms
proof (induction items arbitrary: acc)
  case (Cons i items)
  have nn: "0 \<le> sum_list (map oi_LineAmount items)"
    using Cons.prems(1) by (intro sum_list_nonneg) (auto simp: list_all_iff order_item_chk_def)
  have "0 \<le> oi_LineAmount i" "oi_LineAmount i < 2 ^ 63" "0 \<le> oi_CommissionBps i" "oi_CommissionBps i \<le> 10000"
    using Cons.prems nn by (auto simp: order_item_chk_def)
  then obtain charge where c: "ApplyBasisPoints (oi_LineAmount i) (oi_CommissionBps i) = Inr charge"
    "0 \<le> charge" "charge \<le> oi_LineAmount i" using ApplyBasisPoints_bounds by blast
  have w: "wrap64 (acc + charge) = acc + charge"
    using Cons.prems nn c by (intro wrap64_id) (simp add: is_int64_def)
  have "list_all order_item_chk items" "0 \<le> acc + charge"
    "(acc + charge) + sum_list (map oi_LineAmount items) < 2 ^ 63"
    using Cons.prems c by simp_all
  from Cons.IH [OF this] obtain accrued where a: "foldE charge_line items (acc + charge) = Inr accrued"
    "acc + charge \<le> accrued" "accrued \<le> acc + charge + sum_list (map oi_LineAmount items)" by blast
  have "charge_line i acc = Inr (acc + charge)" by (simp add: charge_line_def c w)
  then show ?case using a c by (intro exI [of _ accrued]) simp
qed simp

text \<open>
  The commission of an order is the sum of its lines' charges and never fails or overflows: for
  items the table accepts, whose amounts add up within 64 bits, it is at least nothing and at
  most the goods amount.
\<close>

theorem commission_bounded:
  assumes "list_all order_item_chk items" "sum_list (map oi_LineAmount items) < 2 ^ 63"
  shows "\<exists>accrued. foldE charge_line items 0 = Inr accrued \<and> 0 \<le> accrued \<and>
     accrued \<le> sum_list (map oi_LineAmount items)"
  using charge_lines [OF assms(1), of 0] assms(2) by simp

definition two_items :: "order_item list" where
  "two_items = [\<lparr>oi_ID = 1, oi_OrderID = 20, oi_ProductID = 6, oi_Qty = 3, oi_UnitPrice = 1500,
       oi_LineAmount = 4500, oi_CommissionBps = 250\<rparr>,
     \<lparr>oi_ID = 2, oi_OrderID = 20, oi_ProductID = 7, oi_Qty = 1, oi_UnitPrice = 21,
       oi_LineAmount = 21, oi_CommissionBps = 10000\<rparr>]"

theorem commission_bounded_witness:
  "\<exists>accrued. foldE charge_line two_items 0 = Inr accrued \<and> 0 \<le> accrued \<and> accrued \<le> 4521"
  using commission_bounded [of two_items] by (simp add: two_items_def order_item_chk_def)

lemma nearest_quotient:
  fixes q n a h m b :: int
  assumes "q \<le> n" "n < q + b" "n = a + h" "2 * h = b - m" "0 \<le> m" "m < 2"
  shows "\<bar>2 * (q - a)\<bar> \<le> b"
  using assms by presburger

lemma below_half:
  fixes n a h m b :: int
  assumes "n = a * 10000 + h" "2 * h = b - m" "0 \<le> m" "m < 2"
  shows "n < b \<longleftrightarrow> a * 20000 < b"
  using assms by presburger

text \<open>
  The average rate a ledger row records is the commission over the goods amount, rounded to the
  nearest basis point and never over 100 percent, as long as the products stay within 64 bits.
  It is zero when the commission is below half a basis point of the goods, which the comment
  above \<open>effectiveRateBps\<close> rules out.
\<close>

theorem effective_rate_nearest:
  assumes "0 < base" "0 \<le> accrued" "accrued \<le> base" "accrued * 10000 + base < 2 ^ 63"
  shows "\<bar>2 * (effectiveRateBps base accrued * base - accrued * 10000)\<bar> \<le> base \<and>
     0 \<le> effectiveRateBps base accrued \<and> effectiveRateBps base accrued \<le> 10000 \<and>
     (effectiveRateBps base accrued = 0 \<longleftrightarrow> accrued * 20000 < base)"
proof (intro conjI)
  let ?n = "accrued * 10000 + base div 2"
  have d: "base sdiv 2 = base div 2" using assms(1) by (simp add: signed_divide_int_def)
  have half: "0 \<le> base div 2" "base div 2 \<le> base" using assms(1) by simp_all
  have w: "wrap64 (wrap64 (accrued * 10000) + base div 2) = ?n"
    using assms half by (subst wrap64_id; simp add: is_int64_def wrap64_id)
  have "0 \<le> ?n" using assms(2) half by simp
  then have q: "?n sdiv base = ?n div base"
    using assms(1) by (cases "?n = 0"; simp add: signed_divide_int_def)
  have "?n div base \<le> (base * 10000 + base div 2) div base"
    using assms by (intro zdiv_mono1) simp_all
  also have "\<dots> = 10000 + base div 2 div base" using assms(1) by simp
  also have "base div 2 div base = 0" using assms(1) by (simp add: div_pos_pos_trivial)
  finally have le: "?n div base \<le> 10000" by simp
  have ge: "0 \<le> ?n div base" using assms by (simp add: pos_imp_zdiv_nonneg_iff)
  have e: "effectiveRateBps base accrued = ?n div base"
  proof (cases "accrued \<le> 0")
    case True
    then have "accrued = 0" using assms(2) by simp
    then show ?thesis using assms(1) by (simp add: effectiveRateBps_def div_pos_pos_trivial)
  next
    case False
    have "signed_take_bit 31 (?n div base) = ?n div base"
      using le ge by (intro signed_take_bit_int_eq_self) simp_all
    then show ?thesis using False assms(1) le w q d
      by (simp add: effectiveRateBps_def maxRateBps_def Let_def)
  qed
  have "?n = (?n div base) * base + ?n mod base" by simp
  moreover have "0 \<le> ?n mod base" "?n mod base < base" using assms(1) by simp_all
  ultimately have b: "(?n div base) * base \<le> ?n" "?n < (?n div base) * base + base" by linarith+
  have h: "2 * (base div 2) = base - base mod 2" "0 \<le> base mod 2" "base mod 2 < 2"
    by (simp_all add: minus_mod_eq_mult_div)
  show "\<bar>2 * (effectiveRateBps base accrued * base - accrued * 10000)\<bar> \<le> base"
    unfolding e by (rule nearest_quotient [OF b refl h])
  show "0 \<le> effectiveRateBps base accrued" "effectiveRateBps base accrued \<le> 10000"
    using e le ge by simp_all
  have "?n div base = 0 \<longleftrightarrow> ?n < base" using assms(1) \<open>0 \<le> ?n\<close> by (auto simp: zdiv_eq_0_iff)
  then show "effectiveRateBps base accrued = 0 \<longleftrightarrow> accrued * 20000 < base"
    unfolding e using below_half [OF refl h, of accrued] by simp
qed

theorem effective_rate_nearest_witness: "effectiveRateBps 50001 2 = 0 \<and> effectiveRateBps 4500 113 \<le> 10000"
  using effective_rate_nearest [of 50001 2] effective_rate_nearest [of 4500 113] by simp

text \<open>
  The first ten completed orders of an owner are free: a committed accrual appends one row to
  the ledger, with the commission the order asked for, all of it discounted while the owner has
  fewer than ten rows and none of it from the eleventh on, so that discount and payable always
  add up to the commission.
\<close>

theorem founding_orders_free:
  assumes "AccrueCommission env request db = Inr (acc, db')"
    and "is_int64 (co_Accrued request)" "length (commission_ledger (bil db)) < 2 ^ 62"
  shows "\<exists>ownerID row. uuid_Parse env (co_OwnerID request) = Some ownerID \<and>
     commission_ledger (bil db') = commission_ledger (bil db) @ [row] \<and> cl_OwnerID row = ownerID \<and>
     cl_Accrued row = co_Accrued request \<and>
     cl_Payable row = (if completed_orders ownerID (bil db) < 10 then 0 else co_Accrued request) \<and>
     cl_Discount row + cl_Payable row = cl_Accrued row \<and> 0 \<le> cl_Payable row \<and> cl_Payable row \<le> cl_BaseAmount row"
proof -
  obtain orderID ownerID row where *: "uuid_Parse env (co_OwnerID request) = Some ownerID"
    "commission_ledger (bil db') = commission_ledger (bil db) @ [row]"
    "cl_OwnerID row = ownerID" "cl_Accrued row = co_Accrued request"
    "cl_Discount row = (if completed_orders ownerID (bil db) < 10 then co_Accrued request else 0)"
    "cl_Payable row = (if completed_orders ownerID (bil db) < 10 then 0 else co_Accrued request)"
    "0 \<le> cl_Accrued row" "cl_Accrued row \<le> cl_BaseAmount row"
    by (rule AccrueCommission_Inr [OF assms]) simp
  show ?thesis by (rule exI [of _ ownerID], rule exI [of _ row]) (use * in simp)
qed

definition accrual :: CommissionRequest where
  "accrual = \<lparr>co_OrderID = sample_String 20, co_OwnerID = sample_String 5, co_BaseAmount = 4500,
     co_Accrued = 113, co_RateBps = 250, co_At = 3000\<rparr>"

theorem founding_orders_free_witness:
  "\<exists>row (db' :: bdb). commission_ledger (bil db') = [row] \<and> cl_Payable row = 0 \<and> cl_Discount row = 113"
proof -
  let ?run = "AccrueCommission (sample_env 9) accrual one_order"
  have f: "(case ?run of Inl _ \<Rightarrow> False | Inr _ \<Rightarrow> True)" by code_simp
  have l: "commission_ledger (bil one_order) = []" by code_simp
  from f obtain acc db' where r: "?run = Inr (acc, db')" by (cases ?run) auto
  from founding_orders_free [OF r] l show ?thesis
    by (auto simp: accrual_def is_int64_def completed_orders_def)
qed

section \<open>Payments\<close>

text \<open>
  A verdict settles a payment once: after one was recorded, every further verdict on the order
  is a conflict, and after an accepted one no invoice of the order is open.
\<close>

theorem verdict_settles_once:
  assumes "SettlePayment env decision db = Inr db1" "uuid_Parse env (pd_OrderID decision) = Some i"
    and "uuid_Parse env' (pd_OrderID decision') = Some i" "fault env' ''SettleManualPayment'' = None"
  shows "SettlePayment env' decision' db1 = Inl SettlementConflict \<and>
     (pd_Accepted decision \<longrightarrow> \<not> payable_invoice i (bil db1))"
proof (intro conjI)
  from SettlePayment_Inr [OF assms(1)] assms(2) have d: "\<not> undecided i (bil db1)"
    and p: "pd_Accepted decision \<Longrightarrow> \<not> payable_invoice i (bil db1)" by auto
  show "SettlePayment env' decision' db1 = Inl SettlementConflict"
    by (rule SettlePayment_decided [OF assms(3) d assms(4)])
  show "pd_Accepted decision \<longrightarrow> \<not> payable_invoice i (bil db1)" using p by blast
qed

text \<open>A market where the receipt of order 20 waits for its verdict.\<close>

definition receipt_row :: payment_row where
  "receipt_row = \<lparr>py_ID = 30, py_OrderID = 20, py_GoodsAmount = 4500, py_DeliveryFee = 0, py_SellerAmount = 4500,
     py_Status = ''created'', py_PaidAt = None, py_ReceiptURL = ''https://r'', py_CreatedAt = 1500\<rparr>"

definition issued_row :: invoice_row where
  "issued_row = \<lparr>in_ID = 31, in_OrderID = 20, in_Number = ''BINNO-20260101-000001'', in_Version = 1,
     in_OwnerSnapshot = \<lparr>pe_OwnerID = [], pe_StoreID = [], pe_StoreName = [], pe_LegalName = [], pe_TIN = [],
       pe_BankAccount = [], pe_MFO = []\<rparr>,
     in_BuyerSnapshot = \<lparr>pa_BuyerID = [], pa_BuyerType = [], pa_TIN = []\<rparr>,
     in_TotalAmount = 4500, in_Status = ''issued'', in_ExpiresAt = 9000, in_CreatedAt = 1400\<rparr>"

definition in_review :: bdb where
  "in_review = market\<lparr>bil := \<lparr>invoices = [issued_row], payments = [receipt_row], refunds = [],
     commission_ledger = [], invoice_number_seq = 0\<rparr>\<rparr>"

definition verdict :: "bool \<Rightarrow> PaymentDecision" where
  "verdict ok = \<lparr>pd_OrderID = sample_String 20, pd_Accepted = ok, pd_At = 2000\<rparr>"

lemma sample_Parse_20 [simp]: "sample_Parse (sample_String 20) = Some 20"
  by (simp add: sample_Parse_def sample_String_def list_all_iff)

theorem verdict_settles_once_witness:
  "\<exists>db1 :: bdb. SettlePayment (sample_env 0) (verdict False) db1 = Inl SettlementConflict"
proof -
  have "(case SettlePayment (sample_env 0) (verdict True) in_review of Inl _ \<Rightarrow> False | Inr _ \<Rightarrow> True)" by code_simp
  then obtain db1 where r: "SettlePayment (sample_env 0) (verdict True) in_review = Inr db1" by (auto split: sum.splits)
  have "SettlePayment (sample_env 0) (verdict False) db1 = Inl SettlementConflict"
    by (rule verdict_settles_once [OF r, THEN conjunct1]) (simp_all add: verdict_def)
  then show ?thesis by blast
qed

text \<open>
  A cancellation leaves nothing to pay: no invoice of the order stays open, and a verdict on
  a receipt of the order is a conflict from then on.
\<close>

theorem cancel_leaves_nothing_payable:
  assumes "CancelSettlement env oid db = Inr db1" "uuid_Parse env oid = Some i"
    and "uuid_Parse env' (pd_OrderID decision) = Some i" "fault env' ''SettleManualPayment'' = None"
  shows "\<not> payable_invoice i (bil db1) \<and> SettlePayment env' decision db1 = Inl SettlementConflict"
  by (intro conjI CancelSettlement_Inr(2) [OF assms(1,2)]
    SettlePayment_decided [OF assms(3) CancelSettlement_Inr(1) [OF assms(1,2)] assms(4)])

theorem cancel_leaves_nothing_payable_witness:
  "payable_invoice 20 (bil in_review) \<and> (\<exists>db1 :: bdb. \<not> payable_invoice 20 (bil db1))"
proof -
  have "(case CancelSettlement (sample_env 0) (sample_String 20) in_review of Inl _ \<Rightarrow> False | Inr _ \<Rightarrow> True)" by code_simp
  then obtain db1 where r: "CancelSettlement (sample_env 0) (sample_String 20) in_review = Inr db1"
    by (auto split: sum.splits)
  have "\<not> payable_invoice 20 (bil db1)"
    by (rule cancel_leaves_nothing_payable [OF r, where env' = "sample_env 0" and decision = "verdict True", THEN conjunct1])
      (simp_all add: verdict_def)
  moreover have "payable_invoice 20 (bil in_review)" by code_simp
  ultimately show ?thesis by blast
qed




section \<open>Invoice numbers\<close>

text \<open>
  C39: From the millionth invoice on the numbers of a day repeat: \<open>lpad\<close> cuts the seventh digit, so
  an invoice that exists with any number of the same ten takes the next one, and issuing it
  fails with the unique violation that stops the acceptance of the order.
\<close>

theorem invoice_numbers_collide:
  assumes "r \<in> set (invoices (bil db))" "in_Number r = invoice_number env tm n"
    and "10 ^ 6 \<le> n" "n < 10 ^ 7" "Suc (invoice_number_seq (bil db)) div 10 = n div 10"
    and "to_char_date env (ir_IssuedAt request) = to_char_date env tm"
    and "uuid_Parse env (ir_OrderID request) = Some i" "0 \<le> ir_TotalAmount request"
    and "fault env ''IssueInvoice'' = None"
  shows "IssueInvoice env request db = Inl (PgError ''23505'')"
proof -
  let ?m = "Suc (invoice_number_seq (bil db))"
  have "100000 \<le> n div 10" "n div 10 < 1000000" using assms(3,4) by simp_all
  moreover have "?m = 10 * (?m div 10) + ?m mod 10" "?m mod 10 < 10" by simp_all
  ultimately have "1000000 \<le> ?m" "?m < 10000000" using assms(5) by linarith+
  then have "in_Number r = invoice_number env (ir_IssuedAt request) ?m"
    using assms(2-6) by (simp add: invoice_number_cut)
  then show ?thesis using IssueInvoice_number_taken [OF assms(1) _ assms(7-9)] by simp
qed

definition invoice_request :: InvoiceRequest where
  "invoice_request = \<lparr>ir_OrderID = sample_String 20, ir_TotalAmount = 4500, ir_Payee = in_OwnerSnapshot issued_row,
     ir_Payer = in_BuyerSnapshot issued_row, ir_IssuedAt = 2000, ir_ExpiresAt = 9000\<rparr>"

theorem invoice_numbers_collide_witness:
  "IssueInvoice (sample_env 0) invoice_request
     (in_review\<lparr>bil := (bil in_review)\<lparr>invoices := [issued_row\<lparr>in_Number := ''BINNO-20260101-100000''\<rparr>],
       invoice_number_seq := 1000000\<rparr>\<rparr>)
     = Inl (PgError ''23505'')"
proof -
  have digits: "char_of (49::nat) = CHR ''1''" "char_of (48::nat) = CHR ''0''" by code_simp+
  have n: "''BINNO-20260101-100000'' = invoice_number (sample_env 0) 1400 1000000"
    by (simp add: invoice_number_cut decimal.simps digits)
  show ?thesis
    by (rule invoice_numbers_collide [where r = "issued_row\<lparr>in_Number := ''BINNO-20260101-100000''\<rparr>" and n = 1000000 and tm = 1400 and i = 20])
       (simp_all add: n in_review_def invoice_request_def)
qed

section \<open>The refund sweep\<close>






end
