(* ===== verification/CatalogTheorems.thy ===== *)
theory CatalogTheorems
  imports Market
begin

text \<open>
  The theorems about the catalogue: the quantities of a reservation and of its release, what the
  seller and the operator can do to an offer and a request, and what a history of their requests
  keeps.
\<close>

section \<open>Reserving and releasing\<close>

text \<open>
  Releasing what was reserved undoes it: when the lines of a reservation are released, every
  line finds its offer, and what is reserved and declared of every product in every store is
  again what it was before.
\<close>

theorem reserve_release_roundtrip:
  assumes "ReserveOrderLines env request ct = Inr (quote, ct1)" "catalog_inv ct"
    and "positive_lines env (rr_Lines request)"
    and "ReleaseOrderLines env' \<lparr>rel_StoreID = rr_StoreID request, rel_Lines = rr_Lines request\<rparr> ct1 = Inr (n, ct2)"
    and "uuid_Parse env' = uuid_Parse env" "Numeric_Scan env' = Numeric_Scan env"
  shows "n = 0 \<and> reserved_of ct2 s p = reserved_of ct s p \<and> declared_of ct2 s p = declared_of ct s p"
proof (intro conjI)
  from assms(1) obtain store where store: "uuid_Parse env (rr_StoreID request) = Some store"
    by (auto simp: ReserveOrderLines_def split: if_splits option.splits)
  note R = ReserveOrderLines_ledger [OF assms(1,2) store]
  have q: "lines_qty env' p ls = lines_qty env p ls" for p ls
  proof -
    have "line_qty env' = line_qty env" by (intro ext) (simp add: line_qty_def assms(5,6))
    then show ?thesis by (simp add: lines_qty_def)
  qed
  have pos: "positive_lines env' (rr_Lines request)" using assms(3,6) by (simp add: positive_lines_def)
  have "0 \<le> reserved_of ct store p" for p using no_oversell [OF assms(2)] by simp
  then have cov: "lines_qty env' p (rr_Lines request) \<le> reserved_of ct1 store p" for p
    by (simp add: R(3) q)
  note L = ReleaseOrderLines_exact [OF assms(4) R(1)]
  show "n = 0" by (rule L(1)) (use store assms(5) pos cov in simp_all)
  have "reserved_of ct2 s p = reserved_of ct1 s p - (if s = store then lines_qty env' p (rr_Lines request) else 0)"
    using L(3) [of store s p] store assms(5) pos cov by simp
  then show "reserved_of ct2 s p = reserved_of ct s p" by (simp add: R(3) q)
  have "declared_of ct2 s p = declared_of ct1 s p"
    using L(4) [of store s p] store assms(5) pos cov by simp
  then show "declared_of ct2 s p = declared_of ct s p" by (simp add: R(4))
qed

theorem reserve_release_roundtrip_witness:
  "\<exists>ct1 ct2. reserved_of ct1 4 6 = 3 \<and> reserved_of ct2 4 6 = reserved_of sample_catalog 4 6"
proof -
  let ?req = "reserve_request order_of_three"
  let ?res = "ReserveOrderLines (sample_env 0) ?req sample_catalog"
  have f: "(case ?res of Inl _ \<Rightarrow> False | Inr (_, ct1) \<Rightarrow> reserved_of ct1 4 6 = 3 \<and>
     (case ReleaseOrderLines (sample_env 0) \<lparr>rel_StoreID = rr_StoreID ?req, rel_Lines = rr_Lines ?req\<rparr> ct1 of
        Inl _ \<Rightarrow> False | Inr _ \<Rightarrow> True))"
    by code_simp
  then obtain quote ct1 where r: "?res = Inr (quote, ct1)" "reserved_of ct1 4 6 = 3" and g:
    "(case ReleaseOrderLines (sample_env 0) \<lparr>rel_StoreID = rr_StoreID ?req, rel_Lines = rr_Lines ?req\<rparr> ct1 of
        Inl _ \<Rightarrow> False | Inr _ \<Rightarrow> True)"
    by (cases ?res) auto
  obtain n ct2 where r3:
    "ReleaseOrderLines (sample_env 0) \<lparr>rel_StoreID = rr_StoreID ?req, rel_Lines = rr_Lines ?req\<rparr> ct1 = Inr (n, ct2)"
    by (cases "ReleaseOrderLines (sample_env 0) \<lparr>rel_StoreID = rr_StoreID ?req, rel_Lines = rr_Lines ?req\<rparr> ct1")
      (use g in auto)
  have inv: "catalog_inv sample_catalog" using market_core by (simp add: core_inv_def market_def)
  have "positive_lines (sample_env 0) (rr_Lines ?req)" by code_simp
  from reserve_release_roundtrip [OF r(1) inv this r3 refl refl] r(2) show ?thesis by blast
qed

section \<open>Histories\<close>

text \<open>
  No history of sellers' and operators' requests touches a reservation or the orders: what is
  reserved of every product stays what it was, within what is declared, and every row keeps the
  constraints of the schema.
\<close>

theorem catalog_history:
  fixes db :: "'z cdb_scheme"
  assumes "catalog_inv (cat db)"
  shows "catalog_inv (cat (run_all catalog_exec calls db)) \<and>
     reserved_of (cat (run_all catalog_exec calls db)) s p = reserved_of (cat db) s p \<and>
     reserved_of (cat db) s p \<le> declared_of (cat (run_all catalog_exec calls db)) s p \<and>
     loc (run_all catalog_exec calls db) = loc db \<and> cdb.more (run_all catalog_exec calls db) = cdb.more db"
proof (intro conjI)
  have g: "tx_good db (run_all catalog_exec calls db)" by (rule catalog_tx.run_R)
  then show inv: "catalog_inv (cat (run_all catalog_exec calls db))"
    and r: "reserved_of (cat (run_all catalog_exec calls db)) s p = reserved_of (cat db) s p"
    using assms by (simp_all add: tx_good_def catalog_step_def)
  show "reserved_of (cat db) s p \<le> declared_of (cat (run_all catalog_exec calls db)) s p"
    using no_oversell [OF inv, of s p] r by simp
  have d: "run_all catalog_exec calls db =
      db\<lparr>plat := plat (run_all catalog_exec calls db), cat := cat (run_all catalog_exec calls db)\<rparr>"
    using g by (simp add: tx_good_def)
  show "loc (run_all catalog_exec calls db) = loc db" "cdb.more (run_all catalog_exec calls db) = cdb.more db"
    by (subst d, simp)+
qed

definition shop :: cdb where
  "shop = \<lparr>plat = sample_platform, loc = sample_location, cat = sample_catalog\<rparr>"

definition cut_stock :: "string \<Rightarrow> OfferUpdate" where
  "cut_stock qty = \<lparr>ou_ID = sample_String 8, ou_Price = None, ou_DeclaredQty = Some qty, ou_Status = None\<rparr>"

lemma shop_inv: "catalog_inv (cat shop)"
  using market_core by (simp add: core_inv_def market_def shop_def)

theorem catalog_history_witness:
  "catalog_inv (cat (run_all catalog_exec [(sample_env 50, under seller ''k1'', CallUpdateOffer (cut_stock ''7''))] shop))"
  by (rule catalog_history [OF shop_inv, THEN conjunct1])

section \<open>Offers\<close>

text \<open>
  A seller cannot declare less than what orders have reserved: an update that would is refused
  with a conflict and leaves the offer, its receipts and its events as they were.
\<close>

theorem update_below_reserved_refused:
  assumes "r \<in> set (offers (cat db))" "distinct (map of_ID (offers (cat db)))"
    and "uuid_Parse env (ou_ID input) = Some (of_ID r)" "ou_DeclaredQty input = Some v"
    and "Numeric_Scan env v = Some q" "q < of_ReservedQty r"
    and "receipt_of (plat db) (OperationKey c) = None" "OperationKey c \<noteq> []" "length (OperationKey c) \<le> 512"
    and "\<And>k. fault env k = None"
  shows "Repository_UpdateOffer env c input tm db = (Inl CatalogConflict, db)"
proof -
  obtain p1 where p1: "ReserveFor env (OperationKey c) (of_ID r) tm (plat db) = Inr (False, p1)"
    using assms(7-10)
    by (auto simp: ReserveFor_def claim_def Let_def receipt_of_def receipt_chk_def Suc_le_eq split: sum.splits)
  have found: "GetOfferForUpdate env (of_ID r) (cat db) = Inr r"
    unfolding GetOfferForUpdate_def stmt_None [OF assms(10)]
    by (rule sql_one_unique [OF assms(2,1)])
  have bad: "UpdateOfferValues env price q tm (of_ID r) (cat db) = Inl (PgError ''23514'')" for price
    using assms(1,6,10)
    by (auto simp: UpdateOfferValues_def sql_update_one_def sql_update_def list_all_iff offer_chk_def)
  show ?thesis
    using assms(3-5,10) p1 found bad
    by (simp add: Repository_UpdateOffer_def Let_def catalog_mapError_def)
qed

definition reserved_shop :: cdb where
  "reserved_shop = shop\<lparr>cat := sample_catalog\<lparr>offers := map (\<lambda>r. r\<lparr>of_ReservedQty := 4\<rparr>) (offers sample_catalog)\<rparr>\<rparr>"

theorem update_below_reserved_refused_witness:
  "Repository_UpdateOffer (sample_env 0) (under seller ''k1'') (cut_stock ''3'') 2000 reserved_shop
     = (Inl CatalogConflict, reserved_shop)"
proof -
  let ?r = "hd (offers (cat reserved_shop))"
  have q: "sample_Scan ''3'' = Some 3" by code_simp
  have p: "sample_Parse (sample_String 8) = Some 8" by code_simp
  show ?thesis
    by (rule update_below_reserved_refused [where r = ?r and v = "''3''" and q = 3])
       (simp_all add: reserved_shop_def shop_def sample_catalog_def cut_stock_def under_def q p
          receipt_of_def sample_platform_def)
qed

text \<open>The principal of a request is a seller who owns the store.\<close>

definition owns_store :: "'a env_scheme \<Rightarrow> ctx \<Rightarrow> uuid \<Rightarrow> location \<Rightarrow> bool" where
  "owns_store env c s lc \<longleftrightarrow> (\<exists>p. ctx_principal c = Some p \<and> RoleSeller \<in> set (Roles p) \<and>
     (\<exists>st \<in> set (stores lc). \<exists>w \<in> set (owners lc). st_id st = s \<and> ow_id w = st_owner_id st \<and>
        uuid_Parse env (UserID p) = Some (ow_user_id w)))"

lemma EnsureOwnsStore_owns:
  assumes "EnsureOwnsStore env c i lc = Inr ()" "uuid_Parse env i = Some s"
  shows "owns_store env c s lc"
proof -
  from assms(1) obtain p st w where "ctx_principal c = Some p" "RoleSeller \<in> set (Roles p)"
    "st \<in> set (stores lc)" "w \<in> set (owners lc)" "uuid_Parse env i = Some (st_id st)"
    "ow_id w = st_owner_id st" "uuid_Parse env (UserID p) = Some (ow_user_id w)"
    by (auto simp: EnsureOwnsStore_Inr Require_Inr)
  then show ?thesis using assms(2) unfolding owns_store_def by (metis option.inject)
qed

text \<open>
  Only the owner changes an offer: a request to create or to update one that changes anything
  comes from a seller who owns the store of the offer.
\<close>

theorem owner_changes_offer:
  assumes "lossless_ids env" "snd (Service_UpdateOffer env c input db) \<noteq> db"
  shows "\<exists>r \<in> set (offers (cat db)). uuid_Parse env (ou_ID input) = Some (of_ID r) \<and>
     owns_store env c (of_StoreID r) (loc db)"
proof -
  from assms(2) obtain s where o: "Repository_OfferStore env (ou_ID input) (cat db) = Inr s"
    and e: "EnsureOwnsStore env c s (loc db) = Inr ()"
    by (auto simp: Service_UpdateOffer_def split: if_splits sum.splits)
  from o obtain r where r: "r \<in> set (offers (cat db))" "uuid_Parse env (ou_ID input) = Some (of_ID r)"
    "s = uuid_String env (of_StoreID r)"
    by (auto simp: Repository_OfferStore_def GetOfferStore_def andThen_eq_Inr mapErr_eq_Inr stmt_eq_Inr
        split: option.splits dest: sql_one_Inr)
  have "uuid_Parse env s = Some (of_StoreID r)" using r(3) assms(1) by simp
  then show ?thesis using r EnsureOwnsStore_owns [OF e] by auto
qed

theorem owner_changes_offer_witness:
  "\<exists>r \<in> set (offers (cat shop)). owns_store (sample_env 0) (under seller ''k1'') (of_StoreID r) (loc shop)"
proof -
  let ?run = "Service_UpdateOffer (sample_env 0) (under seller ''k1'') (cut_stock ''7'') shop"
  have "map of_DeclaredQty (offers (cat (snd ?run))) \<noteq> map of_DeclaredQty (offers (cat shop))" by code_simp
  then have "snd ?run \<noteq> shop" by auto
  from owner_changes_offer [OF sample_lossless_ids this] show ?thesis by blast
qed

text \<open>
  A catalogue request is resolved once: after an operator's verdict was committed, a second one
  under a new operation key is refused with a conflict and changes nothing.
\<close>

theorem catalog_request_resolved_once:
  assumes "Repository_ResolveCatalogRequest env c input tm db = (Inr (), db1)"
    and "receipt_of (plat db) (OperationKey c) = None" "distinct (map cr_ID (catalog_requests (cat db)))"
    and "cx_Status input \<noteq> ''pending''" "uuid_Parse env' (cx_ID input') = uuid_Parse env (cx_ID input)"
    and "receipt_of (plat db1) (OperationKey c') = None" "OperationKey c' \<noteq> []" "length (OperationKey c') \<le> 512"
    and "\<And>k. fault env' k = None"
  shows "Repository_ResolveCatalogRequest env' c' input' tm' db1 = (Inl CatalogConflict, db1)"
proof -
  from assms(1) obtain i where i: "uuid_Parse env (cx_ID input) = Some i"
    by (auto simp: Repository_ResolveCatalogRequest_def split: option.splits)
  let ?upd = "\<lambda>r. r\<lparr>cr_Status := cx_Status input, cr_ProductID := uuid_Parse env (cx_ProductID input),
     cr_RejectReason := optional (cx_RejectReason input), cr_ResolvedAt := Some tm\<rparr>"
  let ?P = "\<lambda>r. cr_ID r = i \<and> cr_Status r = ''pending''"
  from assms(1) obtain rp p1 where rp: "ReserveFor env (OperationKey c) i tm (plat db) = Inr (rp, p1)"
    and b: "(if rp then Inr ((), db)
        else
        andThen (mapErr catalog_mapError (GetCatalogRequestForUpdate env i (cat db))) (\<lambda>current.
        if cr_Status current \<noteq> ''pending'' then Inl CatalogConflict
        else
        andThen (mapErr catalog_mapError (store_ResolveCatalogRequest env (cx_Status input)
                  (uuid_Parse env (cx_ProductID input)) (optional (cx_RejectReason input)) tm i
                  (cat db))) (\<lambda>ct.
        andThen (Write env ''catalog'' (cx_ID input)
                  (CatalogRequestResolvedPayload (uuid_String env (cr_StoreID current)) (cx_Status input)
                     (cx_ProductID input) (cx_RejectReason input)) p1) (\<lambda>p2.
        stmt env ''commit'' (Inr ((), db\<lparr>plat := p2, cat := ct\<rparr>)))))) = Inr ((), db1)"
    by (auto simp: Repository_ResolveCatalogRequest_def i commit_Inr stmt_eq_Inr mapErr_eq_Inr elim!: andThen_pairE)
  have "\<not> rp"
    using rp assms(2) claim_Inr(3) by (fastforce simp: ReserveFor_replay)
  with b obtain current ct p2 where g: "GetCatalogRequestForUpdate env i (cat db) = Inr current"
    and s: "store_ResolveCatalogRequest env (cx_Status input) (uuid_Parse env (cx_ProductID input))
       (optional (cx_RejectReason input)) tm i (cat db) = Inr ct"
    and d: "db1 = db\<lparr>plat := p2, cat := ct\<rparr>"
    by (auto simp: mapErr_eq_Inr stmt_eq_Inr split: if_splits elim!: andThenE)
  from s have rows: "catalog_requests ct = map (\<lambda>r. if ?P r then ?upd r else r) (catalog_requests (cat db))"
    by (auto simp: store_ResolveCatalogRequest_def sql_simps go_simps)
  from s obtain r where r: "r \<in> set (catalog_requests (cat db))" "?P r"
    by (auto simp: store_ResolveCatalogRequest_def sql_simps go_simps dest!: filter_first)
  have "distinct (map cr_ID (catalog_requests ct))"
    using assms(3) map_update_key [of cr_ID ?upd ?P "catalog_requests (cat db)"] by (simp add: rows del: map_map)
  moreover have "?upd r \<in> set (catalog_requests ct)" unfolding rows set_map
    by (rule image_eqI [OF _ r(1)]) (use r(2) in simp)
  ultimately have "sql_one (\<lambda>x. cr_ID x = cr_ID (?upd r)) (catalog_requests ct) = Inr (?upd r)"
    by (rule sql_one_unique)
  then have g': "GetCatalogRequestForUpdate env' i (cat db1) = Inr (?upd r)"
    using assms(9) d r(2) by (simp add: GetCatalogRequestForUpdate_def)
  obtain p3 where "ReserveFor env' (OperationKey c') i tm' (plat db1) = Inr (False, p3)"
    using assms(6-9)
    by (auto simp: ReserveFor_def claim_def Let_def receipt_of_def receipt_chk_def Suc_le_eq split: sum.splits)
  then show ?thesis
    using g' assms(4,5,9) i by (simp add: Repository_ResolveCatalogRequest_def)
qed

definition asking_shop :: cdb where
  "asking_shop = shop\<lparr>cat := sample_catalog\<lparr>catalog_requests := [\<lparr>cr_ID = 9, cr_StoreID = 4, cr_Name = ''Nails'',
     cr_Unit = ''kg'', cr_Description = None, cr_ImageUrl = None, cr_Status = ''pending'', cr_ProductID = None,
     cr_RejectReason = None, cr_ResolvedAt = None, cr_CreatedAt = 0\<rparr>]\<rparr>\<rparr>"

definition reject :: CatalogResolution where
  "reject = \<lparr>cx_ID = sample_String 9, cx_Status = ''rejected'', cx_ProductID = [], cx_RejectReason = ''no''\<rparr>"

theorem catalog_request_resolved_once_witness:
  "\<exists>db1 :: cdb. Repository_ResolveCatalogRequest (sample_env 0) (under operator ''k2'') reject 2000 db1
     = (Inl CatalogConflict, db1)"
proof -
  let ?run = "Repository_ResolveCatalogRequest (sample_env 0) (under operator ''k1'') reject 1000 asking_shop"
  have f: "fst ?run = Inr ()" by code_simp
  have k: "receipt_of (plat asking_shop) (OperationKey (under operator ''k1'')) = None" by code_simp
  have l: "receipt_of (plat (snd ?run)) (OperationKey (under operator ''k2'')) = None" by code_simp
  from f have r: "?run = (Inr (), snd ?run)" by (metis prod.collapse)
  have "Repository_ResolveCatalogRequest (sample_env 0) (under operator ''k2'') reject 2000 (snd ?run)
     = (Inl CatalogConflict, snd ?run)"
    by (rule catalog_request_resolved_once [OF r k _ _ _ l])
       (simp_all add: asking_shop_def reject_def under_def)
  then show ?thesis by blast
qed

end
