(* ===== verification/Redis.thy ===== *)
theory Redis
  imports Money Sql
begin

text \<open>
  The keys the packages under \<open>internal/platform/cache\<close> keep in Redis, and the commands the
  code sends. A key holds a text and, when it was given one, the instant its time to live ends;
  from then on the key is absent. A command is executed whole, at the instant \<open>rd_now\<close> of the
  request that sends it.
\<close>

section \<open>The keyspace\<close>

type_synonym keyspace = "string \<rightharpoonup> string \<times> time option"

text \<open>
  What a request reads of its surroundings: \<open>rd_now\<close> is the instant its commands are executed at,
  \<open>rd_fault q\<close> the error the driver reports for command \<open>q\<close>, if it reports one, with whether
  the server executed the command all the same (a reply that was lost) or never saw it.
\<close>

record redis_env = env +
  rd_now :: time
  rd_fault :: "string \<Rightarrow> (bool \<times> go_error) option"

definition live :: "time \<Rightarrow> keyspace \<Rightarrow> string \<Rightarrow> string option" where
  "live t R k = (case R k of
     None \<Rightarrow> None
   | Some (v, None) \<Rightarrow> Some v
   | Some (v, Some e) \<Rightarrow> if t < e then Some v else None)"

text \<open>A counter is kept as its decimal text; any other text is not a number.\<close>

definition counter :: "string \<Rightarrow> int option" where
  "counter s =
     (let n = (case s of c # ds \<Rightarrow> if c = CHR ''-'' then - digits_value 0 ds else digits_value 0 s
                       | [] \<Rightarrow> 0)
      in if int_text n = s \<and> is_int64 n then Some n else None)"

section \<open>Commands\<close>

definition SetNX :: "time \<Rightarrow> string \<Rightarrow> string \<Rightarrow> time \<Rightarrow> keyspace \<Rightarrow> bool result \<times> keyspace" where
  "SetNX t k v ttl R =
     (if live t R k = None then (Inr True, R(k \<mapsto> (v, Some (t + ttl)))) else (Inr False, R))"

definition SetKey :: "time \<Rightarrow> string \<Rightarrow> string \<Rightarrow> time \<Rightarrow> keyspace \<Rightarrow> unit result \<times> keyspace" where
  "SetKey t k v ttl R = (Inr (), R(k \<mapsto> (v, Some (t + ttl))))"

definition GetKey :: "time \<Rightarrow> string \<Rightarrow> keyspace \<Rightarrow> string result \<times> keyspace" where
  "GetKey t k R = ((case live t R k of None \<Rightarrow> Inl KeyNotFound | Some v \<Rightarrow> Inr v), R)"

text \<open>\<open>INCR\<close> starts an absent key at 0, without an expiry, and keeps the expiry of a present one.\<close>

definition Incr :: "time \<Rightarrow> string \<Rightarrow> keyspace \<Rightarrow> int result \<times> keyspace" where
  "Incr t k R = (case live t R k of
     None \<Rightarrow> (Inr 1, R(k \<mapsto> (int_text 1, None)))
   | Some v \<Rightarrow>
      (case counter v of
         None \<Rightarrow> (Inl (OtherError ''ERR value is not an integer or out of range''), R)
       | Some n \<Rightarrow>
         if is_int64 (n + 1)
         then (Inr (n + 1), R(k \<mapsto> (int_text (n + 1), case R k of None \<Rightarrow> None | Some (_, e) \<Rightarrow> e)))
         else (Inl (OtherError ''ERR increment or decrement would overflow''), R)))"

text \<open>\<open>EXPIRE\<close> and \<open>PEXPIRE\<close>: a time to live that is not positive deletes the key.\<close>

definition Expire :: "time \<Rightarrow> string \<Rightarrow> time \<Rightarrow> keyspace \<Rightarrow> unit result \<times> keyspace" where
  "Expire t k ttl R = (Inr (), case live t R k of
     None \<Rightarrow> R
   | Some v \<Rightarrow> if ttl \<le> 0 then R(k := None) else R(k \<mapsto> (v, Some (t + ttl))))"

definition DelKeys :: "string list \<Rightarrow> keyspace \<Rightarrow> unit result \<times> keyspace" where
  "DelKeys ks R = (Inr (), \<lambda>k. if k \<in> set ks then None else R k)"

definition rd_cmd ::
  "'a redis_env_scheme \<Rightarrow> string \<Rightarrow> (keyspace \<Rightarrow> 'b result \<times> keyspace) \<Rightarrow> keyspace \<Rightarrow> 'b result \<times> keyspace"
where
  "rd_cmd env q m R = (case rd_fault env q of
     None \<Rightarrow> m R
   | Some (executed, e) \<Rightarrow> (Inl e, if executed then snd (m R) else R))"

section \<open>Laws\<close>

lemma live_upd [simp]:
  "live t (R(k \<mapsto> (v, e))) k' =
     (if k' = k then (case e of None \<Rightarrow> Some v | Some i \<Rightarrow> if t < i then Some v else None) else live t R k')"
  "live t (R(k := None)) k' = (if k' = k then None else live t R k')"
  by (simp_all add: live_def)

lemma live_del [simp]:
  "live t (snd (DelKeys ks R)) k = (if k \<in> set ks then None else live t R k)"
  by (simp add: DelKeys_def live_def)

lemma live_mono: "live t' R k = Some v \<Longrightarrow> t \<le> t' \<Longrightarrow> live t R k = Some v"
  by (auto simp: live_def split: option.splits if_splits)

lemma rd_cmd_None [simp]: "rd_fault env q = None \<Longrightarrow> rd_cmd env q m R = m R"
  by (simp add: rd_cmd_def)

text \<open>A command leaves the keyspace as it was or as the server leaves it.\<close>

lemma rd_cmd_state: "snd (rd_cmd env q m R) = R \<or> snd (rd_cmd env q m R) = snd (m R)"
  by (simp add: rd_cmd_def split: option.splits prod.splits)

lemma rd_cmd_Inr: "rd_cmd env q m R = (Inr x, R') \<longleftrightarrow> rd_fault env q = None \<and> m R = (Inr x, R')"
  by (auto simp: rd_cmd_def split: option.splits)

text \<open>The digits of a number are read back, so a counter is what \<open>INCR\<close> last returned.\<close>

lemma int_text_digits:
  assumes "0 \<le> n" shows "int_text n = decimal (nat n)" "\<exists>c ds. int_text n = c # ds \<and> c \<noteq> CHR ''-''"
proof -
  show *: "int_text n = decimal (nat n)" using assms by (simp add: int_text_def)
  obtain c ds where c: "decimal (nat n) = c # ds"
    using decimal_ok [of "nat n"] by (cases "decimal (nat n)") auto
  moreover have "is_digit c" using decimal_ok [of "nat n"] c by simp
  then have "c \<noteq> CHR ''-''" by (auto simp: is_digit_def)
  ultimately show "\<exists>c ds. int_text n = c # ds \<and> c \<noteq> CHR ''-''" using * by auto
qed

lemma digits_int_text: "0 \<le> n \<Longrightarrow> digits_value 0 (int_text n) = n"
  using decimal_ok [of "nat n"] by (simp add: int_text_def)

lemma counter_int_text [simp]:
  assumes "0 \<le> n" shows "counter (int_text n) = (if is_int64 n then Some n else None)"
proof -
  obtain c ds where c: "int_text n = c # ds" "c \<noteq> CHR ''-''" using int_text_digits [OF assms] by blast
  then show ?thesis using digits_int_text [OF assms] by (simp add: counter_def)
qed

lemma int_text_inj:
  assumes "0 \<le> m" "0 \<le> n" "int_text m = int_text n" shows "m = n"
  using assms digits_int_text by metis

lemma int_text_small [simp]: "int_text 0 = ''0''" "int_text 1 = ''1''"
  by code_simp+

lemma Incr_absent: "live t R k = None \<Longrightarrow> Incr t k R = (Inr 1, R(k \<mapsto> (int_text 1, None)))"
  by (simp add: Incr_def)

lemma Incr_counter:
  assumes "live t R k = Some (int_text n)" "0 \<le> n" "is_int64 (n + 1)"
  shows "Incr t k R = (Inr (n + 1), R(k \<mapsto> (int_text (n + 1), snd (the (R k)))))"
proof -
  have "is_int64 n" using assms(2,3) by (simp add: is_int64_def)
  moreover obtain p where "R k = Some p" using assms(1) by (auto simp: live_def split: option.splits)
  ultimately show ?thesis using assms by (cases p) (simp add: Incr_def)
qed

end
