(* ===== verification/Otp.thy ===== *)
theory Otp
  imports Redis
begin

text \<open>
  The package \<open>internal/platform/cache/otp\<close>: one-time codes, kept in Redis under three keys per
  phone (the digest of the code, the number of guesses, the cooldown).
\<close>

section \<open>Constants and keys\<close>

definition seconds :: "int \<Rightarrow> time" where "seconds n = n * 1000000000"

definition CodeTTL :: time where "CodeTTL = seconds (5 * 60)"
definition Cooldown :: time where "Cooldown = seconds 60"
definition MaxAttempts :: int where "MaxAttempts = 5"
definition codeDigits :: nat where "codeDigits = 6"

definition codeKey :: "string \<Rightarrow> string" where "codeKey phone = ''otp:code:'' @ phone"
definition attemptsKey :: "string \<Rightarrow> string" where "attemptsKey phone = ''otp:attempts:'' @ phone"
definition cooldownKey :: "string \<Rightarrow> string" where "cooldownKey phone = ''otp:cooldown:'' @ phone"

text \<open>\<open>rand_code\<close> is what \<open>rand.Int(rand.Reader, 10^6)\<close> returned.\<close>

record otp_env = redis_env +
  rand_code :: "nat result"

text \<open>\<open>fmt.Sprintf("%0*d", codeDigits, n)\<close>\<close>

definition zero_padded :: "nat \<Rightarrow> nat \<Rightarrow> string" where
  "zero_padded w n = replicate (w - length (decimal n)) (CHR ''0'') @ decimal n"

definition generateCode :: "'a otp_env_scheme \<Rightarrow> string result" where
  "generateCode env = andThen (rand_code env) (\<lambda>n. Inr (zero_padded codeDigits n))"

definition hash :: "'a lib_scheme \<Rightarrow> string \<Rightarrow> string \<Rightarrow> string" where
  "hash L phone code = sha256_hex L (phone @ '':'' @ code)"

section \<open>Operations\<close>

text \<open>\<open>fmt.Errorf("%w: %v", ErrUnavailable, err)\<close> around a command.\<close>

definition unavailable ::
  "(keyspace \<Rightarrow> 'b result \<times> keyspace) \<Rightarrow> keyspace \<Rightarrow> 'b result \<times> keyspace" where
  "unavailable m R = (case m R of (r, R') \<Rightarrow> (mapErr (\<lambda>_. OtpUnavailable) r, R'))"

definition Issue :: "'a otp_env_scheme \<Rightarrow> string \<Rightarrow> keyspace \<Rightarrow> string result \<times> keyspace" where
  "Issue env phone =
     bindE (unavailable (rd_cmd env ''otp.SetNX'' (SetNX (rd_now env) (cooldownKey phone) ''1'' Cooldown)))
       (\<lambda>ok. if \<not> ok then (\<lambda>R. (Inl OtpCooldown, R))
        else bindE (\<lambda>R. (generateCode env, R)) (\<lambda>code.
          let digest = hash env phone code
          in bindE
               (unavailable (rd_cmd env ''otp.Exec''
                 (bindE (SetKey (rd_now env) (codeKey phone) digest CodeTTL)
                   (\<lambda>_. SetKey (rd_now env) (attemptsKey phone) ''0'' CodeTTL))))
               (\<lambda>_ R. (Inr code, R))))"

text \<open>The result of the deletion is not looked at.\<close>

definition discard :: "'a redis_env_scheme \<Rightarrow> string \<Rightarrow> keyspace \<Rightarrow> keyspace" where
  "discard env phone R = snd (rd_cmd env ''otp.Del'' (DelKeys [codeKey phone, attemptsKey phone]) R)"

text \<open>
  \<open>Verify\<close> is three commands: it reads the digest, counts the guess, and deletes the code. They
  are separate because those of two overlapping calls can interleave.
\<close>

definition Verify_Get :: "'a redis_env_scheme \<Rightarrow> string \<Rightarrow> keyspace \<Rightarrow> string result \<times> keyspace" where
  "Verify_Get env phone R = (case rd_cmd env ''otp.Get'' (GetKey (rd_now env) (codeKey phone)) R of
     (Inl e, R') \<Rightarrow> (Inl (if e = KeyNotFound then OtpNotFound else OtpUnavailable), R')
   | (Inr stored, R') \<Rightarrow> (Inr stored, R'))"

definition Verify_Incr :: "'a redis_env_scheme \<Rightarrow> string \<Rightarrow> keyspace \<Rightarrow> int result \<times> keyspace" where
  "Verify_Incr env phone =
     unavailable (rd_cmd env ''otp.Incr'' (Incr (rd_now env) (attemptsKey phone)))"

definition Verify_Finish ::
  "'a redis_env_scheme \<Rightarrow> string \<Rightarrow> string \<Rightarrow> string \<Rightarrow> int \<Rightarrow> keyspace \<Rightarrow> unit result \<times> keyspace" where
  "Verify_Finish env phone code stored attempts R =
     (if attempts > MaxAttempts then (Inl OtpTooManyAttempts, discard env phone R)
      else if stored \<noteq> hash env phone code then (Inl OtpMismatch, R)
      else (Inr (), discard env phone R))"

definition Verify :: "'a redis_env_scheme \<Rightarrow> string \<Rightarrow> string \<Rightarrow> keyspace \<Rightarrow> unit result \<times> keyspace" where
  "Verify env phone code =
     bindE (Verify_Get env phone) (\<lambda>stored.
     bindE (Verify_Incr env phone) (\<lambda>attempts.
     Verify_Finish env phone code stored attempts))"

definition Cancel :: "'a redis_env_scheme \<Rightarrow> string \<Rightarrow> keyspace \<Rightarrow> unit result \<times> keyspace" where
  "Cancel env phone =
     unavailable (rd_cmd env ''otp.Del''
       (DelKeys [cooldownKey phone, codeKey phone, attemptsKey phone]))"

text \<open>
  \<open>TTL\<close> answers -1 for a key without expiry and -2 for no key, both as negative durations, and
  whole seconds otherwise, rounded to the nearest.
\<close>

definition TTL :: "time \<Rightarrow> string \<Rightarrow> keyspace \<Rightarrow> time result \<times> keyspace" where
  "TTL t k R = (Inr (case R k of
     None \<Rightarrow> - 2
   | Some (_, None) \<Rightarrow> - 1
   | Some (_, Some e) \<Rightarrow> if t < e then seconds ((e - t + 500000000) div 1000000000) else - 2), R)"

definition RemainingCooldown :: "'a redis_env_scheme \<Rightarrow> string \<Rightarrow> keyspace \<Rightarrow> time result \<times> keyspace" where
  "RemainingCooldown env phone =
     bindE (unavailable (rd_cmd env ''otp.TTL'' (TTL (rd_now env) (cooldownKey phone))))
       (\<lambda>ttl R. (Inr (if ttl < 0 then 0 else ttl), R))"

text \<open>\<open>Duration.Round\<close> rounds half away from zero.\<close>

definition RetryAfterSeconds :: "time \<Rightarrow> string" where
  "RetryAfterSeconds d =
     (let s = (if d < 0 then - ((- d + 500000000) div 1000000000) else (d + 500000000) div 1000000000)
      in int_text (if s < 1 then 1 else s))"

section \<open>Calls one after another\<close>

datatype otp_call = CallIssue string | CallVerify string string | CallCancel string

definition otp_exec ::
  "'a otp_env_scheme \<times> otp_call \<Rightarrow> keyspace \<Rightarrow> unit result \<times> keyspace" where
  "otp_exec c R = (case c of
     (env, CallIssue phone) \<Rightarrow> (case Issue env phone R of (r, R') \<Rightarrow> (andThen r (\<lambda>_. Inr ()), R'))
   | (env, CallVerify phone code) \<Rightarrow> Verify env phone code R
   | (env, CallCancel phone) \<Rightarrow> Cancel env phone R)"

text \<open>A guess counts when the code answered whether it is right.\<close>

fun guessed :: "string \<Rightarrow> otp_call \<Rightarrow> unit result \<Rightarrow> bool" where
  "guessed phone (CallVerify p code) r \<longleftrightarrow> p = phone \<and> (r = Inl OtpMismatch \<or> r = Inr ())"
| "guessed phone c r \<longleftrightarrow> False"

fun accepted :: "string \<Rightarrow> otp_call \<Rightarrow> unit result \<Rightarrow> bool" where
  "accepted phone (CallVerify p code) r \<longleftrightarrow> p = phone \<and> r = Inr ()"
| "accepted phone c r \<longleftrightarrow> False"

fun count_calls ::
  "(otp_call \<Rightarrow> unit result \<Rightarrow> bool) \<Rightarrow> ('a otp_env_scheme \<times> otp_call) list \<Rightarrow> keyspace \<Rightarrow> int" where
  "count_calls P [] R = 0"
| "count_calls P (c # cs) R =
     (case otp_exec c R of (r, R') \<Rightarrow> (if P (snd c) r then 1 else 0) + count_calls P cs R')"

text \<open>The instants of the calls do not go back.\<close>

fun in_time :: "time \<Rightarrow> ('a redis_env_scheme \<times> 'c) list \<Rightarrow> bool" where
  "in_time t [] \<longleftrightarrow> True"
| "in_time t (c # cs) \<longleftrightarrow> t \<le> rd_now (fst c) \<and> in_time (rd_now (fst c)) cs"

section \<open>What a call touches\<close>

lemma otp_keys [simp]:
  "codeKey p = codeKey q \<longleftrightarrow> p = q" "attemptsKey p = attemptsKey q \<longleftrightarrow> p = q"
  "cooldownKey p = cooldownKey q \<longleftrightarrow> p = q"
  "codeKey p \<noteq> attemptsKey q" "attemptsKey p \<noteq> codeKey q" "codeKey p \<noteq> cooldownKey q"
  "cooldownKey p \<noteq> codeKey q" "attemptsKey p \<noteq> cooldownKey q" "cooldownKey p \<noteq> attemptsKey q"
  by (simp_all add: codeKey_def attemptsKey_def cooldownKey_def)

fun call_phone :: "otp_call \<Rightarrow> string" where
  "call_phone (CallIssue p) = p" | "call_phone (CallVerify p code) = p" | "call_phone (CallCancel p) = p"

definition same_code :: "string \<Rightarrow> keyspace \<Rightarrow> keyspace \<Rightarrow> bool" where
  "same_code p R R' \<longleftrightarrow> R' (codeKey p) = R (codeKey p) \<and> R' (attemptsKey p) = R (attemptsKey p)"

lemma same_code_refl [simp]: "same_code p R R"
  by (simp add: same_code_def)

lemma same_code_trans: "same_code p R R' \<Longrightarrow> same_code p R' R'' \<Longrightarrow> same_code p R R''"
  by (simp add: same_code_def)

lemma same_code_bind:
  assumes "\<And>R. same_code p R (snd (m R))" "\<And>x R. same_code p R (snd (f x R))"
  shows "same_code p R (snd (bindE m f R))"
  by (cases rule: bindE_cases [of m R f]) (use assms in \<open>metis same_code_trans snd_conv\<close>)+

lemma same_code_cmd:
  "(\<And>R. same_code p R (snd (m R))) \<Longrightarrow> same_code p R (snd (rd_cmd env q m R))"
  by (metis rd_cmd_state same_code_refl)

lemma unavailable_simps [simp]:
  "snd (unavailable m R) = snd (m R)" "fst (unavailable m R) = mapErr (\<lambda>_. OtpUnavailable) (fst (m R))"
  by (simp_all add: unavailable_def split: prod.splits)

lemma command_frame:
  "p \<noteq> q \<Longrightarrow> same_code p R (snd (SetNX t (cooldownKey q) v ttl R))"
  "p \<noteq> q \<Longrightarrow> same_code p R (snd (SetKey t (codeKey q) v ttl R))"
  "p \<noteq> q \<Longrightarrow> same_code p R (snd (SetKey t (attemptsKey q) v ttl R))"
  "p \<noteq> q \<Longrightarrow> same_code p R (snd (Incr t (attemptsKey q) R))"
  "p \<noteq> q \<Longrightarrow> same_code p R (snd (DelKeys [codeKey q, attemptsKey q] R))"
  "p \<noteq> q \<Longrightarrow> same_code p R (snd (DelKeys [cooldownKey q, codeKey q, attemptsKey q] R))"
  "same_code p R (snd (GetKey t k R))"
  by (simp_all add: same_code_def SetNX_def SetKey_def Incr_def DelKeys_def GetKey_def split: option.splits)

lemma Verify_Get_state: "snd (Verify_Get env phone R) = R"
  using rd_cmd_state [of env "''otp.Get''" "GetKey (rd_now env) (codeKey phone)" R]
  by (auto simp: Verify_Get_def GetKey_def split: prod.splits sum.splits)

lemma otp_exec_frame:
  assumes "call_phone c \<noteq> p" shows "same_code p R (snd (otp_exec (env, c) R))"
proof (cases c)
  case (CallIssue q)
  with assms have "p \<noteq> q" by auto
  then have "same_code p R (snd (Issue env q R))"
    unfolding Issue_def
    by (auto intro!: same_code_bind same_code_cmd command_frame simp: Let_def)
  then show ?thesis by (cases "Issue env q R") (simp add: otp_exec_def CallIssue)
next
  case (CallVerify q code)
  with assms have pq: "p \<noteq> q" by auto
  then have "same_code p R (snd (Verify env q code R))"
    unfolding Verify_def
    by (auto intro!: same_code_bind same_code_cmd command_frame
        simp: Verify_Get_state Verify_Incr_def Verify_Finish_def discard_def)
  then show ?thesis by (simp add: otp_exec_def CallVerify)
next
  case (CallCancel q)
  with assms have "p \<noteq> q" by auto
  then show ?thesis by (simp add: otp_exec_def CallCancel Cancel_def same_code_cmd command_frame)
qed

section \<open>The guesses left\<close>

text \<open>
  \<open>budget t p n\<close>: as long as the code of \<open>p\<close> can be read, its counter can be read too and
  leaves at most \<open>n\<close> guesses. \<open>gone t p\<close>: no code of \<open>p\<close> can be read any more.
\<close>

definition budget :: "time \<Rightarrow> string \<Rightarrow> int \<Rightarrow> keyspace \<Rightarrow> bool" where
  "budget t p n R \<longleftrightarrow> (\<forall>t'. t \<le> t' \<longrightarrow> live t' R (codeKey p) \<noteq> None \<longrightarrow>
     (\<exists>k. live t' R (attemptsKey p) = Some (int_text k) \<and> 0 \<le> k \<and> MaxAttempts - n \<le> k))"

definition gone :: "time \<Rightarrow> string \<Rightarrow> keyspace \<Rightarrow> bool" where
  "gone t p R \<longleftrightarrow> (\<forall>t'. t \<le> t' \<longrightarrow> live t' R (codeKey p) = None)"

lemma budget_later: "budget t p n R \<Longrightarrow> t \<le> t' \<Longrightarrow> budget t' p n R"
  by (auto simp: budget_def)

lemma gone_later: "gone t p R \<Longrightarrow> t \<le> t' \<Longrightarrow> gone t' p R"
  by (auto simp: gone_def)

lemma budget_same: "same_code p R R' \<Longrightarrow> budget t p n R' = budget t p n R"
  by (simp add: budget_def same_code_def live_def)

lemma gone_same: "same_code p R R' \<Longrightarrow> gone t p R' = gone t p R"
  by (simp add: gone_def same_code_def live_def)

lemma gone_budget: "gone t p R \<Longrightarrow> budget t p n R"
  by (simp add: budget_def gone_def)

lemma gone_Del: "codeKey p \<in> set ks \<Longrightarrow> gone t p (snd (DelKeys ks R))"
  by (simp add: gone_def)

lemma budget_discard: "budget t p n R \<Longrightarrow> budget t p n (discard env p R)"
  using rd_cmd_state [of env "''otp.Del''" "DelKeys [codeKey p, attemptsKey p]" R]
    gone_budget [OF gone_Del]
  by (auto simp: discard_def)

lemma gone_discard: "gone t p R \<Longrightarrow> gone t p (discard env p R)"
  using rd_cmd_state [of env "''otp.Del''" "DelKeys [codeKey p, attemptsKey p]" R] gone_Del
  by (auto simp: discard_def)

lemma budget_mono: "budget t p n R \<Longrightarrow> n \<le> n' \<Longrightarrow> budget t p n' R"
  unfolding budget_def by force

lemma Incr_budget:
  assumes "budget t p n R" "live t R (codeKey p) \<noteq> None" "Incr t (attemptsKey p) R = (r, R')"
  shows "budget t p n R' \<and> (\<forall>a. r = Inr a \<longrightarrow> MaxAttempts - n < a \<and> budget t p (MaxAttempts - a) R')"
proof -
  obtain k where k: "live t R (attemptsKey p) = Some (int_text k)" "0 \<le> k" "MaxAttempts - n \<le> k"
    using assms(1,2) unfolding budget_def by blast
  show ?thesis
  proof (cases "is_int64 (k + 1)")
    case True
    then have "is_int64 k" using k(2) by (simp add: is_int64_def)
    with True have i: "Incr t (attemptsKey p) R =
        (Inr (k + 1), R(attemptsKey p \<mapsto> (int_text (k + 1), snd (the (R (attemptsKey p))))))"
      using k by (auto simp: Incr_def live_def split: option.splits)
    have "live t' R' (attemptsKey p) = Some (int_text (k + 1))"
      if "t \<le> t'" "live t' R' (codeKey p) \<noteq> None" for t'
    proof -
      have "live t' R (codeKey p) \<noteq> None" using i assms(3) that(2) by auto
      then have "live t' R (attemptsKey p) \<noteq> None" using assms(1) that(1) unfolding budget_def by blast
      then show ?thesis using i assms(3) by (auto simp: live_def split: option.splits if_splits)
    qed
    then show ?thesis using i assms(3) k by (force simp: budget_def)
  next
    case False
    then have "R' = R \<and> (\<forall>a. r \<noteq> Inr a)"
      using assms(3) k by (auto simp: Incr_def split: if_splits)
    then show ?thesis using assms(1) by simp
  qed
qed

lemma Verify_Get_live:
  "Verify_Get env p R = (Inr stored, R') \<Longrightarrow> R' = R \<and> live (rd_now env) R (codeKey p) = Some stored"
  using Verify_Get_state [of env p R]
  by (auto simp: Verify_Get_def rd_cmd_def GetKey_def split: option.splits sum.splits prod.splits if_splits)

lemma Verify_Incr_budget:
  assumes "budget (rd_now env) p n R" "live (rd_now env) R (codeKey p) \<noteq> None"
    and "Verify_Incr env p R = (r, R')"
  shows "budget (rd_now env) p n R'
    \<and> (\<forall>a. r = Inr a \<longrightarrow> MaxAttempts - n < a \<and> budget (rd_now env) p (MaxAttempts - a) R')"
proof -
  obtain r0 R0 where i: "Incr (rd_now env) (attemptsKey p) R = (r0, R0)" by fastforce
  note * = Incr_budget [OF assms(1,2) i]
  show ?thesis
    using assms(1,3) i * by (auto simp: Verify_Incr_def unavailable_def rd_cmd_def mapErr_eq_Inr split: option.splits)
qed

lemma Verify_budget:
  assumes "budget (rd_now env) p n R" "Verify env p code R = (r, R')"
  shows "budget (rd_now env) p (n - (if r = Inl OtpMismatch \<or> r = Inr () then 1 else 0)) R'
    \<and> (r = Inl OtpMismatch \<or> r = Inr () \<longrightarrow> 1 \<le> n)"
proof (cases rule: outcome_cases [of "Verify_Get env p R"])
  case (failed e R1)
  then have "r = Inl e" "R' = R" "e \<in> {OtpNotFound, OtpUnavailable}"
    using assms(2) Verify_Get_state [of env p R]
    by (auto simp: Verify_def Verify_Get_def split: sum.splits prod.splits if_splits)
  then show ?thesis using assms(1) by auto
next
  case (went_on stored R1)
  note g = Verify_Get_live [OF went_on(1)]
  show ?thesis
  proof (cases rule: outcome_cases [of "Verify_Incr env p R"])
    case (failed e R2)
    then have "r = Inl e" "R' = R2" "e = OtpUnavailable"
      using assms(2) went_on g
      by (auto simp: Verify_def Verify_Incr_def unavailable_def mapErr_eq_Inl split: prod.splits)
    then show ?thesis using Verify_Incr_budget [OF assms(1) _ failed(1)] g by auto
  next
    case (went_on a R2)
    note b = Verify_Incr_budget [OF assms(1) _ went_on(1)]
    have f: "Verify_Finish env p code stored a R2 = (r, R')"
      using assms(2) g went_on \<open>Verify_Get env p R = (Inr stored, R1)\<close> by (simp add: Verify_def)
    show ?thesis
    proof (cases "a > MaxAttempts")
      case True
      then show ?thesis using f b g by (auto simp: Verify_Finish_def intro: budget_discard)
    next
      case False
      have "budget (rd_now env) p (n - 1) R2" "1 \<le> n"
        using b g False budget_mono [of _ p "MaxAttempts - a" R2 "n - 1"] by auto
      then show ?thesis using f False
        by (auto simp: Verify_Finish_def intro: budget_discard split: if_splits)
    qed
  qed
qed

lemma Verify_gone:
  assumes "gone (rd_now env) p R"
  shows "snd (Verify env p code R) = R \<and> fst (Verify env p code R) \<noteq> Inr ()"
proof (cases rule: outcome_cases [of "Verify_Get env p R"])
  case (failed e R1)
  then show ?thesis using Verify_Get_state [of env p R] by (simp add: Verify_def)
next
  case (went_on stored R1)
  then show ?thesis using Verify_Get_live [OF went_on] assms by (simp add: gone_def)
qed

text \<open>An accepted code is deleted, unless its deletion failed.\<close>

lemma Verify_accepts:
  assumes "Verify env p code R = (Inr (), R')" "rd_fault env ''otp.Del'' = None"
  shows "gone (rd_now env) p R'"
proof -
  obtain R2 where "R' = discard env p R2"
    using assms(1) by (auto simp: Verify_def bindE_Inr Verify_Finish_def split: if_splits)
  then show ?thesis using assms(2) gone_Del by (simp add: discard_def)
qed

lemma Cancel_state:
  "snd (Cancel env p R) = R
   \<or> snd (Cancel env p R) = snd (DelKeys [cooldownKey p, codeKey p, attemptsKey p] R)"
  using rd_cmd_state by (simp add: Cancel_def)

lemma otp_exec_budget:
  assumes "budget t p n R" "t \<le> rd_now env" "c \<noteq> CallIssue p" "otp_exec (env, c) R = (r, R')"
  shows "budget (rd_now env) p (n - (if guessed p c r then 1 else 0)) R' \<and> (guessed p c r \<longrightarrow> 1 \<le> n)"
proof -
  note b = budget_later [OF assms(1,2)]
  show ?thesis
  proof (cases "call_phone c = p")
    case False
    then have "same_code p R R'" using otp_exec_frame [of c p R env] assms(4) by simp
    moreover have "\<not> guessed p c r" using False by (cases c) auto
    ultimately show ?thesis using b by (simp add: budget_same)
  next
    case True
    show ?thesis
    proof (cases c)
      case (CallVerify q code)
      then show ?thesis using Verify_budget [OF b, of code r R'] True assms(4) by (auto simp: otp_exec_def)
    next
      case (CallCancel q)
      then have "R' = snd (Cancel env p R)" using True assms(4) by (simp add: otp_exec_def)
      then show ?thesis using Cancel_state [of env p R] CallCancel b gone_budget [OF gone_Del] by auto
    qed (use True assms(3) in simp)
  qed
qed

lemma otp_exec_gone:
  assumes "gone t p R" "t \<le> rd_now env" "c \<noteq> CallIssue p" "otp_exec (env, c) R = (r, R')"
  shows "gone (rd_now env) p R' \<and> \<not> accepted p c r"
proof -
  note b = gone_later [OF assms(1,2)]
  show ?thesis
  proof (cases "call_phone c = p")
    case False
    then have "same_code p R R'" using otp_exec_frame [of c p R env] assms(4) by simp
    moreover have "\<not> accepted p c r" using False by (cases c) auto
    ultimately show ?thesis using b by (simp add: gone_same)
  next
    case True
    show ?thesis
    proof (cases c)
      case (CallVerify q code)
      then show ?thesis using Verify_gone [OF b, of code] b True assms(4) by (auto simp: otp_exec_def)
    next
      case (CallCancel q)
      then have "R' = snd (Cancel env p R)" using True assms(4) by (simp add: otp_exec_def)
      then show ?thesis using Cancel_state [of env p R] CallCancel b gone_Del by auto
    qed (use True assms(3) in simp)
  qed
qed

lemma guesses_within_budget:
  assumes "budget t p n R" "0 \<le> n" "in_time t cs" "list_all (\<lambda>c. snd c \<noteq> CallIssue p) cs"
  shows "count_calls (guessed p) cs R \<le> n"
  using assms
proof (induction cs arbitrary: t n R)
  case (Cons c cs)
  obtain env k where c: "c = (env, k)" by fastforce
  obtain r R' where x: "otp_exec c R = (r, R')" by fastforce
  note step = otp_exec_budget [OF Cons.prems(1), of env k r R']
  have "count_calls (guessed p) cs R' \<le> n - (if guessed p k r then 1 else 0)"
    by (rule Cons.IH [of "rd_now env"]) (use step Cons.prems c x in auto)
  then show ?case using x c by (auto split: if_splits)
qed simp

lemma none_accepted:
  assumes "gone t p R" "in_time t cs" "list_all (\<lambda>c. snd c \<noteq> CallIssue p) cs"
  shows "count_calls (accepted p) cs R = 0"
  using assms
proof (induction cs arbitrary: t R)
  case (Cons c cs)
  obtain env k where c: "c = (env, k)" by fastforce
  obtain r R' where x: "otp_exec c R = (r, R')" by fastforce
  note step = otp_exec_gone [OF Cons.prems(1), of env k r R']
  have "count_calls (accepted p) cs R' = 0"
    by (rule Cons.IH [of "rd_now env"]) (use step Cons.prems c x in auto)
  then show ?case using x c step Cons.prems by auto
qed simp

lemma accepted_once:
  assumes "in_time t cs" "list_all (\<lambda>c. snd c \<noteq> CallIssue p) cs"
    and "list_all (\<lambda>c. rd_fault (fst c) ''otp.Del'' = None) cs"
  shows "count_calls (accepted p) cs R \<le> 1"
  using assms
proof (induction cs arbitrary: t R)
  case (Cons c cs)
  obtain env k where c: "c = (env, k)" by fastforce
  obtain r R' where x: "otp_exec c R = (r, R')" by fastforce
  show ?case
  proof (cases "accepted p k r")
    case True
    then obtain code where "k = CallVerify p code" "r = Inr ()" by (cases k) auto
    then have "gone (rd_now env) p R'"
      using Verify_accepts [of env p code R R'] x c Cons.prems(3) by (simp add: otp_exec_def)
    then have "count_calls (accepted p) cs R' = 0"
      by (rule none_accepted) (use Cons.prems c in auto)
    then show ?thesis using True x c by simp
  next
    case False
    then show ?thesis using Cons.IH [of "rd_now env" R'] Cons.prems x c by simp
  qed
qed simp

text \<open>What \<open>Issue\<close> leaves: the digest of the code it returned, and a fresh counter.\<close>

lemma Issue_Inr:
  assumes "Issue env p R = (Inr code, R')"
  shows "generateCode env = Inr code \<and> live (rd_now env) R (cooldownKey p) = None
    \<and> R' = R(cooldownKey p \<mapsto> (''1'', Some (rd_now env + Cooldown)),
             codeKey p \<mapsto> (hash env p code, Some (rd_now env + CodeTTL)),
             attemptsKey p \<mapsto> (''0'', Some (rd_now env + CodeTTL)))"
  using assms
  by (auto simp: Issue_def bindE_Inr unavailable_def rd_cmd_Inr mapErr_eq_Inr SetNX_def SetKey_def Let_def
      split: prod.splits if_splits)

lemma Issue_budget: "Issue env p R = (Inr code, R') \<Longrightarrow> budget (rd_now env) p MaxAttempts R'"
  by (drule Issue_Inr) (auto simp: budget_def intro!: exI [of _ 0])

section \<open>Overlapping calls\<close>

text \<open>
  A call of \<open>Verify\<close> between two of its commands: it has sent nothing, it has read the digest,
  it has returned.
\<close>

datatype verifier = Started | Holding string | Returned "unit result"

definition verify_step ::
  "'a redis_env_scheme \<Rightarrow> string \<Rightarrow> string \<Rightarrow> verifier \<Rightarrow> keyspace \<Rightarrow> verifier \<times> keyspace" where
  "verify_step env phone code v R = (case v of
     Started \<Rightarrow> (case Verify_Get env phone R of
       (Inl e, R') \<Rightarrow> (Returned (Inl e), R') | (Inr stored, R') \<Rightarrow> (Holding stored, R'))
   | Holding stored \<Rightarrow>
       (case bindE (Verify_Incr env phone) (Verify_Finish env phone code stored) R of
         (r, R') \<Rightarrow> (Returned r, R'))
   | Returned r \<Rightarrow> (v, R))"

text \<open>
  Calls on one phone, the number \<open>i\<close> guessing \<open>codes ! i\<close>; a schedule says whose turn it is.
\<close>

fun overlap ::
  "'a redis_env_scheme \<Rightarrow> string \<Rightarrow> string list \<Rightarrow> nat list \<Rightarrow> verifier list \<times> keyspace \<Rightarrow> verifier list \<times> keyspace" where
  "overlap env phone codes [] s = s"
| "overlap env phone codes (i # sched) (vs, R) =
     (if i < length vs \<and> i < length codes
      then case verify_step env phone (codes ! i) (vs ! i) R of
             (v, R') \<Rightarrow> overlap env phone codes sched (vs[i := v], R')
      else overlap env phone codes sched (vs, R))"

text \<open>A call nothing comes between is \<open>Verify\<close>.\<close>

lemma verify_alone:
  "overlap env phone [code] [0, 0] ([Started], R) =
     (case Verify env phone code R of (r, R') \<Rightarrow> ([Returned r], R'))"
  by (cases rule: outcome_cases [of "Verify_Get env phone R"]) (auto simp: verify_step_def Verify_def split: prod.splits)

lemma overlap_append:
  "overlap env p codes (xs @ ys) s = overlap env p codes ys (overlap env p codes xs s)"
proof (induction xs arbitrary: s)
  case (Cons x xs)
  then show ?case by (cases s) (simp split: prod.split)
qed simp

lemma read_step:
  assumes "live (rd_now env) R (codeKey p) = Some s" "\<And>q. rd_fault env q = None"
  shows "verify_step env p code Started R = (Holding s, R)"
  using assms by (simp add: verify_step_def Verify_Get_def GetKey_def)

text \<open>What a counted guess is told, by the counter it meets.\<close>

lemma counted_step:
  assumes "live (rd_now env) R (attemptsKey p) = Some (int_text k)" "0 \<le> k" "is_int64 (k + 1)"
    and "\<And>q. rd_fault env q = None"
  shows "\<exists>R'. live (rd_now env) R' (attemptsKey p) = Some (int_text (k + 1))
    \<and> verify_step env p code (Holding s) R =
       (case Verify_Finish env p code s (k + 1) R' of (r, R'') \<Rightarrow> (Returned r, R''))"
proof -
  note i = Incr_counter [OF assms(1-3)]
  have "Verify_Incr env p R = (Inr (k + 1), R(attemptsKey p \<mapsto> (int_text (k + 1), snd (the (R (attemptsKey p))))))"
    using assms(4) i by (simp add: Verify_Incr_def unavailable_def)
  moreover have "live (rd_now env) (R(attemptsKey p \<mapsto> (int_text (k + 1), snd (the (R (attemptsKey p))))))
      (attemptsKey p) = Some (int_text (k + 1))"
    using assms(1) by (auto simp: live_def split: option.splits if_splits)
  ultimately show ?thesis by (auto simp: verify_step_def intro!: exI)
qed

lemma wrong_step:
  assumes "live (rd_now env) R (attemptsKey p) = Some (int_text k)" "0 \<le> k" "k < MaxAttempts"
    and "\<And>q. rd_fault env q = None" "s \<noteq> hash env p code"
  shows "\<exists>R'. verify_step env p code (Holding s) R = (Returned (Inl OtpMismatch), R')
    \<and> live (rd_now env) R' (attemptsKey p) = Some (int_text (k + 1))"
  using counted_step [OF assms(1,2) _ assms(4), of code s] assms(3,2,5)
  by (auto simp: Verify_Finish_def MaxAttempts_def is_int64_def)

lemma over_step:
  assumes "live (rd_now env) R (attemptsKey p) = Some (int_text k)" "MaxAttempts \<le> k" "is_int64 (k + 1)"
    and "\<And>q. rd_fault env q = None"
  shows "\<exists>R'. verify_step env p code (Holding s) R = (Returned (Inl OtpTooManyAttempts), R')
    \<and> live (rd_now env) R' (attemptsKey p) = None"
  using counted_step [OF assms(1) _ assms(3,4), of code s] assms(2,4)
  by (auto simp: Verify_Finish_def MaxAttempts_def discard_def)

lemma fresh_step:
  assumes "live (rd_now env) R (attemptsKey p) = None" "\<And>q. rd_fault env q = None" "s = hash env p code"
  shows "\<exists>R'. verify_step env p code (Holding s) R = (Returned (Inr ()), R')"
  using assms
  by (simp add: verify_step_def Verify_Incr_def unavailable_def Incr_absent bindE_def Verify_Finish_def
      MaxAttempts_def)

end
