(* ===== verification/RateLimit.thy ===== *)
theory RateLimit
  imports Redis Authz
begin

text \<open>
  The package \<open>internal/platform/cache/ratelimit\<close> and the middleware that uses it
  (\<open>internal/platform/httpx/middleware_ratelimit.go\<close>): a counter in Redis per caller and window.
\<close>

section \<open>The limiter\<close>

text \<open>
  The script \<open>countInWindow\<close> runs whole on the server; its second argument is a number of
  milliseconds.
\<close>

definition countInWindow :: "time \<Rightarrow> string \<Rightarrow> int \<Rightarrow> keyspace \<Rightarrow> int result \<times> keyspace" where
  "countInWindow t k ms =
     bindE (Incr t k) (\<lambda>count R.
       if count = 1 then (Inr count, snd (Expire t k (ms * 1000000) R)) else (Inr count, R))"

definition ratelimit_key :: "string \<Rightarrow> int \<Rightarrow> string" where
  "ratelimit_key key bucket = ''ratelimit:'' @ key @ '':'' @ int_text bucket"

text \<open>Go's division truncates towards zero; a division by zero panics.\<close>

definition Allow ::
  "'a redis_env_scheme \<Rightarrow> string \<Rightarrow> int \<Rightarrow> time \<Rightarrow> keyspace \<Rightarrow> bool result \<times> keyspace" where
  "Allow env key limit window R =
     (if window = 0 then (Inl (OtherError ''runtime error: integer divide by zero''), R)
      else let bucket = clock_Now env sdiv window in
        bindE (rd_cmd env ''ratelimit.Run''
                (countInWindow (rd_now env) (ratelimit_key key bucket) (window sdiv 1000000)))
          (\<lambda>count R'. (Inr (count \<le> limit), R')) R)"

section \<open>The middleware\<close>

record RateLimitConfig =
  Window :: time
  AuthenticatedBurst :: int
  AnonymousBurst :: int

definition RateLimit_defaults :: "RateLimitConfig \<Rightarrow> RateLimitConfig" where
  "RateLimit_defaults cfg = cfg\<lparr>
     Window := if Window cfg \<le> 0 then 60 * 1000000000 else Window cfg,
     AuthenticatedBurst := if AuthenticatedBurst cfg \<le> 0 then 300 else AuthenticatedBurst cfg,
     AnonymousBurst := if AnonymousBurst cfg \<le> 0 then 60 else AnonymousBurst cfg\<rparr>"

text \<open>The address of the caller is \<open>TrustedProxies.ClientIP\<close>.\<close>

definition rateLimitKey :: "ctx \<Rightarrow> string \<Rightarrow> RateLimitConfig \<Rightarrow> string \<times> int" where
  "rateLimitKey c clientIP cfg =
     (let subject = Subject c in
      if subject \<noteq> [] then (''user:'' @ subject, AuthenticatedBurst cfg)
      else (''ip:'' @ clientIP, AnonymousBurst cfg))"

definition isSafeMethod :: "string \<Rightarrow> bool" where
  "isSafeMethod m \<longleftrightarrow> m \<in> {''GET'', ''HEAD'', ''OPTIONS''}"

text \<open>
  What the middleware does with a request: pass it to the next handler, or answer with a
  status and, for 429, the \<open>Retry-After\<close> header.
\<close>

datatype limit_verdict = Serve | Answer nat "string option"

definition RateLimit ::
  "'a redis_env_scheme \<Rightarrow> RateLimitConfig \<Rightarrow> ctx \<Rightarrow> string \<Rightarrow> string \<Rightarrow> keyspace \<Rightarrow> limit_verdict \<times> keyspace" where
  "RateLimit env cfg0 c clientIP verb R =
     (let cfg = RateLimit_defaults cfg0;
          (key, limit) = rateLimitKey c clientIP cfg
      in case Allow env key limit (Window cfg) R of
           (Inl err, R') \<Rightarrow> (if isSafeMethod verb then Serve else Answer 503 None, R')
         | (Inr allowed, R') \<Rightarrow>
             (if \<not> allowed then Answer 429 (Some (int_text (Window cfg sdiv 1000000000))) else Serve, R'))"

section \<open>Reference\<close>

text \<open>
  The limiter's contract over a log of what was counted: a request is admitted if its caller has
  at most \<open>limit\<close> counted requests, this one included, in the window the clock is in. A
  command that failed is counted when the server executed it.
\<close>

definition window_of :: "time \<Rightarrow> 'a redis_env_scheme \<Rightarrow> int" where
  "window_of window env = clock_Now env div window"

fun limited ::
  "int \<Rightarrow> time \<Rightarrow> ('a redis_env_scheme \<times> string) list \<Rightarrow> (string \<times> int) list \<Rightarrow> bool result list" where
  "limited limit window [] hits = []"
| "limited limit window ((env, key) # cs) hits =
     (let hit = (key, window_of window env) in
      case rd_fault env ''ratelimit.Run'' of
        None \<Rightarrow> Inr (int (count_list hits hit) + 1 \<le> limit) # limited limit window cs (hit # hits)
      | Some (executed, e) \<Rightarrow> Inl e # limited limit window cs (if executed then hit # hits else hits))"

fun allows ::
  "int \<Rightarrow> time \<Rightarrow> ('a redis_env_scheme \<times> string) list \<Rightarrow> keyspace \<Rightarrow> bool result list" where
  "allows limit window [] R = []"
| "allows limit window ((env, key) # cs) R =
     (case Allow env key limit window R of (r, R') \<Rightarrow> r # allows limit window cs R')"

text \<open>One clock: the instance and the server agree on the instant, and it does not go back.\<close>

fun one_clock :: "time \<Rightarrow> ('a redis_env_scheme \<times> 'c) list \<Rightarrow> bool" where
  "one_clock t [] \<longleftrightarrow> True"
| "one_clock t (c # cs) \<longleftrightarrow>
     t \<le> rd_now (fst c) \<and> clock_Now (fst c) = rd_now (fst c) \<and> one_clock (rd_now (fst c)) cs"

section \<open>Laws\<close>

lemma no_colon: "0 \<le> b \<Longrightarrow> CHR '':'' \<notin> set (int_text b)"
  using decimal_ok [of "nat b"] by (auto simp: int_text_def list_all_iff is_digit_def)

lemma split_last: "z \<notin> set ys \<Longrightarrow> z \<notin> set ys' \<Longrightarrow> xs @ z # ys = xs' @ z # ys' \<Longrightarrow> xs = xs' \<and> ys = ys'"
  by (induction xs arbitrary: xs'; case_tac xs') (auto simp: append_eq_Cons_conv Cons_eq_append_conv)

lemma ratelimit_key_inj:
  "0 \<le> b \<Longrightarrow> 0 \<le> b' \<Longrightarrow> ratelimit_key k b = ratelimit_key k' b' \<longleftrightarrow> k = k' \<and> b = b'"
  using split_last [OF no_colon no_colon, of b b' k k'] int_text_inj [of b b']
  by (auto simp: ratelimit_key_def)

text \<open>
  The counters show the log: in the current window and later ones, a caller's counter is present
  until the window ends and holds the number of its entries, or was never started.
\<close>

definition shows_log :: "time \<Rightarrow> time \<Rightarrow> (string \<times> int) list \<Rightarrow> keyspace \<Rightarrow> bool" where
  "shows_log window t hits R \<longleftrightarrow> (\<forall>k b. t div window \<le> b \<longrightarrow>
     (if count_list hits (k, b) = 0 then R (ratelimit_key k b) = None
      else \<forall>t'. t \<le> t' \<longrightarrow> t' < (b + 1) * window \<longrightarrow>
             live t' R (ratelimit_key k b) = Some (int_text (int (count_list hits (k, b))))))"

lemma shows_log_later:
  assumes "shows_log window t hits R" "t \<le> t'" "0 < window" shows "shows_log window t' hits R"
proof -
  have "t div window \<le> t' div window" using assms(2,3) by (rule zdiv_mono1)
  then show ?thesis using assms(1,2) unfolding shows_log_def by (meson order_trans)
qed

lemma in_window: "0 < (window::int) \<Longrightarrow> t < (t div window + 1) * window"
  by (metis add.commute div_mult_mod_eq distrib_right mult_1 pos_mod_bound add_less_cancel_left)

lemma shows_log_hit:
  assumes log: "shows_log window t hits R" and b: "b = t div window" "0 \<le> b"
    and new: "\<And>t'. t \<le> t' \<Longrightarrow> t' < (b + 1) * window \<Longrightarrow>
      live t' R' (ratelimit_key k b) = Some (int_text (int (count_list hits (k, b)) + 1))"
    and old: "\<And>x. x \<noteq> ratelimit_key k b \<Longrightarrow> R' x = R x"
  shows "shows_log window t ((k, b) # hits) R'"
  unfolding shows_log_def
proof (intro allI impI)
  fix k' b' assume b': "t div window \<le> b'"
  show "if count_list ((k, b) # hits) (k', b') = 0 then R' (ratelimit_key k' b') = None
      else \<forall>t'. t \<le> t' \<longrightarrow> t' < (b' + 1) * window \<longrightarrow>
        live t' R' (ratelimit_key k' b') = Some (int_text (int (count_list ((k, b) # hits) (k', b'))))"
  proof (cases "(k', b') = (k, b)")
    case True
    then show ?thesis using new by (simp add: add.commute)
  next
    case False
    then have "ratelimit_key k' b' \<noteq> ratelimit_key k b"
      using ratelimit_key_inj [of b' b] b b' by auto
    then have same: "R' (ratelimit_key k' b') = R (ratelimit_key k' b')" by (rule old)
    then have "live t' R' (ratelimit_key k' b') = live t' R (ratelimit_key k' b')" for t'
      by (simp add: live_def)
    moreover have "count_list ((k, b) # hits) (k', b') = count_list hits (k', b')" using False by auto
    ultimately show ?thesis using log b' same by (simp add: shows_log_def)
  qed
qed

text \<open>One run of the script counts one entry.\<close>

lemma count_hit:
  assumes w: "0 < window" "window mod 1000000 = 0" "0 \<le> t" and hits: "shows_log window t hits R"
    and n: "int (length hits) < 2 ^ 62"
  defines "b \<equiv> t div window"
  shows "\<exists>R'. countInWindow t (ratelimit_key k b) (window div 1000000) R
      = (Inr (int (count_list hits (k, b)) + 1), R') \<and> shows_log window t ((k, b) # hits) R'"
proof -
  let ?k = "ratelimit_key k b" and ?n = "int (count_list hits (k, b))"
  have b: "0 \<le> b" using w by (simp add: b_def pos_imp_zdiv_nonneg_iff)
  note hit = shows_log_hit [OF hits _ b, where k = k]
  have now: "t < (b + 1) * window" using in_window [OF w(1)] by (simp add: b_def)
  have ms: "window div 1000000 * 1000000 = window" using w(2) by (simp add: dvd_div_mult_self mod_0_imp_dvd)
  show ?thesis
  proof (cases "count_list hits (k, b) = 0")
    case True
    then have none: "R ?k = None" using hits by (simp add: shows_log_def b_def)
    have "t div window * window = t - t mod window" by (simp add: minus_mod_eq_div_mult)
    then have ends: "(b + 1) * window \<le> t + window"
      using pos_mod_sign [OF w(1), of t] by (simp add: b_def distrib_right)
    let ?R = "R(?k \<mapsto> (int_text 1, Some (t + window)))"
    have "countInWindow t ?k (window div 1000000) R = (Inr (?n + 1), ?R)"
      using True none w(1) ms by (simp add: countInWindow_def Incr_absent live_def bindE_def Expire_def)
    moreover have "shows_log window t ((k, b) # hits) ?R"
      by (rule hit) (use True ends in \<open>auto simp: b_def\<close>)
    ultimately show ?thesis by blast
  next
    case False
    have small: "is_int64 (?n + 1)"
      using count_le_length [of hits "(k, b)"] n by (simp add: is_int64_def)
    have shown: "live t' R ?k = Some (int_text ?n)" if "t \<le> t'" "t' < (b + 1) * window" for t'
      using hits False that by (simp add: shows_log_def b_def)
    let ?R = "R(?k \<mapsto> (int_text (?n + 1), snd (the (R ?k))))"
    have "Incr t ?k R = (Inr (?n + 1), ?R)"
      by (rule Incr_counter) (use shown now small in auto)
    moreover have "shows_log window t ((k, b) # hits) ?R"
    proof (rule hit)
      fix t' assume "t \<le> t'" "t' < (b + 1) * window"
      then show "live t' ?R ?k = Some (int_text (?n + 1))"
        using shown [of t'] by (auto simp: live_def split: option.splits if_splits)
    qed (auto simp: b_def)
    ultimately show ?thesis using False by (auto simp: countInWindow_def bindE_def)
  qed
qed

lemma Allow_hit:
  assumes "0 < window" "window mod 1000000 = 0" "0 \<le> rd_now env" "clock_Now env = rd_now env"
    and "shows_log window (rd_now env) hits R" "int (length hits) < 2 ^ 62"
  shows "\<exists>R'. Allow env key limit window R =
       (case rd_fault env ''ratelimit.Run'' of
          None \<Rightarrow> Inr (int (count_list hits (key, window_of window env)) + 1 \<le> limit)
        | Some (executed, e) \<Rightarrow> Inl e, R')
     \<and> shows_log window (rd_now env)
         (case rd_fault env ''ratelimit.Run'' of
            Some (False, e) \<Rightarrow> hits | _ \<Rightarrow> (key, window_of window env) # hits) R'"
proof -
  obtain R' where "countInWindow (rd_now env) (ratelimit_key key (window_of window env)) (window div 1000000) R
      = (Inr (int (count_list hits (key, window_of window env)) + 1), R')"
    "shows_log window (rd_now env) ((key, window_of window env) # hits) R'"
    using count_hit [OF assms(1-3,5,6), of key] assms(4) by (auto simp: window_of_def)
  moreover have "clock_Now env sdiv window = window_of window env" "window sdiv 1000000 = window div 1000000"
    using assms(1,3,4) by (simp_all add: signed_divide_int_def window_of_def sgn_if)
  ultimately show ?thesis using assms(1,5)
    by (auto simp: Allow_def Let_def rd_cmd_def bindE_def split: option.splits bool.splits)
qed

lemma allows_limited:
  assumes "0 < window" "window mod 1000000 = 0" "0 \<le> t"
    and "shows_log window t hits R" "one_clock t cs" "int (length hits + length cs) < 2 ^ 62"
  shows "allows limit window cs R = limited limit window cs hits"
  using assms(3-)
proof (induction cs arbitrary: t hits R)
  case (Cons c cs)
  obtain env key where c: "c = (env, key)" by fastforce
  have t: "0 \<le> rd_now env" "clock_Now env = rd_now env" "shows_log window (rd_now env) hits R"
    using Cons.prems c shows_log_later [OF Cons.prems(2) _ assms(1)] by auto
  let ?hits = "case rd_fault env ''ratelimit.Run'' of
      Some (False, e) \<Rightarrow> hits | _ \<Rightarrow> (key, window_of window env) # hits"
  obtain R' where a: "Allow env key limit window R =
       (case rd_fault env ''ratelimit.Run'' of
          None \<Rightarrow> Inr (int (count_list hits (key, window_of window env)) + 1 \<le> limit)
        | Some (executed, e) \<Rightarrow> Inl e, R')" "shows_log window (rd_now env) ?hits R'"
    using Allow_hit [OF assms(1,2) t, of key limit] Cons.prems(4) by auto
  have "allows limit window cs R' = limited limit window cs ?hits"
    by (rule Cons.IH [OF t(1) a(2)]) (use Cons.prems c in \<open>auto split: option.splits bool.splits\<close>)
  then show ?case using a(1) c by (auto simp: Let_def split: option.splits bool.splits)
qed simp

end
