(* ===== verification/Breaker.thy ===== *)
theory Breaker
  imports Prelude
begin

text \<open>
  The circuit breaker of \<open>internal/platform/cache/redisx/breaker.go\<close>. Its methods are modelled
  as one step each: calls of different goroutines interleave between them. Instants are
  nanoseconds since the epoch.
\<close>

section \<open>State\<close>

datatype breaker_state = breakerClosed | breakerOpen | breakerHalfOpen

record breaker =
  state :: breaker_state
  openUntil :: int
  failures :: int
  threshold :: int
  cooldown :: time

definition DefaultFailureThreshold :: int where "DefaultFailureThreshold = 5"
definition DefaultCooldown :: time where "DefaultCooldown = 2 * 1000000000"

definition newBreaker :: "int \<Rightarrow> time \<Rightarrow> breaker" where
  "newBreaker thr cool = \<lparr>state = breakerClosed, openUntil = 0, failures = 0,
     threshold = if thr \<le> 0 then DefaultFailureThreshold else thr,
     cooldown = if cool \<le> 0 then DefaultCooldown else cool\<rparr>"

section \<open>Operations\<close>

definition allow :: "time \<Rightarrow> breaker \<Rightarrow> bool \<times> breaker" where
  "allow now b = (case state b of
     breakerClosed \<Rightarrow> (True, b)
   | breakerOpen \<Rightarrow> if now < openUntil b then (False, b) else (True, b\<lparr>state := breakerHalfOpen\<rparr>)
   | breakerHalfOpen \<Rightarrow> (False, b))"

definition succeed :: "breaker \<Rightarrow> breaker" where
  "succeed b = b\<lparr>failures := 0, state := breakerClosed\<rparr>"

definition trip :: "time \<Rightarrow> breaker \<Rightarrow> breaker" where
  "trip now b = b\<lparr>openUntil := now + cooldown b, failures := 0, state := breakerOpen\<rparr>"

definition fail :: "time \<Rightarrow> breaker \<Rightarrow> breaker" where
  "fail now b =
     (if state b = breakerHalfOpen then trip now b
      else let b' = b\<lparr>failures := failures b + 1\<rparr>
           in if failures b' \<ge> threshold b' then trip now b' else b')"

definition isOpen :: "breaker \<Rightarrow> bool" where "isOpen b \<longleftrightarrow> state b \<noteq> breakerClosed"

text \<open>
  \<open>replied\<close> is \<open>errors.As\<close> of go-redis: the error is a reply of the server. No error is \<open>None\<close>.
\<close>

definition countsAsUnavailable :: "(go_error \<Rightarrow> bool) \<Rightarrow> go_error option \<Rightarrow> bool" where
  "countsAsUnavailable replied err = (case err of
     None \<Rightarrow> False
   | Some e \<Rightarrow> if e = KeyNotFound \<or> e = CircuitOpen then False else \<not> replied e)"

definition breaker_record :: "(go_error \<Rightarrow> bool) \<Rightarrow> time \<Rightarrow> go_error option \<Rightarrow> breaker \<Rightarrow> breaker" where
  "breaker_record replied now err b =
     (if countsAsUnavailable replied err then fail now b else succeed b)"

text \<open>
  \<open>ProcessHook\<close> (and \<open>ProcessPipelineHook\<close>, for every command of the pipeline): \<open>probe\<close> says
  whether the context carries the probe mark, \<open>next\<close> is the command, which takes from \<open>started\<close> until \<open>ended\<close>.
\<close>

definition ProcessHook ::
  "(go_error \<Rightarrow> bool) \<Rightarrow> bool \<Rightarrow> time \<Rightarrow> time \<Rightarrow> ('s \<Rightarrow> go_error option \<times> 's) \<Rightarrow> 's \<times> breaker
     \<Rightarrow> go_error option \<times> 's \<times> breaker" where
  "ProcessHook replied probe started ended command s = (case s of (w, b) \<Rightarrow>
     if probe then (case command w of (err, w') \<Rightarrow> (err, w', b))
     else case allow started b of
       (False, b') \<Rightarrow> (Some CircuitOpen, w, b')
     | (True, b') \<Rightarrow>
         (case command w of (err, w') \<Rightarrow> (err, w', breaker_record replied ended err b')))"

section \<open>Interleaved calls\<close>

text \<open>
  The events of several calls: one asks to be admitted, one that was admitted ends with an
  outcome. The answer to an ask is the first component.
\<close>

datatype breaker_event = is_Ask: Ask time | End time "go_error option"

fun event_time :: "breaker_event \<Rightarrow> time" where
  "event_time (Ask t) = t" | "event_time (End t err) = t"

fun breaker_step :: "(go_error \<Rightarrow> bool) \<Rightarrow> breaker_event \<Rightarrow> breaker \<Rightarrow> bool \<times> breaker" where
  "breaker_step replied (Ask t) b = allow t b"
| "breaker_step replied (End t err) b = (False, breaker_record replied t err b)"

text \<open>The instants at which calls were admitted.\<close>

fun admissions :: "(go_error \<Rightarrow> bool) \<Rightarrow> breaker_event list \<Rightarrow> breaker \<Rightarrow> time list" where
  "admissions replied [] b = []"
| "admissions replied (e # es) b =
     (case breaker_step replied e b of
        (admitted, b') \<Rightarrow> (if admitted then [event_time e] else []) @ admissions replied es b')"

fun breaker_after :: "(go_error \<Rightarrow> bool) \<Rightarrow> breaker_event list \<Rightarrow> breaker \<Rightarrow> breaker" where
  "breaker_after replied [] b = b"
| "breaker_after replied (e # es) b = breaker_after replied es (snd (breaker_step replied e b))"

text \<open>An outage: no call ends with an answer of the server, and time does not go back.\<close>

fun outage :: "(go_error \<Rightarrow> bool) \<Rightarrow> time \<Rightarrow> breaker_event list \<Rightarrow> bool" where
  "outage replied t [] \<longleftrightarrow> True"
| "outage replied t (Ask t' # es) \<longleftrightarrow> t \<le> t' \<and> outage replied t' es"
| "outage replied t (End t' err # es) \<longleftrightarrow> t \<le> t' \<and> countsAsUnavailable replied err \<and> outage replied t' es"

definition spaced :: "time \<Rightarrow> time list \<Rightarrow> bool" where
  "spaced d ts \<longleftrightarrow> sorted_wrt (\<lambda>a b. a + d \<le> b) ts"

section \<open>Laws\<close>

text \<open>
  \<open>quiet_until t u b\<close>: at \<open>t\<close> the breaker admits nothing before \<open>u\<close>, and a trip from now on would
  not let it open earlier.
\<close>

definition quiet_until :: "time \<Rightarrow> time \<Rightarrow> breaker \<Rightarrow> bool" where
  "quiet_until t u b \<longleftrightarrow> isOpen b \<and> u \<le> t + cooldown b \<and> (state b = breakerOpen \<longrightarrow> u \<le> openUntil b)"

lemma outage_spaced:
  assumes "0 \<le> cooldown b" "quiet_until t u b" "outage replied t es"
  shows "spaced (cooldown b) (admissions replied es b) \<and> list_all (\<lambda>a. u \<le> a) (admissions replied es b)
    \<and> isOpen (breaker_after replied es b)"
  using assms
proof (induction es arbitrary: t u b)
  case Nil
  then show ?case by (auto simp: spaced_def quiet_until_def isOpen_def)
next
  case (Cons e es)
  show ?case
  proof (cases e)
    case (End t' err)
    let ?b = "fail t' b"
    have r: "breaker_step replied e b = (False, ?b)" and o: "t \<le> t'" "outage replied t' es"
      using Cons.prems(3) End by (auto simp: breaker_record_def)
    have "quiet_until t' u ?b" "cooldown ?b = cooldown b"
      using Cons.prems(1,2) o(1) by (auto simp: quiet_until_def isOpen_def fail_def trip_def Let_def)
    then show ?thesis using Cons.IH [of ?b t' u] Cons.prems(1) o(2) r by simp
  next
    case (Ask t')
    have o: "t \<le> t'" "outage replied t' es" using Cons.prems(3) Ask by auto
    show ?thesis
    proof (cases "state b = breakerOpen \<and> openUntil b \<le> t'")
      case True
      let ?b = "b\<lparr>state := breakerHalfOpen\<rparr>"
      have "breaker_step replied e b = (True, ?b)" using True Ask by (simp add: allow_def)
      moreover have "quiet_until t' (t' + cooldown b) ?b" by (simp add: quiet_until_def isOpen_def)
      moreover have "u \<le> t'" using True Cons.prems(2) by (simp add: quiet_until_def)
      ultimately show ?thesis using Cons.IH [of ?b t' "t' + cooldown b"] Cons.prems(1) o(2) Ask
        by (auto simp: spaced_def list_all_iff)
    next
      case False
      then have "breaker_step replied e b = (False, b)"
        using Ask Cons.prems(2) by (auto simp: allow_def quiet_until_def isOpen_def split: breaker_state.splits)
      moreover have "quiet_until t' u b" using Cons.prems(2) o(1) by (auto simp: quiet_until_def)
      ultimately show ?thesis using Cons.IH [of b t' u] Cons.prems(1) o(2) by simp
    qed
  qed
qed

text \<open>
  A closed breaker opens with the failure that makes \<open>threshold\<close> in a row, whatever was admitted
  between them.
\<close>

definition failed_ends :: "breaker_event list \<Rightarrow> int" where
  "failed_ends es = int (length (filter (\<lambda>e. \<not> is_Ask e) es))"

lemma closed_counts:
  assumes "state b = breakerClosed" "outage replied t es" "failures b + failed_ends es < threshold b"
  shows "breaker_after replied es b = b\<lparr>failures := failures b + failed_ends es\<rparr>"
  using assms
proof (induction es arbitrary: t b)
  case Nil
  then show ?case by (simp add: failed_ends_def)
next
  case (Cons e es)
  show ?case
  proof (cases e)
    case (Ask t')
    then show ?thesis using Cons by (auto simp: allow_def failed_ends_def)
  next
    case (End t' err)
    then have f: "snd (breaker_step replied e b) = b\<lparr>failures := failures b + 1\<rparr>"
      using Cons.prems by (auto simp: breaker_record_def fail_def Let_def failed_ends_def)
    show ?thesis using Cons.IH [of "b\<lparr>failures := failures b + 1\<rparr>" t'] Cons.prems End f
      by (simp add: failed_ends_def add.assoc)
  qed
qed

lemma breaker_after_append:
  "breaker_after replied (xs @ ys) b = breaker_after replied ys (breaker_after replied xs b)"
  by (induction xs arbitrary: b) simp_all

lemma closed_trips:
  assumes "state b = breakerClosed" "outage replied t es" "failures b + failed_ends es + 1 = threshold b"
    and "countsAsUnavailable replied err"
  shows "breaker_after replied (es @ [End t' err]) b
    = b\<lparr>openUntil := t' + cooldown b, failures := 0, state := breakerOpen\<rparr>"
  using closed_counts [OF assms(1,2)] assms
  by (simp add: breaker_after_append breaker_record_def fail_def trip_def Let_def)

text \<open>The first answer of the server closes it.\<close>

lemma answered_closed:
  "\<not> countsAsUnavailable replied err \<Longrightarrow>
     state (breaker_record replied t err b) = breakerClosed \<and> failures (breaker_record replied t err b) = 0"
  by (simp add: breaker_record_def succeed_def)

end
