(* ===== verification/Idempotency.thy ===== *)
theory Idempotency
  imports Redis Authz
begin

text \<open>
  The package \<open>internal/platform/cache/idempotency\<close> and the middleware \<open>Mutating\<close> of
  \<open>internal/platform/httpx/middleware_mutation.go\<close> that runs a handler under it.
\<close>

section \<open>The store\<close>

definition responseTTL :: time where "responseTTL = 24 * 3600 * 1000000000"
definition reservationTTL :: time where "reservationTTL = 5 * 60 * 1000000000"

datatype Outcome = Acquired | Replay | InFlight | Mismatch

definition LegacyFingerprint :: string where "LegacyFingerprint = ''1''"

definition Fingerprint :: "'a lib_scheme \<Rightarrow> string \<Rightarrow> string" where
  "Fingerprint L body = sha256_hex L body"

record StoredResponse =
  Status :: int
  Body :: string

definition no_response :: StoredResponse where "no_response = \<lparr>Status = 0, Body = []\<rparr>"

text \<open>\<open>encoding/json\<close> on a \<open>StoredResponse\<close>.\<close>

record idem_env = redis_env +
  json_Marshal :: "StoredResponse \<Rightarrow> string result"
  json_Unmarshal :: "string \<Rightarrow> StoredResponse result"

definition reserveKey :: "string \<Rightarrow> string" where "reserveKey key = ''idempotency:reserve:'' @ key"
definition responseKey :: "string \<Rightarrow> string" where "responseKey key = ''idempotency:response:'' @ key"

definition idem_unavailable ::
  "(keyspace \<Rightarrow> 'b result \<times> keyspace) \<Rightarrow> keyspace \<Rightarrow> 'b result \<times> keyspace" where
  "idem_unavailable m R = (case m R of (r, R') \<Rightarrow> (mapErr (\<lambda>_. IdempotencyUnavailable) r, R'))"

text \<open>The response is \<open>None\<close> where the code returns \<open>found = false\<close>.\<close>

definition getResponse ::
  "'a idem_env_scheme \<Rightarrow> string \<Rightarrow> keyspace \<Rightarrow> StoredResponse option result \<times> keyspace" where
  "getResponse env key R =
     (case rd_cmd env ''idempotency.GetResponse'' (GetKey (rd_now env) (responseKey key)) R of
        (Inl e, R') \<Rightarrow> (if e = KeyNotFound then Inr None else Inl IdempotencyUnavailable, R')
      | (Inr encoded, R') \<Rightarrow> (case json_Unmarshal env encoded of
          Inl e \<Rightarrow> (Inl (OtherError ''idempotency: decode response''), R')
        | Inr response \<Rightarrow> (Inr (Some response), R')))"

definition Reserve ::
  "'a idem_env_scheme \<Rightarrow> string \<Rightarrow> string \<Rightarrow> keyspace \<Rightarrow> (Outcome \<times> StoredResponse) result \<times> keyspace" where
  "Reserve env key fingerprint =
     bindE (idem_unavailable (rd_cmd env ''idempotency.SetNX''
              (SetNX (rd_now env) (reserveKey key) fingerprint reservationTTL)))
       (\<lambda>acquired R.
          if acquired then (Inr (Acquired, no_response), R)
          else case rd_cmd env ''idempotency.GetReserve'' (GetKey (rd_now env) (reserveKey key)) R of
            (Inl e, R') \<Rightarrow>
              (if e = KeyNotFound then Inr (InFlight, no_response) else Inl IdempotencyUnavailable, R')
          | (Inr seen, R') \<Rightarrow>
              if seen \<noteq> LegacyFingerprint \<and> seen \<noteq> fingerprint then (Inr (Mismatch, no_response), R')
              else bindE (getResponse env key) (\<lambda>stored R''. (Inr (case stored of
                     None \<Rightarrow> (InFlight, no_response) | Some response \<Rightarrow> (Replay, response)), R'')) R')"

definition SaveResponse ::
  "'a idem_env_scheme \<Rightarrow> string \<Rightarrow> StoredResponse \<Rightarrow> keyspace \<Rightarrow> unit result \<times> keyspace" where
  "SaveResponse env key response R =
     (case json_Marshal env response of
        Inl e \<Rightarrow> (Inl (OtherError ''idempotency: encode response''), R)
      | Inr encoded \<Rightarrow>
          bindE (idem_unavailable (rd_cmd env ''idempotency.Set''
                   (SetKey (rd_now env) (responseKey key) encoded responseTTL)))
            (\<lambda>_. idem_unavailable (rd_cmd env ''idempotency.Expire''
                   (Expire (rd_now env) (reserveKey key) responseTTL))) R)"

definition Release :: "'a idem_env_scheme \<Rightarrow> string \<Rightarrow> keyspace \<Rightarrow> unit result \<times> keyspace" where
  "Release env key = idem_unavailable (rd_cmd env ''idempotency.Del'' (DelKeys [reserveKey key]))"

section \<open>The middleware\<close>

text \<open>
  A handler works on the rest of the system, gets the operation key and writes a status and a
  body. The response of a request is the handler's, a stored one, or a problem with its status.
\<close>

type_synonym 'w handler = "string \<Rightarrow> 'w \<Rightarrow> (int \<times> string) \<times> 'w"

datatype served = Handled int string | Replayed int string | Problem int

definition writeUnavailable :: "go_error \<Rightarrow> served" where
  "writeUnavailable err = (if err = IdempotencyUnavailable then Problem 503 else Problem 500)"

text \<open>
  The reservation is made at the start of the request (\<open>env\<close>) and the bookkeeping after the
  handler (\<open>env'\<close>); its errors are only logged.
\<close>

definition finishIdempotent ::
  "'a idem_env_scheme \<Rightarrow> string \<Rightarrow> int \<times> string \<Rightarrow> keyspace \<Rightarrow> keyspace" where
  "finishIdempotent env' key answer R =
     (if 200 \<le> fst answer \<and> fst answer < 300
      then snd (SaveResponse env' key \<lparr>Status = fst answer, Body = snd answer\<rparr> R)
      else snd (Release env' key R))"

definition serveIdempotent ::
  "'a idem_env_scheme \<Rightarrow> 'a idem_env_scheme \<Rightarrow> 'w handler \<Rightarrow> string \<Rightarrow> string \<Rightarrow> 'w \<times> keyspace
     \<Rightarrow> served \<times> 'w \<times> keyspace" where
  "serveIdempotent env env' h key fingerprint s = (case s of (w, R) \<Rightarrow>
     case Reserve env key fingerprint R of
       (Inl err, R') \<Rightarrow> (writeUnavailable err, w, R')
     | (Inr (outcome, stored), R') \<Rightarrow>
         (case outcome of
            Replay \<Rightarrow> (Replayed (Status stored) (Body stored), w, R')
          | InFlight \<Rightarrow> (Problem 409, w, R')
          | Mismatch \<Rightarrow> (Problem 422, w, R')
          | Acquired \<Rightarrow>
              (case h key w of (answer, w') \<Rightarrow>
                 (Handled (fst answer) (snd answer), w', finishIdempotent env' key answer R'))))"

definition maxFingerprintBody :: nat where "maxFingerprintBody = 2 ^ 20"

text \<open>
  The body as the server reads it: absent, or the bytes read or the error of reading. 413 and
  400 are what \<open>Mutating\<close> answers to the two errors.
\<close>

definition fingerprintBody :: "'a lib_scheme \<Rightarrow> string result option \<Rightarrow> int + string" where
  "fingerprintBody L body = (case body of
     None \<Rightarrow> Inr (Fingerprint L [])
   | Some (Inl err) \<Rightarrow> Inl 400
   | Some (Inr bytes) \<Rightarrow>
       let buffered = take (maxFingerprintBody + 1) bytes in
       if length buffered > maxFingerprintBody then Inl 413 else Inr (Fingerprint L buffered))"

definition scopedKey :: "ctx \<Rightarrow> string \<Rightarrow> string \<Rightarrow> string \<Rightarrow> string" where
  "scopedKey c modul action key =
     (let subject = (if Subject c \<noteq> [] then Subject c else ''anonymous'')
      in subject @ '':'' @ modul @ '':'' @ action @ '':'' @ key)"

definition Mutating ::
  "string \<Rightarrow> string \<Rightarrow> 'w handler \<Rightarrow> 'a idem_env_scheme \<Rightarrow> 'a idem_env_scheme \<Rightarrow> bool \<Rightarrow> ctx \<Rightarrow> string
     \<Rightarrow> string result option \<Rightarrow> 'w \<times> keyspace \<Rightarrow> served \<times> 'w \<times> keyspace" where
  "Mutating modul action h env env' supported c key body s =
     (if \<not> supported then (Problem 500, s)
      else if key = [] then (Problem 400, s)
      else case fingerprintBody env body of
        Inl status \<Rightarrow> (Problem status, s)
      | Inr fingerprint \<Rightarrow> serveIdempotent env env' h (scopedKey c modul action key) fingerprint s)"

section \<open>Requests one after another\<close>

record 'w mutation =
  mt_begin :: idem_env
  mt_end :: idem_env
  mt_handler :: "'w handler"
  mt_key :: string
  mt_fingerprint :: string

definition mutate :: "'w mutation \<Rightarrow> 'w \<times> keyspace \<Rightarrow> served \<times> 'w \<times> keyspace" where
  "mutate m = serveIdempotent (mt_begin m) (mt_end m) (mt_handler m) (mt_key m) (mt_fingerprint m)"

text \<open>What each request is answered, with the rest of the system before and after it.\<close>

fun mutations :: "'w mutation list \<Rightarrow> 'w \<times> keyspace \<Rightarrow> ('w mutation \<times> served \<times> 'w \<times> 'w) list" where
  "mutations [] s = []"
| "mutations (m # ms) s =
     (case mutate m s of (r, s') \<Rightarrow> (m, r, fst s, fst s') # mutations ms s')"

fun timed :: "time \<Rightarrow> time \<Rightarrow> 'w mutation list \<Rightarrow> bool" where
  "timed t d [] \<longleftrightarrow> True"
| "timed t d (m # ms) \<longleftrightarrow> t \<le> rd_now (mt_begin m) \<and> rd_now (mt_begin m) \<le> rd_now (mt_end m)
     \<and> rd_now (mt_end m) < d \<and> timed (rd_now (mt_end m)) d ms"

section \<open>Laws\<close>

lemma idem_keys [simp]:
  "reserveKey k = reserveKey k' \<longleftrightarrow> k = k'" "responseKey k = responseKey k' \<longleftrightarrow> k = k'"
  "reserveKey k \<noteq> responseKey k'" "responseKey k \<noteq> reserveKey k'"
  by (simp_all add: reserveKey_def responseKey_def)

text \<open>Until \<open>d\<close> the key is bound to a fingerprint and answered with what is stored, if anything is.\<close>

definition bound :: "time \<Rightarrow> time \<Rightarrow> string \<Rightarrow> string \<Rightarrow> string option \<Rightarrow> keyspace \<Rightarrow> bool" where
  "bound t d key fp encoded R \<longleftrightarrow> (\<forall>t'. t \<le> t' \<longrightarrow> t' < d \<longrightarrow>
     live t' R (reserveKey key) = Some fp \<and> live t' R (responseKey key) = encoded)"

definition same_key :: "string \<Rightarrow> keyspace \<Rightarrow> keyspace \<Rightarrow> bool" where
  "same_key key R R' \<longleftrightarrow>
     R' (reserveKey key) = R (reserveKey key) \<and> R' (responseKey key) = R (responseKey key)"

lemma bound_same: "same_key key R R' \<Longrightarrow> bound t d key fp enc R' = bound t d key fp enc R"
  by (simp add: bound_def same_key_def live_def)

lemma bound_later: "bound t d key fp enc R \<Longrightarrow> t \<le> t' \<Longrightarrow> bound t' d key fp enc R"
  by (auto simp: bound_def)

lemma same_key_refl [simp]: "same_key key R R"
  by (simp add: same_key_def)

lemma same_key_trans: "same_key key R R' \<Longrightarrow> same_key key R' R'' \<Longrightarrow> same_key key R R''"
  by (simp add: same_key_def)

lemma same_key_cmd:
  "same_key key R (snd (m R)) \<Longrightarrow> same_key key R (snd (rd_cmd env q m R))"
  by (metis rd_cmd_state same_key_refl)

lemma idem_unavailable_snd [simp]: "snd (idem_unavailable m R) = snd (m R)"
  by (simp add: idem_unavailable_def split: prod.splits)

lemma getResponse_state: "snd (getResponse env key R) = R"
  using rd_cmd_state [of env "''idempotency.GetResponse''" "GetKey (rd_now env) (responseKey key)" R]
  by (auto simp: getResponse_def GetKey_def split: prod.splits sum.splits)

lemma same_key_bind:
  assumes "same_key key R (snd (m R))" "\<And>x. same_key key (snd (m R)) (snd (f x (snd (m R))))"
  shows "same_key key R (snd (bindE m f R))"
  by (cases rule: bindE_cases [of m R f]) (use assms in \<open>metis same_key_trans snd_conv\<close>)+

text \<open>A request with another key leaves this one's alone.\<close>

lemma Reserve_frame:
  assumes "key' \<noteq> key" shows "same_key key R (snd (Reserve env key' fp R))"
proof -
  have g: "snd (rd_cmd env q (GetKey t k) R') = R'" for q t k R'
    using rd_cmd_state [of env q "GetKey t k" R'] by (auto simp: GetKey_def)
  have "same_key key R' (snd ((case rd_cmd env ''idempotency.GetReserve'' (GetKey (rd_now env) (reserveKey key')) R' of
            (Inl e, R') \<Rightarrow>
              (if e = KeyNotFound then Inr (InFlight, no_response) else Inl IdempotencyUnavailable, R')
          | (Inr seen, R') \<Rightarrow>
              if seen \<noteq> LegacyFingerprint \<and> seen \<noteq> fp then (Inr (Mismatch, no_response), R')
              else bindE (getResponse env key') (\<lambda>stored R''. (Inr (case stored of
                     None \<Rightarrow> (InFlight, no_response) | Some response \<Rightarrow> (Replay, response)), R'')) R')))" for R'
    using g [of "''idempotency.GetReserve''" "rd_now env" "reserveKey key'" R'] getResponse_state [of env key' R']
    by (auto simp: bindE_def split: prod.splits sum.splits)
  moreover have "same_key key R (snd (SetNX (rd_now env) (reserveKey key') fp reservationTTL R))"
    using assms by (simp add: SetNX_def same_key_def)
  ultimately show ?thesis unfolding Reserve_def
    by (intro same_key_bind) (auto intro!: same_key_cmd)
qed

lemma finish_frame:
  assumes "key' \<noteq> key" shows "same_key key R (finishIdempotent env' key' answer R)"
proof -
  have "same_key key R' (snd (SetKey t (responseKey key') v ttl R'))"
    "same_key key R' (snd (Expire t (reserveKey key') ttl R'))"
    "same_key key R' (snd (DelKeys [reserveKey key'] R'))" for t v ttl R'
    using assms by (auto simp: SetKey_def Expire_def DelKeys_def same_key_def split: option.splits)
  then show ?thesis
    by (auto simp: finishIdempotent_def SaveResponse_def Release_def intro!: same_key_bind same_key_cmd
        split: sum.splits)
qed

lemma serve_frame:
  assumes "key' \<noteq> key" shows "same_key key (snd s) (snd (snd (serveIdempotent env env' h key' fp s)))"
proof -
  obtain w R where s: "s = (w, R)" by fastforce
  note f = Reserve_frame [OF assms, of R env fp]
  show ?thesis
  proof (cases rule: outcome_cases [of "Reserve env key' fp R"])
    case (failed e R')
    then show ?thesis using f s by (simp add: serveIdempotent_def)
  next
    case (went_on x R')
    then show ?thesis using f s finish_frame [OF assms, of R' env'] same_key_trans
      by (cases x) (auto simp: serveIdempotent_def split: Outcome.splits prod.splits)
  qed
qed

text \<open>What a request with a bound key is answered: the key was used for other bytes, its first
  request is still running, or the stored response.\<close>

definition bound_answer :: "'a idem_env_scheme \<Rightarrow> string \<Rightarrow> string \<Rightarrow> string option \<Rightarrow> served" where
  "bound_answer env fp fp' encoded =
     (if fp \<noteq> LegacyFingerprint \<and> fp \<noteq> fp' then Problem 422
      else case encoded of
        None \<Rightarrow> Problem 409
      | Some e \<Rightarrow> (case json_Unmarshal env e of
          Inl _ \<Rightarrow> Problem 500 | Inr r \<Rightarrow> Replayed (Status r) (Body r)))"

lemma Reserve_bound:
  assumes "bound t d key fp enc R" "t \<le> rd_now env" "rd_now env < d"
  shows "snd (Reserve env key fp' R) = R \<and> (\<forall>x. fst (Reserve env key fp' R) = Inr x \<longrightarrow> fst x \<noteq> Acquired)"
proof -
  have l: "live (rd_now env) R (reserveKey key) = Some fp" using assms by (simp add: bound_def)
  have g: "snd (rd_cmd env q (GetKey t k) R) = R" for q t k
    using rd_cmd_state [of env q "GetKey t k" R] by (auto simp: GetKey_def)
  have n: "SetNX (rd_now env) (reserveKey key) fp' reservationTTL R = (Inr False, R)"
    using l by (simp add: SetNX_def)
  show ?thesis
    using g [of "''idempotency.GetReserve''" "rd_now env" "reserveKey key"] getResponse_state [of env key R] n
    by (auto simp: Reserve_def bindE_def idem_unavailable_def rd_cmd_def split: prod.splits sum.splits option.splits)
qed

lemma serve_bound:
  assumes "bound t d key fp enc R" "t \<le> rd_now env" "rd_now env < d"
  shows "snd (serveIdempotent env env' h key fp' (w, R)) = (w, R)
    \<and> (\<forall>st b. fst (serveIdempotent env env' h key fp' (w, R)) \<noteq> Handled st b)"
proof (cases rule: outcome_cases [of "Reserve env key fp' R"])
  case (failed e R')
  then show ?thesis using Reserve_bound [OF assms, of fp']
    by (simp add: serveIdempotent_def writeUnavailable_def)
next
  case (went_on x R')
  then show ?thesis using Reserve_bound [OF assms, of fp']
    by (cases x) (auto simp: serveIdempotent_def split: Outcome.splits)
qed

lemma serve_bound_answer:
  assumes "bound t d key fp enc R" "t \<le> rd_now env" "rd_now env < d" "\<And>q. rd_fault env q = None"
  shows "fst (serveIdempotent env env' h key fp' (w, R)) = bound_answer env fp fp' enc"
  using assms
  by (simp add: bound_def serveIdempotent_def Reserve_def idem_unavailable_def bindE_def SetNX_def GetKey_def
      getResponse_def bound_answer_def writeUnavailable_def split: option.splits sum.splits)

text \<open>
  Along every sequence of requests before \<open>d\<close>, a bound key stays bound: no handler runs for it.
\<close>

lemma mutations_bound:
  assumes "bound t d key fp enc (snd s)" "timed t d ms"
  shows "list_all (\<lambda>(m, r, w, w'). mt_key m = key \<longrightarrow>
      w' = w \<and> (\<forall>st b. r \<noteq> Handled st b)
      \<and> ((\<forall>q. rd_fault (mt_begin m) q = None) \<longrightarrow> r = bound_answer (mt_begin m) fp (mt_fingerprint m) enc))
    (mutations ms s)"
  using assms
proof (induction ms arbitrary: t s)
  case (Cons m ms)
  obtain w R where s: "s = (w, R)" by fastforce
  obtain r w' R' where x: "mutate m s = (r, w', R')" by (metis prod_cases3)
  note now = Cons.prems(1) [unfolded s snd_conv]
  have t: "t \<le> rd_now (mt_begin m)" "rd_now (mt_begin m) < d" "t \<le> rd_now (mt_end m)"
    using Cons.prems(2) by auto
  show ?case
  proof (cases "mt_key m = key")
    case True
    have "w' = w" "R' = R" "\<forall>st b. r \<noteq> Handled st b"
      using serve_bound [OF now t(1,2), of "mt_end m" "mt_handler m" "mt_fingerprint m" w] x True s
      by (simp_all add: mutate_def)
    moreover have "r = bound_answer (mt_begin m) fp (mt_fingerprint m) enc"
      if "\<forall>q. rd_fault (mt_begin m) q = None"
      using serve_bound_answer [OF now t(1,2), of "mt_end m" "mt_handler m" "mt_fingerprint m" w] x True s that
      by (simp add: mutate_def)
    ultimately show ?thesis
      using Cons.IH [of "rd_now (mt_end m)" "(w, R)"] bound_later [OF now t(3)] Cons.prems(2) x s by auto
  next
    case False
    then have "same_key key R R'"
      using serve_frame [of "mt_key m" key "(w, R)" "mt_begin m" "mt_end m" "mt_handler m" "mt_fingerprint m"] x s
      by (simp add: mutate_def)
    then have "bound (rd_now (mt_end m)) d key fp enc R'" using bound_later [OF now t(3)] by (simp add: bound_same)
    then show ?thesis using Cons.IH [of "rd_now (mt_end m)" "(w', R')"] False Cons.prems(2) x s by auto
  qed
qed simp

lemma mutations_requests: "x \<in> set (mutations ms s) \<Longrightarrow> fst x \<in> set ms"
proof (induction ms arbitrary: s)
  case (Cons m ms)
  then show ?case by (cases "mutate m s") auto
qed simp

text \<open>What the first request leaves: a reservation while its handler runs, then its response.\<close>

lemma Reserve_Acquired:
  assumes "Reserve env key fp R = (Inr (Acquired, x), R')"
  shows "R' = R(reserveKey key \<mapsto> (fp, Some (rd_now env + reservationTTL)))"
  using assms
  by (auto simp: Reserve_def bindE_Inr idem_unavailable_def rd_cmd_Inr mapErr_eq_Inr SetNX_def
      split: if_splits prod.splits sum.splits option.splits)

lemma acquired_bound:
  assumes "Reserve env key fp R = (Inr (Acquired, x), R')" "R (responseKey key) = None"
  shows "bound (rd_now env) (rd_now env + reservationTTL) key fp None R'"
  using Reserve_Acquired [OF assms(1)] assms(2) by (auto simp: bound_def live_def)

lemma finished_bound:
  assumes "bound t d key fp enc R" "t \<le> rd_now env'" "rd_now env' < d" "\<And>q. rd_fault env' q = None"
    and "200 \<le> fst answer" "fst answer < 300"
    and "json_Marshal env' \<lparr>Status = fst answer, Body = snd answer\<rparr> = Inr e"
  shows "bound (rd_now env') (rd_now env' + responseTTL) key fp (Some e) (finishIdempotent env' key answer R)"
proof -
  have l: "live (rd_now env') R (reserveKey key) = Some fp" using assms by (simp add: bound_def)
  then have "finishIdempotent env' key answer R =
      R(responseKey key \<mapsto> (e, Some (rd_now env' + responseTTL)), reserveKey key \<mapsto> (fp, Some (rd_now env' + responseTTL)))"
    using assms by (simp add: finishIdempotent_def SaveResponse_def bindE_def idem_unavailable_def SetKey_def
        Expire_def responseTTL_def)
  then show ?thesis by (auto simp: bound_def)
qed

end
