(* ===== verification/CacheTheorems.thy ===== *)
theory CacheTheorems
  imports Otp RateLimit Breaker Idempotency Sample
begin

text \<open>
  Properties of what is kept in Redis: the guesses against a one-time code, the requests of a window, the
  mutations under an idempotency key; and the circuit breaker in front of it.
\<close>

definition sample_otp :: "time \<Rightarrow> otp_env" where
  "sample_otp t = \<lparr>uuid_Parse = sample_Parse, uuid_String = sample_String,
     Numeric_Scan = sample_Scan, Numeric_Value = sample_Value, sha256_hex = (\<lambda>s. s),
     to_char_date = (\<lambda>_. ''20260101''), url_Parse = (\<lambda>s. Some (''https'', s)), newID = 1,
     rowID = of_nat, newV7 = of_nat, rand_token = Inr ''t'', clock_Now = t, fault = (\<lambda>_. None),
     rd_now = t, rd_fault = (\<lambda>_. None), rand_code = Inr 42\<rparr>"

lemma sample_otp_simps [simp]:
  "rd_now (sample_otp t) = t" "rd_fault (sample_otp t) q = None" "sha256_hex (sample_otp t) s = s"
  "rand_code (sample_otp t) = Inr 42"
  by (simp_all add: sample_otp_def)

lemma sample_code: "generateCode (sample_otp t) = Inr ''000042''"
  by (simp add: generateCode_def) code_simp

lemma sample_issue:
  "Issue (sample_otp t) p Map.empty = (Inr ''000042'',
     [cooldownKey p \<mapsto> (''1'', Some (t + Cooldown)),
      codeKey p \<mapsto> (p @ '':000042'', Some (t + CodeTTL)), attemptsKey p \<mapsto> (''0'', Some (t + CodeTTL))])"
  by (simp add: Issue_def bindE_def unavailable_def rd_cmd_def SetNX_def SetKey_def live_def hash_def
      sample_code [unfolded sample_otp_def] sample_code)

section \<open>One-time codes\<close>



text \<open>
  C16: Calls that overlap are not held to the bound: \<open>discard\<close> deletes the counter with the
  code, so a guess whose call had read the code before starts a new count. Seven calls that all
  read the code first, six wrong guesses and then the right one: the sixth is refused for too
  many attempts, and the seventh is accepted.
\<close>

theorem otp_limit_bypassed:
  assumes "Issue env phone R = (Inr code, R')"
    and "rd_now env \<le> rd_now env'" "rd_now env' < rd_now env + CodeTTL"
    and "\<And>q. rd_fault env' q = None" "hash env' phone = hash env phone"
    and "hash env phone wrong \<noteq> hash env phone code"
  shows "fst (overlap env' phone (replicate 6 wrong @ [code]) ([0..<7] @ [0..<7]) (replicate 7 Started, R'))
    = replicate 5 (Returned (Inl OtpMismatch)) @ [Returned (Inl OtpTooManyAttempts), Returned (Inr ())]"
proof -
  define t s where "t = rd_now env'" and "s = hash env phone code"
  note R = Issue_Inr [OF assms(1)]
  have code: "live t R' (codeKey phone) = Some s" and none: "live t R' (attemptsKey phone) = Some (int_text 0)"
    using R assms(2,3) by (simp_all add: t_def s_def)
  note read = read_step [OF code [unfolded t_def] assms(4)]
  note guess = wrong_step [where env = env' and p = phone and s = s and code = wrong, OF _ _ _ assms(4), folded t_def]
  obtain R1 where 1: "verify_step env' phone wrong (Holding s) R' = (Returned (Inl OtpMismatch), R1)"
    "live t R1 (attemptsKey phone) = Some (int_text 1)"
    using guess [OF none] assms(5,6) by (auto simp: s_def MaxAttempts_def)
  obtain R2 where 2: "verify_step env' phone wrong (Holding s) R1 = (Returned (Inl OtpMismatch), R2)"
    "live t R2 (attemptsKey phone) = Some (int_text 2)"
    using guess [OF 1(2)] assms(5,6) by (auto simp: s_def MaxAttempts_def)
  obtain R3 where 3: "verify_step env' phone wrong (Holding s) R2 = (Returned (Inl OtpMismatch), R3)"
    "live t R3 (attemptsKey phone) = Some (int_text 3)"
    using guess [OF 2(2)] assms(5,6) by (auto simp: s_def MaxAttempts_def)
  obtain R4 where 4: "verify_step env' phone wrong (Holding s) R3 = (Returned (Inl OtpMismatch), R4)"
    "live t R4 (attemptsKey phone) = Some (int_text 4)"
    using guess [OF 3(2)] assms(5,6) by (auto simp: s_def MaxAttempts_def)
  obtain R5 where 5: "verify_step env' phone wrong (Holding s) R4 = (Returned (Inl OtpMismatch), R5)"
    "live t R5 (attemptsKey phone) = Some (int_text 5)"
    using guess [OF 4(2)] assms(5,6) by (auto simp: s_def MaxAttempts_def)
  obtain R6 where 6: "verify_step env' phone wrong (Holding s) R5 = (Returned (Inl OtpTooManyAttempts), R6)"
    "live t R6 (attemptsKey phone) = None"
    using over_step [OF 5(2) [unfolded t_def] _ _ assms(4)] by (auto simp: t_def MaxAttempts_def is_int64_def)
  obtain R7 where 7: "verify_step env' phone code (Holding s) R6 = (Returned (Inr ()), R7)"
    using fresh_step [OF 6(2) [unfolded t_def] assms(4), of s code] assms(5) by (auto simp: s_def)
  have n: "[0..<7] = [0, 1, 2, 3, 4, 5, 6]" by (simp add: upt_rec)
  have "overlap env' phone (replicate 6 wrong @ [code]) [0..<7] (replicate 7 Started, R') = (replicate 7 (Holding s), R')"
    using read by (simp add: n numeral_eq_Suc)
  moreover have "fst (overlap env' phone (replicate 6 wrong @ [code]) [0..<7] (replicate 7 (Holding s), R'))
      = replicate 5 (Returned (Inl OtpMismatch)) @ [Returned (Inl OtpTooManyAttempts), Returned (Inr ())]"
    using 1(1) 2(1) 3(1) 4(1) 5(1) 6(1) 7 by (simp add: n numeral_eq_Suc)
  ultimately show ?thesis by (simp add: overlap_append)
qed

lemma otp_limit_bypassed_witness:
  "fst (overlap (sample_otp 10) ''998'' (replicate 6 ''1'' @ [''000042'']) ([0..<7] @ [0..<7])
     (replicate 7 Started, snd (Issue (sample_otp 0) ''998'' Map.empty)))
   = replicate 5 (Returned (Inl OtpMismatch)) @ [Returned (Inl OtpTooManyAttempts), Returned (Inr ())]"
proof -
  have i: "Issue (sample_otp 0) ''998'' Map.empty
      = (Inr ''000042'', snd (Issue (sample_otp 0) ''998'' Map.empty))" by (simp add: sample_issue)
  show ?thesis by (rule otp_limit_bypassed [OF i]) (simp_all add: CodeTTL_def seconds_def hash_def fun_eq_iff)
qed

section \<open>Rate limit\<close>

text \<open>
  C21: On one clock that does not go back, with a window of whole milliseconds and fewer than
  2^62 calls, the limiter answers every sequence of requests, of any callers, as the reference
  over the log of counted requests: in each window of the clock a caller's first \<open>limit\<close> counted
  requests are admitted and the later ones refused, and a request whose command failed gets the
  error. Hence no caller has more than \<open>limit\<close> requests admitted in a window.
\<close>

theorem rate_limit_exact:
  assumes "0 < window" "window mod 1000000 = 0" "0 \<le> t" "one_clock t cs" "int (length cs) < 2 ^ 62"
    and "\<And>key b. R (ratelimit_key key b) = None"
  shows "allows limit window cs R = limited limit window cs []"
  by (rule allows_limited [OF assms(1-3) _ assms(4)]) (use assms(5,6) in \<open>auto simp: shows_log_def\<close>)

lemma rate_limit_exact_witness:
  "allows 2 (seconds 1) (map (\<lambda>t. (sample_otp t, ''ip:1'')) [0, 1, 999999999, seconds 1]) Map.empty
   = [Inr True, Inr True, Inr False, Inr True]"
proof -
  have "allows 2 (seconds 1) (map (\<lambda>t. (sample_otp t, ''ip:1'')) [0, 1, 999999999, seconds 1]) Map.empty
     = limited 2 (seconds 1) (map (\<lambda>t. (sample_otp t, ''ip:1'')) [0, 1, 999999999, seconds 1]) []"
    by (rule rate_limit_exact [where t = 0]) (simp_all add: seconds_def sample_otp_def)
  then show ?thesis by (simp add: seconds_def window_of_def sample_otp_def)
qed

section \<open>Circuit breaker\<close>



section \<open>Idempotency keys\<close>


definition sample_mutation :: "time \<Rightarrow> time \<Rightarrow> string \<Rightarrow> nat mutation" where
  "sample_mutation t t' fp =
     (let env = (\<lambda>t. \<lparr>uuid_Parse = sample_Parse, uuid_String = sample_String,
        Numeric_Scan = sample_Scan, Numeric_Value = sample_Value, sha256_hex = (\<lambda>s. s),
        to_char_date = (\<lambda>_. ''20260101''), url_Parse = (\<lambda>s. Some (''https'', s)), newID = 1,
        rowID = of_nat, newV7 = of_nat, rand_token = Inr ''t'', clock_Now = t, fault = (\<lambda>_. None),
        rd_now = t, rd_fault = (\<lambda>_. None), json_Marshal = (\<lambda>r. Inr (Body r)),
        json_Unmarshal = (\<lambda>s. Inr \<lparr>Status = 201, Body = s\<rparr>)\<rparr>)
      in \<lparr>mt_begin = env t, mt_end = env t', mt_handler = (\<lambda>_ n. ((201, ''made''), n + 1)),
          mt_key = ''u:orders:create:k'', mt_fingerprint = fp\<rparr>)"

lemma sample_mutation_simps [simp]:
  "rd_now (mt_begin (sample_mutation t t' fp)) = t" "rd_now (mt_end (sample_mutation t t' fp)) = t'"
  "rd_fault (mt_begin (sample_mutation t t' fp)) q = None" "rd_fault (mt_end (sample_mutation t t' fp)) q = None"
  "json_Marshal (mt_end (sample_mutation t t' fp)) r = Inr (Body r)"
  "json_Unmarshal (mt_begin (sample_mutation t t' fp)) s = Inr \<lparr>Status = 201, Body = s\<rparr>"
  "mt_handler (sample_mutation t t' fp) k n = ((201, ''made''), n + 1)"
  "mt_key (sample_mutation t t' fp) = ''u:orders:create:k''" "mt_fingerprint (sample_mutation t t' fp) = fp"
  by (simp_all add: sample_mutation_def Let_def)


end
