(* ===== verification/Identity.thy ===== *)
theory Identity
  imports Otp Location
begin

text \<open>
  The module \<open>internal/modules/identity\<close>: accounts, sessions kept as refresh tokens, the service
  that issues them (\<open>service.go\<close>), its tables (\<open>repository.go\<close>, \<open>store\<close>) and the janitor.
  Nothing here runs in a transaction: every statement and every command of Redis is final.
\<close>

section \<open>State\<close>

record user_row =
  us_id :: uuid
  us_phone :: string
  us_status :: string
  us_is_operator :: bool
  us_created_at :: time
  us_last_login_at :: "time option"

record refresh_row =
  rt_id :: uuid
  rt_user_id :: uuid
  rt_token_hash :: string
  rt_issued_at :: time
  rt_expires_at :: time
  rt_revoked_at :: "time option"
  rt_rotated_from :: "uuid option"

record identity =
  users :: "user_row list"
  refresh_tokens :: "refresh_row list"

text \<open>What the module reads and writes: Redis, its two tables, and the owners (read only).\<close>

record session_db =
  cache :: keyspace
  accounts :: identity
  shop_owners :: "owner_row list"

text \<open>
  \<open>rand_refresh\<close> is what \<open>newRefreshToken\<close> returns, \<open>sha256_Sum256\<close> the bytes of a digest,
  \<open>sms_Send\<close> the error of the gateway, \<open>signer_Sign\<close> and \<open>signer_TTL\<close> the interface \<open>signer\<close>.
  A user id is \<open>newID\<close>, a token id \<open>rowID 0\<close>.
\<close>

record identity_env = otp_env +
  rand_refresh :: "string result"
  sha256_Sum256 :: "string \<Rightarrow> string"
  sms_Send :: "string \<Rightarrow> string \<Rightarrow> go_error option"
  signer_Sign :: "string \<Rightarrow> Role list \<Rightarrow> time \<Rightarrow> string result"
  signer_TTL :: time

definition StatusActive :: string where "StatusActive = ''active''"
definition StatusBlocked :: string where "StatusBlocked = ''blocked''"

definition RefreshTokenTTL :: time where "RefreshTokenTTL = seconds (30 * 24 * 3600)"

definition hashToken :: "'a identity_env_scheme \<Rightarrow> string \<Rightarrow> string" where
  "hashToken env token = sha256_Sum256 env token"

section \<open>Phone numbers\<close>

definition phonePattern :: "string \<Rightarrow> bool" where
  "phonePattern s \<longleftrightarrow> length s = 12 \<and> take 3 s = ''998'' \<and> list_all is_digit s"

definition NormalizePhone :: "string \<Rightarrow> string result" where
  "NormalizePhone raw =
     (let digits0 = filter is_digit (TrimSpace raw);
          digits = (if length digits0 = 9 then ''998'' @ digits0
                    else if length digits0 = 10 \<and> starts_with ''0'' digits0 then ''998'' @ drop 1 digits0
                    else digits0)
      in if \<not> phonePattern digits then Inl IdentityInvalidPhone else Inr digits)"

section \<open>Tables\<close>

definition user_chk :: "user_row \<Rightarrow> bool" where
  "user_chk u \<longleftrightarrow> us_status u \<in> {''active'', ''blocked''} \<and> phonePattern (us_phone u)"

definition refresh_chk :: "refresh_row \<Rightarrow> bool" where
  "refresh_chk t \<longleftrightarrow> rt_issued_at t < rt_expires_at t"

definition refresh_clash :: "refresh_row \<Rightarrow> refresh_row \<Rightarrow> bool" where
  "refresh_clash a b \<longleftrightarrow> rt_id a = rt_id b \<or> rt_token_hash a = rt_token_hash b"

definition UpsertUserByPhone ::
  "'a env_scheme \<Rightarrow> uuid \<Rightarrow> string \<Rightarrow> time \<Rightarrow> identity \<Rightarrow> ((user_row \<times> bool) \<times> identity) result" where
  "UpsertUserByPhone env i phone now d = stmt env ''UpsertUserByPhone''
     (case sql_one (\<lambda>u. us_phone u = phone) (users d) of
        Inl _ \<Rightarrow>
          let row = \<lparr>us_id = i, us_phone = phone, us_status = StatusActive, us_is_operator = False,
                     us_created_at = now, us_last_login_at = Some now\<rparr>
          in andThen (sql_insert user_chk (\<lambda>a b. us_id a = us_id b) True row (users d))
               (\<lambda>rows. Inr ((row, us_created_at row = now), d\<lparr>users := rows\<rparr>))
      | Inr _ \<Rightarrow>
          andThen (sql_update_one user_chk (\<lambda>u. us_phone u = phone) (\<lambda>u. u\<lparr>us_last_login_at := Some now\<rparr>) (users d))
            (\<lambda>(row, rows). Inr ((row, us_created_at row = now), d\<lparr>users := rows\<rparr>)))"

text \<open>\<open>(is_operator, is_seller)\<close>\<close>

definition GetUserRoles ::
  "'a env_scheme \<Rightarrow> uuid option \<Rightarrow> owner_row list \<Rightarrow> identity \<Rightarrow> (bool \<times> bool) result" where
  "GetUserRoles env userID ows d = stmt env ''GetUserRoles''
     (andThen (sql_one (\<lambda>u. Some (us_id u) = userID) (users d)) (\<lambda>u.
        Inr (us_is_operator u,
             list_ex (\<lambda>w. ow_user_id w = us_id u \<and> ow_status w = ''active'') ows)))"

definition InsertRefreshToken ::
  "'a env_scheme \<Rightarrow> uuid option \<Rightarrow> uuid option \<Rightarrow> string \<Rightarrow> time \<Rightarrow> time \<Rightarrow> uuid option \<Rightarrow> identity \<Rightarrow> identity result" where
  "InsertRefreshToken env i userID digest issued expires rotated d = stmt env ''InsertRefreshToken''
     (andThen (not_null i) (\<lambda>i. andThen (not_null userID) (\<lambda>userID.
        andThen (sql_insert refresh_chk refresh_clash
            (list_ex (\<lambda>u. us_id u = userID) (users d)
             \<and> (case rotated of None \<Rightarrow> True | Some r \<Rightarrow> list_ex (\<lambda>t. rt_id t = r) (refresh_tokens d)))
            \<lparr>rt_id = i, rt_user_id = userID, rt_token_hash = digest, rt_issued_at = issued,
             rt_expires_at = expires, rt_revoked_at = None, rt_rotated_from = rotated\<rparr>
            (refresh_tokens d))
          (\<lambda>rows. Inr (d\<lparr>refresh_tokens := rows\<rparr>)))))"

definition GetRefreshToken ::
  "'a env_scheme \<Rightarrow> string \<Rightarrow> identity \<Rightarrow> (refresh_row \<times> string) result" where
  "GetRefreshToken env digest d = stmt env ''GetRefreshToken''
     (andThen (sql_one (\<lambda>t. rt_token_hash t = digest) (refresh_tokens d)) (\<lambda>t.
      andThen (sql_one (\<lambda>u. us_id u = rt_user_id t) (users d)) (\<lambda>u. Inr (t, us_status u))))"

definition revoke_where :: "(refresh_row \<Rightarrow> bool) \<Rightarrow> time \<Rightarrow> identity \<Rightarrow> (nat \<times> identity) result" where
  "revoke_where P now d =
     andThen (sql_update refresh_chk (\<lambda>t. P t \<and> rt_revoked_at t = None) (\<lambda>t. t\<lparr>rt_revoked_at := Some now\<rparr>)
         (refresh_tokens d))
       (\<lambda>(n, rows). Inr (n, d\<lparr>refresh_tokens := rows\<rparr>))"

definition store_RevokeRefreshToken ::
  "'a env_scheme \<Rightarrow> uuid option \<Rightarrow> time \<Rightarrow> identity \<Rightarrow> (nat \<times> identity) result" where
  "store_RevokeRefreshToken env i now d = stmt env ''RevokeRefreshToken''
     (revoke_where (\<lambda>t. Some (rt_id t) = i) now d)"

definition store_RevokeAllUserTokens ::
  "'a env_scheme \<Rightarrow> uuid option \<Rightarrow> time \<Rightarrow> identity \<Rightarrow> (nat \<times> identity) result" where
  "store_RevokeAllUserTokens env userID now d = stmt env ''RevokeAllUserTokens''
     (revoke_where (\<lambda>t. Some (rt_user_id t) = userID) now d)"

text \<open>A row whose \<open>rotated_from\<close> is deleted has it set to NULL.\<close>

definition DeleteExpiredRefreshTokens ::
  "'a env_scheme \<Rightarrow> time \<Rightarrow> int \<Rightarrow> identity \<Rightarrow> (nat \<times> identity) result" where
  "DeleteExpiredRefreshTokens env cutoff batch d = stmt env ''DeleteExpiredRefreshTokens''
     (let kept = delete_oldest (\<lambda>t. Some (rt_expires_at t)) rt_id cutoff batch (refresh_tokens d)
      in Inr (length (refresh_tokens d) - length kept,
              d\<lparr>refresh_tokens := map (\<lambda>t. t\<lparr>rt_rotated_from := (case rt_rotated_from t of
                   None \<Rightarrow> None
                 | Some r \<Rightarrow> if list_ex (\<lambda>k. rt_id k = r) kept then Some r else None)\<rparr>) kept\<rparr>))"

section \<open>Repository\<close>

text \<open>
  A statement outside a transaction: it takes effect, or it fails and nothing changes. Ids cross
  the repository as text; they come from \<open>uuid.NewString\<close> and from the tables.
\<close>

definition auto_commit :: "(identity \<Rightarrow> ('a \<times> identity) result) \<Rightarrow> session_db \<Rightarrow> 'a result \<times> session_db" where
  "auto_commit m s = (case m (accounts s) of
     Inl e \<Rightarrow> (Inl e, s) | Inr (x, d) \<Rightarrow> (Inr x, s\<lparr>accounts := d\<rparr>))"

record User =
  User_ID :: string
  User_Phone :: string
  User_Status :: string
  User_CreatedAt :: time
  User_LastLoginAt :: "time option"

record RefreshRecord =
  RR_ID :: string
  RR_UserID :: string
  RR_TokenHash :: string
  RR_IssuedAt :: time
  RR_ExpiresAt :: time
  RR_RevokedAt :: "time option"
  RR_RotatedFrom :: "string option"
  RR_UserStatus :: string

definition UpsertUser ::
  "'a identity_env_scheme \<Rightarrow> string \<Rightarrow> time \<Rightarrow> session_db \<Rightarrow> (User \<times> bool) result \<times> session_db" where
  "UpsertUser env phone now =
     bindE (auto_commit (UpsertUserByPhone env (newID env) phone now))
       (\<lambda>(row, registered) s. (Inr (\<lparr>User_ID = uuid_String env (us_id row), User_Phone = us_phone row,
          User_Status = us_status row, User_CreatedAt = us_created_at row,
          User_LastLoginAt = us_last_login_at row\<rparr>, registered), s))"

text \<open>\<open>(Seller, Operator)\<close>\<close>

definition RolesFor :: "'a identity_env_scheme \<Rightarrow> string \<Rightarrow> session_db \<Rightarrow> (bool \<times> bool) result \<times> session_db" where
  "RolesFor env userID s =
     ((case GetUserRoles env (uuid_Parse env userID) (shop_owners s) (accounts s) of
         Inl e \<Rightarrow> if e = NoRows then Inr (False, False) else Inl e
       | Inr (is_operator, is_seller) \<Rightarrow> Inr (is_seller, is_operator)), s)"

definition StoreRefreshToken ::
  "'a identity_env_scheme \<Rightarrow> RefreshRecord \<Rightarrow> session_db \<Rightarrow> unit result \<times> session_db" where
  "StoreRefreshToken env rec =
     auto_commit (\<lambda>d. andThen (InsertRefreshToken env (uuid_Parse env (RR_ID rec)) (uuid_Parse env (RR_UserID rec))
       (RR_TokenHash rec) (RR_IssuedAt rec) (RR_ExpiresAt rec)
       (case RR_RotatedFrom rec of None \<Rightarrow> None | Some i \<Rightarrow> uuid_Parse env i) d) (\<lambda>d'. Inr ((), d')))"

definition FindRefreshToken ::
  "'a identity_env_scheme \<Rightarrow> string \<Rightarrow> session_db \<Rightarrow> RefreshRecord result \<times> session_db" where
  "FindRefreshToken env digest s =
     ((case GetRefreshToken env digest (accounts s) of
         Inl e \<Rightarrow> Inl (if e = NoRows then IdentityInvalidSession else e)
       | Inr (t, status) \<Rightarrow> Inr \<lparr>RR_ID = uuid_String env (rt_id t), RR_UserID = uuid_String env (rt_user_id t),
           RR_TokenHash = rt_token_hash t, RR_IssuedAt = rt_issued_at t, RR_ExpiresAt = rt_expires_at t,
           RR_RevokedAt = rt_revoked_at t, RR_RotatedFrom = map_option (uuid_String env) (rt_rotated_from t),
           RR_UserStatus = status\<rparr>), s)"

definition RevokeRefreshToken ::
  "'a identity_env_scheme \<Rightarrow> string \<Rightarrow> time \<Rightarrow> session_db \<Rightarrow> nat result \<times> session_db" where
  "RevokeRefreshToken env i now = auto_commit (store_RevokeRefreshToken env (uuid_Parse env i) now)"

definition RevokeAllUserTokens ::
  "'a identity_env_scheme \<Rightarrow> string \<Rightarrow> time \<Rightarrow> session_db \<Rightarrow> unit result \<times> session_db" where
  "RevokeAllUserTokens env userID now =
     bindE (auto_commit (store_RevokeAllUserTokens env (uuid_Parse env userID) now)) (\<lambda>_ s. (Inr (), s))"

definition PruneExpiredSessions ::
  "'a env_scheme \<Rightarrow> time \<Rightarrow> int \<Rightarrow> session_db \<Rightarrow> nat result \<times> session_db" where
  "PruneExpiredSessions env cutoff batch = auto_commit (DeleteExpiredRefreshTokens env cutoff batch)"

section \<open>Service\<close>

text \<open>A command of Redis, as a step of the module.\<close>

definition on_cache :: "(keyspace \<Rightarrow> 'a result \<times> keyspace) \<Rightarrow> session_db \<Rightarrow> 'a result \<times> session_db" where
  "on_cache m s = (case m (cache s) of (r, R) \<Rightarrow> (r, s\<lparr>cache := R\<rparr>))"

record Tokens =
  AccessToken :: string
  RefreshToken :: string
  ExpiresIn :: int

record Session =
  Session_Tokens :: Tokens
  IsNewUser :: bool

definition RequestCode :: "'a identity_env_scheme \<Rightarrow> string \<Rightarrow> session_db \<Rightarrow> unit result \<times> session_db" where
  "RequestCode env rawPhone =
     bindE (\<lambda>s. (NormalizePhone rawPhone, s)) (\<lambda>phone.
     bindE (\<lambda>s. case on_cache (Issue env phone) s of (r, s') \<Rightarrow>
         (mapErr (\<lambda>e. if e = OtpCooldown then IdentityCooldown else e) r, s')) (\<lambda>code s.
     case sms_Send env phone (''BINNO tasdiqlash kodi: '' @ code) of
       None \<Rightarrow> (Inr (), s)
     | Some err \<Rightarrow>
         if err = SmsUndeliverable then (Inl IdentityInvalidPhone, s)
         else (Inl err, snd (on_cache (Cancel env phone) s))))"

definition rolesFor :: "'a identity_env_scheme \<Rightarrow> string \<Rightarrow> session_db \<Rightarrow> Role list result \<times> session_db" where
  "rolesFor env userID =
     bindE (RolesFor env userID) (\<lambda>(seller, operator) s.
       (Inr ([RoleBuyer] @ (if seller then [RoleSeller] else []) @ (if operator then [RoleOperator] else [])), s))"

definition issue ::
  "'a identity_env_scheme \<Rightarrow> string \<Rightarrow> time \<Rightarrow> string option \<Rightarrow> session_db \<Rightarrow> Tokens result \<times> session_db" where
  "issue env userID now rotatedFrom =
     bindE (rolesFor env userID) (\<lambda>roles.
     bindE (\<lambda>s. (signer_Sign env userID roles now, s)) (\<lambda>access.
     bindE (\<lambda>s. (rand_refresh env, s)) (\<lambda>refresh.
     bindE (StoreRefreshToken env \<lparr>RR_ID = uuid_String env (rowID env 0), RR_UserID = userID,
         RR_TokenHash = hashToken env refresh, RR_IssuedAt = now, RR_ExpiresAt = now + RefreshTokenTTL,
         RR_RevokedAt = None, RR_RotatedFrom = rotatedFrom, RR_UserStatus = []\<rparr>) (\<lambda>_ s.
     (Inr \<lparr>AccessToken = access, RefreshToken = refresh,
           ExpiresIn = signer_TTL env sdiv 1000000000\<rparr>, s)))))"

definition VerifyCode ::
  "'a identity_env_scheme \<Rightarrow> string \<Rightarrow> string \<Rightarrow> session_db \<Rightarrow> Session result \<times> session_db" where
  "VerifyCode env rawPhone code =
     bindE (\<lambda>s. (NormalizePhone rawPhone, s)) (\<lambda>phone.
     bindE (\<lambda>s. case on_cache (Verify env phone code) s of (r, s') \<Rightarrow>
         (mapErr (\<lambda>e. if e \<in> {OtpNotFound, OtpMismatch, OtpTooManyAttempts} then IdentityInvalidCode else e) r, s'))
       (\<lambda>_. let now = clock_Now env in
     bindE (UpsertUser env phone now) (\<lambda>(user, registered).
       if User_Status user = StatusBlocked then (\<lambda>s. (Inl IdentityBlocked, s))
       else bindE (issue env (User_ID user) now None) (\<lambda>tokens s.
         (Inr \<lparr>Session_Tokens = tokens, IsNewUser = registered\<rparr>, s)))))"

definition Refresh :: "'a identity_env_scheme \<Rightarrow> string \<Rightarrow> session_db \<Rightarrow> Tokens result \<times> session_db" where
  "Refresh env presented =
     bindE (FindRefreshToken env (hashToken env presented)) (\<lambda>rec.
       let now = clock_Now env in
       if RR_RevokedAt rec \<noteq> None then
         bindE (RevokeAllUserTokens env (RR_UserID rec) now) (\<lambda>_ s. (Inl IdentityInvalidSession, s))
       else if RR_UserStatus rec = StatusBlocked then
         bindE (RevokeAllUserTokens env (RR_UserID rec) now) (\<lambda>_ s. (Inl IdentityBlocked, s))
       else if \<not> now < RR_ExpiresAt rec then (\<lambda>s. (Inl IdentityInvalidSession, s))
       else bindE (RevokeRefreshToken env (RR_ID rec) now) (\<lambda>rotated.
         if rotated = 0 then (\<lambda>s. (Inl IdentityInvalidSession, s))
         else issue env (RR_UserID rec) now (Some (RR_ID rec))))"

definition Logout :: "'a identity_env_scheme \<Rightarrow> string \<Rightarrow> session_db \<Rightarrow> unit result \<times> session_db" where
  "Logout env presented s =
     (case FindRefreshToken env (hashToken env presented) s of
        (Inl e, s') \<Rightarrow> (if e = IdentityInvalidSession then Inr () else Inl e, s')
      | (Inr rec, s') \<Rightarrow>
          bindE (RevokeRefreshToken env (RR_ID rec) (clock_Now env)) (\<lambda>_ s. (Inr (), s)) s')"

text \<open>The status of a response, by \<open>writeError\<close> of \<open>handler.go\<close>; other errors are the platform's.\<close>

definition identity_status :: "go_error \<Rightarrow> nat option" where
  "identity_status e =
     (if e = IdentityCooldown then Some 429
      else if e = IdentityInvalidPhone \<or> e = IdentityInvalidCode then Some 422
      else if e = IdentityInvalidSession then Some 401
      else if e = IdentityBlocked then Some 403
      else None)"

section \<open>Janitor\<close>

definition NewJanitor_Batch :: "int \<Rightarrow> int" where
  "NewJanitor_Batch batch = (if batch \<le> 0 then 1000 else batch)"

text \<open>
  One pass: iteration \<open>n\<close> reads the clock and the faults of \<open>envs n\<close>. \<open>None\<close> is a pass that does
  not return.
\<close>

partial_function (option) Janitor_loop ::
  "(nat \<Rightarrow> env) \<Rightarrow> int \<Rightarrow> nat \<Rightarrow> nat \<Rightarrow> session_db \<Rightarrow> ((nat \<times> go_error option) \<times> session_db) option" where
  "Janitor_loop envs batch n pruned s =
     (case PruneExpiredSessions (envs n) (clock_Now (envs n)) batch s of
        (Inl e, s') \<Rightarrow> Some ((pruned, Some e), s')
      | (Inr removed, s') \<Rightarrow>
          if int removed < batch then Some ((pruned + removed, None), s')
          else Janitor_loop envs batch (Suc n) (pruned + removed) s')"

declare Janitor_loop.simps [code]

definition Janitor_RunOnce ::
  "(nat \<Rightarrow> env) \<Rightarrow> int \<Rightarrow> session_db \<Rightarrow> ((nat \<times> go_error option) \<times> session_db) option" where
  "Janitor_RunOnce envs batch s = Janitor_loop envs (NewJanitor_Batch batch) 0 0 s"

section \<open>Requests\<close>

text \<open>
  The requests of the module, and what happens outside it: an operator of the database sets the
  status of an account or its operator mark, the owners change.
\<close>

datatype session_call =
    Req_RequestCode string
  | Req_VerifyCode string string
  | Req_Refresh string
  | Req_Logout string
  | Prune int
  | SetUser "user_row \<Rightarrow> bool" "string option" bool
  | SetOwners "owner_row list"

datatype session_answer = Got_Session Session | Got_Tokens Tokens | Got_Done

text \<open>An account changed by hand keeps its constraints; a status outside them is refused.\<close>

definition set_user :: "(user_row \<Rightarrow> bool) \<Rightarrow> string option \<Rightarrow> bool \<Rightarrow> identity \<Rightarrow> (nat \<times> identity) result" where
  "set_user P status op d =
     andThen (sql_update user_chk P (\<lambda>u. u\<lparr>us_status := (case status of None \<Rightarrow> us_status u | Some v \<Rightarrow> v),
         us_is_operator := op\<rparr>) (users d))
       (\<lambda>(n, rows). Inr (n, d\<lparr>users := rows\<rparr>))"

definition answered :: "('a \<Rightarrow> session_answer) \<Rightarrow> 'a result \<times> session_db \<Rightarrow> session_answer result \<times> session_db" where
  "answered f r = (andThen (fst r) (\<lambda>x. Inr (f x)), snd r)"

definition session_exec ::
  "'a identity_env_scheme \<times> session_call \<Rightarrow> session_db \<Rightarrow> session_answer result \<times> session_db" where
  "session_exec c s = (case c of
     (env, Req_RequestCode phone) \<Rightarrow> answered (\<lambda>_. Got_Done) (RequestCode env phone s)
   | (env, Req_VerifyCode phone code) \<Rightarrow> answered Got_Session (VerifyCode env phone code s)
   | (env, Req_Refresh token) \<Rightarrow> answered Got_Tokens (Refresh env token s)
   | (env, Req_Logout token) \<Rightarrow> answered (\<lambda>_. Got_Done) (Logout env token s)
   | (env, Prune batch) \<Rightarrow> answered (\<lambda>_. Got_Done) (PruneExpiredSessions env (clock_Now env) batch s)
   | (env, SetUser P status op) \<Rightarrow> answered (\<lambda>_. Got_Done) (auto_commit (set_user P status op) s)
   | (env, SetOwners ows) \<Rightarrow> (Inr Got_Done, s\<lparr>shop_owners := ows\<rparr>))"

end
