(* ===== verification/Sessions.thy ===== *)
theory Sessions
  imports Identity
begin

text \<open>
  What the requests of \<open>Identity\<close> keep: the constraints of its tables, the end of a spent token,
  the end of a user's sessions; and the termination of the janitor.
\<close>

section \<open>Keeping a condition on the tables\<close>

definition keeps :: "(identity \<Rightarrow> bool) \<Rightarrow> (session_db \<Rightarrow> 'r \<times> session_db) \<Rightarrow> bool" where
  "keeps P m \<longleftrightarrow> (\<forall>s. P (accounts s) \<longrightarrow> P (accounts (snd (m s))))"

named_theorems keeps_intros \<open>steps that keep a condition\<close>

lemma keepsD: "keeps P m \<Longrightarrow> P (accounts s) \<Longrightarrow> P (accounts (snd (m s)))"
  by (simp add: keeps_def)

lemma keeps_bind [keeps_intros]:
  assumes "keeps P m" "\<And>x. keeps P (f x)" shows "keeps P (bindE m f)"
  unfolding keeps_def
proof (intro allI impI)
  fix s :: session_db assume "P (accounts s)"
  then show "P (accounts (snd (bindE m f s)))"
    by (cases rule: bindE_cases [of m s f]) (use assms in \<open>auto simp: keeps_def dest: spec [of _ s]\<close>)
qed

lemma keeps_pure [keeps_intros]: "keeps P (\<lambda>s. (r s, s))" "keeps P (Pair x)"
  by (simp_all add: keeps_def)

lemma keeps_cache [keeps_intros]: "keeps P (on_cache m)"
  by (simp add: keeps_def on_cache_def split: prod.splits)

lemma keeps_cache_err [keeps_intros]: "keeps P (\<lambda>s. case on_cache m s of (r, s') \<Rightarrow> (mapErr g r, s'))"
  by (simp add: keeps_def on_cache_def split: prod.splits)

lemma keeps_auto_commit:
  assumes "\<And>d x d'. P d \<Longrightarrow> m d = Inr (x, d') \<Longrightarrow> P d'" shows "keeps P (auto_commit m)"
  unfolding keeps_def auto_commit_def using assms by (auto split: sum.splits)

lemma keeps_answered [keeps_intros]: "keeps P m \<Longrightarrow> keeps P (\<lambda>s. answered f (m s))"
  by (simp add: keeps_def answered_def)

lemma FindRefreshToken_state [simp]: "snd (FindRefreshToken env h s) = s"
  by (simp add: FindRefreshToken_def)

lemma keeps_read [keeps_intros]:
  "keeps P (FindRefreshToken env h)" "keeps P (RolesFor env u)"
  by (simp_all add: keeps_def FindRefreshToken_def RolesFor_def)

section \<open>The constraints of the tables\<close>

definition identity_inv :: "identity \<Rightarrow> bool" where
  "identity_inv d \<longleftrightarrow>
     distinct (map us_id (users d)) \<and> distinct (map us_phone (users d)) \<and> list_all user_chk (users d)
     \<and> distinct (map rt_id (refresh_tokens d)) \<and> distinct (map rt_token_hash (refresh_tokens d))
     \<and> list_all refresh_chk (refresh_tokens d)
     \<and> (\<forall>t \<in> set (refresh_tokens d). rt_user_id t \<in> us_id ` set (users d))
     \<and> (\<forall>t \<in> set (refresh_tokens d). \<forall>r. rt_rotated_from t = Some r \<longrightarrow> r \<in> rt_id ` set (refresh_tokens d))"

definition user_keys :: "identity \<Rightarrow> (uuid \<times> string) set" where
  "user_keys d = (\<lambda>u. (us_id u, us_phone u)) ` set (users d)"

lemma update_key_set:
  "(\<And>r. key (f r) = key r) \<Longrightarrow> key ` set (map (\<lambda>r. if p r then f r else r) rs) = key ` set rs"
  by (induction rs) auto

text \<open>What each statement does.\<close>

lemma Upsert_Inr:
  assumes "UpsertUserByPhone env i phone now d = Inr ((row, b), d')"
  shows "refresh_tokens d' = refresh_tokens d \<and> row \<in> set (users d') \<and> us_phone row = phone
    \<and> user_keys d \<subseteq> user_keys d'"
    and "identity_inv d \<Longrightarrow> identity_inv d'"
proof -
  have "refresh_tokens d' = refresh_tokens d \<and> row \<in> set (users d') \<and> us_phone row = phone
      \<and> user_keys d \<subseteq> user_keys d' \<and> (identity_inv d \<longrightarrow> identity_inv d')"
  proof (cases "sql_one (\<lambda>u. us_phone u = phone) (users d)")
    case (Inl e)
    then have new: "\<forall>u \<in> set (users d). us_phone u \<noteq> phone" by (simp add: sql_one_NoRows)
    have i: "row = \<lparr>us_id = i, us_phone = phone, us_status = StatusActive, us_is_operator = False,
        us_created_at = now, us_last_login_at = Some now\<rparr>"
      "user_chk row" "\<forall>u \<in> set (users d). us_id row \<noteq> us_id u" "d' = d\<lparr>users := users d @ [row]\<rparr>"
      using assms Inl by (auto simp: UpsertUserByPhone_def Let_def sql_simps go_simps list_ex_iff)
    then show ?thesis using new by (auto simp: identity_inv_def user_keys_def)
  next
    case (Inr u)
    then obtain r ps where i: "list_all (\<lambda>u. us_phone u = phone \<longrightarrow> user_chk (u\<lparr>us_last_login_at := Some now\<rparr>)) (users d)"
      "filter (\<lambda>u. us_phone u = phone) (users d) = r # ps" "row = r\<lparr>us_last_login_at := Some now\<rparr>"
      "d' = d\<lparr>users := map (\<lambda>u. if us_phone u = phone then u\<lparr>us_last_login_at := Some now\<rparr> else u) (users d)\<rparr>"
      using assms by (auto simp: UpsertUserByPhone_def sql_simps go_simps)
    let ?f = "\<lambda>u. if us_phone u = phone then u\<lparr>us_last_login_at := Some now\<rparr> else u"
    have keys: "us_id (?f u) = us_id u" "us_phone (?f u) = us_phone u" "user_chk u \<Longrightarrow> user_chk (?f u)" for u
      by (auto simp: user_chk_def)
    have r: "r \<in> set (users d)" "us_phone r = phone" using filter_first [OF i(2)] by simp_all
    have ids: "us_id ` set (map ?f (users d)) = us_id ` set (users d)" by (rule update_key_set) simp
    have "user_keys d' = user_keys d"
      unfolding user_keys_def i(4) by (simp del: set_map, rule update_key_set) simp
    moreover have maps: "map us_id (map ?f (users d)) = map us_id (users d)" "map us_phone (map ?f (users d)) = map us_phone (users d)"
      by (simp_all add: keys)
    moreover have chk: "list_all user_chk (users d) \<Longrightarrow> list_all user_chk (map ?f (users d))"
      using i(1) by (intro update_chk)
    moreover have "row \<in> set (users d')" using r i(3,4) by auto
    ultimately show ?thesis
      using i(3,4) r ids by (simp add: identity_inv_def del: set_map map_map)
  qed
  then show "refresh_tokens d' = refresh_tokens d \<and> row \<in> set (users d') \<and> us_phone row = phone
      \<and> user_keys d \<subseteq> user_keys d'" "identity_inv d \<Longrightarrow> identity_inv d'" by blast+
qed

lemma Insert_Inr:
  assumes "InsertRefreshToken env i u h a b rot d = Inr d'"
  obtains i' u' where "i = Some i'" "u = Some u'"
    "d' = d\<lparr>refresh_tokens := refresh_tokens d @ [\<lparr>rt_id = i', rt_user_id = u', rt_token_hash = h,
       rt_issued_at = a, rt_expires_at = b, rt_revoked_at = None, rt_rotated_from = rot\<rparr>]\<rparr>"
    "u' \<in> us_id ` set (users d)" "\<And>r. rot = Some r \<Longrightarrow> r \<in> rt_id ` set (refresh_tokens d)" "a < b"
    "i' \<notin> rt_id ` set (refresh_tokens d)" "h \<notin> rt_token_hash ` set (refresh_tokens d)"
  using assms
  by (auto simp: InsertRefreshToken_def sql_simps go_simps refresh_clash_def refresh_chk_def list_ex_iff
      image_iff split: option.splits)

lemma Insert_inv:
  assumes "InsertRefreshToken env i u h a b rot d = Inr d'" "identity_inv d" shows "identity_inv d'"
  using assms(1)
proof (rule Insert_Inr)
  fix i' u'
  assume "d' = d\<lparr>refresh_tokens := refresh_tokens d @ [\<lparr>rt_id = i', rt_user_id = u', rt_token_hash = h,
       rt_issued_at = a, rt_expires_at = b, rt_revoked_at = None, rt_rotated_from = rot\<rparr>]\<rparr>"
    "u' \<in> us_id ` set (users d)" "\<And>r. rot = Some r \<Longrightarrow> r \<in> rt_id ` set (refresh_tokens d)" "a < b"
    "i' \<notin> rt_id ` set (refresh_tokens d)" "h \<notin> rt_token_hash ` set (refresh_tokens d)"
  then show ?thesis using assms(2) by (auto simp: identity_inv_def refresh_chk_def)
qed

definition revoked_by :: "(refresh_row \<Rightarrow> bool) \<Rightarrow> time \<Rightarrow> refresh_row \<Rightarrow> refresh_row" where
  "revoked_by P now t = (if P t \<and> rt_revoked_at t = None then t\<lparr>rt_revoked_at := Some now\<rparr> else t)"

lemma revoked_by_simps [simp]:
  "rt_id (revoked_by P now t) = rt_id t" "rt_user_id (revoked_by P now t) = rt_user_id t"
  "rt_token_hash (revoked_by P now t) = rt_token_hash t"
  "rt_rotated_from (revoked_by P now t) = rt_rotated_from t"
  "refresh_chk (revoked_by P now t) = refresh_chk t"
  "rt_revoked_at t \<noteq> None \<Longrightarrow> revoked_by P now t = t"
  "P t \<Longrightarrow> rt_revoked_at (revoked_by P now t) \<noteq> None"
  by (auto simp: revoked_by_def refresh_chk_def)

lemma revoke_Inr:
  "revoke_where P now d = Inr (n, d') \<Longrightarrow>
     d' = d\<lparr>refresh_tokens := map (revoked_by P now) (refresh_tokens d)\<rparr>
     \<and> n = length (filter (\<lambda>t. P t \<and> rt_revoked_at t = None) (refresh_tokens d))"
  by (auto simp: revoke_where_def sql_simps go_simps revoked_by_def [abs_def])

lemma revoke_inv: "revoke_where P now d = Inr (n, d') \<Longrightarrow> identity_inv d \<Longrightarrow> identity_inv d'"
  by (drule revoke_Inr) (auto simp: identity_inv_def comp_def list_all_iff image_image)

lemma Delete_Inr:
  assumes "DeleteExpiredRefreshTokens env cutoff batch d = Inr (n, d')"
  obtains f kept where "kept = delete_oldest (\<lambda>t. Some (rt_expires_at t)) rt_id cutoff batch (refresh_tokens d)"
    "d' = d\<lparr>refresh_tokens := map f kept\<rparr>" "n = length (refresh_tokens d) - length kept"
    "\<And>t. f t = t\<lparr>rt_rotated_from := (case rt_rotated_from t of
       None \<Rightarrow> None | Some r \<Rightarrow> if list_ex (\<lambda>k. rt_id k = r) kept then Some r else None)\<rparr>"
  using assms by (auto simp: DeleteExpiredRefreshTokens_def Let_def sql_simps intro!: that)

lemma Delete_inv:
  assumes "DeleteExpiredRefreshTokens env cutoff batch d = Inr (n, d')" "identity_inv d"
  shows "identity_inv d'"
  using assms(1)
proof (rule Delete_Inr)
  fix f kept
  assume k: "kept = delete_oldest (\<lambda>t. Some (rt_expires_at t)) rt_id cutoff batch (refresh_tokens d)"
    and d': "d' = d\<lparr>refresh_tokens := map f kept\<rparr>"
    and f: "\<And>t. f t = t\<lparr>rt_rotated_from := (case rt_rotated_from t of
       None \<Rightarrow> None | Some r \<Rightarrow> if list_ex (\<lambda>k. rt_id k = r) kept then Some r else None)\<rparr>"
  have keys: "rt_id (f t) = rt_id t" "rt_token_hash (f t) = rt_token_hash t" "rt_user_id (f t) = rt_user_id t"
    "refresh_chk (f t) = refresh_chk t" for t by (simp_all add: f refresh_chk_def)
  have sub: "set kept \<subseteq> set (refresh_tokens d)" unfolding k by (rule delete_oldest_subset)
  have "distinct (map rt_id kept)" "distinct (map rt_token_hash kept)"
    unfolding k using assms(2) by (simp_all add: identity_inv_def delete_oldest_def Let_def distinct_map_filter)
  then show ?thesis
    using assms(2) sub keys
    by (auto simp: identity_inv_def d' comp_def list_all_iff image_image) (auto simp: f list_ex_iff image_iff split: option.splits if_splits)
qed

lemma set_user_inv:
  assumes "set_user P status op d = Inr (n, d')" "identity_inv d"
  shows "identity_inv d'" "refresh_tokens d' = refresh_tokens d" "user_keys d' = user_keys d"
proof -
  let ?f = "\<lambda>u. if P u then u\<lparr>us_status := (case status of None \<Rightarrow> us_status u | Some v \<Rightarrow> v), us_is_operator := op\<rparr> else u"
  have d': "d' = d\<lparr>users := map ?f (users d)\<rparr>" and chk: "list_all user_chk (map ?f (users d))"
    using assms update_chk [of user_chk "users d" P]
    by (auto simp: set_user_def sql_simps go_simps identity_inv_def)
  have keys: "us_id (?f u) = us_id u" "us_phone (?f u) = us_phone u" for u by simp_all
  have "map us_id (map ?f (users d)) = map us_id (users d)" "map us_phone (map ?f (users d)) = map us_phone (users d)"
    by (simp_all add: keys)
  moreover have "us_id ` set (map ?f (users d)) = us_id ` set (users d)" by (rule update_key_set) simp
  moreover show "user_keys d' = user_keys d"
    unfolding user_keys_def d' by (simp del: set_map, rule update_key_set) simp
  ultimately show "identity_inv d'" "refresh_tokens d' = refresh_tokens d"
    using assms(2) d' chk by (simp_all add: identity_inv_def del: map_map set_map)
qed

section \<open>What a request may write\<close>

lemma auto_commit_accounts:
  "accounts (snd (auto_commit m s)) = accounts s
   \<or> (\<exists>x d. m (accounts s) = Inr (x, d) \<and> auto_commit m s = (Inr x, s\<lparr>accounts := d\<rparr>))"
  by (auto simp: auto_commit_def split: sum.splits)

lemma rolesFor_state: "snd (rolesFor env u s) = s"
  by (auto simp: rolesFor_def bindE_def RolesFor_def split: prod.splits sum.splits)

text \<open>Issuing a session writes one token, or nothing.\<close>

lemma issue_accounts:
  "accounts (snd (issue env u now rot s)) = accounts s
   \<or> (\<exists>token i from d. rand_refresh env = Inr token
        \<and> InsertRefreshToken env i (uuid_Parse env u) (hashToken env token) now (now + RefreshTokenTTL) from
            (accounts s) = Inr d
        \<and> accounts (snd (issue env u now rot s)) = d)"
proof (cases rule: outcome_cases [of "rolesFor env u s"])
  case (failed e s')
  then show ?thesis using rolesFor_state [of env u s] by (simp add: issue_def)
next
  case (went_on roles s')
  then have s': "s' = s" using rolesFor_state [of env u s] by simp
  show ?thesis
  proof (cases "\<exists>a r. signer_Sign env u roles now = Inr a \<and> rand_refresh env = Inr r")
    case False
    then show ?thesis using went_on s' by (auto simp: issue_def bindE_def split: sum.splits)
  next
    case True
    then obtain a r where ar: "signer_Sign env u roles now = Inr a" "rand_refresh env = Inr r" by blast
    then show ?thesis using went_on s'
      by (auto simp: issue_def bindE_def StoreRefreshToken_def auto_commit_def andThen_def
          split: sum.splits prod.splits)
  qed
qed

text \<open>
  A condition that every statement keeps, for the requests allowed by \<open>ok\<close>: those that issue a
  session must keep it with the token they insert.
\<close>

locale table_condition =
  fixes Q :: "identity \<Rightarrow> bool"
    and ok :: "identity_env \<Rightarrow> session_call \<Rightarrow> bool"
  assumes ok_ids: "ok env c \<Longrightarrow> lossless_ids env"
    and upsert_Q: "Q d \<Longrightarrow> UpsertUserByPhone env i phone now d = Inr ((row, b), d') \<Longrightarrow> Q d'"
    and revoke_Q: "Q d \<Longrightarrow> revoke_where P now d = Inr (n, d') \<Longrightarrow> Q d'"
    and delete_Q: "Q d \<Longrightarrow> DeleteExpiredRefreshTokens env cutoff batch d = Inr (k, d') \<Longrightarrow> Q d'"
    and set_Q: "Q d \<Longrightarrow> set_user P' status op d = Inr (k, d') \<Longrightarrow> Q d'"
    and login_Q: "Q d \<Longrightarrow> ok env (Req_VerifyCode raw code) \<Longrightarrow> NormalizePhone raw = Inr phone \<Longrightarrow>
      UpsertUserByPhone env i phone now d = Inr ((row, b), d') \<Longrightarrow> rand_refresh env = Inr token \<Longrightarrow>
      InsertRefreshToken env x (Some (us_id row)) (hashToken env token) issued expires from d' = Inr d'' \<Longrightarrow> Q d''"
    and refresh_Q: "Q d \<Longrightarrow> ok env (Req_Refresh presented) \<Longrightarrow> t \<in> set (refresh_tokens d) \<Longrightarrow>
      rt_revoked_at t = None \<Longrightarrow> revoke_where P now d = Inr (n, d') \<Longrightarrow> rand_refresh env = Inr token \<Longrightarrow>
      InsertRefreshToken env x (Some (rt_user_id t)) (hashToken env token) issued expires from d' = Inr d'' \<Longrightarrow> Q d''"
begin

lemma keeps_revoke [keeps_intros]:
  "keeps Q (RevokeRefreshToken env i now)" "keeps Q (RevokeAllUserTokens env u now)"
  unfolding RevokeRefreshToken_def RevokeAllUserTokens_def
    store_RevokeRefreshToken_def store_RevokeAllUserTokens_def
  by (intro keeps_intros keeps_auto_commit; auto simp: stmt_eq_Inr dest: revoke_Q)+

lemma keeps_Logout: "keeps Q (Logout env token)"
  unfolding keeps_def
proof (intro allI impI)
  fix s :: session_db assume "Q (accounts s)"
  then show "Q (accounts (snd (Logout env token s)))"
    by (auto simp: Logout_def FindRefreshToken_def split: sum.splits
        intro!: keepsD [OF keeps_bind [OF keeps_revoke(1) keeps_pure(2)]])
qed

lemma keeps_RequestCode: "keeps Q (RequestCode env phone)"
proof -
  have "keeps Q (\<lambda>s. case sms_Send env phone (''BINNO tasdiqlash kodi: '' @ code) of
       None \<Rightarrow> (Inr (), s)
     | Some err \<Rightarrow>
         if err = SmsUndeliverable then (Inl IdentityInvalidPhone, s)
         else (Inl err, snd (on_cache (Cancel env phone) s)))" for phone code
    using keepsD [OF keeps_cache] by (auto simp: keeps_def split: option.splits)
  then show ?thesis unfolding RequestCode_def by (intro keeps_intros)
qed

lemma keeps_VerifyCode:
  assumes "ok env (Req_VerifyCode raw code)" "Q (accounts s)"
  shows "Q (accounts (snd (VerifyCode env raw code s)))"
proof (cases "NormalizePhone raw")
  case (Inl e)
  then show ?thesis using assms(2) by (simp add: VerifyCode_def bindE_def)
next
  case (Inr phone)
  obtain r s1 where v: "(case on_cache (Verify env phone code) s of (r, s') \<Rightarrow>
         (mapErr (\<lambda>e. if e \<in> {OtpNotFound, OtpMismatch, OtpTooManyAttempts} then IdentityInvalidCode else e) r, s')) = (r, s1)"
    by fastforce
  have a1: "accounts s1 = accounts s" using v by (auto simp: on_cache_def split: prod.splits)
  show ?thesis
  proof (cases r)
    case (Inl e)
    then show ?thesis using v a1 assms(2) \<open>NormalizePhone raw = Inr phone\<close> by (simp add: VerifyCode_def bindE_def)
  next
    case (Inr x)
    let ?now = "clock_Now env"
    have step: "snd (VerifyCode env raw code s) = snd (bindE (UpsertUser env phone ?now) (\<lambda>(user, registered).
       if User_Status user = StatusBlocked then (\<lambda>s. (Inl IdentityBlocked, s))
       else bindE (issue env (User_ID user) ?now None) (\<lambda>tokens s.
         (Inr \<lparr>Session_Tokens = tokens, IsNewUser = registered\<rparr>, s))) s1)"
      using v Inr \<open>NormalizePhone raw = Inr phone\<close> by (simp add: VerifyCode_def bindE_def Let_def)
    show ?thesis
    proof (cases "UpsertUserByPhone env (newID env) phone ?now (accounts s1)")
      case (Inl e)
      then show ?thesis using a1 assms(2) unfolding step by (simp add: UpsertUser_def bindE_def auto_commit_def)
    next
      case (Inr y)
      then obtain row b d where u: "UpsertUserByPhone env (newID env) phone ?now (accounts s) = Inr ((row, b), d)"
        using a1 by (cases y) auto
      let ?s = "s1\<lparr>accounts := d\<rparr>" and ?u = "uuid_String env (us_id row)"
      have id: "uuid_Parse env ?u = Some (us_id row)" using ok_ids [OF assms(1)] by simp
      have "accounts (snd (VerifyCode env raw code s)) = d
        \<or> accounts (snd (VerifyCode env raw code s)) = accounts (snd (issue env ?u ?now None ?s))"
        unfolding step using u a1
        by (auto simp: UpsertUser_def bindE_def auto_commit_def split: sum.splits prod.splits)
      moreover have "Q d" using upsert_Q [OF assms(2) u] .
      moreover have "Q (accounts (snd (issue env ?u ?now None ?s)))"
        using issue_accounts [of env ?u ?now None ?s] login_Q [OF assms(2,1) \<open>NormalizePhone raw = Inr phone\<close> u]
          \<open>Q d\<close> id by auto
      ultimately show ?thesis by auto
    qed
  qed
qed

lemma keeps_Refresh:
  assumes "ok env (Req_Refresh presented)" "Q (accounts s)"
  shows "Q (accounts (snd (Refresh env presented s)))"
proof (cases "GetRefreshToken env (hashToken env presented) (accounts s)")
  case (Inl e)
  then show ?thesis using assms(2) by (simp add: Refresh_def bindE_def FindRefreshToken_def)
next
  case (Inr y)
  then obtain t st where g: "GetRefreshToken env (hashToken env presented) (accounts s) = Inr (t, st)" by (cases y) auto
  then have t: "t \<in> set (refresh_tokens (accounts s))"
    by (auto simp: GetRefreshToken_def stmt_eq_Inr go_simps dest: sql_one_Inr)
  have keepall: "Q (accounts (snd (bindE (RevokeAllUserTokens env u now) (\<lambda>_ s. (Inl e, s)) s)))" for u now and e :: go_error
    using keepsD [OF keeps_bind [OF keeps_revoke(2) keeps_pure(2)] assms(2)] .
  let ?now = "clock_Now env" and ?i = "uuid_String env (rt_id t)" and ?u = "uuid_String env (rt_user_id t)"
  obtain rec where f: "FindRefreshToken env (hashToken env presented) s = (Inr rec, s)"
    and rec: "RR_ID rec = ?i" "RR_UserID rec = ?u" "RR_ExpiresAt rec = rt_expires_at t"
      "RR_RevokedAt rec = rt_revoked_at t" "RR_UserStatus rec = st"
    using g by (simp add: FindRefreshToken_def)
  have found: "bindE (FindRefreshToken env (hashToken env presented)) g s = g rec s" for g by (simp add: f)
  show ?thesis
  proof (cases "rt_revoked_at t \<noteq> None \<or> st = StatusBlocked \<or> \<not> ?now < rt_expires_at t")
    case True
    then show ?thesis using keepall assms(2) rec by (auto simp: Refresh_def found Let_def)
  next
    case False
    then have step: "snd (Refresh env presented s) = snd (bindE (RevokeRefreshToken env ?i ?now) (\<lambda>rotated.
         if rotated = 0 then (\<lambda>s. (Inl IdentityInvalidSession, s))
         else issue env ?u ?now (Some ?i)) s)"
      using rec by (simp add: Refresh_def found Let_def cong: if_cong)
    show ?thesis
    proof (cases "store_RevokeRefreshToken env (uuid_Parse env ?i) ?now (accounts s)")
      case (Inl e)
      then show ?thesis unfolding step using assms(2) by (simp add: bindE_def RevokeRefreshToken_def auto_commit_def)
    next
      case (Inr y)
      then obtain n d where d: "store_RevokeRefreshToken env (uuid_Parse env ?i) ?now (accounts s) = Inr (n, d)"
        by (cases y) auto
      then have r: "revoke_where (\<lambda>t. Some (rt_id t) = uuid_Parse env ?i) ?now (accounts s) = Inr (n, d)"
        by (simp add: store_RevokeRefreshToken_def stmt_eq_Inr)
      note qd = revoke_Q [OF assms(2) r]
      have id: "uuid_Parse env ?u = Some (rt_user_id t)" using ok_ids [OF assms(1)] by simp
      have "Q (accounts (snd (issue env ?u ?now (Some ?i) (s\<lparr>accounts := d\<rparr>))))"
        using issue_accounts [of env ?u ?now "Some ?i" "s\<lparr>accounts := d\<rparr>"]
          refresh_Q [OF assms(2,1) t _ r] False qd id by auto
      then show ?thesis unfolding step using d qd by (simp add: bindE_def RevokeRefreshToken_def auto_commit_def)
    qed
  qed
qed

lemma exec_Q: "Q (accounts s) \<Longrightarrow> ok env c \<Longrightarrow> Q (accounts (snd (session_exec (env, c) s)))"
proof (cases c)
  case (Prune batch)
  assume "Q (accounts s)"
  then have "Q (accounts (snd (PruneExpiredSessions env (clock_Now env) batch s)))"
    unfolding PruneExpiredSessions_def by (rule keepsD [OF keeps_auto_commit, rotated]) (rule delete_Q)
  then show ?thesis using Prune by (simp add: session_exec_def answered_def)
next
  case (SetUser P status op)
  assume "Q (accounts s)"
  then have "Q (accounts (snd (auto_commit (set_user P status op) s)))"
    by (rule keepsD [OF keeps_auto_commit, rotated]) (rule set_Q)
  then show ?thesis using SetUser by (simp add: session_exec_def answered_def)
qed (auto simp: session_exec_def answered_def keeps_VerifyCode keeps_Refresh
     keepsD [OF keeps_Logout] keepsD [OF keeps_RequestCode])

end

sublocale table_condition \<subseteq> tx_guarded session_exec "\<lambda>_ (env, c). ok env c" "\<lambda>s. Q (accounts s)"
  by unfold_locales (auto intro: exec_Q)

section \<open>Conditions\<close>

text \<open>Every request keeps the constraints of the tables.\<close>

interpretation tables: table_condition identity_inv "\<lambda>env c. lossless_ids env"
  by unfold_locales
    (auto dest: Upsert_Inr(2) revoke_inv Delete_inv set_user_inv(1) Insert_inv)

text \<open>\<open>spent h\<close>: no token with digest \<open>h\<close> can be used.\<close>

definition spent :: "string \<Rightarrow> identity \<Rightarrow> bool" where
  "spent h d \<longleftrightarrow> (\<forall>t \<in> set (refresh_tokens d). rt_token_hash t = h \<longrightarrow> rt_revoked_at t \<noteq> None)"

definition draws_other :: "string \<Rightarrow> 'a identity_env_scheme \<Rightarrow> bool" where
  "draws_other h env \<longleftrightarrow> (\<forall>token. rand_refresh env = Inr token \<longrightarrow> hashToken env token \<noteq> h)"

lemma revoke_all: "revoke_where P now d = Inr (n, d') \<Longrightarrow> t' \<in> set (refresh_tokens d') \<Longrightarrow>
    \<exists>t \<in> set (refresh_tokens d). t' = revoked_by P now t"
  by (drule revoke_Inr) auto

lemma Delete_rows:
  assumes "DeleteExpiredRefreshTokens env cutoff batch d = Inr (n, d')" "t' \<in> set (refresh_tokens d')"
  shows "\<exists>t \<in> set (refresh_tokens d). rt_id t' = rt_id t \<and> rt_user_id t' = rt_user_id t
    \<and> rt_token_hash t' = rt_token_hash t \<and> rt_revoked_at t' = rt_revoked_at t"
  using assms(1)
proof (rule Delete_Inr)
  fix f kept
  assume k: "kept = delete_oldest (\<lambda>t. Some (rt_expires_at t)) rt_id cutoff batch (refresh_tokens d)"
    and d': "d' = d\<lparr>refresh_tokens := map f kept\<rparr>"
    and f: "\<And>t. f t = t\<lparr>rt_rotated_from := (case rt_rotated_from t of
       None \<Rightarrow> None | Some r \<Rightarrow> if list_ex (\<lambda>k. rt_id k = r) kept then Some r else None)\<rparr>"
  from assms(2) d' obtain t where "t \<in> set kept" "t' = f t" by auto
  moreover have "set kept \<subseteq> set (refresh_tokens d)" unfolding k by (rule delete_oldest_subset)
  ultimately show ?thesis using f by (intro bexI [of _ t]) auto
qed

lemma revoked_stays: "rt_revoked_at t \<noteq> None \<Longrightarrow> rt_revoked_at (revoked_by P now t) \<noteq> None"
  by (simp add: revoked_by_def)

lemma spent_revoke: "revoke_where P now d = Inr (n, d') \<Longrightarrow> spent h d \<Longrightarrow> spent h d'"
  unfolding spent_def using revoke_all revoked_stays revoked_by_simps(3) by metis

lemma spent_insert:
  assumes "InsertRefreshToken env i u k a b rot d = Inr d'" "spent h d" "k \<noteq> h" shows "spent h d'"
  using assms(1) by (rule Insert_Inr) (use assms(2,3) in \<open>auto simp: spent_def\<close>)

lemma spent_same: "refresh_tokens d' = refresh_tokens d \<Longrightarrow> spent h d' = spent h d"
  by (simp add: spent_def)

interpretation token_spent: table_condition "spent h" "\<lambda>env c. lossless_ids env \<and> draws_other h env" for h
proof unfold_locales
  fix d d' :: identity and env :: identity_env and i phone now row b
  assume "spent h d" "UpsertUserByPhone env i phone now d = Inr ((row, b), d')"
  then show "spent h d'" using Upsert_Inr(1) spent_same by metis
next
  fix d d' :: identity and env :: identity_env and cutoff batch k
  assume "spent h d" "DeleteExpiredRefreshTokens env cutoff batch d = Inr (k, d')"
  then show "spent h d'" unfolding spent_def using Delete_rows by metis
next
  fix d d' :: identity and P status op k
  assume "spent h d" "set_user P status op d = Inr (k, d')"
  then show "spent h d'" by (auto simp: set_user_def sql_simps go_simps spent_def)
next
  fix d d' d'' :: identity and env :: identity_env and raw code phone i now row b token x issued expires "from"
  assume a: "spent h d" "lossless_ids env \<and> draws_other h env"
    "UpsertUserByPhone env i phone now d = Inr ((row, b), d')" "rand_refresh env = Inr token"
    "InsertRefreshToken env x (Some (us_id row)) (hashToken env token) issued expires from d' = Inr d''"
  then have "spent h d'" using Upsert_Inr(1) spent_same by metis
  then show "spent h d''" using a spent_insert by (auto simp: draws_other_def)
next
  fix d d' d'' :: identity and env :: identity_env and presented t P now n token x issued expires "from"
  assume a: "spent h d" "lossless_ids env \<and> draws_other h env"
    "revoke_where P now d = Inr (n, d')" "rand_refresh env = Inr token"
    "InsertRefreshToken env x (Some (rt_user_id t)) (hashToken env token) issued expires from d' = Inr d''"
  then show "spent h d''" using spent_insert [OF a(5) spent_revoke [OF a(3,1)]] by (simp add: draws_other_def)
qed (auto dest: spent_revoke)

text \<open>\<open>signed_out u phone\<close>: the user \<open>u\<close>, who has this phone, has no session left.\<close>

definition signed_out :: "uuid \<Rightarrow> string \<Rightarrow> identity \<Rightarrow> bool" where
  "signed_out u phone d \<longleftrightarrow> identity_inv d \<and> (u, phone) \<in> user_keys d
     \<and> (\<forall>t \<in> set (refresh_tokens d). rt_user_id t = u \<longrightarrow> rt_revoked_at t \<noteq> None)"

definition signs_in :: "string \<Rightarrow> session_call \<Rightarrow> bool" where
  "signs_in phone c \<longleftrightarrow> (case c of Req_VerifyCode raw code \<Rightarrow> NormalizePhone raw = Inr phone | _ \<Rightarrow> False)"

lemma signed_out_insert:
  assumes "InsertRefreshToken env i (Some v) k a b rot d = Inr d'" "signed_out u phone d" "v \<noteq> u"
  shows "signed_out u phone d'"
proof -
  have "identity_inv d'" using Insert_inv assms(1,2) unfolding signed_out_def by blast
  show ?thesis using assms(1)
    by (rule Insert_Inr) (use assms(2,3) \<open>identity_inv d'\<close> in \<open>auto simp: signed_out_def user_keys_def\<close>)
qed

lemma signed_out_revoke:
  assumes "revoke_where P now d = Inr (n, d')" "signed_out u phone d" shows "signed_out u phone d'"
proof -
  have "user_keys d' = user_keys d" using revoke_Inr [OF assms(1)] by (simp add: user_keys_def)
  moreover have "rt_revoked_at t' \<noteq> None" if "t' \<in> set (refresh_tokens d')" "rt_user_id t' = u" for t'
    using revoke_all [OF assms(1) that(1)] assms(2) that(2) revoked_stays unfolding signed_out_def by force
  ultimately show ?thesis using assms revoke_inv unfolding signed_out_def by auto
qed

lemma signed_out_upsert:
  assumes "UpsertUserByPhone env i q now d = Inr ((row, b), d')" "signed_out u phone d"
  shows "signed_out u phone d'" "q \<noteq> phone \<Longrightarrow> us_id row \<noteq> u"
proof -
  note up = Upsert_Inr [OF assms(1)]
  have inv: "identity_inv d'" using up(2) assms(2) by (simp add: signed_out_def)
  have kept: "(u, phone) \<in> user_keys d'" using up(1) assms(2) by (auto simp: signed_out_def)
  then show "signed_out u phone d'" using inv up(1) assms(2) by (simp add: signed_out_def)
  show "us_id row \<noteq> u" if "q \<noteq> phone"
  proof
    assume "us_id row = u"
    moreover obtain y where "y \<in> set (users d')" "us_id y = u" "us_phone y = phone"
      using kept by (auto simp: user_keys_def)
    ultimately have "row = y" using up(1) inv by (metis identity_inv_def distinct_map inj_onD)
    then show False using that up(1) \<open>us_phone y = phone\<close> by simp
  qed
qed

interpretation user_out: table_condition "signed_out u phone" "\<lambda>env c. lossless_ids env \<and> \<not> signs_in phone c" for u phone
proof unfold_locales
  fix d d' :: identity and env :: identity_env and i phone' now row b
  assume "signed_out u phone d" "UpsertUserByPhone env i phone' now d = Inr ((row, b), d')"
  then show "signed_out u phone d'" using signed_out_upsert by blast
next
  fix d d' :: identity and env :: identity_env and cutoff batch k
  assume a: "signed_out u phone d" "DeleteExpiredRefreshTokens env cutoff batch d = Inr (k, d')"
  then have "users d' = users d" by (auto elim: Delete_Inr)
  then have "user_keys d' = user_keys d" by (simp add: user_keys_def)
  then show "signed_out u phone d'" using a Delete_inv Delete_rows [OF a(2)] unfolding signed_out_def by metis
next
  fix d d' :: identity and P status op k
  assume a: "signed_out u phone d" "set_user P status op d = Inr (k, d')"
  then have "identity_inv d'" "refresh_tokens d' = refresh_tokens d" "user_keys d' = user_keys d"
    using set_user_inv [OF a(2)] by (simp_all add: signed_out_def)
  then show "signed_out u phone d'" using a(1) by (simp add: signed_out_def)
next
  fix d d' d'' :: identity and env :: identity_env and raw code q i now row b token x issued expires "from"
  assume a: "signed_out u phone d" "lossless_ids env \<and> \<not> signs_in phone (Req_VerifyCode raw code)"
    "NormalizePhone raw = Inr q" "UpsertUserByPhone env i q now d = Inr ((row, b), d')"
    "InsertRefreshToken env x (Some (us_id row)) (hashToken env token) issued expires from d' = Inr d''"
  then have "q \<noteq> phone" by (auto simp: signs_in_def)
  then show "signed_out u phone d''" using signed_out_insert [OF a(5)] signed_out_upsert [OF a(4,1)] by blast
next
  fix d d' d'' :: identity and env :: identity_env and presented t P now n token x issued expires "from"
  assume a: "signed_out u phone d" "t \<in> set (refresh_tokens d)" "rt_revoked_at t = None"
    "revoke_where P now d = Inr (n, d')"
    "InsertRefreshToken env x (Some (rt_user_id t)) (hashToken env token) issued expires from d' = Inr d''"
  then have "rt_user_id t \<noteq> u" by (auto simp: signed_out_def)
  then show "signed_out u phone d''" using signed_out_insert [OF a(5)] signed_out_revoke [OF a(4,1)] by blast
qed (auto dest: signed_out_revoke)

section \<open>What a successful request did\<close>

lemma issue_Inr:
  assumes "issue env u now rot s = (Inr tk, s')"
  obtains roles access token rotated d where "fst (rolesFor env u s) = Inr roles"
    "signer_Sign env u roles now = Inr access" "rand_refresh env = Inr token"
    "InsertRefreshToken env (uuid_Parse env (uuid_String env (rowID env 0))) (uuid_Parse env u)
       (hashToken env token) now (now + RefreshTokenTTL) rotated (accounts s) = Inr d"
    "rotated = (case rot of None \<Rightarrow> None | Some i \<Rightarrow> uuid_Parse env i)"
    "s' = s\<lparr>accounts := d\<rparr>"
    "tk = \<lparr>AccessToken = access, RefreshToken = token, ExpiresIn = signer_TTL env sdiv 1000000000\<rparr>"
proof -
  obtain roles s1 access token where r: "rolesFor env u s = (Inr roles, s1)" "signer_Sign env u roles now = Inr access"
    "rand_refresh env = Inr token"
    "tk = \<lparr>AccessToken = access, RefreshToken = token, ExpiresIn = signer_TTL env sdiv 1000000000\<rparr>"
    "StoreRefreshToken env \<lparr>RR_ID = uuid_String env (rowID env 0), RR_UserID = u,
         RR_TokenHash = hashToken env token, RR_IssuedAt = now, RR_ExpiresAt = now + RefreshTokenTTL,
         RR_RevokedAt = None, RR_RotatedFrom = rot, RR_UserStatus = []\<rparr> s1 = (Inr (), s')"
    using assms by (auto simp: issue_def bindE_Inr)
  moreover have "s1 = s" using rolesFor_state [of env u s] r(1) by simp
  ultimately show ?thesis
    by (auto simp: StoreRefreshToken_def auto_commit_def go_simps split: sum.splits intro!: that)
qed

lemma GetRefreshToken_Inr:
  assumes "GetRefreshToken env h d = Inr (t, st)"
  shows "t \<in> set (refresh_tokens d) \<and> rt_token_hash t = h
    \<and> (\<exists>x \<in> set (users d). us_id x = rt_user_id t \<and> us_status x = st)"
  using assms by (auto simp: GetRefreshToken_def stmt_eq_Inr go_simps dest!: sql_one_Inr)

text \<open>The row of a digest is unique, and so is its user.\<close>

lemma GetRefreshToken_found:
  assumes "identity_inv d" "t \<in> set (refresh_tokens d)" "x \<in> set (users d)" "us_id x = rt_user_id t"
    and "fault env ''GetRefreshToken'' = None"
  shows "GetRefreshToken env (rt_token_hash t) d = Inr (t, us_status x)"
  using assms sql_one_unique [of rt_token_hash "refresh_tokens d" t] sql_one_unique [of us_id "users d" x]
  by (simp add: GetRefreshToken_def identity_inv_def)

lemma Refresh_found:
  assumes "GetRefreshToken env (hashToken env presented) (accounts s) = Inr (t, st)"
  shows "Refresh env presented s =
    (let now = clock_Now env; i = uuid_String env (rt_id t); u = uuid_String env (rt_user_id t) in
     if rt_revoked_at t \<noteq> None then
       bindE (RevokeAllUserTokens env u now) (\<lambda>_ s. (Inl IdentityInvalidSession, s)) s
     else if st = StatusBlocked then
       bindE (RevokeAllUserTokens env u now) (\<lambda>_ s. (Inl IdentityBlocked, s)) s
     else if \<not> now < rt_expires_at t then (Inl IdentityInvalidSession, s)
     else bindE (RevokeRefreshToken env i now) (\<lambda>rotated.
       if rotated = 0 then (\<lambda>s. (Inl IdentityInvalidSession, s)) else issue env u now (Some i)) s)"
proof -
  obtain rec where f: "FindRefreshToken env (hashToken env presented) s = (Inr rec, s)"
    and rec: "RR_ID rec = uuid_String env (rt_id t)" "RR_UserID rec = uuid_String env (rt_user_id t)"
      "RR_ExpiresAt rec = rt_expires_at t" "RR_RevokedAt rec = rt_revoked_at t" "RR_UserStatus rec = st"
    using assms by (simp add: FindRefreshToken_def)
  have found: "bindE (FindRefreshToken env (hashToken env presented)) g s = g rec s" for g by (simp add: f)
  show ?thesis using rec by (simp add: Refresh_def found Let_def cong: if_cong)
qed

lemma Refresh_Inr:
  assumes "Refresh env presented s = (Inr tk, s')"
  obtains t st n d where "GetRefreshToken env (hashToken env presented) (accounts s) = Inr (t, st)"
    "rt_revoked_at t = None" "st \<noteq> StatusBlocked" "clock_Now env < rt_expires_at t"
    "revoke_where (\<lambda>r. Some (rt_id r) = uuid_Parse env (uuid_String env (rt_id t))) (clock_Now env) (accounts s) = Inr (n, d)"
    "issue env (uuid_String env (rt_user_id t)) (clock_Now env) (Some (uuid_String env (rt_id t)))
       (s\<lparr>accounts := d\<rparr>) = (Inr tk, s')"
proof (cases "GetRefreshToken env (hashToken env presented) (accounts s)")
  case (Inl e)
  then show ?thesis using assms by (auto simp: Refresh_def bindE_def FindRefreshToken_def)
next
  case (Inr y)
  then obtain t st where g: "GetRefreshToken env (hashToken env presented) (accounts s) = Inr (t, st)" by (cases y) auto
  then show ?thesis using assms that
    by (auto simp: Refresh_found Let_def bindE_Inr RevokeRefreshToken_def auto_commit_def
        store_RevokeRefreshToken_def stmt_eq_Inr split: if_splits sum.splits)
qed

text \<open>A token is spent once it was exchanged.\<close>

lemma Refresh_spends:
  assumes "Refresh env presented s = (Inr tk, s')" "identity_inv (accounts s)" "lossless_ids env"
  shows "spent (hashToken env presented) (accounts s')"
  using assms(1)
proof (rule Refresh_Inr)
  fix t st n d
  assume g: "GetRefreshToken env (hashToken env presented) (accounts s) = Inr (t, st)"
    and r: "revoke_where (\<lambda>r. Some (rt_id r) = uuid_Parse env (uuid_String env (rt_id t))) (clock_Now env) (accounts s) = Inr (n, d)"
    and i: "issue env (uuid_String env (rt_user_id t)) (clock_Now env) (Some (uuid_String env (rt_id t)))
       (s\<lparr>accounts := d\<rparr>) = (Inr tk, s')"
  let ?h = "hashToken env presented"
  have t: "t \<in> set (refresh_tokens (accounts s))" "rt_token_hash t = ?h" using GetRefreshToken_Inr [OF g] by simp_all
  have rev: "t' \<in> set (refresh_tokens d) \<Longrightarrow> rt_token_hash t' = ?h \<Longrightarrow> rt_revoked_at t' \<noteq> None" for t'
  proof -
    assume t': "t' \<in> set (refresh_tokens d)" "rt_token_hash t' = ?h"
    then obtain t0 where t0: "t0 \<in> set (refresh_tokens (accounts s))"
      "t' = revoked_by (\<lambda>r. Some (rt_id r) = uuid_Parse env (uuid_String env (rt_id t))) (clock_Now env) t0"
      using revoke_all [OF r] by blast
    then have "t0 = t" using t t'(2) assms(2) by (metis revoked_by_simps(3) identity_inv_def distinct_map inj_onD)
    then show "rt_revoked_at t' \<noteq> None" using t0(2) assms(3) by simp
  qed
  then have "spent ?h d" by (simp add: spent_def)
  have "?h \<in> rt_token_hash ` set (refresh_tokens d)"
    using t revoke_Inr [OF r] by (auto simp: image_iff intro!: bexI [of _ t])
  then show ?thesis using i \<open>spent ?h d\<close>
    by - (erule issue_Inr, erule Insert_Inr, auto simp: spent_def)
qed

lemma spent_refused:
  assumes "spent (hashToken env presented) (accounts s)"
  shows "fst (Refresh env presented s) \<noteq> Inr tk"
proof
  assume "fst (Refresh env presented s) = Inr tk"
  then have "Refresh env presented s = (Inr tk, snd (Refresh env presented s))" by (simp add: prod_eq_iff)
  then show False
    by (rule Refresh_Inr) (use assms GetRefreshToken_Inr in \<open>fastforce simp: spent_def\<close>)
qed

text \<open>Presented again, it ends every session of its user; so does any token of a blocked user.\<close>

lemma Refresh_ends_all:
  assumes "identity_inv (accounts s)" "lossless_ids env" "\<And>q. fault env q = None"
    and "t \<in> set (refresh_tokens (accounts s))" "rt_token_hash t = hashToken env presented"
    and "x \<in> set (users (accounts s))" "us_id x = rt_user_id t"
    and "rt_revoked_at t \<noteq> None \<or> us_status x = StatusBlocked"
  shows "\<exists>s'. Refresh env presented s =
      (Inl (if rt_revoked_at t \<noteq> None then IdentityInvalidSession else IdentityBlocked), s')
    \<and> signed_out (us_id x) (us_phone x) (accounts s')"
proof -
  let ?P = "\<lambda>r. Some (rt_user_id r) = uuid_Parse env (uuid_String env (rt_user_id t))" and ?now = "clock_Now env"
  note g = GetRefreshToken_found [OF assms(1,4,6,7) assms(3), unfolded assms(5)]
  define d where "d = (accounts s)\<lparr>refresh_tokens := map (revoked_by ?P ?now) (refresh_tokens (accounts s))\<rparr>"
  have chk: "list_all refresh_chk (refresh_tokens (accounts s))" using assms(1) by (simp add: identity_inv_def)
  have r: "revoke_where ?P ?now (accounts s) =
      Inr (length (filter (\<lambda>t. ?P t \<and> rt_revoked_at t = None) (refresh_tokens (accounts s))), d)"
    using chk by (auto simp: revoke_where_def sql_update_def d_def revoked_by_def [abs_def] list_all_iff refresh_chk_def)
  have step: "Refresh env presented s =
      (Inl (if rt_revoked_at t \<noteq> None then IdentityInvalidSession else IdentityBlocked), s\<lparr>accounts := d\<rparr>)"
    using Refresh_found [OF g] assms(3,8) r
    by (cases "rt_revoked_at t") (auto simp: Let_def RevokeAllUserTokens_def bindE_def auto_commit_def store_RevokeAllUserTokens_def)
  have "rt_revoked_at t' \<noteq> None" if m: "t' \<in> set (refresh_tokens d)" and own: "rt_user_id t' = us_id x" for t'
  proof -
    obtain t0 where "t' = revoked_by ?P ?now t0" using revoke_all [OF r m] by blast
    then show ?thesis using own assms(2,7) revoked_by_simps(7) [of ?P t0 ?now] by simp
  qed
  moreover have "(us_id x, us_phone x) \<in> user_keys d" using assms(6) by (auto simp: user_keys_def d_def)
  ultimately have "signed_out (us_id x) (us_phone x) d"
    using revoke_inv [OF r assms(1)] by (simp add: signed_out_def)
  with step show ?thesis by simp
qed

lemma signed_out_refused:
  assumes "signed_out u phone (accounts s)" "t \<in> set (refresh_tokens (accounts s))" "rt_user_id t = u"
    and "rt_token_hash t = hashToken env presented"
  shows "fst (Refresh env presented s) \<noteq> Inr tk"
proof (rule spent_refused)
  show "spent (hashToken env presented) (accounts s)"
    using assms unfolding spent_def signed_out_def identity_inv_def by (metis distinct_map inj_onD)
qed

section \<open>Pruning\<close>

abbreviation expired :: "time \<Rightarrow> refresh_row \<Rightarrow> bool" where
  "expired cutoff t \<equiv> rt_expires_at t < cutoff"

text \<open>A batch removes the expired tokens, all of them if they are not more than the batch.\<close>

lemma pruned_rows:
  fixes cutoff :: time and batch :: int
  assumes "distinct (map rt_id rows)"
  defines "kept \<equiv> delete_oldest (\<lambda>t. Some (rt_expires_at t)) rt_id cutoff batch rows"
  shows "length rows - length kept = min (nat batch) (length (filter (expired cutoff) rows))"
    and "t \<in> set rows \<Longrightarrow> \<not> expired cutoff t \<Longrightarrow> t \<in> set kept"
    and "length (filter (expired cutoff) rows) \<le> nat batch \<Longrightarrow> t \<in> set kept \<Longrightarrow> \<not> expired cutoff t"
    and "length kept \<le> length rows"
proof -
  define old where "old = take (nat batch) (sort_key rt_expires_at (filter (expired cutoff) rows))"
  have kept: "kept = filter (\<lambda>r. rt_id r \<notin> rt_id ` set old) rows"
    by (simp add: kept_def delete_oldest_def old_def Let_def)
  have sub: "r \<in> set rows \<and> expired cutoff r" if "r \<in> set old" for r
    using in_set_takeD [OF that [unfolded old_def]] by simp
  have mem: "rt_id r \<in> rt_id ` set old \<longleftrightarrow> r \<in> set old" if "r \<in> set rows" for r
    using that sub assms(1) by (auto simp: distinct_map dest: inj_onD)
  have "distinct rows" using assms(1) by (simp add: distinct_map)
  then have dold: "distinct old" by (simp add: old_def)
  have "filter (\<lambda>r. rt_id r \<in> rt_id ` set old) rows = filter (\<lambda>r. r \<in> set old) rows"
    by (rule filter_cong) (use mem in auto)
  moreover have "set (filter (\<lambda>r. r \<in> set old) rows) = set old" using sub by auto
  ultimately have "length (filter (\<lambda>r. rt_id r \<in> rt_id ` set old) rows) = length old"
    using \<open>distinct rows\<close> dold by (metis distinct_card distinct_filter)
  moreover have "length rows = length (filter (\<lambda>r. rt_id r \<in> rt_id ` set old) rows) + length kept"
    unfolding kept by (rule sum_length_filter_compl [symmetric])
  ultimately show "length rows - length kept = min (nat batch) (length (filter (expired cutoff) rows))"
    "length kept \<le> length rows" by (simp_all add: old_def)
  show "t \<in> set kept" if "t \<in> set rows" "\<not> expired cutoff t" using that mem sub by (auto simp: kept)
  show "\<not> expired cutoff t" if "length (filter (expired cutoff) rows) \<le> nat batch" "t \<in> set kept"
  proof
    assume "expired cutoff t"
    with that have "t \<in> set old" by (simp add: old_def kept)
    then show False using that(2) by (auto simp: kept)
  qed
qed

lemma Prune_Inr:
  assumes "PruneExpiredSessions env cutoff batch s = (Inr n, s')" "identity_inv (accounts s)"
  shows "identity_inv (accounts s')"
    and "n = min (nat batch) (length (filter (expired cutoff) (refresh_tokens (accounts s))))"
    and "length (refresh_tokens (accounts s')) + n = length (refresh_tokens (accounts s))"
    and "t \<in> set (refresh_tokens (accounts s)) \<Longrightarrow> \<not> expired cutoff t \<Longrightarrow>
      \<exists>t' \<in> set (refresh_tokens (accounts s')). rt_id t' = rt_id t \<and> rt_expires_at t' = rt_expires_at t"
    and "int n < batch \<Longrightarrow> t' \<in> set (refresh_tokens (accounts s')) \<Longrightarrow> cutoff \<le> rt_expires_at t'"
proof -
  obtain d where d: "DeleteExpiredRefreshTokens env cutoff batch (accounts s) = Inr (n, d)" "s' = s\<lparr>accounts := d\<rparr>"
    using assms(1) by (auto simp: PruneExpiredSessions_def auto_commit_def split: sum.splits)
  from d(1) obtain f kept where k: "kept = delete_oldest (\<lambda>t. Some (rt_expires_at t)) rt_id cutoff batch (refresh_tokens (accounts s))"
    "d = (accounts s)\<lparr>refresh_tokens := map f kept\<rparr>" "n = length (refresh_tokens (accounts s)) - length kept"
    "\<And>t. f t = t\<lparr>rt_rotated_from := (case rt_rotated_from t of
       None \<Rightarrow> None | Some r \<Rightarrow> if list_ex (\<lambda>k. rt_id k = r) kept then Some r else None)\<rparr>"
    by (rule Delete_Inr) blast
  have keys: "rt_id (f t) = rt_id t" "rt_expires_at (f t) = rt_expires_at t" for t by (simp_all add: k(4))
  have ids: "distinct (map rt_id (refresh_tokens (accounts s)))" using assms(2) by (simp add: identity_inv_def)
  note p = pruned_rows [OF ids, where cutoff = cutoff and batch = batch, folded k(1)]
  show "identity_inv (accounts s')" using Delete_inv [OF d(1) assms(2)] d(2) by simp
  show n: "n = min (nat batch) (length (filter (expired cutoff) (refresh_tokens (accounts s))))" using p(1) k(3) by simp
  show "length (refresh_tokens (accounts s')) + n = length (refresh_tokens (accounts s))"
    using p(4) k(2,3) d(2) by simp
  show "\<exists>t' \<in> set (refresh_tokens (accounts s')). rt_id t' = rt_id t \<and> rt_expires_at t' = rt_expires_at t"
    if "t \<in> set (refresh_tokens (accounts s))" "\<not> expired cutoff t"
    using p(2) [OF that] k(2) d(2) keys by auto
  show "cutoff \<le> rt_expires_at t'" if few: "int n < batch" and t': "t' \<in> set (refresh_tokens (accounts s'))"
  proof -
    have "length (filter (expired cutoff) (refresh_tokens (accounts s))) \<le> nat batch" using few n by auto
    moreover obtain t where "t \<in> set kept" "t' = f t" using t' k(2) d(2) by auto
    ultimately show ?thesis using p(3) [of t] keys(2) [of t] by simp
  qed
qed

lemma Janitor_loop_returns:
  assumes "0 < batch" "identity_inv (accounts s)"
  shows "\<exists>removed err s'. Janitor_loop envs batch n pruned s = Some ((pruned + removed, err), s')
    \<and> identity_inv (accounts s')
    \<and> length (refresh_tokens (accounts s')) + removed = length (refresh_tokens (accounts s))
    \<and> (\<forall>t \<in> set (refresh_tokens (accounts s)). (\<forall>m. clock_Now (envs m) \<le> rt_expires_at t) \<longrightarrow>
         rt_id t \<in> rt_id ` set (refresh_tokens (accounts s')))
    \<and> (err = None \<longrightarrow> (\<exists>m. \<forall>t \<in> set (refresh_tokens (accounts s')). clock_Now (envs m) \<le> rt_expires_at t))"
  using assms(2)
proof (induction "length (refresh_tokens (accounts s))" arbitrary: s n pruned rule: less_induct)
  case less
  show ?case
  proof (cases rule: outcome_cases [of "PruneExpiredSessions (envs n) (clock_Now (envs n)) batch s"])
    case (failed e s')
    then have "s' = s" by (auto simp: PruneExpiredSessions_def auto_commit_def split: sum.splits)
    then show ?thesis using failed less.prems
      by (subst Janitor_loop.simps) (auto intro!: exI [of _ "0::nat"])
  next
    case (went_on k s1)
    note p = Prune_Inr [OF went_on less.prems]
    show ?thesis
    proof (cases "int k < batch")
      case True
      then have "Janitor_loop envs batch n pruned s = Some ((pruned + k, None), s1)"
        using went_on by (subst Janitor_loop.simps) simp
      moreover have "\<forall>t \<in> set (refresh_tokens (accounts s)). (\<forall>m. clock_Now (envs m) \<le> rt_expires_at t) \<longrightarrow>
         rt_id t \<in> rt_id ` set (refresh_tokens (accounts s1))"
        using p(4) by (metis image_eqI leD)
      ultimately show ?thesis using p(1,3,5) True by blast
    next
      case False
      then have loop: "Janitor_loop envs batch n pruned s = Janitor_loop envs batch (Suc n) (pruned + k) s1"
        using went_on by (subst Janitor_loop.simps) simp
      have "length (refresh_tokens (accounts s1)) < length (refresh_tokens (accounts s))"
        using False p(3) assms(1) by linarith
      from less.hyps [OF this p(1), of "Suc n" "pruned + k"]
      obtain removed err s' where r: "Janitor_loop envs batch (Suc n) (pruned + k) s1 = Some ((pruned + k + removed, err), s')"
        "identity_inv (accounts s')" "length (refresh_tokens (accounts s')) + removed = length (refresh_tokens (accounts s1))"
        "\<forall>t \<in> set (refresh_tokens (accounts s1)). (\<forall>m. clock_Now (envs m) \<le> rt_expires_at t) \<longrightarrow>
         rt_id t \<in> rt_id ` set (refresh_tokens (accounts s'))"
        "err = None \<longrightarrow> (\<exists>m. \<forall>t \<in> set (refresh_tokens (accounts s')). clock_Now (envs m) \<le> rt_expires_at t)" by blast
      have "\<forall>t \<in> set (refresh_tokens (accounts s)). (\<forall>m. clock_Now (envs m) \<le> rt_expires_at t) \<longrightarrow>
         rt_id t \<in> rt_id ` set (refresh_tokens (accounts s'))"
        using p(4) r(4) by (metis leD)
      then show ?thesis using r loop p(3)
        by (intro exI [of _ "k + removed"] exI [of _ err] exI [of _ s']) (simp add: add.assoc)
    qed
  qed
qed

section \<open>Signing in\<close>

definition roles_of :: "owner_row list \<Rightarrow> user_row \<Rightarrow> Role list" where
  "roles_of ows u = [RoleBuyer]
     @ (if list_ex (\<lambda>w. ow_user_id w = us_id u \<and> ow_status w = ''active'') ows then [RoleSeller] else [])
     @ (if us_is_operator u then [RoleOperator] else [])"

lemma rolesFor_user:
  assumes "identity_inv (accounts s)" "u \<in> set (users (accounts s))" "lossless_ids env"
    and "fault env ''GetUserRoles'' = None"
  shows "rolesFor env (uuid_String env (us_id u)) s = (Inr (roles_of (shop_owners s) u), s)"
proof -
  have "sql_one (\<lambda>x. us_id x = us_id u) (users (accounts s)) = Inr u"
    by (rule sql_one_unique) (use assms(1,2) in \<open>auto simp: identity_inv_def\<close>)
  then show ?thesis using assms(3,4)
    by (simp add: rolesFor_def bindE_def RolesFor_def GetUserRoles_def roles_of_def)
qed

lemma VerifyCode_Inr:
  assumes "VerifyCode env raw code s = (Inr session, s')"
  obtains phone R row b d where "NormalizePhone raw = Inr phone"
    "UpsertUserByPhone env (newID env) phone (clock_Now env) (accounts s) = Inr ((row, b), d)"
    "us_status row \<noteq> StatusBlocked" "IsNewUser session = b"
    "issue env (uuid_String env (us_id row)) (clock_Now env) None (s\<lparr>cache := R, accounts := d\<rparr>)
       = (Inr (Session_Tokens session), s')"
  using assms
  by (auto simp: VerifyCode_def bindE_Inr mapErr_eq_Inr Let_def UpsertUser_def auto_commit_def on_cache_def
      intro!: that split: prod.splits sum.splits if_splits)

lemma NormalizePhone_pattern: "NormalizePhone raw = Inr p \<Longrightarrow> phonePattern p"
  by (auto simp: NormalizePhone_def Let_def split: if_splits)

end
