(* ===== verification/Token.thy ===== *)
theory Token
  imports Sql Authz
begin

text \<open>
  Access tokens: the signer of \<open>internal/platform/httpx/jwt_issue.go\<close> and the validation of
  \<open>internal/platform/httpx/middleware_identity.go\<close> that turns a bearer token into a principal.
\<close>

section \<open>Library\<close>

text \<open>
  The claims of a token; an absent number reads as 0. HMAC-SHA256, base64 and JSON belong to Go's
  library: \<open>hmac_sha256 key message\<close> is the digest, \<open>b64_Encode\<close> and \<open>b64_Decode\<close> are
  \<open>base64.RawURLEncoding\<close>, the four JSON functions write and read a header (algorithm, type)
  and the claims.
\<close>

record claims =
  Claim_Subject :: string
  Claim_Expiry :: int
  Claim_NotBefore :: int
  Claim_Roles :: "string list"

record jwt_lib = lib +
  hmac_sha256 :: "string \<Rightarrow> string \<Rightarrow> string"
  b64_Encode :: "string \<Rightarrow> string"
  b64_Decode :: "string \<Rightarrow> string option"
  json_header :: "string \<times> string \<Rightarrow> string result"
  json_read_header :: "string \<Rightarrow> (string \<times> string) option"
  json_claims :: "claims \<Rightarrow> time \<Rightarrow> string result"
  json_read_claims :: "string \<Rightarrow> claims option"

text \<open>
  What the tokens rely on: base64 is read back and writes no dot, JSON is read back (the time of
  issue is written and not read).
\<close>

definition faithful_encoding :: "'a jwt_lib_scheme \<Rightarrow> bool" where
  "faithful_encoding J \<longleftrightarrow>
     (\<forall>s. b64_Decode J (b64_Encode J s) = Some s) \<and> (\<forall>s. CHR ''.'' \<notin> set (b64_Encode J s)) \<and>
     (\<forall>h s. json_header J h = Inr s \<longrightarrow> json_read_header J s = Some h) \<and>
     (\<forall>c iat s. json_claims J c iat = Inr s \<longrightarrow> json_read_claims J s = Some c)"

section \<open>Signing\<close>

record Signer =
  signer_key :: string
  signer_ttl :: time

definition NewSigner :: "string \<Rightarrow> time \<Rightarrow> Signer result" where
  "NewSigner signingKey ttl =
     (if signingKey = [] then Inl (OtherError ''httpx: refusing to sign with an empty key'')
      else if ttl \<le> 0 then Inl (OtherError ''httpx: access token ttl must be positive'')
      else Inr \<lparr>signer_key = signingKey, signer_ttl = ttl\<rparr>)"

definition Unix :: "time \<Rightarrow> int" where "Unix t = t div 1000000000"

definition encodeSegment :: "'a jwt_lib_scheme \<Rightarrow> string result \<Rightarrow> string result" where
  "encodeSegment J raw = andThen raw (\<lambda>r. Inr (b64_Encode J r))"

definition Sign ::
  "'a jwt_lib_scheme \<Rightarrow> Signer \<Rightarrow> string \<Rightarrow> Role list \<Rightarrow> time \<Rightarrow> string result" where
  "Sign J s subject roles now =
     (if subject = [] then Inl (OtherError ''httpx: refusing to sign a token with no subject'')
      else let names = map role_text (filter (\<lambda>r. ValidRole (role_text r)) roles) in
        andThen (encodeSegment J (json_header J (''HS256'', ''JWT''))) (\<lambda>header.
        andThen (encodeSegment J (json_claims J \<lparr>Claim_Subject = subject,
            Claim_Expiry = Unix (now + signer_ttl s), Claim_NotBefore = 0, Claim_Roles = names\<rparr> (Unix now)))
          (\<lambda>payload.
        let signing = header @ ''.'' @ payload
        in Inr (signing @ ''.'' @ b64_Encode J (hmac_sha256 J (signer_key s) signing)))))"

section \<open>Validation\<close>

text \<open>\<open>strings.Split(token, ".")\<close>\<close>

fun split_dots :: "string \<Rightarrow> string list" where
  "split_dots [] = [[]]"
| "split_dots (c # cs) =
     (if c = CHR ''.'' then [] # split_dots cs
      else case split_dots cs of [] \<Rightarrow> [[c]] | s # ss \<Rightarrow> (c # s) # ss)"

definition role_of_text :: "string \<Rightarrow> Role option" where
  "role_of_text s = find (\<lambda>r. role_text r = s) [RoleBuyer, RoleSeller, RoleOperator]"

definition validateJWT :: "'a jwt_lib_scheme \<Rightarrow> string \<Rightarrow> string \<Rightarrow> time \<Rightarrow> Principal option" where
  "validateJWT J token signingKey now =
     (case split_dots token of
        [p0, p1, p2] \<Rightarrow>
          if signingKey = [] then None
          else (case Option.bind (b64_Decode J p0) (json_read_header J) of
            None \<Rightarrow> None
          | Some (alg, typ) \<Rightarrow>
              if alg \<noteq> ''HS256'' \<or> (typ \<noteq> [] \<and> typ \<noteq> ''JWT'') then None
              else (case b64_Decode J p2 of
                None \<Rightarrow> None
              | Some signature \<Rightarrow>
                  if signature \<noteq> hmac_sha256 J signingKey (p0 @ ''.'' @ p1) then None
                  else (case Option.bind (b64_Decode J p1) (json_read_claims J) of
                    None \<Rightarrow> None
                  | Some claims \<Rightarrow>
                      if \<not> uuid_Validate J (Claim_Subject claims) then None
                      else if Claim_Expiry claims \<le> 0 \<or> Unix now \<ge> Claim_Expiry claims then None
                      else if Claim_NotBefore claims > 0 \<and> Unix now < Claim_NotBefore claims then None
                      else Some \<lparr>UserID = Claim_Subject claims,
                                 Roles = List.map_filter role_of_text
                                   (filter ValidRole (Claim_Roles claims))\<rparr>)))
      | _ \<Rightarrow> None)"

text \<open>
  The middleware \<open>Identity\<close>: a request without the header is public, one with an invalid token
  is refused (\<open>None\<close>, 401).
\<close>

definition Identity :: "'a jwt_lib_scheme \<Rightarrow> string \<Rightarrow> string \<Rightarrow> time \<Rightarrow> ctx \<Rightarrow> ctx option" where
  "Identity J signingKey header now c =
     (if header = [] then Some c
      else if \<not> starts_with ''Bearer '' header then None
      else case validateJWT J (drop 7 header) signingKey now of
        None \<Rightarrow> None
      | Some p \<Rightarrow> Some (c\<lparr>ctx_principal := Some p\<rparr>))"

section \<open>Laws\<close>

lemma split_dots_plain: "CHR ''.'' \<notin> set s \<Longrightarrow> split_dots s = [s]"
  by (induction s) auto

lemma split_dots_dot: "CHR ''.'' \<notin> set s \<Longrightarrow> split_dots (s @ CHR ''.'' # t) = s # split_dots t"
  by (induction s) auto

fun join_dots :: "string list \<Rightarrow> string" where
  "join_dots [] = []"
| "join_dots [s] = s"
| "join_dots (s # ss) = s @ CHR ''.'' # join_dots ss"

lemma join_Cons: "join_dots ((c # s) # ss) = c # join_dots (s # ss)"
  by (cases ss) simp_all

lemma join_split: "split_dots s \<noteq> [] \<and> join_dots (split_dots s) = s"
proof (induction s rule: split_dots.induct)
  case (2 c cs)
  then show ?case by (cases "split_dots cs") (auto simp: join_Cons)
qed simp

lemma role_read [simp]: "role_of_text (role_text r) = Some r"
  by (cases r) (simp_all add: role_of_text_def)

lemma roles_valid [simp]: "ValidRole (role_text r)"
  by (cases r) (simp_all add: ValidRole_def)

lemma roles_read: "List.map_filter role_of_text (map role_text rs) = rs"
  by (induction rs) (simp_all add: List.map_filter_simps)

lemma Sign_Inr:
  assumes "Sign J s subject roles now = Inr token"
  obtains h c where "json_header J (''HS256'', ''JWT'') = Inr h"
    "json_claims J \<lparr>Claim_Subject = subject, Claim_Expiry = Unix (now + signer_ttl s),
       Claim_NotBefore = 0, Claim_Roles = map role_text roles\<rparr> (Unix now) = Inr c"
    "token = b64_Encode J h @ ''.'' @ b64_Encode J c @ ''.'' @
       b64_Encode J (hmac_sha256 J (signer_key s) (b64_Encode J h @ ''.'' @ b64_Encode J c))"
  using assms by (auto simp: Sign_def encodeSegment_def Let_def go_simps)

text \<open>A signed token is read back until it expires, and refused from then on.\<close>

lemma signed_token:
  assumes "Sign J s subject roles now = Inr token" "faithful_encoding J"
    and "signer_key s \<noteq> []" "uuid_Validate J subject" "0 < Unix (now + signer_ttl s)"
  shows "validateJWT J token (signer_key s) now' =
    (if Unix now' < Unix (now + signer_ttl s) then Some \<lparr>UserID = subject, Roles = roles\<rparr> else None)"
proof -
  obtain h c where t: "json_header J (''HS256'', ''JWT'') = Inr h"
    "json_claims J \<lparr>Claim_Subject = subject, Claim_Expiry = Unix (now + signer_ttl s),
       Claim_NotBefore = 0, Claim_Roles = map role_text roles\<rparr> (Unix now) = Inr c"
    "token = b64_Encode J h @ ''.'' @ b64_Encode J c @ ''.'' @
       b64_Encode J (hmac_sha256 J (signer_key s) (b64_Encode J h @ ''.'' @ b64_Encode J c))"
    using assms(1) by (rule Sign_Inr)
  have "split_dots token = [b64_Encode J h, b64_Encode J c,
      b64_Encode J (hmac_sha256 J (signer_key s) (b64_Encode J h @ ''.'' @ b64_Encode J c))]"
    using assms(2) t(3) by (simp add: faithful_encoding_def split_dots_dot split_dots_plain)
  then show ?thesis
    using assms(2-5) t(1,2) by (simp add: validateJWT_def faithful_encoding_def roles_read)
qed

text \<open>An accepted token carries the digest of its first two parts under the key.\<close>

lemma accepted_token:
  assumes "validateJWT J token signingKey now = Some p"
  shows "\<exists>p0 p1 p2 claims. token = p0 @ ''.'' @ p1 @ ''.'' @ p2
    \<and> b64_Decode J p2 = Some (hmac_sha256 J signingKey (p0 @ ''.'' @ p1))
    \<and> Option.bind (b64_Decode J p1) (json_read_claims J) = Some claims
    \<and> UserID p = Claim_Subject claims \<and> uuid_Validate J (UserID p)
    \<and> Unix now < Claim_Expiry claims \<and> signingKey \<noteq> []"
proof -
  obtain p0 p1 p2 where s: "split_dots token = [p0, p1, p2]"
    using assms by (auto simp: validateJWT_def split: list.splits)
  then have "token = p0 @ ''.'' @ p1 @ ''.'' @ p2" using join_split [of token] by simp
  moreover obtain claims where "Option.bind (b64_Decode J p1) (json_read_claims J) = Some claims"
    "b64_Decode J p2 = Some (hmac_sha256 J signingKey (p0 @ ''.'' @ p1))" "UserID p = Claim_Subject claims"
    "uuid_Validate J (Claim_Subject claims)" "Unix now < Claim_Expiry claims" "signingKey \<noteq> []"
    using assms s by (auto simp: validateJWT_def split: option.splits if_splits)
  ultimately show ?thesis by (intro exI [of _ p0] exI [of _ p1] exI [of _ p2] exI [of _ claims]) simp
qed

end
