(* ===== verification/SessionTheorems.thy ===== *)
theory SessionTheorems
  imports Sessions Token Sample
begin

text \<open>
  Properties of accounts and sessions: who a token speaks for, how often it can be exchanged,
  what ends a session.
\<close>

section \<open>Samples\<close>

text \<open>An encoding without dots, and JSON for the one header and the claims of one user.\<close>

fun plain_enc :: "string \<Rightarrow> string" where
  "plain_enc [] = []"
| "plain_enc (c # cs) = (if c = CHR ''.'' then ''-d'' else if c = CHR ''-'' then ''--'' else [c]) @ plain_enc cs"

fun plain_dec :: "string \<Rightarrow> string" where
  "plain_dec [] = []"
| "plain_dec [c] = [c]"
| "plain_dec (c # d # cs) =
     (if c = CHR ''-'' then (if d = CHR ''d'' then CHR ''.'' else CHR ''-'') # plain_dec cs
      else c # plain_dec (d # cs))"

lemma plain_dec_enc: "plain_dec (plain_enc s) = s"
proof (induction s)
  case (Cons c cs)
  then show ?case by (cases "plain_enc cs") auto
qed simp

lemma plain_enc_dot: "CHR ''.'' \<notin> set (plain_enc s)"
  by (induction s) auto

definition sample_claims :: claims where
  "sample_claims = \<lparr>Claim_Subject = sample_String 7, Claim_Expiry = 899, Claim_NotBefore = 0, Claim_Roles = [''buyer'']\<rparr>"

definition sample_jwt :: jwt_lib where
  "sample_jwt = \<lparr>uuid_Parse = sample_Parse, uuid_String = sample_String,
     Numeric_Scan = sample_Scan, Numeric_Value = sample_Value, sha256_hex = (\<lambda>s. s),
     to_char_date = (\<lambda>_. ''20260101''), url_Parse = (\<lambda>s. Some (''https'', s)),
     hmac_sha256 = (\<lambda>k m. k @ ''!'' @ m), b64_Encode = plain_enc, b64_Decode = (\<lambda>s. Some (plain_dec s)),
     json_header = (\<lambda>h. if h = (''HS256'', ''JWT'') then Inr ''h'' else Inl (OtherError ''json'')),
     json_read_header = (\<lambda>s. if s = ''h'' then Some (''HS256'', ''JWT'') else None),
     json_claims = (\<lambda>c iat. if c = sample_claims then Inr ''c'' else Inl (OtherError ''json'')),
     json_read_claims = (\<lambda>s. if s = ''c'' then Some sample_claims else None)\<rparr>"

lemma sample_jwt_faithful: "faithful_encoding sample_jwt"
  by (auto simp: faithful_encoding_def sample_jwt_def plain_dec_enc plain_enc_dot split: if_splits)

definition sample_signer :: Signer where
  "sample_signer = \<lparr>signer_key = ''k'', signer_ttl = 899 * 1000000000\<rparr>"

text \<open>A request at \<open>t\<close> that draws the token \<open>tok\<close>, with the faults of \<open>flt\<close>.\<close>

definition sample_session :: "time \<Rightarrow> string \<Rightarrow> (string \<Rightarrow> go_error option) \<Rightarrow> identity_env" where
  "sample_session t tok flt = \<lparr>uuid_Parse = sample_Parse, uuid_String = sample_String,
     Numeric_Scan = sample_Scan, Numeric_Value = sample_Value, sha256_hex = (\<lambda>s. s),
     to_char_date = (\<lambda>_. ''20260101''), url_Parse = (\<lambda>s. Some (''https'', s)), newID = 7,
     rowID = (\<lambda>n. of_nat (n + length tok)), newV7 = of_nat, rand_token = Inr ''t'', clock_Now = t, fault = flt,
     rd_now = t, rd_fault = (\<lambda>_. None), rand_code = Inr 42,
     rand_refresh = Inr tok, sha256_Sum256 = (\<lambda>s. s), sms_Send = (\<lambda>_ _. None),
     signer_Sign = Sign sample_jwt sample_signer, signer_TTL = signer_ttl sample_signer\<rparr>"

lemma sample_session_simps [simp]:
  "uuid_Parse (sample_session t tok flt) = sample_Parse" "uuid_String (sample_session t tok flt) = sample_String"
  "newID (sample_session t tok flt) = 7" "rowID (sample_session t tok flt) n = of_nat (n + length tok)"
  "clock_Now (sample_session t tok flt) = t" "fault (sample_session t tok flt) = flt"
  "rd_now (sample_session t tok flt) = t" "rd_fault (sample_session t tok flt) q = None"
  "rand_code (sample_session t tok flt) = Inr 42" "rand_refresh (sample_session t tok flt) = Inr tok"
  "hashToken (sample_session t tok flt) s = s" "hash (sample_session t tok flt) p s = p @ '':'' @ s"
  "signer_Sign (sample_session t tok flt) = Sign sample_jwt sample_signer"
  "sms_Send (sample_session t tok flt) p m = None"
  by (simp_all add: sample_session_def hashToken_def hash_def)

lemma sample_session_ids [simp]: "lossless_ids (sample_session t tok flt)"
  by (simp add: lossless_ids_def sample_Parse_def sample_String_def list_all_iff)

definition no_faults :: "string \<Rightarrow> go_error option" where "no_faults q = None"

definition sample_user :: user_row where
  "sample_user = \<lparr>us_id = 7, us_phone = ''998901234567'', us_status = ''active'', us_is_operator = False,
     us_created_at = 0, us_last_login_at = None\<rparr>"

definition sample_token :: "uuid \<Rightarrow> string \<Rightarrow> refresh_row" where
  "sample_token i tok = \<lparr>rt_id = i, rt_user_id = 7, rt_token_hash = tok, rt_issued_at = 0,
     rt_expires_at = RefreshTokenTTL, rt_revoked_at = None, rt_rotated_from = None\<rparr>"

text \<open>A user with two sessions, and a code issued for the phone.\<close>

definition two_sessions :: session_db where
  "two_sessions = \<lparr>cache = [codeKey ''998901234567'' \<mapsto> (''998901234567:000042'', None)],
     accounts = \<lparr>users = [sample_user], refresh_tokens = [sample_token 100 ''phone'', sample_token 200 ''tablet'']\<rparr>,
     shop_owners = []\<rparr>"

lemma two_sessions_inv: "identity_inv (accounts two_sessions)"
  by (simp add: identity_inv_def two_sessions_def sample_token_def sample_user_def user_chk_def refresh_chk_def
      phonePattern_def is_digit_def RefreshTokenTTL_def seconds_def)

section \<open>Tables\<close>



section \<open>Exchanging a token\<close>

text \<open>
  C13: A refresh token is exchanged at most once. After a refresh succeeded, along every history
  of requests that do not draw a token with the same digest, presenting it again never succeeds.
\<close>

theorem refresh_single_use:
  fixes cs :: "(identity_env \<times> session_call) list"
  assumes "Refresh env presented s = (Inr tk, s')" "identity_inv (accounts s)" "lossless_ids env"
    and "all_ok session_exec
      (\<lambda>_ (env', c). lossless_ids env' \<and> draws_other (hashToken env presented) env') cs s'"
    and "hashToken env' presented = hashToken env presented"
  shows "fst (Refresh env' presented (run_all session_exec cs s')) \<noteq> Inr tk'"
proof (rule spent_refused)
  show "spent (hashToken env' presented) (accounts (run_all session_exec cs s'))"
    using token_spent.run_inv [OF Refresh_spends [OF assms(1-3)] assms(4)] assms(5) by simp
qed


text \<open>
  A rotation is two statements without a transaction. When the first (the old token is
  revoked) takes effect and the second (the new one is stored) fails, the client keeps a token
  that is revoked; its retry counts as a replay and ends every session of the user.
\<close>

theorem interrupted_refresh_signs_out:
  assumes "identity_inv (accounts s)" "lossless_ids env" "\<And>q. q \<noteq> ''InsertRefreshToken'' \<Longrightarrow> fault env q = None"
    and "fault env ''InsertRefreshToken'' = Some e"
    and "t \<in> set (refresh_tokens (accounts s))" "rt_token_hash t = hashToken env presented"
    and "x \<in> set (users (accounts s))" "us_id x = rt_user_id t"
    and "rt_revoked_at t = None" "us_status x = StatusActive" "clock_Now env < rt_expires_at t"
    and "signer_Sign env (uuid_String env (us_id x)) (roles_of (shop_owners s) x) (clock_Now env) = Inr access"
      "rand_refresh env = Inr token"
    and "lossless_ids env'" "\<And>q. fault env' q = None" "hashToken env' presented = hashToken env presented"
  shows "fst (Refresh env presented s) = Inl e
    \<and> fst (Refresh env' presented (snd (Refresh env presented s))) = Inl IdentityInvalidSession
    \<and> signed_out (us_id x) (us_phone x) (accounts (snd (Refresh env' presented (snd (Refresh env presented s)))))"
proof -
  let ?P = "\<lambda>r. Some (rt_id r) = uuid_Parse env (uuid_String env (rt_id t))" and ?now = "clock_Now env"
  define d where "d = (accounts s)\<lparr>refresh_tokens := map (revoked_by ?P ?now) (refresh_tokens (accounts s))\<rparr>"
  have g: "GetRefreshToken env (hashToken env presented) (accounts s) = Inr (t, us_status x)"
    using GetRefreshToken_found [OF assms(1,5,7,8), of env] assms(3,6) by simp
  have r: "revoke_where ?P ?now (accounts s) =
      Inr (length (filter (\<lambda>t. ?P t \<and> rt_revoked_at t = None) (refresh_tokens (accounts s))), d)"
    using assms(1) by (auto simp: revoke_where_def sql_update_def d_def revoked_by_def [abs_def] list_all_iff
        refresh_chk_def identity_inv_def)
  have live: "filter (\<lambda>t. ?P t \<and> rt_revoked_at t = None) (refresh_tokens (accounts s)) \<noteq> []"
    using assms(2,5,9) by (auto simp: filter_empty_conv)
  have roles: "rolesFor env (uuid_String env (rt_user_id t)) (s\<lparr>accounts := d\<rparr>) =
      (Inr (roles_of (shop_owners s) x), s\<lparr>accounts := d\<rparr>)"
    using rolesFor_user [of "s\<lparr>accounts := d\<rparr>" x env] revoke_inv [OF r assms(1)] assms(2,3,7,8) by (simp add: d_def)
  have i: "issue env (uuid_String env (rt_user_id t)) ?now (Some (uuid_String env (rt_id t))) (s\<lparr>accounts := d\<rparr>)
      = (Inl e, s\<lparr>accounts := d\<rparr>)"
    using roles assms(4,8,12,13)
    by (simp add: issue_def bindE_def StoreRefreshToken_def auto_commit_def InsertRefreshToken_def stmt_def)
  have first: "Refresh env presented s = (Inl e, s\<lparr>accounts := d\<rparr>)"
    using Refresh_found [OF g] assms(3,9-11) r live i
    by (simp add: Let_def bindE_def RevokeRefreshToken_def auto_commit_def store_RevokeRefreshToken_def
        StatusActive_def StatusBlocked_def)
  have "revoked_by ?P ?now t \<in> set (refresh_tokens d)" "rt_revoked_at (revoked_by ?P ?now t) \<noteq> None"
    using assms(2,5) by (auto simp: d_def revoked_by_def)
  then show ?thesis
    using Refresh_ends_all [of "s\<lparr>accounts := d\<rparr>" env' "revoked_by ?P ?now t" presented x]
      revoke_inv [OF r assms(1)] first assms(6-8,14-16) by (auto simp: d_def)
qed

section \<open>Retention\<close>

text \<open>
  A pass of the janitor returns, for every batch size and with any faults. It counts what it
  removed, removes no session that was not expired by a clock it read, and unless a statement
  failed leaves no session that had expired by the clock of its last statement.
\<close>

theorem janitor_returns:
  assumes "identity_inv (accounts s)"
  shows "\<exists>removed err s'. Janitor_RunOnce envs batch s = Some ((removed, err), s')
    \<and> length (refresh_tokens (accounts s')) + removed = length (refresh_tokens (accounts s))
    \<and> (\<forall>t \<in> set (refresh_tokens (accounts s)). (\<forall>m. clock_Now (envs m) \<le> rt_expires_at t) \<longrightarrow>
         rt_id t \<in> rt_id ` set (refresh_tokens (accounts s')))
    \<and> (err = None \<longrightarrow> (\<exists>m. \<forall>t \<in> set (refresh_tokens (accounts s')). clock_Now (envs m) \<le> rt_expires_at t))"
proof -
  have "0 < NewJanitor_Batch batch" by (simp add: NewJanitor_Batch_def)
  from Janitor_loop_returns [OF this assms, of envs 0 0] show ?thesis
    unfolding Janitor_RunOnce_def add_0 by blast
qed

lemma sample_rotation: "\<exists>tk. fst (Refresh (sample_session 10 ''new'' no_faults) ''phone'' two_sessions) = Inr tk"
proof -
  have "isl (fst (Refresh (sample_session 10 ''new'' no_faults) ''phone'' two_sessions)) = False" by code_simp
  then show ?thesis by (cases "fst (Refresh (sample_session 10 ''new'' no_faults) ''phone'' two_sessions)") auto
qed




lemma janitor_returns_witness:
  "\<exists>removed err s'. Janitor_RunOnce (\<lambda>_. sample_env 1) 1 two_sessions = Some ((removed, err), s')
    \<and> length (refresh_tokens (accounts s')) + removed = 2"
proof -
  have "length (refresh_tokens (accounts two_sessions)) = 2" by (simp add: two_sessions_def)
  then show ?thesis using janitor_returns [OF two_sessions_inv, of "\<lambda>_. sample_env 1" 1] by auto
qed

lemma refresh_single_use_witness:
  "fst (Refresh (sample_session 10 ''new'' no_faults) ''phone'' two_sessions) \<noteq> Inl IdentityInvalidSession
   \<and> (\<forall>tk. fst (Refresh (sample_session 30 ''newest'' no_faults) ''phone''
        (run_all session_exec [(sample_session 20 ''other'' no_faults, Req_Refresh ''tablet'')]
          (snd (Refresh (sample_session 10 ''new'' no_faults) ''phone'' two_sessions)))) \<noteq> Inr tk)"
proof -
  let ?r = "Refresh (sample_session 10 ''new'' no_faults) ''phone'' two_sessions"
  have r: "\<exists>tk. fst ?r = Inr tk" by (rule sample_rotation)
  then obtain tk where tk: "?r = (Inr tk, snd ?r)" by (auto simp: prod_eq_iff)
  have "fst (Refresh (sample_session 30 ''newest'' no_faults) ''phone''
        (run_all session_exec [(sample_session 20 ''other'' no_faults, Req_Refresh ''tablet'')] (snd ?r))) \<noteq> Inr tk'" for tk'
    by (rule refresh_single_use [OF tk two_sessions_inv]) (simp_all add: draws_other_def)
  then show ?thesis using r by auto
qed


lemma interrupted_refresh_signs_out_witness:
  "\<exists>s1 s2. Refresh (sample_session 10 ''new'' (\<lambda>q. if q = ''InsertRefreshToken'' then Some (OtherError ''conn'') else None))
       ''phone'' two_sessions = (Inl (OtherError ''conn''), s1)
     \<and> Refresh (sample_session 20 ''newer'' no_faults) ''phone'' s1 = (Inl IdentityInvalidSession, s2)
     \<and> signed_out 7 ''998901234567'' (accounts s2)"
proof -
  let ?env = "sample_session 10 ''new'' (\<lambda>q. if q = ''InsertRefreshToken'' then Some (OtherError ''conn'') else None)"
  have "\<not> isl (Sign sample_jwt sample_signer (sample_String 7) [RoleBuyer] 10)" by code_simp
  then obtain access where a: "Sign sample_jwt sample_signer (sample_String 7) [RoleBuyer] 10 = Inr access"
    by (cases "Sign sample_jwt sample_signer (sample_String 7) [RoleBuyer] 10") auto
  have m: "sample_token 100 ''phone'' \<in> set (refresh_tokens (accounts two_sessions))"
    "sample_user \<in> set (users (accounts two_sessions))" by (simp_all add: two_sessions_def)
  have "fst (Refresh ?env ''phone'' two_sessions) = Inl (OtherError ''conn'')
    \<and> fst (Refresh (sample_session 20 ''newer'' no_faults) ''phone'' (snd (Refresh ?env ''phone'' two_sessions)))
        = Inl IdentityInvalidSession
    \<and> signed_out (us_id sample_user) (us_phone sample_user)
        (accounts (snd (Refresh (sample_session 20 ''newer'' no_faults) ''phone'' (snd (Refresh ?env ''phone'' two_sessions)))))"
    by (rule interrupted_refresh_signs_out [OF two_sessions_inv _ _ _ m(1) _ m(2), where access = access and token = "''new''"])
      (simp_all add: a no_faults_def sample_token_def sample_user_def StatusActive_def RefreshTokenTTL_def seconds_def
        roles_of_def two_sessions_def)
  then show ?thesis by (simp add: sample_user_def prod_eq_iff)
qed

section \<open>Tokens speak for their user\<close>

text \<open>
  C18: When a code is verified, the account that gets the session has the normalised phone and is
  active; the refresh token is stored for it by its digest, unrevoked, for 30 days; and at every
  instant before it expires the access token makes the middleware put exactly this account's id
  and roles into the request: buyer, seller if it has an active owner, operator if it is marked.
\<close>

theorem login_authenticates:
  assumes "VerifyCode env raw code s = (Inr session, s')" "identity_inv (accounts s)" "lossless_ids env"
    and "fault env ''GetUserRoles'' = None"
    and "signer_Sign env = Sign J sg" "faithful_encoding J" "uuid_Parse J = uuid_Parse env"
    and "signer_key sg \<noteq> []" "0 < Unix (clock_Now env + signer_ttl sg)"
    and "Unix now < Unix (clock_Now env + signer_ttl sg)"
  shows "\<exists>u \<in> set (users (accounts s')). \<exists>t \<in> set (refresh_tokens (accounts s')).
      NormalizePhone raw = Inr (us_phone u) \<and> us_status u = StatusActive
    \<and> rt_user_id t = us_id u \<and> rt_token_hash t = hashToken env (RefreshToken (Session_Tokens session))
    \<and> rt_revoked_at t = None \<and> rt_expires_at t = clock_Now env + RefreshTokenTTL
    \<and> Identity J (signer_key sg) (''Bearer '' @ AccessToken (Session_Tokens session)) now c
      = Some (c\<lparr>ctx_principal := Some \<lparr>UserID = uuid_String env (us_id u), Roles = roles_of (shop_owners s') u\<rparr>\<rparr>)"
proof -
  obtain phone R u b d where v: "NormalizePhone raw = Inr phone"
    "UpsertUserByPhone env (newID env) phone (clock_Now env) (accounts s) = Inr ((u, b), d)"
    "us_status u \<noteq> StatusBlocked"
    "issue env (uuid_String env (us_id u)) (clock_Now env) None (s\<lparr>cache := R, accounts := d\<rparr>)
       = (Inr (Session_Tokens session), s')"
    using assms(1) by (rule VerifyCode_Inr) blast
  note u = Upsert_Inr(1) [OF v(2)] and inv = Upsert_Inr(2) [OF v(2) assms(2)]
  obtain roles access token rotated e where i: "fst (rolesFor env (uuid_String env (us_id u)) (s\<lparr>cache := R, accounts := d\<rparr>)) = Inr roles"
    "signer_Sign env (uuid_String env (us_id u)) roles (clock_Now env) = Inr access"
    "InsertRefreshToken env (uuid_Parse env (uuid_String env (rowID env 0))) (uuid_Parse env (uuid_String env (us_id u)))
       (hashToken env token) (clock_Now env) (clock_Now env + RefreshTokenTTL) rotated d = Inr e"
    "s' = s\<lparr>cache := R, accounts := e\<rparr>" "AccessToken (Session_Tokens session) = access"
    "RefreshToken (Session_Tokens session) = token"
    using v(4) by (rule issue_Inr) auto
  have "roles = roles_of (shop_owners s) u"
    using rolesFor_user [of "s\<lparr>cache := R, accounts := d\<rparr>" u env] u inv assms(3,4) i(1) by simp
  moreover have "us_status u = StatusActive"
    using u inv v(3) by (auto simp: identity_inv_def list_all_iff user_chk_def StatusActive_def StatusBlocked_def)
  moreover have "validateJWT J access (signer_key sg) now = Some \<lparr>UserID = uuid_String env (us_id u), Roles = roles\<rparr>"
    using signed_token [OF i(2) [unfolded assms(5)] assms(6,8) _ assms(9)] assms(3,7,10) by (simp add: uuid_Validate_def)
  moreover have "u \<in> set (users e) \<and> (\<exists>t \<in> set (refresh_tokens e). rt_user_id t = us_id u
    \<and> rt_token_hash t = hashToken env token \<and> rt_revoked_at t = None
    \<and> rt_expires_at t = clock_Now env + RefreshTokenTTL)"
    using i(3) by (rule Insert_Inr) (use u assms(3) in auto)
  then obtain t where "u \<in> set (users e)" "t \<in> set (refresh_tokens e)" "rt_user_id t = us_id u"
    "rt_token_hash t = hashToken env token" "rt_revoked_at t = None" "rt_expires_at t = clock_Now env + RefreshTokenTTL"
    by blast
  ultimately show ?thesis using i(4-6) v(1) u
    by (intro bexI [of _ u] bexI [of _ t]) (simp_all add: Identity_def starts_with_def)
qed

lemma sample_login: "\<exists>session. fst (VerifyCode (sample_session 10 ''laptop'' no_faults) ''90 123-45-67'' ''000042'' two_sessions) = Inr session"
proof -
  let ?r = "fst (VerifyCode (sample_session 10 ''laptop'' no_faults) ''90 123-45-67'' ''000042'' two_sessions)"
  have "isl ?r = False" by code_simp
  then show ?thesis by (cases ?r) auto
qed

lemma login_authenticates_witness:
  "\<exists>session s'. VerifyCode (sample_session 10 ''laptop'' no_faults) ''90 123-45-67'' ''000042'' two_sessions = (Inr session, s')
    \<and> (\<exists>u \<in> set (users (accounts s')). NormalizePhone ''90 123-45-67'' = Inr (us_phone u) \<and> us_status u = StatusActive)"
proof -
  let ?r = "VerifyCode (sample_session 10 ''laptop'' no_faults) ''90 123-45-67'' ''000042'' two_sessions"
  obtain session where s: "?r = (Inr session, snd ?r)" using sample_login by (auto simp: prod_eq_iff)
  have "uuid_Parse sample_jwt = sample_Parse" by (simp add: sample_jwt_def)
  note l = login_authenticates [OF s two_sessions_inv _ _ _ sample_jwt_faithful, where sg = sample_signer and now = 0
      and c = "\<lparr>ctx_principal = None, OperationKey = []\<rparr>"]
  have "\<exists>u \<in> set (users (accounts (snd ?r))). NormalizePhone ''90 123-45-67'' = Inr (us_phone u) \<and> us_status u = StatusActive"
    by (rule bexE [OF l]) (use \<open>uuid_Parse sample_jwt = sample_Parse\<close> in \<open>auto simp: no_faults_def sample_signer_def Unix_def\<close>)
  then show ?thesis using s by blast
qed

text \<open>
  C19: Whoever is put into a request was named by the claims of a token that is signed: the token
  is three parts, the third decodes to the HMAC of the first two under the configured key, and
  the claims in the second name this user, who is not empty, and have not expired. Without a
  header the request stays as it is.
\<close>

theorem principal_was_signed:
  assumes "Identity J signingKey header now c = Some c'"
  shows "(header = [] \<and> c' = c) \<or>
    (\<exists>p0 p1 p2 claims roles. header = ''Bearer '' @ p0 @ ''.'' @ p1 @ ''.'' @ p2
      \<and> b64_Decode J p2 = Some (hmac_sha256 J signingKey (p0 @ ''.'' @ p1)) \<and> signingKey \<noteq> []
      \<and> Option.bind (b64_Decode J p1) (json_read_claims J) = Some claims
      \<and> uuid_Validate J (Claim_Subject claims) \<and> Unix now < Claim_Expiry claims
      \<and> c' = c\<lparr>ctx_principal := Some \<lparr>UserID = Claim_Subject claims, Roles = roles\<rparr>\<rparr>)"
proof (cases "header = []")
  case True
  then show ?thesis using assms by (simp add: Identity_def)
next
  case False
  then obtain p where p: "starts_with ''Bearer '' header" "validateJWT J (drop 7 header) signingKey now = Some p"
    "c' = c\<lparr>ctx_principal := Some p\<rparr>"
    using assms by (auto simp: Identity_def split: if_splits option.splits)
  have "take 7 header = ''Bearer ''" using p(1) by (simp add: starts_with_def eval_nat_numeral)
  moreover obtain p0 p1 p2 claims where a: "drop 7 header = p0 @ ''.'' @ p1 @ ''.'' @ p2"
    "b64_Decode J p2 = Some (hmac_sha256 J signingKey (p0 @ ''.'' @ p1))"
    "Option.bind (b64_Decode J p1) (json_read_claims J) = Some claims" "UserID p = Claim_Subject claims"
    "uuid_Validate J (UserID p)" "Unix now < Claim_Expiry claims" "signingKey \<noteq> []"
    using accepted_token [OF p(2)] by blast
  ultimately have "header = ''Bearer '' @ p0 @ ''.'' @ p1 @ ''.'' @ p2"
    using append_take_drop_id [of 7 header] by metis
  moreover have "p = \<lparr>UserID = Claim_Subject claims, Roles = Roles p\<rparr>" using a(4) by simp
  ultimately show ?thesis using a p(3) by metis
qed

lemma principal_was_signed_witness:
  "\<exists>header p0 p1 p2. Identity sample_jwt ''k'' header 10 \<lparr>ctx_principal = None, OperationKey = []\<rparr>
      = Some \<lparr>ctx_principal = Some \<lparr>UserID = sample_String 7, Roles = [RoleBuyer]\<rparr>, OperationKey = []\<rparr>
    \<and> header = ''Bearer '' @ p0 @ ''.'' @ p1 @ ''.'' @ p2
    \<and> b64_Decode sample_jwt p2 = Some (hmac_sha256 sample_jwt ''k'' (p0 @ ''.'' @ p1))"
proof -
  let ?header = "''Bearer h.c.k!h'' @ ''-dc''"
  have i: "Identity sample_jwt ''k'' ''Bearer h.c.k!h-dc'' 10 \<lparr>ctx_principal = None, OperationKey = []\<rparr>
      = Some \<lparr>ctx_principal = Some \<lparr>UserID = sample_String 7, Roles = [RoleBuyer]\<rparr>, OperationKey = []\<rparr>"
    by code_simp
  show ?thesis using principal_was_signed [OF i] i by auto
qed

end
