(* ===== verification/Calendar.thy ===== *)
theory Calendar
  imports Money
begin

text \<open>
  The proleptic Gregorian calendar as Go's package \<open>time\<close> and PostgreSQL compute with it in
  UTC. A date is the number of its day since 1 January 1970, a month the number of months
  since January 1970.
\<close>

type_synonym date = int

section \<open>Months and their first days\<close>

definition leap :: "int \<Rightarrow> bool" where
  "leap y \<longleftrightarrow> y mod 4 = 0 \<and> (y mod 100 \<noteq> 0 \<or> y mod 400 = 0)"

text \<open>The number of leap years before a year, counted from the year 0.\<close>

definition leaps_before :: "int \<Rightarrow> int" where
  "leaps_before y = (y - 1) div 4 - (y - 1) div 100 + (y - 1) div 400"

fun days_before :: "int \<Rightarrow> int" where
  "days_before k = (if k = 0 then 0 else if k = 1 then 31 else if k = 2 then 59 else if k = 3 then 90
     else if k = 4 then 120 else if k = 5 then 151 else if k = 6 then 181 else if k = 7 then 212
     else if k = 8 then 243 else if k = 9 then 273 else if k = 10 then 304 else 334)"

declare days_before.simps [simp del]

definition year_of :: "int \<Rightarrow> int" where
  "year_of m = 1970 + m div 12"

definition month_start :: "int \<Rightarrow> date" where
  "month_start m =
     365 * (year_of m - 1970) + (leaps_before (year_of m) - leaps_before 1970) + days_before (m mod 12)
     + (if 2 \<le> m mod 12 \<and> leap (year_of m) then 1 else 0)"

lemma div_step: "0 < n \<Longrightarrow> (y::int) div n - (y - 1) div n = (if n dvd y then 1 else 0)"
proof -
  assume n: "0 < n"
  show ?thesis
  proof (cases "n dvd y")
    case True
    then obtain q where "y = n * q" by blast
    then have "y - 1 = (n - 1) + n * (q - 1)" by (simp add: algebra_simps)
    moreover have "(n - 1) div n = 0" using n by simp
    ultimately show ?thesis using n True \<open>y = n * q\<close> by (simp only: div_mult_self2) simp
  next
    case False
    then have r: "0 < y mod n" using n by (simp add: dvd_eq_mod_eq_0 order_le_neq_trans)
    have "y - 1 = (y mod n - 1) + n * (y div n)" by (simp add: algebra_simps)
    moreover have "(y mod n - 1) div n = 0" using n r pos_mod_bound [OF n, of y] by simp
    ultimately have "(y - 1) div n = y div n" using n by (simp only: div_mult_self2)
    then show ?thesis using False by simp
  qed
qed

lemma leaps_before_step: "leaps_before (y + 1) - leaps_before y = (if leap y then 1 else 0)"
proof -
  have d: "4 dvd y" if "100 dvd y" using that dvd_trans [of 4 100 y] by simp
  have c: "100 dvd y" if "400 dvd y" using that dvd_trans [of 100 400 y] by simp
  have "leaps_before (y + 1) - leaps_before y =
      (if 4 dvd y then 1 else 0) - (if 100 dvd y then 1 else 0) + (if 400 dvd y then 1 else 0)"
  proof -
    have "leaps_before (y + 1) - leaps_before y =
        (y div 4 - (y - 1) div 4) - (y div 100 - (y - 1) div 100) + (y div 400 - (y - 1) div 400)"
      by (simp only: leaps_before_def add_diff_cancel_right' add_diff_cancel_left' algebra_simps)
    then show ?thesis by (simp only: div_step zero_less_numeral)
  qed
  also have "\<dots> = (if leap y then 1 else 0)"
      unfolding leap_def dvd_eq_mod_eq_0 [symmetric] using c d
    by (cases "4 dvd y"; cases "100 dvd y"; cases "400 dvd y") (simp_all only: if_True if_False simp_thms diff_zero add_0_left add_0_right diff_self)
  finally show ?thesis .
qed

lemma month_start_parts:
  "month_start m = 365 * (m div 12) + (leaps_before (year_of m) - leaps_before 1970) + days_before (m mod 12)
     + (if 2 \<le> m mod 12 \<and> leap (year_of m) then 1 else 0)"
  by (simp add: month_start_def year_of_def)

lemma days_before_step:
  "0 \<le> k \<Longrightarrow> k < 11 \<Longrightarrow> days_before (k + 1) - days_before k \<in> {28, 30, 31} \<and>
     (days_before (k + 1) - days_before k = 28 \<longrightarrow> k = 1) \<and> (k = 1 \<longrightarrow> days_before (k + 1) - days_before k = 28)"
proof -
  assume "0 \<le> k" "k < 11"
  then have "k \<in> {0..<11}" by simp
  then have "k \<in> {0, 1, 2, 3, 4, 5, 6, 7, 8, 9, 10}" by (simp add: atLeastLessThan_def) presburger
  then consider "k = 0" | "k = 1" | "k = 2" | "k = 3" | "k = 4" | "k = 5" | "k = 6" | "k = 7" | "k = 8"
    | "k = 9" | "k = 10" by blast
  then show ?thesis by cases (simp_all add: days_before.simps)
qed

text \<open>A month has 28 to 31 days.\<close>

lemma month_length: "28 \<le> month_start (m + 1) - month_start m \<and> month_start (m + 1) - month_start m \<le> 31"
proof (cases "m mod 12 = 11")
  case True
  define q where "q = m div 12"
  have "12 * q + 11 = m" using mult_div_mod_eq [of 12 m] by (simp only: q_def True)
  then have e: "m + 1 = 0 + 12 * (q + 1)" by simp
  have m: "(m + 1) mod 12 = 0" "(m + 1) div 12 = q + 1"
    unfolding e mod_mult_self2 by (simp_all add: div_mult_self2)
  have y: "year_of (m + 1) = year_of m + 1" by (simp add: year_of_def m q_def [symmetric])
  have "days_before 11 = 334" "days_before 0 = 0" by (simp_all add: days_before.simps)
  then show ?thesis using leaps_before_step [of "year_of m"]
    unfolding month_start_parts m True y q_def [symmetric] by (cases "leap (year_of m)") simp_all
next
  case False
  define q k where "q = m div 12" and "k = m mod 12"
  have k: "0 \<le> k" "k < 11"
    using False pos_mod_bound [of 12 m] unfolding k_def by simp_all
  have "12 * q + k = m" using mult_div_mod_eq [of 12 m] by (simp only: q_def k_def)
  then have e: "m + 1 = (k + 1) + 12 * q" by simp
  have m: "(m + 1) mod 12 = k + 1" "(m + 1) div 12 = q"
    unfolding e mod_mult_self2 using k by (simp_all add: div_mult_self2)
  have y: "year_of (m + 1) = year_of m" by (simp add: year_of_def m q_def [symmetric])
  define c :: "int \<Rightarrow> int" where "c i = (if 2 \<le> i \<and> leap (year_of m) then 1 else 0)" for i
  define a b where "a = days_before k" and "b = days_before (k + 1)"
  have "b - a \<in> {28, 30, 31}" "b - a = 28 \<longleftrightarrow> k = 1"
    using days_before_step [of k] k unfolding a_def b_def by blast+
  moreover have "c (k + 1) - c k \<in> {0, 1}" "c (k + 1) - c k = 1 \<longrightarrow> k = 1"
    by (auto simp: c_def)
  ultimately have "28 \<le> b - a + (c (k + 1) - c k)" "b - a + (c (k + 1) - c k) \<le> 31" by auto
  moreover have "month_start (m + 1) - month_start m = b - a + (c (k + 1) - c k)"
    unfolding month_start_parts m y k_def [symmetric] q_def [symmetric] a_def b_def c_def by simp
  ultimately show ?thesis by simp
qed

lemma month_start_mono: "m < m' \<Longrightarrow> month_start m + 28 \<le> month_start m'"
proof (induction m' rule: int_gr_induct)
  case base
  then show ?case using month_length [of m] by simp
next
  case (step i)
  then show ?case using month_length [of i] by simp
qed

lemma month_start_le_iff [simp]: "month_start m \<le> month_start m' \<longleftrightarrow> m \<le> m'"
  using month_start_mono [of m m'] month_start_mono [of m' m] by (cases m m' rule: linorder_cases) auto

lemma month_start_less_iff [simp]: "month_start m < month_start m' \<longleftrightarrow> m < m'"
  by (simp add: linorder_not_le [symmetric])

section \<open>The month of a day\<close>

text \<open>
  The search starts at a month that does not begin after the day: no month is longer than
  31 days, and none shorter than 28.
\<close>

function month_from :: "int \<Rightarrow> date \<Rightarrow> int" where
  "month_from m d = (if month_start (m + 1) \<le> d then month_from (m + 1) d else m)"
  by auto
termination
proof (relation "measure (\<lambda>(m, d). nat (d - month_start m))")
  fix m d
  assume "month_start (m + 1) \<le> d"
  then show "((m + 1, d), (m, d)) \<in> measure (\<lambda>(m, d). nat (d - month_start m))"
    using month_length [of m] by auto
qed simp

declare month_from.simps [simp del]

definition month_of :: "date \<Rightarrow> int" where
  "month_of d = month_from (if 0 \<le> d then d div 31 else d div 28) d"

lemma month_from_bounds:
  "month_start m \<le> d \<Longrightarrow> month_start (month_from m d) \<le> d \<and> d < month_start (month_from m d + 1)"
proof (induction m d rule: month_from.induct)
  case (1 m d)
  then show ?case by (cases "month_start (m + 1) \<le> d") (simp_all add: month_from.simps [of m d])
qed

lemma month_start_0 [simp]: "month_start 0 = 0"
  by (simp add: month_start_def year_of_def days_before.simps)

lemma month_start_upper: "0 \<le> m \<Longrightarrow> month_start m \<le> 31 * m"
proof (induction m rule: int_ge_induct)
  case (step i)
  then show ?case using month_length [of i] by simp
qed simp

lemma month_start_lower: "m \<le> 0 \<Longrightarrow> month_start m \<le> 28 * m"
proof (induction m rule: int_le_induct)
  case (step i)
  then show ?case using month_length [of "i - 1"] by simp
qed simp

theorem month_of_iff: "month_of d = m \<longleftrightarrow> month_start m \<le> d \<and> d < month_start (m + 1)"
proof -
  let ?e = "if 0 \<le> d then d div 31 else d div 28"
  have "month_start ?e \<le> d"
  proof (cases "0 \<le> d")
    case True
    then have "month_start (d div 31) \<le> 31 * (d div 31)" by (intro month_start_upper) (simp add: pos_imp_zdiv_nonneg_iff)
    moreover have "31 * (d div 31) \<le> d" by presburger
    ultimately show ?thesis using True by simp
  next
    case False
    then have "month_start (d div 28) \<le> 28 * (d div 28)" by (intro month_start_lower) presburger
    moreover have "28 * (d div 28) \<le> d" by presburger
    ultimately show ?thesis using False by simp
  qed
  then have b: "month_start (month_of d) \<le> d" "d < month_start (month_of d + 1)"
    using month_from_bounds [of ?e d] by (simp_all add: month_of_def)
  show ?thesis
  proof (intro iffI conjI)
    assume "month_start m \<le> d \<and> d < month_start (m + 1)"
    then have "month_start m < month_start (month_of d + 1)" "month_start (month_of d) < month_start (m + 1)"
      using b by linarith+
    then show "month_of d = m" by simp
  qed (use b in auto)
qed

lemma month_of_start [simp]: "month_of (month_start m) = m"
  by (simp add: month_of_iff)

section \<open>Times and dates\<close>

text \<open>
  A time is a number of nanoseconds. \<open>MonthStart\<close> is \<open>time.Date(t.Year(), t.Month(), 1, 0, 0, 0,
  0, time.UTC)\<close>, \<open>AddDate\<close> the method of \<open>time.Time\<close> for months and days: it adds to the parts
  of the date and normalizes, so a day that overflows its month runs into the next one. PostgreSQL
  does not let it overflow: \<open>date + interval '1 month'\<close> stops at the last day of the month.
\<close>

definition day_ns :: int where
  "day_ns = 86400000000000"

definition day_of :: "time \<Rightarrow> date" where
  "day_of t = t div day_ns"

definition MonthStart :: "time \<Rightarrow> time" where
  "MonthStart t = month_start (month_of (day_of t)) * day_ns"

definition AddDate :: "time \<Rightarrow> int \<Rightarrow> int \<Rightarrow> time" where
  "AddDate t months days =
     (let m = month_of (day_of t)
      in (month_start (m + months) + (day_of t - month_start m) + days) * day_ns + t mod day_ns)"

definition date_trunc_month :: "time \<Rightarrow> date" where
  "date_trunc_month t = month_start (month_of (day_of t))"

definition plus_month :: "date \<Rightarrow> time" where
  "plus_month d = (let m = month_of d
     in min (month_start (m + 1) + (d - month_start m)) (month_start (m + 2) - 1) * day_ns)"

lemma day_ns_pos [simp]: "0 < day_ns"
  by (simp add: day_ns_def)

lemma day_of_date [simp]: "day_of (d * day_ns) = d"
  by (simp add: day_of_def day_ns_def)

lemma le_time_iff: "d * day_ns \<le> t \<longleftrightarrow> d \<le> day_of t"
proof
  assume "d * day_ns \<le> t"
  then show "d \<le> day_of t" using zdiv_mono1 [OF _ day_ns_pos, of "d * day_ns" t] by (simp add: day_of_def day_ns_def)
next
  assume "d \<le> day_of t"
  then have "d * day_ns \<le> day_of t * day_ns" by (simp add: mult_le_cancel_right_pos)
  also have "\<dots> \<le> t" unfolding day_of_def using div_mult_mod_eq [of t day_ns] pos_mod_sign [OF day_ns_pos, of t] by linarith
  finally show "d * day_ns \<le> t" .
qed

lemma less_time_iff: "t < d * day_ns \<longleftrightarrow> day_of t < d"
  using le_time_iff [of d t] by linarith

lemma MonthStart_trunc: "MonthStart t = date_trunc_month t * day_ns"
  by (simp add: MonthStart_def date_trunc_month_def)

lemma plus_month_start [simp]: "plus_month (month_start m) = month_start (m + 1) * day_ns"
  using month_length [of "m + 1"] by (simp add: plus_month_def Let_def add.assoc)

lemma AddDate_month_start:
  "AddDate (month_start m * day_ns) months days = (month_start (m + months) + days) * day_ns"
  by (simp add: AddDate_def Let_def)

text \<open>A time lies in the month it is truncated to, and in no other.\<close>

lemma date_trunc_month_iff:
  "date_trunc_month t = month_start m \<longleftrightarrow> month_start m * day_ns \<le> t \<and> t < month_start (m + 1) * day_ns"
  using month_of_iff [of "day_of t" m] month_of_start [of m] month_of_start [of "month_of (day_of t)"]
  unfolding date_trunc_month_def le_time_iff less_time_iff by metis

lemma before_MonthStart:
  "t < MonthStart now \<longleftrightarrow> date_trunc_month t < date_trunc_month now"
proof -
  have "day_of t < month_start (month_of (day_of now)) \<longleftrightarrow>
      month_start (month_of (day_of t)) < month_start (month_of (day_of now))"
    using month_of_iff [of "day_of t" "month_of (day_of t)"] month_start_less_iff
    by (smt (verit) month_start_le_iff)
  then show ?thesis by (simp only: MonthStart_def less_time_iff date_trunc_month_def)
qed

section \<open>The text of a date\<close>

definition date_year :: "date \<Rightarrow> int" where "date_year d = year_of (month_of d)"
definition date_month :: "date \<Rightarrow> int" where "date_month d = month_of d mod 12 + 1"
definition date_day :: "date \<Rightarrow> int" where "date_day d = d - month_start (month_of d) + 1"

text \<open>\<open>appendInt\<close>: a number padded with zeros, never cut off.\<close>

definition pad :: "nat \<Rightarrow> nat \<Rightarrow> string" where
  "pad w n = replicate (w - length (decimal n)) CHR ''0'' @ decimal n"

text \<open>\<open>Format(time.DateOnly)\<close>, and \<open>time.Parse(time.DateOnly, s)\<close>, which demands every digit.\<close>

definition Format_DateOnly :: "date \<Rightarrow> string" where
  "Format_DateOnly d =
     (if date_year d < 0 then ''-'' @ pad 4 (nat (- date_year d)) else pad 4 (nat (date_year d)))
     @ ''-'' @ pad 2 (nat (date_month d)) @ ''-'' @ pad 2 (nat (date_day d))"

definition number :: "string \<Rightarrow> int option" where
  "number s = (if list_all is_digit s then Some (digits_value 0 s) else None)"

definition Parse_DateOnly :: "string \<Rightarrow> date option" where
  "Parse_DateOnly s =
     (if length s = 10 \<and> s ! 4 = CHR ''-'' \<and> s ! 7 = CHR ''-'' then
        (case (number (take 4 s), number (take 2 (drop 5 s)), number (drop 8 s)) of
           (Some y, Some k, Some day) \<Rightarrow>
             if k < 1 \<or> 12 < k then None
             else let m = (y - 1970) * 12 + (k - 1) in
               if day < 1 \<or> month_start (m + 1) - month_start m < day then None
               else Some (month_start m + day - 1)
         | _ \<Rightarrow> None)
      else None)"

text \<open>\<open>Format(time.RFC3339)\<close> of a time in UTC.\<close>

definition Format_RFC3339 :: "time \<Rightarrow> string" where
  "Format_RFC3339 t =
     (let s = t mod day_ns div 1000000000
      in Format_DateOnly (day_of t) @ ''T'' @ pad 2 (nat (s div 3600)) @ '':'' @
         pad 2 (nat (s mod 3600 div 60)) @ '':'' @ pad 2 (nat (s mod 60)) @ ''Z'')"

lemma length_decimal_le: "0 < w \<Longrightarrow> n < 10 ^ w \<Longrightarrow> length (decimal n) \<le> w"
proof (induction n arbitrary: w rule: decimal.induct)
  case (1 n)
  show ?case
  proof (cases "n < 10")
    case True
    then show ?thesis using 1 by (simp add: decimal.simps [of n])
  next
    case False
    with 1 obtain v where v: "w = Suc v" "0 < v" by (cases w; cases "w - 1") auto
    then have "n div 10 < 10 ^ v" using 1 by (simp add: less_mult_imp_div_less mult.commute)
    then show ?thesis using 1 False v by (simp add: decimal.simps [of n])
  qed
qed

lemma digits_value_zeros: "digits_value 0 (replicate k CHR ''0'' @ s) = digits_value 0 s"
  by (induction k) (simp_all add: digit_value_def)

lemma is_digit_0 [simp]: "is_digit CHR ''0''"
  by (simp add: is_digit_def)

lemma number_pad [simp]: "number (pad w n) = Some (int n)"
  using decimal_ok [of n] by (simp add: number_def pad_def digits_value_zeros list_all_iff set_replicate_conv_if)

lemma length_pad: "0 < w \<Longrightarrow> n < 10 ^ w \<Longrightarrow> length (pad w n) = w"
  using length_decimal_le [of w n] by (simp add: pad_def)

lemma date_parts:
  "1 \<le> date_month d" "date_month d \<le> 12" "1 \<le> date_day d" "date_day d \<le> 31"
  "(date_year d - 1970) * 12 + (date_month d - 1) = month_of d"
  "month_start (month_of d) + date_day d - 1 = d"
  "date_day d \<le> month_start (month_of d + 1) - month_start (month_of d)"
  using month_of_iff [of d "month_of d"] month_length [of "month_of d"]
  by (simp_all add: date_month_def date_day_def date_year_def year_of_def)

theorem Parse_Format_DateOnly:
  assumes "0 \<le> date_year d" "date_year d < 10000"
  shows "Parse_DateOnly (Format_DateOnly d) = Some d"
proof -
  define y k b where "y = pad 4 (nat (date_year d))" and "k = pad 2 (nat (date_month d))"
    and "b = pad 2 (nat (date_day d))"
  have l: "length y = 4" "length k = 2" "length b = 2"
    using assms date_parts [of d] by (simp_all add: y_def k_def b_def length_pad)
  have n: "number y = Some (date_year d)" "number k = Some (date_month d)" "number b = Some (date_day d)"
    using assms date_parts(1,3) [of d] by (simp_all add: y_def k_def b_def)
  have "Format_DateOnly d = y @ ''-'' @ k @ ''-'' @ b"
    using assms by (simp add: Format_DateOnly_def y_def k_def b_def)
  then show ?thesis
    using date_parts [of d] by (simp add: Parse_DateOnly_def nth_append l n)
qed

end
