(* ===== verification/Rollup.thy ===== *)
theory Rollup
  imports Billing Calendar "HOL-Library.Product_Lexorder"
begin

text \<open>
  The monthly statements of commission (\<open>internal/modules/billing/rollup.go\<close> with its
  statements, and the listing in \<open>repository.go\<close> and \<open>service.go\<close>). A pass reads the sums of the
  unbilled ledger rows per owner and month, and then files one statement per sum in a transaction
  of its own, which attaches the rows of that month.
\<close>

section \<open>Rows\<close>

record statement_row =
  ci_ID :: uuid
  ci_OwnerID :: uuid
  ci_PeriodStart :: date
  ci_PeriodEnd :: date
  ci_AccruedAmount :: int
  ci_DiscountAmount :: int
  ci_Amount :: int
  ci_DueAt :: time
  ci_Status :: string
  ci_PaidAt :: "time option"

record rdb = bdb +
  commission_invoices :: "statement_row list"

definition statement_chk :: "statement_row \<Rightarrow> bool" where
  "statement_chk r \<longleftrightarrow> 0 \<le> ci_AccruedAmount r \<and> 0 \<le> ci_DiscountAmount r \<and> 0 \<le> ci_Amount r \<and>
     ci_Status r \<in> {''issued'', ''paid'', ''overdue''} \<and> ci_PeriodStart r \<le> ci_PeriodEnd r \<and>
     ci_Amount r = ci_AccruedAmount r - ci_DiscountAmount r"

section \<open>Queries\<close>

record period_row =
  up_OwnerID :: uuid
  up_PeriodStart :: date
  up_AccruedAmount :: int
  up_DiscountAmount :: int
  up_Amount :: int

definition ledger_period :: "ledger_row \<Rightarrow> date \<times> uuid" where
  "ledger_period r = (date_trunc_month (cl_CreatedAt r), cl_OwnerID r)"

definition unbilled :: "ledger_row \<Rightarrow> bool" where
  "unbilled r \<longleftrightarrow> cl_InvoiceID r = None"

text \<open>One group of the query: its key and the sums over its rows.\<close>

definition period_group :: "ledger_row list \<Rightarrow> date \<times> uuid \<Rightarrow> period_row" where
  "period_group rows key = (let g = filter (\<lambda>r. ledger_period r = key) rows in
     \<lparr>up_OwnerID = snd key, up_PeriodStart = fst key, up_AccruedAmount = sum_list (map cl_Accrued g),
      up_DiscountAmount = sum_list (map cl_Discount g), up_Amount = sum_list (map cl_Payable g)\<rparr>)"

text \<open>The casts to \<open>bigint\<close> fail on a sum that does not fit (SQLSTATE 22003).\<close>

definition fits :: "period_row \<Rightarrow> bool" where
  "fits p \<longleftrightarrow> is_int64 (up_AccruedAmount p) \<and> is_int64 (up_DiscountAmount p) \<and> is_int64 (up_Amount p)"

definition unbilled_periods :: "time \<Rightarrow> ledger_row list \<Rightarrow> period_row list" where
  "unbilled_periods before ledger =
     (let rows = filter (\<lambda>r. unbilled r \<and> cl_CreatedAt r < before) ledger
      in map (period_group rows) (sort (remdups (map ledger_period rows))))"

definition ListUnbilledCommissionPeriods ::
  "'a env_scheme \<Rightarrow> time \<Rightarrow> int \<Rightarrow> billing \<Rightarrow> period_row list result" where
  "ListUnbilledCommissionPeriods env before pageSize b = stmt env ''ListUnbilledCommissionPeriods''
     (let ps = unbilled_periods before (commission_ledger b)
      in if list_all fits ps then Inr (take (nat pageSize) ps) else Inl (PgError ''22003''))"

text \<open>
  \<open>INSERT ... ON CONFLICT (owner_id, period_start) DO UPDATE\<close> with an update that changes
  nothing: the id of the statement that is there, or of the new one.
\<close>

definition CreateCommissionInvoice ::
  "'a env_scheme \<Rightarrow> statement_row \<Rightarrow> 'z rdb_scheme \<Rightarrow> (uuid \<times> 'z rdb_scheme) result" where
  "CreateCommissionInvoice env row db = stmt env ''CreateCommissionInvoice''
     (if \<not> statement_chk row then Inl (PgError ''23514'')
      else case find (\<lambda>r. ci_OwnerID r = ci_OwnerID row \<and> ci_PeriodStart r = ci_PeriodStart row)
             (commission_invoices db) of
        Some r \<Rightarrow> Inr (ci_ID r, db)
      | None \<Rightarrow>
          andThen (sql_insert statement_chk (\<lambda>a b. ci_ID a = ci_ID b)
            (owner_exists (ci_OwnerID row) (loc db)) row (commission_invoices db)) (\<lambda>rows.
          Inr (ci_ID row, db\<lparr>commission_invoices := rows\<rparr>)))"

definition attachable :: "uuid \<Rightarrow> date \<Rightarrow> ledger_row \<Rightarrow> bool" where
  "attachable ownerID periodStart r \<longleftrightarrow> cl_OwnerID r = ownerID \<and> unbilled r \<and>
     periodStart * day_ns \<le> cl_CreatedAt r \<and> cl_CreatedAt r < plus_month periodStart"

definition AttachLedgerToInvoice ::
  "'a env_scheme \<Rightarrow> uuid \<Rightarrow> uuid \<Rightarrow> date \<Rightarrow> 'z rdb_scheme \<Rightarrow> (nat \<times> 'z rdb_scheme) result" where
  "AttachLedgerToInvoice env invoiceID ownerID periodStart db = stmt env ''AttachLedgerToInvoice''
     (andThen (sql_update ledger_chk (attachable ownerID periodStart) (\<lambda>r. r\<lparr>cl_InvoiceID := Some invoiceID\<rparr>)
        (commission_ledger (bil db))) (\<lambda>(n, rows).
      if 0 < n \<and> invoiceID \<notin> ci_ID ` set (commission_invoices db) then Inl (PgError ''23503'')
      else Inr (n, db\<lparr>bil := (bil db)\<lparr>commission_ledger := rows\<rparr>\<rparr>)))"

definition ListCommissionInvoicesByOwner ::
  "'a env_scheme \<Rightarrow> uuid \<Rightarrow> date option \<Rightarrow> int \<Rightarrow> 'z rdb_scheme \<Rightarrow> statement_row list result" where
  "ListCommissionInvoicesByOwner env ownerID before pageSize db = stmt env ''ListCommissionInvoicesByOwner''
     (Inr (take (nat pageSize) (rev (sort_key ci_PeriodStart (filter (\<lambda>r. ci_OwnerID r = ownerID \<and>
        (case before of None \<Rightarrow> True | Some d \<Rightarrow> ci_PeriodStart r < d)) (commission_invoices db))))))"

section \<open>The rollup\<close>

definition commissionDueGrace :: int where
  "commissionDueGrace = 10 * 24 * 3600000000000"

definition NewRollup :: "int \<Rightarrow> int" where
  "NewRollup batch = (if batch \<le> 0 then 50 else batch)"

definition invoice_of :: "'a env_scheme \<Rightarrow> period_row \<Rightarrow> statement_row" where
  "invoice_of env period = (let periodStart = up_PeriodStart period * day_ns in
     \<lparr>ci_ID = newID env, ci_OwnerID = up_OwnerID period, ci_PeriodStart = up_PeriodStart period,
      ci_PeriodEnd = day_of (AddDate periodStart 1 (-1)), ci_AccruedAmount = up_AccruedAmount period,
      ci_DiscountAmount = up_DiscountAmount period, ci_Amount = up_Amount period,
      ci_DueAt = AddDate periodStart 1 0 + commissionDueGrace, ci_Status = ''issued'', ci_PaidAt = None\<rparr>)"

definition invoicePeriod :: "'a env_scheme \<Rightarrow> period_row \<Rightarrow> 'z rdb_scheme \<Rightarrow> unit result \<times> 'z rdb_scheme" where
  "invoicePeriod env period db = commit db (stmt env ''begin''
     (andThen (stmt env ''LockOwnerCommissionLedger'' (Inr ())) (\<lambda>_.
      andThen (CreateCommissionInvoice env (invoice_of env period) db) (\<lambda>(invoiceID, db1).
      andThen (AttachLedgerToInvoice env invoiceID (up_OwnerID period) (up_PeriodStart period) db1) (\<lambda>(_, db2).
      stmt env ''commit'' (Inr ((), db2)))))))"

text \<open>The loop over the periods: \<open>penv k\<close> is the environment of the transaction number \<open>k\<close>.\<close>

fun invoice_periods ::
  "(nat \<Rightarrow> 'a env_scheme) \<Rightarrow> nat \<Rightarrow> period_row list \<Rightarrow> (nat \<times> go_error list) \<times> 'z rdb_scheme \<Rightarrow>
     (nat \<times> go_error list) \<times> 'z rdb_scheme" where
  "invoice_periods penv k [] s = s"
| "invoice_periods penv k (period # ps) ((issued, failures), db) =
     invoice_periods penv (Suc k) ps (case invoicePeriod (penv k) period db of
       (Inl e, db') \<Rightarrow> ((issued, failures @ [e]), db')
     | (Inr _, db') \<Rightarrow> ((Suc issued, failures), db'))"

definition Rollup_RunOnce ::
  "'a env_scheme \<Rightarrow> (nat \<Rightarrow> 'a env_scheme) \<Rightarrow> int \<Rightarrow> 'z rdb_scheme \<Rightarrow> (nat \<times> go_error list) \<times> 'z rdb_scheme" where
  "Rollup_RunOnce env penv batch db =
     (case ListUnbilledCommissionPeriods env (MonthStart (clock_Now env)) (NewRollup batch) (bil db) of
        Inl e \<Rightarrow> ((0, [e]), db)
      | Inr periods \<Rightarrow> invoice_periods penv 0 periods ((0, []), db))"

section \<open>The listing of statements\<close>

record CommissionInvoice =
  iv_ID :: string
  iv_PeriodStart :: string
  iv_PeriodEnd :: string
  iv_AccruedAmount :: int
  iv_DiscountAmount :: int
  iv_Amount :: int
  iv_DueAt :: string
  iv_Status :: string

definition commissionPageSize :: int where "commissionPageSize = 50"

definition invoice_view :: "'a lib_scheme \<Rightarrow> statement_row \<Rightarrow> CommissionInvoice" where
  "invoice_view L row =
     \<lparr>iv_ID = uuid_String L (ci_ID row), iv_PeriodStart = Format_DateOnly (ci_PeriodStart row),
      iv_PeriodEnd = Format_DateOnly (ci_PeriodEnd row), iv_AccruedAmount = ci_AccruedAmount row,
      iv_DiscountAmount = ci_DiscountAmount row, iv_Amount = ci_Amount row,
      iv_DueAt = Format_RFC3339 (ci_DueAt row), iv_Status = ci_Status row\<rparr>"

definition Repository_ListCommissionInvoices ::
  "'a env_scheme \<Rightarrow> string \<Rightarrow> string \<Rightarrow> 'z rdb_scheme \<Rightarrow> CommissionInvoice list result" where
  "Repository_ListCommissionInvoices env ownerID cursor db =
     (case uuid_Parse env ownerID of None \<Rightarrow> Inl BillingInvalid
      | Some i \<Rightarrow>
        andThen (if cursor = [] then Inr None
                 else case Parse_DateOnly cursor of None \<Rightarrow> Inl BillingInvalid | Some d \<Rightarrow> Inr (Some d)) (\<lambda>before.
        andThen (ListCommissionInvoicesByOwner env i before commissionPageSize db) (\<lambda>rows.
        Inr (map (invoice_view env) rows))))"

definition Service_ListCommissionInvoices ::
  "'a env_scheme \<Rightarrow> ctx \<Rightarrow> string \<Rightarrow> string \<Rightarrow> 'z rdb_scheme \<Rightarrow> CommissionInvoice list result" where
  "Service_ListCommissionInvoices env c ownerID cursor db =
     (if \<not> uuid_Validate env ownerID then Inl BillingInvalid
      else andThen (EnsureOwner env c ownerID (loc db)) (\<lambda>_.
        Repository_ListCommissionInvoices env ownerID cursor db))"

end
