(* ===== verification/RollupRuns.thy ===== *)
theory RollupRuns
  imports Rollup
begin

text \<open>
  Runs of the commission rollup: any number of passes and closed orders interleave between the
  statements of a pass. What every such run keeps (\<open>rollup_ok\<close>, \<open>kept\<close>), between which bounds the
  amounts of the statements stay (\<open>billed_right\<close>), and what a pass that meets no fault does.
\<close>

section \<open>Runs\<close>

text \<open>
  The columns that are summed, in the ledger, in a sum a pass has read and in a statement.
\<close>

datatype column = Accrued | Discount | Payable

fun of_ledger :: "column \<Rightarrow> ledger_row \<Rightarrow> int" where
  "of_ledger Accrued r = cl_Accrued r"
| "of_ledger Discount r = cl_Discount r"
| "of_ledger Payable r = cl_Payable r"

fun of_period :: "column \<Rightarrow> period_row \<Rightarrow> int" where
  "of_period Accrued p = up_AccruedAmount p"
| "of_period Discount p = up_DiscountAmount p"
| "of_period Payable p = up_Amount p"

fun of_statement :: "column \<Rightarrow> statement_row \<Rightarrow> int" where
  "of_statement Accrued s = ci_AccruedAmount s"
| "of_statement Discount s = ci_DiscountAmount s"
| "of_statement Payable s = ci_Amount s"

definition sum_of :: "column \<Rightarrow> (ledger_row \<Rightarrow> bool) \<Rightarrow> ledger_row list \<Rightarrow> int" where
  "sum_of c P rows = sum_list (map (of_ledger c) (filter P rows))"

definition period_key :: "period_row \<Rightarrow> date \<times> uuid" where
  "period_key p = (up_PeriodStart p, up_OwnerID p)"

definition statement_key :: "statement_row \<Rightarrow> date \<times> uuid" where
  "statement_key s = (ci_PeriodStart s, ci_OwnerID s)"

definition billed_keys :: "'z rdb_scheme \<Rightarrow> (date \<times> uuid) set" where
  "billed_keys db = statement_key ` set (commission_invoices db)"

text \<open>
  A state of a run: the database, the sums that passes have read and not yet dropped, and the
  orders whose commission was filed late: when a pass had already read the sum of its month, or
  the statement of its month stood.
\<close>

type_synonym rollup_state = "rdb \<times> period_row list \<times> uuid set"

definition too_late :: "rdb \<Rightarrow> period_row list \<Rightarrow> date \<times> uuid \<Rightarrow> bool" where
  "too_late db held key \<longleftrightarrow> key \<in> period_key ` set held \<or> key \<in> billed_keys db"

inductive rollup_step :: "rollup_state \<Rightarrow> rollup_state \<Rightarrow> bool" where
  lists: "ListUnbilledCommissionPeriods (env :: env) (MonthStart now) pageSize (bil db) = Inr ps \<Longrightarrow>
    rollup_step (db, held, late) (db, held @ ps, late)"
| files: "period \<in> set held \<Longrightarrow> invoicePeriod (env :: env) period db = (r, db') \<Longrightarrow>
    rollup_step (db, held, late) (db', held, late)"
| accrues: "AccrueCommission (env :: env) request db = Inr (acc, db') \<Longrightarrow>
    uuid_Parse env (co_OrderID request) = Some orderID \<Longrightarrow> uuid_Parse env (co_OwnerID request) = Some ownerID \<Longrightarrow>
    late' = (if too_late db held (date_trunc_month (co_At request), ownerID) then insert orderID late else late) \<Longrightarrow>
    rollup_step (db, held, late) (db', held, late')"
| elsewhere: "commission_ledger (bil db') = commission_ledger (bil db) \<Longrightarrow>
    commission_invoices db' = commission_invoices db \<Longrightarrow> rollup_step (db, held, late) (db', held, late)"

text \<open>A pass is a run, whatever fails in it.\<close>

lemma invoice_periods_run:
  "set ps \<subseteq> set held \<Longrightarrow>
     rollup_step\<^sup>*\<^sup>* (snd s, held, late) (snd (invoice_periods (penv :: nat \<Rightarrow> env) k ps s), held, late)"
proof (induction penv k ps s rule: invoice_periods.induct)
  case (2 penv k period ps issued failures db)
  obtain r db' where i: "invoicePeriod (penv k) period db = (r, db')" by (cases "invoicePeriod (penv k) period db")
  then have "rollup_step (db, held, late) (db', held, late)" using 2(2) by (intro files) auto
  moreover have "rollup_step\<^sup>*\<^sup>* (db', held, late) (snd (invoice_periods penv k (period # ps) ((issued, failures), db)), held, late)"
    using 2 i by (cases r) simp_all
  ultimately show ?case by (simp add: converse_rtranclp_into_rtranclp)
qed simp

lemma pass_is_rollup_run:
  "\<exists>held'. rollup_step\<^sup>*\<^sup>* (db, held, late) (snd (Rollup_RunOnce (env :: env) penv batch db), held', late)"
proof (cases "ListUnbilledCommissionPeriods env (MonthStart (clock_Now env)) (NewRollup batch) (bil db)")
  case (Inr ps)
  then have "rollup_step (db, held, late) (db, held @ ps, late)" by (rule lists)
  moreover have "rollup_step\<^sup>*\<^sup>* (db, held @ ps, late) (snd (Rollup_RunOnce env penv batch db), held @ ps, late)"
    using invoice_periods_run [of ps "held @ ps" "((0, []), db)" late penv 0] Inr by (simp add: Rollup_RunOnce_def)
  ultimately show ?thesis by (meson converse_rtranclp_into_rtranclp)
qed (auto simp: Rollup_RunOnce_def)

section \<open>What a statement of the rollup does\<close>

lemma of_ledger_fun [simp]:
  "of_ledger Accrued = cl_Accrued" "of_ledger Discount = cl_Discount" "of_ledger Payable = cl_Payable"
  by (simp_all add: fun_eq_iff)

lemma sum_of_append [simp]: "sum_of c P (xs @ ys) = sum_of c P xs + sum_of c P ys"
  by (simp add: sum_of_def)

lemma sum_of_single [simp]: "sum_of c P [r] = (if P r then of_ledger c r else 0)"
  by (simp add: sum_of_def)

lemma sum_of_Nil [simp]: "sum_of c P [] = 0"
  by (simp add: sum_of_def)

lemma sum_of_Cons [simp]: "sum_of c P (r # rows) = (if P r then of_ledger c r else 0) + sum_of c P rows"
  by (simp add: sum_of_def)

lemma of_ledger_nonneg: "ledger_chk r \<Longrightarrow> 0 \<le> of_ledger c r"
  by (cases c) (simp_all add: ledger_chk_def)

lemma sum_of_mono:
  assumes "list_all ledger_chk rows" "\<And>r. r \<in> set rows \<Longrightarrow> P r \<Longrightarrow> Q r"
  shows "sum_of c P rows \<le> sum_of c Q rows"
  using assms
proof (induction rows)
  case (Cons r rows)
  then have "sum_of c P rows \<le> sum_of c Q rows" "0 \<le> of_ledger c r" by (simp_all add: of_ledger_nonneg)
  moreover have "P r \<longrightarrow> Q r" using Cons.prems(2) by simp
  ultimately show ?case by simp
qed simp

lemma sum_of_cong: "(\<And>r. r \<in> set rows \<Longrightarrow> P r = Q r) \<Longrightarrow> sum_of c P rows = sum_of c Q rows"
  by (simp add: sum_of_def cong: filter_cong)

lemma sum_of_none: "(\<And>r. r \<in> set rows \<Longrightarrow> \<not> P r) \<Longrightarrow> sum_of c P rows = 0"
  using sum_of_cong [of rows P "\<lambda>_. False" c] by (simp add: sum_of_def)

definition attach :: "(ledger_row \<Rightarrow> bool) \<Rightarrow> uuid \<Rightarrow> ledger_row list \<Rightarrow> ledger_row list" where
  "attach A i rows = map (\<lambda>r. if A r then r\<lparr>cl_InvoiceID := Some i\<rparr> else r) rows"

lemma sum_of_attach:
  "sum_of c P (attach A i rows) = sum_of c (\<lambda>r. P (if A r then r\<lparr>cl_InvoiceID := Some i\<rparr> else r)) rows"
proof -
  have "of_ledger c (r\<lparr>cl_InvoiceID := Some i\<rparr>) = of_ledger c r" for r by (cases c) simp_all
  then show ?thesis by (induction rows) (simp_all add: attach_def)
qed

lemma attached_frame [simp]:
  "ledger_chk (r\<lparr>cl_InvoiceID := x\<rparr>) = ledger_chk r"
  "ledger_period (r\<lparr>cl_InvoiceID := x\<rparr>) = ledger_period r"
  by (simp_all add: ledger_chk_def ledger_period_def)

lemma attach_frame [simp]:
  "list_all ledger_chk (attach A i rows) \<longleftrightarrow> list_all ledger_chk rows"
  "map cl_OrderID (attach A i rows) = map cl_OrderID rows"
  by (induction rows) (simp_all add: attach_def)

lemma attachable_iff:
  "attachable w (month_start m) r \<longleftrightarrow> unbilled r \<and> ledger_period r = (month_start m, w)"
  by (auto simp: attachable_def ledger_period_def date_trunc_month_iff)

lemma invoice_of_sel [simp]:
  "ci_ID (invoice_of env p) = newID env" "statement_key (invoice_of env p) = period_key p"
  "of_statement c (invoice_of env p) = of_period c p" "ci_PeriodStart (invoice_of env p) = up_PeriodStart p"
  "ci_OwnerID (invoice_of env p) = up_OwnerID p"
  by (cases c; simp add: invoice_of_def Let_def statement_key_def period_key_def)+

lemma CreateCommissionInvoice_cases:
  assumes "CreateCommissionInvoice env (invoice_of env p) db = Inr (i, db1)"
  obtains (there) s where "s \<in> set (commission_invoices db)" "statement_key s = period_key p" "i = ci_ID s" "db1 = db"
  | (new) "period_key p \<notin> billed_keys db" "statement_chk (invoice_of env p)" "i = newID env"
      "newID env \<notin> ci_ID ` set (commission_invoices db)"
      "db1 = db\<lparr>commission_invoices := commission_invoices db @ [invoice_of env p]\<rparr>"
proof (cases "find (\<lambda>r. ci_OwnerID r = ci_OwnerID (invoice_of env p) \<and>
    ci_PeriodStart r = ci_PeriodStart (invoice_of env p)) (commission_invoices db)")
  case None
  then have "period_key p \<notin> billed_keys db"
    by (auto simp: find_None_iff billed_keys_def statement_key_def period_key_def)
  moreover from assms None have "statement_chk (invoice_of env p)" "i = newID env"
    "list_ex (\<lambda>b. newID env = ci_ID b) (commission_invoices db) = False"
    "db1 = db\<lparr>commission_invoices := commission_invoices db @ [invoice_of env p]\<rparr>"
    by (auto simp: CreateCommissionInvoice_def sql_simps go_simps)
  ultimately show thesis by (intro new) (auto simp: list_ex_iff)
next
  case (Some s)
  then have "s \<in> set (commission_invoices db)" "statement_key s = period_key p"
    by (auto simp: find_Some_iff statement_key_def period_key_def)
  moreover from assms Some have "i = ci_ID s" "db1 = db"
    by (auto simp: CreateCommissionInvoice_def sql_simps go_simps)
  ultimately show thesis by (rule there)
qed

lemma invoicePeriod_cases:
  assumes "invoicePeriod env p db = (r, db')" "list_all ledger_chk (commission_ledger (bil db))"
  obtains (unchanged) "db' = db" "r \<noteq> Inr ()"
  | (replayed) s where "s \<in> set (commission_invoices db)" "statement_key s = period_key p"
      "commission_invoices db' = commission_invoices db"
      "commission_ledger (bil db') = attach (attachable (up_OwnerID p) (up_PeriodStart p)) (ci_ID s) (commission_ledger (bil db))"
  | (filed) "period_key p \<notin> billed_keys db" "statement_chk (invoice_of env p)"
      "newID env \<notin> ci_ID ` set (commission_invoices db)"
      "commission_invoices db' = commission_invoices db @ [invoice_of env p]"
      "commission_ledger (bil db') = attach (attachable (up_OwnerID p) (up_PeriodStart p)) (newID env) (commission_ledger (bil db))"
proof (cases "r")
  case (Inl e)
  then have "db' = db" using assms(1)
    by (auto simp: invoicePeriod_def commit_def split: sum.splits)
  then show thesis by (rule unchanged) (simp add: Inl)
next
  case (Inr u)
  then obtain i db1 n where
    c: "CreateCommissionInvoice env (invoice_of env p) db = Inr (i, db1)" and
    a: "AttachLedgerToInvoice env i (up_OwnerID p) (up_PeriodStart p) db1 = Inr (n, db')"
    using assms(1) by (auto simp: invoicePeriod_def commit_def go_simps sql_simps split: sum.splits)
  from a have l: "commission_ledger (bil db') = attach (attachable (up_OwnerID p) (up_PeriodStart p)) i (commission_ledger (bil db1))"
    "commission_invoices db' = commission_invoices db1"
    by (auto simp: AttachLedgerToInvoice_def sql_simps go_simps attach_def split: if_splits)
  from c show thesis
  proof (cases rule: CreateCommissionInvoice_cases)
    case (there s)
    then show ?thesis using replayed [of s] l by simp
  next
    case new
    then show ?thesis using filed l by simp
  qed
qed

lemma AccrueCommission_appends:
  assumes "AccrueCommission env request (db :: 'z rdb_scheme) = Inr (acc, db')"
    and "uuid_Parse env (co_OrderID request) = Some orderID" "uuid_Parse env (co_OwnerID request) = Some ownerID"
  obtains row where "commission_ledger (bil db') = commission_ledger (bil db) @ [row]" "ledger_chk row" "unbilled row"
    "cl_OrderID row = orderID" "ledger_period row = (date_trunc_month (co_At request), ownerID)"
    "orderID \<notin> cl_OrderID ` set (commission_ledger (bil db))"
    "commission_invoices db' = commission_invoices db"
proof -
  let ?row = "\<lambda>discount payable. \<lparr>cl_ID = rowID env 0, cl_OrderID = orderID, cl_OwnerID = ownerID,
     cl_BaseAmount = co_BaseAmount request, cl_RateBps = co_RateBps request, cl_Accrued = co_Accrued request,
     cl_Discount = discount, cl_Payable = payable, cl_InvoiceID = None, cl_CreatedAt = co_At request\<rparr>"
  from assms obtain completed where "CreateCommissionLedgerEntry env
      (?row (if wrap64 (completed + 1) \<le> foundingFreeOrders then co_Accrued request else 0)
        (wrap64 (co_Accrued request - (if wrap64 (completed + 1) \<le> foundingFreeOrders then co_Accrued request else 0)))) db = Inr db'"
    unfolding AccrueCommission_def Let_def by (simp add: go_simps sql_simps) blast
  then obtain row where e: "CreateCommissionLedgerEntry env row db = Inr db'"
    and r: "cl_OrderID row = orderID" "cl_OwnerID row = ownerID" "cl_InvoiceID row = None" "cl_CreatedAt row = co_At request"
    by simp
  from e have "commission_ledger (bil db') = commission_ledger (bil db) @ [row]" "ledger_chk row"
    "\<not> list_ex (ledger_clash row) (commission_ledger (bil db))" "commission_invoices db' = commission_invoices db"
    by (auto simp: CreateCommissionLedgerEntry_def go_simps sql_simps)
  then show thesis using r
    by (intro that [of row]) (auto simp: unbilled_def ledger_period_def list_ex_iff ledger_clash_def)
qed

section \<open>What holds in every run\<close>

text \<open>
  The constraints of the two tables, and what the columns of the statements mean: an attached row
  is in the statement of its owner and month.
\<close>

definition starts_month :: "date \<Rightarrow> bool" where
  "starts_month d \<longleftrightarrow> month_start (month_of d) = d"

definition attached_to :: "uuid \<Rightarrow> ledger_row \<Rightarrow> bool" where
  "attached_to i r \<longleftrightarrow> cl_InvoiceID r = Some i"

definition rollup_ok :: "'z rdb_scheme \<Rightarrow> bool" where
  "rollup_ok db \<longleftrightarrow>
     list_all ledger_chk (commission_ledger (bil db)) \<and> distinct (map cl_OrderID (commission_ledger (bil db))) \<and>
     list_all statement_chk (commission_invoices db) \<and> distinct (map ci_ID (commission_invoices db)) \<and>
     distinct (map statement_key (commission_invoices db)) \<and>
     list_all (\<lambda>s. starts_month (ci_PeriodStart s)) (commission_invoices db) \<and>
     list_all (\<lambda>r. unbilled r \<or> list_ex (\<lambda>s. attached_to (ci_ID s) r \<and> statement_key s = ledger_period r)
       (commission_invoices db)) (commission_ledger (bil db))"

text \<open>
  A sum lies between what is owed by the rows that were filed in time and what is owed by all.
\<close>

definition between :: "column \<Rightarrow> uuid set \<Rightarrow> (ledger_row \<Rightarrow> bool) \<Rightarrow> ledger_row list \<Rightarrow> int \<Rightarrow> bool" where
  "between c late P rows x \<longleftrightarrow>
     sum_of c (\<lambda>r. P r \<and> cl_OrderID r \<notin> late) rows \<le> x \<and> x \<le> sum_of c P rows"

definition owed :: "date \<times> uuid \<Rightarrow> ledger_row \<Rightarrow> bool" where
  "owed key r \<longleftrightarrow> unbilled r \<and> ledger_period r = key"

definition billed_right :: "'z rdb_scheme \<Rightarrow> period_row list \<Rightarrow> uuid set \<Rightarrow> bool" where
  "billed_right db held late \<longleftrightarrow>
     (\<forall>s \<in> set (commission_invoices db). \<forall>c.
        between c late (attached_to (ci_ID s)) (commission_ledger (bil db)) (of_statement c s)) \<and>
     (\<forall>p \<in> set held. starts_month (up_PeriodStart p) \<and> (period_key p \<in> billed_keys db \<or>
        (\<forall>c. between c late (owed (period_key p)) (commission_ledger (bil db)) (of_period c p)))) \<and>
     (\<forall>r \<in> set (commission_ledger (bil db)). unbilled r \<longrightarrow> ledger_period r \<in> billed_keys db \<longrightarrow>
        cl_OrderID r \<in> late)"

lemma between_refl: "list_all ledger_chk rows \<Longrightarrow> between c late P rows (sum_of c P rows)"
  unfolding between_def by (auto intro: sum_of_mono)

lemma between_attach:
  assumes "\<And>r. r \<in> set rows \<Longrightarrow> P (if A r then r\<lparr>cl_InvoiceID := Some i\<rparr> else r) = Q r"
  shows "between c late P (attach A i rows) x = between c late Q rows x"
proof -
  let ?f = "\<lambda>r. if A r then r\<lparr>cl_InvoiceID := Some i\<rparr> else r"
  have o: "cl_OrderID (?f r) = cl_OrderID r" for r by simp
  have "sum_of c (\<lambda>r. P (?f r)) rows = sum_of c Q rows" using assms by (rule sum_of_cong)
  moreover have "sum_of c (\<lambda>r. P (?f r) \<and> cl_OrderID (?f r) \<notin> late) rows = sum_of c (\<lambda>r. Q r \<and> cl_OrderID r \<notin> late) rows"
    unfolding o using assms by (intro sum_of_cong) blast
  ultimately show ?thesis unfolding between_def sum_of_attach by simp
qed

lemma between_grow:
  assumes "between c late P rows x" "list_all ledger_chk rows"
    and "\<And>r. r \<in> set rows \<Longrightarrow> P r \<Longrightarrow> Q r" "\<And>r. r \<in> set rows \<Longrightarrow> Q r \<Longrightarrow> \<not> P r \<Longrightarrow> cl_OrderID r \<in> late"
  shows "between c late Q rows x"
proof -
  have "sum_of c P rows \<le> sum_of c Q rows" using assms(2,3) by (rule sum_of_mono)
  moreover have "sum_of c (\<lambda>r. P r \<and> cl_OrderID r \<notin> late) rows = sum_of c (\<lambda>r. Q r \<and> cl_OrderID r \<notin> late) rows"
    using assms(3,4) by (intro sum_of_cong) blast
  ultimately show ?thesis using assms(1) by (simp add: between_def)
qed

lemma between_append:
  assumes "between c late P rows x" "list_all ledger_chk rows" "late \<subseteq> late'" "ledger_chk row"
    and "P row \<Longrightarrow> cl_OrderID row \<in> late'"
  shows "between c late' P (rows @ [row]) x"
proof -
  have "sum_of c (\<lambda>r. P r \<and> cl_OrderID r \<notin> late') rows \<le> sum_of c (\<lambda>r. P r \<and> cl_OrderID r \<notin> late) rows"
    using assms(2,3) by (intro sum_of_mono) auto
  then show ?thesis using assms(1,4,5) of_ledger_nonneg [OF assms(4), of c] by (auto simp: between_def)
qed

lemma starts_monthE:
  assumes "starts_month d" obtains m where "d = month_start m"
  using assms by (metis starts_month_def)

lemma starts_month_trunc [simp]: "starts_month (date_trunc_month t)"
  by (simp add: starts_month_def date_trunc_month_def)

definition linked :: "statement_row list \<Rightarrow> ledger_row \<Rightarrow> bool" where
  "linked invs r \<longleftrightarrow> list_ex (\<lambda>s. attached_to (ci_ID s) r \<and> statement_key s = ledger_period r) invs"

lemma rollup_ok_linked:
  "rollup_ok db \<longleftrightarrow>
     list_all ledger_chk (commission_ledger (bil db)) \<and> distinct (map cl_OrderID (commission_ledger (bil db))) \<and>
     list_all statement_chk (commission_invoices db) \<and> distinct (map ci_ID (commission_invoices db)) \<and>
     distinct (map statement_key (commission_invoices db)) \<and>
     list_all (\<lambda>s. starts_month (ci_PeriodStart s)) (commission_invoices db) \<and>
     list_all (\<lambda>r. unbilled r \<or> linked (commission_invoices db) r) (commission_ledger (bil db))"
  by (simp add: rollup_ok_def linked_def)

lemma attachable_owed:
  assumes "starts_month (up_PeriodStart p)"
  shows "attachable (up_OwnerID p) (up_PeriodStart p) = owed (period_key p)"
  using assms attachable_iff by (auto elim!: starts_monthE simp: owed_def period_key_def fun_eq_iff)

lemma linked_attach:
  assumes "list_all (\<lambda>r. unbilled r \<or> linked invs r) rows" "set invs \<subseteq> set invs'"
    and "s \<in> set invs'" "statement_key s = key"
  shows "list_all (\<lambda>r. unbilled r \<or> linked invs' r) (attach (owed key) (ci_ID s) rows)"
proof -
  have "unbilled r \<or> linked invs' r" if "unbilled r \<or> linked invs r" for r
    using that assms(2) by (auto simp: linked_def list_ex_iff)
  moreover have "linked invs' (r\<lparr>cl_InvoiceID := Some (ci_ID s)\<rparr>)" if "owed key r" for r
    using that assms(3,4) by (auto simp: linked_def list_ex_iff owed_def attached_to_def)
  ultimately show ?thesis using assms(1) unfolding attach_def list_all_iff by auto
qed

lemma invoicePeriod_ok:
  assumes "invoicePeriod env p db = (r, db')" "rollup_ok db" "starts_month (up_PeriodStart p)"
  shows "rollup_ok db'"
proof -
  have l: "list_all ledger_chk (commission_ledger (bil db))" using assms(2) by (simp add: rollup_ok_def)
  from assms(1) l show ?thesis
  proof (cases rule: invoicePeriod_cases)
    case (replayed s)
    then show ?thesis using assms(2) linked_attach [of "commission_invoices db" "commission_ledger (bil db)" "commission_invoices db" s "period_key p"]
      by (simp add: rollup_ok_linked attachable_owed assms(3))
  next
    case filed
    have "list_all (\<lambda>r. unbilled r \<or> linked (commission_invoices db') r) (commission_ledger (bil db'))"
      using assms(2) filed linked_attach [of "commission_invoices db" "commission_ledger (bil db)" "commission_invoices db'" "invoice_of env p" "period_key p"]
      by (auto simp: rollup_ok_linked attachable_owed assms(3))
    then show ?thesis using filed assms(2,3)
      by (simp add: rollup_ok_linked attachable_owed billed_keys_def)
  qed (simp add: assms(2))
qed

text \<open>The sums a pass has read are exact when it reads them.\<close>

lemma listed_period:
  assumes "ListUnbilledCommissionPeriods env (MonthStart now) pageSize b = Inr ps" "p \<in> set ps"
  shows "starts_month (up_PeriodStart p)"
    "of_period c p = sum_of c (owed (period_key p)) (commission_ledger b)"
proof -
  let ?rows = "filter (\<lambda>r. unbilled r \<and> cl_CreatedAt r < MonthStart now) (commission_ledger b)"
  from assms have "p \<in> set (unbilled_periods (MonthStart now) (commission_ledger b))"
    by (auto simp: ListUnbilledCommissionPeriods_def Let_def sql_simps dest: in_set_takeD split: if_splits)
  then obtain r0 where r0: "r0 \<in> set ?rows" and p: "p = period_group ?rows (ledger_period r0)"
    by (auto simp: unbilled_periods_def Let_def)
  have k: "period_key p = ledger_period r0"
    by (simp add: p period_group_def period_key_def Let_def)
  then show "starts_month (up_PeriodStart p)" by (simp add: period_key_def ledger_period_def prod_eq_iff)
  have "of_period c p = sum_of c (\<lambda>r. ledger_period r = ledger_period r0) ?rows"
    by (cases c) (simp_all add: p period_group_def sum_of_def Let_def)
  also have "\<dots> = sum_of c (\<lambda>r. (unbilled r \<and> cl_CreatedAt r < MonthStart now) \<and> ledger_period r = ledger_period r0) (commission_ledger b)"
    by (simp add: sum_of_def)
  also have "\<dots> = sum_of c (owed (period_key p)) (commission_ledger b)"
    using r0 before_MonthStart by (intro sum_of_cong) (auto simp: owed_def k ledger_period_def)
  finally show "of_period c p = sum_of c (owed (period_key p)) (commission_ledger b)" .
qed

lemma rollup_step_ok:
  assumes "rollup_step (db, held, late) (db', held', late')"
    and "rollup_ok db" "list_all (\<lambda>p. starts_month (up_PeriodStart p)) held"
  shows "rollup_ok db' \<and> list_all (\<lambda>p. starts_month (up_PeriodStart p)) held'"
  using assms(1)
proof cases
  case (lists env now pageSize ps)
  then show ?thesis using assms(2,3) listed_period(1) by (auto simp: list_all_iff)
next
  case (files period env r)
  then show ?thesis using invoicePeriod_ok [of env period db r db'] assms(2,3) by (auto simp: list_all_iff)
next
  case (accrues env request acc orderID ownerID)
  from accrues(2-4) obtain row where "commission_ledger (bil db') = commission_ledger (bil db) @ [row]" "ledger_chk row" "unbilled row"
    "cl_OrderID row = orderID" "orderID \<notin> cl_OrderID ` set (commission_ledger (bil db))" "commission_invoices db' = commission_invoices db"
    by (rule AccrueCommission_appends)
  then show ?thesis using accrues assms(2,3) by (simp add: rollup_ok_linked)
next
  case elsewhere
  then show ?thesis using assms(2,3) by (simp add: rollup_ok_def)
qed

lemma attach_owed_unbilled:
  "r \<in> set (attach (owed key) i rows) \<Longrightarrow> unbilled r \<Longrightarrow> r \<in> set rows \<and> ledger_period r \<noteq> key"
  by (auto simp: attach_def owed_def unbilled_def)

lemma owed_attached:
  "owed k (if owed key r then r\<lparr>cl_InvoiceID := Some i\<rparr> else r) \<longleftrightarrow> owed k r \<and> k \<noteq> key"
  by (auto simp: owed_def unbilled_def)

lemma attached_to_attached:
  "attached_to j (if owed key r then r\<lparr>cl_InvoiceID := Some i\<rparr> else r) \<longleftrightarrow>
     attached_to j r \<or> owed key r \<and> j = i"
  by (auto simp: owed_def attached_to_def unbilled_def)

text \<open>The sums held for other months than the one that was filed.\<close>

lemma held_attach:
  assumes "starts_month (up_PeriodStart p) \<and> (period_key p \<in> keys \<or>
      (\<forall>c. between c late (owed (period_key p)) rows (of_period c p)))" "keys' = insert key keys"
  shows "starts_month (up_PeriodStart p) \<and> (period_key p \<in> keys' \<or>
      (\<forall>c. between c late (owed (period_key p)) (attach (owed key) i rows) (of_period c p)))"
proof (cases "period_key p = key")
  case False
  then have "between c late (owed (period_key p)) (attach (owed key) i rows) x =
      between c late (owed (period_key p)) rows x" for c x
    by (intro between_attach) (simp add: owed_attached)
  then show ?thesis using assms by auto
qed (use assms in simp)

lemma statement_attach:
  assumes "between c late (attached_to (ci_ID s)) rows x" "list_all ledger_chk rows"
    and "\<And>r. r \<in> set rows \<Longrightarrow> owed key r \<Longrightarrow> ci_ID s = i \<Longrightarrow> cl_OrderID r \<in> late"
  shows "between c late (attached_to (ci_ID s)) (attach (owed key) i rows) x"
proof -
  have "between c late (\<lambda>r. attached_to (ci_ID s) r \<or> owed key r \<and> ci_ID s = i) rows x"
    by (rule between_grow [OF assms(1,2)]) (use assms(3) in auto)
  then show ?thesis by (subst between_attach [where Q = "\<lambda>r. attached_to (ci_ID s) r \<or> owed key r \<and> ci_ID s = i"])
      (simp_all only: attached_to_attached)
qed

lemma billed_rightD:
  assumes "billed_right db held late"
  shows "s \<in> set (commission_invoices db) \<Longrightarrow>
      between c late (attached_to (ci_ID s)) (commission_ledger (bil db)) (of_statement c s)"
    "p \<in> set held \<Longrightarrow> starts_month (up_PeriodStart p) \<and> (period_key p \<in> billed_keys db \<or>
      (\<forall>c. between c late (owed (period_key p)) (commission_ledger (bil db)) (of_period c p)))"
    "r \<in> set (commission_ledger (bil db)) \<Longrightarrow> unbilled r \<Longrightarrow> ledger_period r \<in> billed_keys db \<Longrightarrow>
      cl_OrderID r \<in> late"
  using assms unfolding billed_right_def by blast+

lemma attached_statement:
  assumes "rollup_ok db" "r \<in> set (commission_ledger (bil db))" "attached_to i r"
  obtains s where "s \<in> set (commission_invoices db)" "ci_ID s = i" "statement_key s = ledger_period r"
proof -
  have "unbilled r \<or> linked (commission_invoices db) r"
    using assms(1,2) by (simp add: rollup_ok_linked list_all_iff)
  then show thesis using assms(3) that by (auto simp: linked_def list_ex_iff attached_to_def unbilled_def)
qed

lemma billed_right_files:
  assumes "invoicePeriod env p db = (r, db')" "p \<in> set held" "rollup_ok db" "billed_right db held late"
  shows "billed_right db' held late"
proof -
  let ?L = "commission_ledger (bil db)" and ?key = "period_key p"
  have l: "list_all ledger_chk ?L" using assms(3) by (simp add: rollup_ok_def)
  have a: "attachable (up_OwnerID p) (up_PeriodStart p) = owed ?key"
    using attachable_owed billed_rightD(2) [OF assms(4,2)] by blast
  note right = billed_rightD [OF assms(4)]
  from assms(1) l show ?thesis
  proof (cases rule: invoicePeriod_cases)
    case (replayed s)
    have "?key \<in> billed_keys db" unfolding billed_keys_def replayed(2) [symmetric] using replayed(1) by (rule imageI)
    then have keys: "billed_keys db' = insert ?key (billed_keys db)" "?key \<in> billed_keys db"
      by (auto simp: billed_keys_def replayed(3))
    have "between c late (attached_to (ci_ID s')) (commission_ledger (bil db')) (of_statement c s')"
      if "s' \<in> set (commission_invoices db')" for s' c
      unfolding replayed a using that replayed right(3) keys(2)
      by (intro statement_attach [OF right(1) l]) (auto simp: owed_def)
    then show ?thesis unfolding billed_right_def replayed(4) a
      using held_attach [OF right(2) keys(1)] right(3) keys attach_owed_unbilled by auto
  next
    case filed
    have keys: "billed_keys db' = insert ?key (billed_keys db)"
      using filed by (auto simp: billed_keys_def)
    have old: "between c late (attached_to (ci_ID s)) (commission_ledger (bil db')) (of_statement c s)"
      if s: "s \<in> set (commission_invoices db)" for s c
    proof -
      have "ci_ID s \<noteq> newID env" using s filed(3) by (metis imageI)
      then show ?thesis unfolding filed a using s by (intro statement_attach [OF right(1) l]) simp_all
    qed
    have "\<not> attached_to (newID env) r" if "r \<in> set ?L" for r
      using attached_statement [OF assms(3) that] filed(3) by (metis imageI)
    moreover have "between c late (owed ?key) ?L (of_period c p)" for c
      using right(2) [OF assms(2)] filed(1) by blast
    ultimately have "between c late (attached_to (newID env)) (commission_ledger (bil db')) (of_period c p)" for c
      unfolding filed a by (subst between_attach [where Q = "owed ?key"]) (simp_all add: attached_to_attached)
    with old have "between c late (attached_to (ci_ID s)) (commission_ledger (bil db')) (of_statement c s)"
      if "s \<in> set (commission_invoices db')" for s c
      using that filed(4) by auto
    then show ?thesis unfolding billed_right_def filed(5) a
      using held_attach [OF right(2) keys] right(3) keys attach_owed_unbilled by auto
  qed (simp add: assms(4))
qed

lemma billed_right_accrues:
  assumes "commission_ledger (bil db') = commission_ledger (bil db) @ [row]" "ledger_chk row" "unbilled row"
    and "commission_invoices db' = commission_invoices db" "late \<subseteq> late'"
    and "too_late db held (ledger_period row) \<Longrightarrow> cl_OrderID row \<in> late'"
    and "rollup_ok db" "billed_right db held late"
  shows "billed_right db' held late'"
proof -
  have l: "list_all ledger_chk (commission_ledger (bil db))" using assms(7) by (simp add: rollup_ok_def)
  note right = billed_rightD [OF assms(8)]
  have keys: "billed_keys db' = billed_keys db" by (simp add: billed_keys_def assms(4))
  have "between c late' (attached_to (ci_ID s)) (commission_ledger (bil db')) (of_statement c s)"
    if "s \<in> set (commission_invoices db)" for s c
    unfolding assms(1) using assms(3) right(1) [OF that]
    by (intro between_append [OF _ l assms(5,2)]) (auto simp: attached_to_def unbilled_def)
  moreover have "starts_month (up_PeriodStart p) \<and> (period_key p \<in> billed_keys db \<or>
      (\<forall>c. between c late' (owed (period_key p)) (commission_ledger (bil db')) (of_period c p)))"
    if p: "p \<in> set held" for p
    using right(2) [OF p] p assms(6) unfolding assms(1)
    by (auto simp: owed_def too_late_def intro!: between_append [OF _ l assms(5,2)])
  moreover have "cl_OrderID r \<in> late'"
    if "r \<in> set (commission_ledger (bil db'))" "unbilled r" "ledger_period r \<in> billed_keys db" for r
    using that right(3) assms(5,6) unfolding assms(1) by (auto simp: too_late_def)
  ultimately show ?thesis unfolding billed_right_def keys assms(4) by blast
qed

lemma billed_right_step:
  assumes "rollup_step (db, held, late) (db', held', late')" "rollup_ok db" "billed_right db held late"
  shows "billed_right db' held' late'"
  using assms(1)
proof cases
  case (lists env now pageSize ps)
  have "starts_month (up_PeriodStart p) \<and> (\<forall>c. between c late (owed (period_key p)) (commission_ledger (bil db)) (of_period c p))"
    if "p \<in> set ps" for p
    using listed_period [OF lists(4) that] between_refl assms(2) by (simp add: rollup_ok_def)
  then show ?thesis using assms(3) lists(1-3) unfolding billed_right_def by auto
next
  case (files period env r)
  then show ?thesis using billed_right_files assms(2,3) by metis
next
  case (accrues env request acc orderID ownerID)
  from accrues(2-4) obtain row where row: "commission_ledger (bil db') = commission_ledger (bil db) @ [row]" "ledger_chk row"
    "unbilled row" "commission_invoices db' = commission_invoices db" "cl_OrderID row = orderID"
    "ledger_period row = (date_trunc_month (co_At request), ownerID)"
    by (rule AccrueCommission_appends)
  then have "billed_right db' held late'"
    using accrues(5) assms(2,3) by (intro billed_right_accrues [OF row(1-4), of late]) auto
  then show ?thesis using accrues(1) by simp
next
  case elsewhere
  then show ?thesis using assms(3) by (simp add: billed_right_def billed_keys_def)
qed

text \<open>
  Nothing is taken back: statements stay as they were issued, ledger rows stay, and a row is
  attached once, to the statement of its owner and month.
\<close>

definition bill :: "statement_row \<Rightarrow> ledger_row \<Rightarrow> ledger_row" where
  "bill s r = r\<lparr>cl_InvoiceID := Some (ci_ID s)\<rparr>"

definition billing_of :: "statement_row set \<Rightarrow> ledger_row \<Rightarrow> ledger_row \<Rightarrow> bool" where
  "billing_of invs r r' \<longleftrightarrow> r' = r \<or> unbilled r \<and> (\<exists>s \<in> invs. statement_key s = ledger_period r \<and> r' = bill s r)"

definition kept :: "'z rdb_scheme \<Rightarrow> 'z rdb_scheme \<Rightarrow> bool" where
  "kept db db' \<longleftrightarrow> set (commission_invoices db) \<subseteq> set (commission_invoices db') \<and>
     (\<exists>f new. commission_ledger (bil db') = map f (commission_ledger (bil db)) @ new \<and>
        (\<forall>r. billing_of (set (commission_invoices db')) r (f r)))"

lemma kept_refl: "kept db db"
  unfolding kept_def by (intro conjI exI [of _ "\<lambda>r. r"] exI [of _ "[]"]) (simp_all add: billing_of_def)

lemma kept_trans:
  assumes "kept db db'" "kept db' db''"
  shows "kept db db''"
proof -
  from assms obtain f new g new' where
    f: "commission_ledger (bil db') = map f (commission_ledger (bil db)) @ new"
      "\<And>r. billing_of (set (commission_invoices db')) r (f r)" and
    g: "commission_ledger (bil db'') = map g (commission_ledger (bil db')) @ new'"
      "\<And>r. billing_of (set (commission_invoices db'')) r (g r)" and
    s: "set (commission_invoices db) \<subseteq> set (commission_invoices db')"
      "set (commission_invoices db') \<subseteq> set (commission_invoices db'')"
    unfolding kept_def by metis
  have "billing_of (set (commission_invoices db'')) r (g (f r))" for r
    using f(2) [of r] g(2) [of "f r"] s(2) by (auto simp: billing_of_def bill_def unbilled_def)
  moreover have "commission_ledger (bil db'') = map (\<lambda>r. g (f r)) (commission_ledger (bil db)) @ (map g new @ new')"
    by (simp add: f(1) g(1))
  ultimately show ?thesis using s unfolding kept_def by blast
qed

lemma kept_attach:
  assumes "set (commission_invoices db) \<subseteq> set (commission_invoices db')" "s \<in> set (commission_invoices db')"
    and "statement_key s = key" "commission_ledger (bil db') = attach (owed key) (ci_ID s) (commission_ledger (bil db))"
  shows "kept db db'"
  unfolding kept_def
  by (intro conjI exI [of _ "\<lambda>r. if owed key r then r\<lparr>cl_InvoiceID := Some (ci_ID s)\<rparr> else r"] exI [of _ "[]"])
     (use assms in \<open>auto simp: attach_def billing_of_def bill_def owed_def\<close>)

lemma rollup_step_kept:
  assumes "rollup_step (db, held, late) (db', held', late')" "rollup_ok db"
    and "list_all (\<lambda>p. starts_month (up_PeriodStart p)) held"
  shows "kept db db'"
  using assms(1)
proof cases
  case (files period env r)
  have a: "attachable (up_OwnerID period) (up_PeriodStart period) = owed (period_key period)"
    using attachable_owed files(3) assms(3) by (simp add: list_all_iff)
  have l: "list_all ledger_chk (commission_ledger (bil db))" using assms(2) by (simp add: rollup_ok_def)
  from files(4) l show ?thesis
  proof (cases rule: invoicePeriod_cases)
    case (replayed s)
    then show ?thesis by (intro kept_attach [of db db' s]) (simp_all add: a)
  next
    case filed
    then show ?thesis by (intro kept_attach [of db db' "invoice_of env period"]) (auto simp: a)
  qed (simp add: kept_refl)
next
  case (accrues env request acc orderID ownerID)
  from accrues(2-4) obtain row where "commission_ledger (bil db') = commission_ledger (bil db) @ [row]"
    "commission_invoices db' = commission_invoices db"
    by (rule AccrueCommission_appends)
  then show ?thesis unfolding kept_def by (intro conjI exI [of _ "\<lambda>r. r"] exI [of _ "[row]"]) (simp_all add: billing_of_def)
next
  case elsewhere
  then show ?thesis unfolding kept_def by (intro conjI exI [of _ "\<lambda>r. r"] exI [of _ "[]"]) (simp_all add: billing_of_def)
qed (simp add: kept_refl)

theorem rollup_run_keeps:
  assumes "rollup_step\<^sup>*\<^sup>* (db, held, late) (db', held', late')" "rollup_ok db"
    and "list_all (\<lambda>p. starts_month (up_PeriodStart p)) held"
  shows "kept db db' \<and> rollup_ok db' \<and> list_all (\<lambda>p. starts_month (up_PeriodStart p)) held'"
  using assms
proof (induction "(db', held', late')" arbitrary: db' held' late' rule: rtranclp_induct)
  case base
  then show ?case by (simp add: kept_refl)
next
  case (step y)
  obtain db1 held1 late1 where y: "y = (db1, held1, late1)" by (cases y)
  with step have "kept db db1" "rollup_ok db1" "list_all (\<lambda>p. starts_month (up_PeriodStart p)) held1" by simp_all
  then show ?case
    using rollup_step_ok [OF step(2) [unfolded y]] rollup_step_kept [OF step(2) [unfolded y]]
    by (metis kept_trans)
qed

theorem rollup_run_right:
  assumes "rollup_step\<^sup>*\<^sup>* (db, held, late) (db', held', late')" "rollup_ok db" "billed_right db held late"
  shows "billed_right db' held' late'"
  using assms
proof (induction "(db', held', late')" arbitrary: db' held' late' rule: rtranclp_induct)
  case (step y)
  obtain db1 held1 late1 where y: "y = (db1, held1, late1)" by (cases y)
  have h: "list_all (\<lambda>p. starts_month (up_PeriodStart p)) held"
    using billed_rightD(2) [OF step.prems(2)] by (simp add: list_all_iff)
  have "rollup_ok db1" using rollup_run_keeps [OF step(1) [unfolded y] step.prems(1) h] by simp
  then show ?case using billed_right_step [OF step(2) [unfolded y]] step.hyps(3) [OF y] step.prems by simp
qed simp

lemma rollup_start:
  assumes "list_all ledger_chk (commission_ledger (bil db))" "distinct (map cl_OrderID (commission_ledger (bil db)))"
    and "list_all unbilled (commission_ledger (bil db))" "commission_invoices db = []"
  shows "rollup_ok db \<and> billed_right db [] {}"
  using assms by (simp add: rollup_ok_def billed_right_def billed_keys_def list_all_iff)

section \<open>A pass that meets no fault\<close>

definition period_chk :: "period_row \<Rightarrow> bool" where
  "period_chk p \<longleftrightarrow> starts_month (up_PeriodStart p) \<and> 0 \<le> up_AccruedAmount p \<and> 0 \<le> up_DiscountAmount p \<and>
     0 \<le> up_Amount p \<and> up_Amount p = up_AccruedAmount p - up_DiscountAmount p"

lemma invoice_of_dates:
  assumes "up_PeriodStart p = month_start m"
  shows "ci_PeriodEnd (invoice_of env p) = month_start (m + 1) - 1"
    "ci_DueAt (invoice_of env p) = (month_start (m + 1) + 10) * day_ns"
proof -
  have "AddDate (month_start m * day_ns) 1 (- 1) = (month_start (m + 1) - 1) * day_ns"
    by (simp add: AddDate_month_start)
  then show "ci_PeriodEnd (invoice_of env p) = month_start (m + 1) - 1"
    by (simp only: invoice_of_def Let_def assms statement_row.simps day_of_date)
  have "commissionDueGrace = 10 * day_ns" by (simp add: commissionDueGrace_def day_ns_def)
  then show "ci_DueAt (invoice_of env p) = (month_start (m + 1) + 10) * day_ns"
    by (simp add: invoice_of_def Let_def assms AddDate_month_start distrib_right)
qed

lemma invoice_of_chk: "period_chk p \<Longrightarrow> statement_chk (invoice_of env p)"
proof -
  assume p: "period_chk p"
  then obtain m where m: "up_PeriodStart p = month_start m" by (auto simp: period_chk_def elim: starts_monthE)
  then have "ci_PeriodStart (invoice_of env p) \<le> ci_PeriodEnd (invoice_of env p)"
    using invoice_of_dates(1) [OF m, of env] month_length [of m] by simp
  then show ?thesis using p by (simp add: statement_chk_def period_chk_def invoice_of_def Let_def)
qed

lemma invoicePeriod_succeeds:
  assumes "\<And>q. fault env q = None" "period_chk p" "rollup_ok db" "owner_exists (up_OwnerID p) (loc db)"
    and "newID env \<notin> ci_ID ` set (commission_invoices db)"
  shows "\<exists>db'. invoicePeriod env p db = (Inr (), db') \<and> loc db' = loc db"
proof -
  let ?row = "invoice_of env p"
  have c: "\<exists>i db1. CreateCommissionInvoice env ?row db = Inr (i, db1) \<and> bil db1 = bil db \<and> loc db1 = loc db \<and>
      i \<in> ci_ID ` set (commission_invoices db1)"
  proof (cases "find (\<lambda>r. ci_OwnerID r = ci_OwnerID ?row \<and> ci_PeriodStart r = ci_PeriodStart ?row) (commission_invoices db)")
    case None
    then have "CreateCommissionInvoice env ?row db = Inr (newID env, db\<lparr>commission_invoices := commission_invoices db @ [?row]\<rparr>)"
      using assms invoice_of_chk [OF assms(2), of env]
      by (simp add: CreateCommissionInvoice_def sql_insert_def list_ex_iff image_iff)
    then show ?thesis by simp
  next
    case (Some s)
    then have "s \<in> set (commission_invoices db)" by (auto simp: find_Some_iff)
    with Some show ?thesis using assms(1) invoice_of_chk [OF assms(2), of env] by (simp add: CreateCommissionInvoice_def)
  qed
  then obtain i db1 where c: "CreateCommissionInvoice env ?row db = Inr (i, db1)" "bil db1 = bil db" "loc db1 = loc db"
    "i \<in> ci_ID ` set (commission_invoices db1)" by blast
  have "list_all ledger_chk (commission_ledger (bil db))" using assms(3) by (simp add: rollup_ok_def)
  then have "\<exists>n db2. AttachLedgerToInvoice env i (up_OwnerID p) (up_PeriodStart p) db1 = Inr (n, db2) \<and> loc db2 = loc db"
    using assms(1) c by (simp add: AttachLedgerToInvoice_def sql_update_def list_all_iff)
  then show ?thesis using assms(1) c(1) by (auto simp: invoicePeriod_def)
qed

text \<open>What a pass leaves: \<open>f\<close> is what it did to the rows of the ledger.\<close>

definition filed_all :: "period_row list \<Rightarrow> rdb \<Rightarrow> rdb \<Rightarrow> bool" where
  "filed_all ps db db' \<longleftrightarrow> rollup_ok db' \<and> loc db' = loc db \<and>
     set (commission_invoices db) \<subseteq> set (commission_invoices db') \<and>
     (\<forall>s \<in> set (commission_invoices db'). s \<in> set (commission_invoices db) \<or>
        (\<exists>p \<in> set ps. \<exists>env :: env. newID env \<notin> ci_ID ` set (commission_invoices db) \<and> s = invoice_of env p)) \<and>
     (\<forall>p \<in> set ps. period_key p \<in> billed_keys db' \<and> (\<forall>r \<in> set (commission_ledger (bil db')). \<not> owed (period_key p) r)) \<and>
     (\<exists>f. commission_ledger (bil db') = map f (commission_ledger (bil db)) \<and>
        (\<forall>r. billing_of (set (commission_invoices db')) r (f r)))"

lemma filed_allI:
  assumes "rollup_ok db'" "loc db' = loc db" "set (commission_invoices db) \<subseteq> set (commission_invoices db')"
    and "\<And>s. s \<in> set (commission_invoices db') \<Longrightarrow> s \<in> set (commission_invoices db) \<or>
      (\<exists>p \<in> set ps. \<exists>env :: env. newID env \<notin> ci_ID ` set (commission_invoices db) \<and> s = invoice_of env p)"
    and "\<And>p. p \<in> set ps \<Longrightarrow> period_key p \<in> billed_keys db'"
    and "\<And>p r. p \<in> set ps \<Longrightarrow> r \<in> set (commission_ledger (bil db')) \<Longrightarrow> \<not> owed (period_key p) r"
    and "\<exists>f. commission_ledger (bil db') = map f (commission_ledger (bil db)) \<and>
      (\<forall>r. billing_of (set (commission_invoices db')) r (f r))"
  shows "filed_all ps db db'"
  using assms unfolding filed_all_def by blast

lemma owed_gone: "r \<in> set (attach (owed key) i rows) \<Longrightarrow> \<not> owed key r"
  using attach_owed_unbilled [of r key i rows] by (auto simp: owed_def)

lemma attach_map:
  assumes "s \<in> invs" "statement_key s = key"
  shows "\<exists>f. attach (owed key) (ci_ID s) rows = map f rows \<and> (\<forall>r. billing_of invs r (f r))"
  by (intro exI [of _ "\<lambda>r. if owed key r then r\<lparr>cl_InvoiceID := Some (ci_ID s)\<rparr> else r"])
     (use assms in \<open>auto simp: attach_def billing_of_def bill_def owed_def\<close>)

lemma filed_one:
  assumes "invoicePeriod (env :: env) p db = (Inr (), db')" "rollup_ok db" "starts_month (up_PeriodStart p)" "loc db' = loc db"
  shows "filed_all [p] db db'" (is ?A)
    and "ci_ID ` set (commission_invoices db') \<subseteq> insert (newID env) (ci_ID ` set (commission_invoices db))" (is ?B)
proof -
  have l: "list_all ledger_chk (commission_ledger (bil db))" using assms(2) by (simp add: rollup_ok_def)
  note ok = invoicePeriod_ok [OF assms(1-3)] and a = attachable_owed [OF assms(3)]
  from assms(1) l have "?A \<and> ?B"
  proof (cases rule: invoicePeriod_cases)
    case (replayed s)
    have key: "period_key p \<in> billed_keys db'"
      using imageI [OF replayed(1), of statement_key] by (simp only: billed_keys_def replayed(3) replayed(2))
    have "filed_all [p] db db'"
    proof (rule filed_allI [OF ok assms(4)])
      show "period_key q \<in> billed_keys db'" if "q \<in> set [p]" for q
        using key that by simp
      show "\<not> owed (period_key q) r" if "q \<in> set [p]" "r \<in> set (commission_ledger (bil db'))" for q r
        using that owed_gone [of r "period_key p" "ci_ID s"] by (simp add: replayed(4) a)
      show "\<exists>f. commission_ledger (bil db') = map f (commission_ledger (bil db)) \<and>
          (\<forall>r. billing_of (set (commission_invoices db')) r (f r))"
        unfolding replayed(3,4) a using replayed(1,2) by (rule attach_map)
    qed (simp_all add: replayed(3))
    then show ?thesis unfolding replayed(3) by blast
  next
    case filed
    have i: "invoice_of env p \<in> set (commission_invoices db')" using filed(4) by simp
    have "filed_all [p] db db'"
    proof (rule filed_allI [OF ok assms(4)])
      show "period_key q \<in> billed_keys db'" if "q \<in> set [p]" for q
        using i that unfolding billed_keys_def by (auto intro: rev_image_eqI)
      show "\<not> owed (period_key q) r" if "q \<in> set [p]" "r \<in> set (commission_ledger (bil db'))" for q r
        using that owed_gone [of r "period_key p" "newID env"] by (simp add: filed(5) a)
      show "\<exists>f. commission_ledger (bil db') = map f (commission_ledger (bil db)) \<and>
          (\<forall>r. billing_of (set (commission_invoices db')) r (f r))"
        using attach_map [OF i invoice_of_sel(2)] by (simp add: filed(5) a)
    qed (use filed(3,4) in auto)
    then show ?thesis by (simp add: filed(4))
  qed simp
  then show ?A ?B by simp_all
qed

lemma filed_all_trans:
  assumes "filed_all ps db db1" "filed_all qs db1 db2"
  shows "filed_all (ps @ qs) db db2"
proof -
  from assms obtain f g where
    f: "commission_ledger (bil db1) = map f (commission_ledger (bil db))" "\<And>r. billing_of (set (commission_invoices db1)) r (f r)" and
    g: "commission_ledger (bil db2) = map g (commission_ledger (bil db1))" "\<And>r. billing_of (set (commission_invoices db2)) r (g r)" and
    s: "set (commission_invoices db1) \<subseteq> set (commission_invoices db2)"
    unfolding filed_all_def by metis
  have "billing_of (set (commission_invoices db2)) r (g (f r))" for r
    using f(2) [of r] g(2) [of "f r"] s by (auto simp: billing_of_def bill_def unbilled_def)
  moreover have "commission_ledger (bil db2) = map (\<lambda>r. g (f r)) (commission_ledger (bil db))" by (simp add: f g)
  ultimately have "\<exists>f. commission_ledger (bil db2) = map f (commission_ledger (bil db)) \<and>
      (\<forall>r. billing_of (set (commission_invoices db2)) r (f r))" by blast
  then show ?thesis
  proof (rule filed_allI [rotated 6])
    show "rollup_ok db2" using assms(2) by (simp add: filed_all_def)
    show "loc db2 = loc db" "set (commission_invoices db) \<subseteq> set (commission_invoices db2)"
      using assms by (auto simp: filed_all_def)
    show "s' \<in> set (commission_invoices db) \<or>
        (\<exists>p \<in> set (ps @ qs). \<exists>env :: env. newID env \<notin> ci_ID ` set (commission_invoices db) \<and> s' = invoice_of env p)"
      if s': "s' \<in> set (commission_invoices db2)" for s'
    proof (cases "s' \<in> set (commission_invoices db1)")
      case True
      with assms(1) have "s' \<in> set (commission_invoices db) \<or>
          (\<exists>p \<in> set ps. \<exists>env :: env. newID env \<notin> ci_ID ` set (commission_invoices db) \<and> s' = invoice_of env p)"
        by (simp add: filed_all_def)
      then show ?thesis by auto
    next
      case False
      with s' assms(2) obtain p and env :: env where "p \<in> set qs" "s' = invoice_of env p"
        "newID env \<notin> ci_ID ` set (commission_invoices db1)"
        unfolding filed_all_def by blast
      moreover have "ci_ID ` set (commission_invoices db) \<subseteq> ci_ID ` set (commission_invoices db1)"
        using assms(1) unfolding filed_all_def by (intro image_mono) simp
      ultimately show ?thesis by (intro disjI2 bexI [of _ p] exI [of _ env] conjI) (auto dest: subsetD)
    qed
    show "period_key p \<in> billed_keys db2" if "p \<in> set (ps @ qs)" for p
      using that assms s unfolding filed_all_def billed_keys_def by (metis UnE image_mono set_append subsetD)
    show "\<not> owed (period_key p) r" if p: "p \<in> set (ps @ qs)" and "r \<in> set (commission_ledger (bil db2))" for p r
    proof -
      from that(2) obtain r1 where r: "r1 \<in> set (commission_ledger (bil db1))" "r = g r1" by (auto simp: g)
      have "\<not> owed (period_key p) r1 \<or> \<not> owed (period_key p) r"
        using p assms that(2) r(1) unfolding filed_all_def by (metis UnE set_append)
      then show ?thesis using g(2) [of r1] r by (auto simp: billing_of_def bill_def owed_def unbilled_def)
    qed
  qed
qed

lemma invoice_periods_succeed:
  fixes penv :: "nat \<Rightarrow> env"
  assumes "\<And>k q. fault (penv k) q = None" "list_all period_chk ps" "rollup_ok db"
    and "list_all (\<lambda>p. owner_exists (up_OwnerID p) (loc db)) ps"
    and "inj_on (\<lambda>k. newID (penv k)) {k..<k + length ps}"
    and "\<And>j. k \<le> j \<Longrightarrow> j < k + length ps \<Longrightarrow> newID (penv j) \<notin> ci_ID ` set (commission_invoices db)"
  shows "\<exists>db'. invoice_periods penv k ps ((n, fs), db) = ((n + length ps, fs), db') \<and> filed_all ps db db'"
  using assms
proof (induction ps arbitrary: k n db)
  case Nil
  then show ?case
    by (auto simp: filed_all_def billing_of_def intro!: exI [of _ "\<lambda>r. r"])
next
  case (Cons p ps)
  have p: "period_chk p" "starts_month (up_PeriodStart p)" "owner_exists (up_OwnerID p) (loc db)"
    using Cons.prems(2,4) by (simp_all add: period_chk_def)
  obtain db1 where i: "invoicePeriod (penv k) p db = (Inr (), db1)" "loc db1 = loc db"
    using invoicePeriod_succeeds [OF Cons.prems(1) p(1) Cons.prems(3) p(3) Cons.prems(6)] by fastforce
  note one = filed_one [of "penv k" p db db1, OF i(1) Cons.prems(3) p(2) i(2)]
  have fresh: "newID (penv j) \<notin> ci_ID ` set (commission_invoices db1)" if "Suc k \<le> j" "j < Suc k + length ps" for j
    using one(2) Cons.prems(6) [of j] that inj_onD [OF Cons.prems(5), of j k] by auto
  have inj: "inj_on (\<lambda>k. newID (penv k)) {Suc k..<Suc k + length ps}"
    by (rule inj_on_subset [OF Cons.prems(5)]) auto
  have "\<exists>db'. invoice_periods penv (Suc k) ps ((Suc n, fs), db1) = ((Suc n + length ps, fs), db') \<and> filed_all ps db1 db'"
  proof (rule Cons.IH [OF Cons.prems(1) _ _ _ inj fresh])
    show "list_all period_chk ps" using Cons.prems(2) by simp
    show "rollup_ok db1" using one(1) by (simp add: filed_all_def)
    show "list_all (\<lambda>p. owner_exists (up_OwnerID p) (loc db1)) ps" using Cons.prems(4) i(2) by simp
  qed
  then show ?case using filed_all_trans [OF one(1)] i(1) by auto
qed

lemma sum_list_fields:
  "list_all ledger_chk rows \<Longrightarrow> 0 \<le> sum_list (map cl_Accrued rows) \<and> 0 \<le> sum_list (map cl_Discount rows) \<and>
     0 \<le> sum_list (map cl_Payable rows) \<and>
     sum_list (map cl_Payable rows) = sum_list (map cl_Accrued rows) - sum_list (map cl_Discount rows)"
  by (induction rows) (auto simp: ledger_chk_def)

lemma unbilled_periods_from:
  assumes "p \<in> set (unbilled_periods before ledger)"
  obtains r where "r \<in> set ledger" "unbilled r" "cl_CreatedAt r < before" "period_key p = ledger_period r"
    "p = period_group (filter (\<lambda>r. unbilled r \<and> cl_CreatedAt r < before) ledger) (ledger_period r)"
  using assms by (auto simp: unbilled_periods_def Let_def period_key_def period_group_def)

lemma unbilled_periods_all:
  "r \<in> set ledger \<Longrightarrow> unbilled r \<Longrightarrow> cl_CreatedAt r < before \<Longrightarrow>
     \<exists>p \<in> set (unbilled_periods before ledger). period_key p = ledger_period r"
  by (auto simp: unbilled_periods_def Let_def period_key_def period_group_def image_iff)

lemma unbilled_periods_chk:
  assumes "list_all ledger_chk ledger" "p \<in> set (unbilled_periods before ledger)"
  shows "period_chk p"
proof -
  from assms(2) obtain r where "period_key p = ledger_period r"
    and p: "p = period_group (filter (\<lambda>r. unbilled r \<and> cl_CreatedAt r < before) ledger) (ledger_period r)"
    by (rule unbilled_periods_from)
  then have "starts_month (up_PeriodStart p)" by (simp add: period_key_def ledger_period_def)
  moreover have "list_all ledger_chk (filter (\<lambda>x. ledger_period x = ledger_period r)
      (filter (\<lambda>r. unbilled r \<and> cl_CreatedAt r < before) ledger))"
    using assms(1) by (simp add: list_all_iff)
  ultimately show ?thesis
    using sum_list_fields [of "filter (\<lambda>x. ledger_period x = ledger_period r)
      (filter (\<lambda>r. unbilled r \<and> cl_CreatedAt r < before) ledger)"]
    unfolding period_chk_def by (simp add: p period_group_def Let_def)
qed

text \<open>A pass that meets no fault files every sum it reads.\<close>

lemma pass_files_all:
  fixes db :: rdb and env :: env
  assumes "rollup_ok db" "list_all (\<lambda>r. owner_exists (cl_OwnerID r) (loc db)) (commission_ledger (bil db))"
    and "\<And>q. fault env q = None" "\<And>k q. fault (penv k) q = None"
    and "inj_on (\<lambda>k. newID (penv k)) {..<length ps}"
    and "\<And>k. k < length ps \<Longrightarrow> newID (penv k) \<notin> ci_ID ` set (commission_invoices db)"
    and "ps = unbilled_periods (MonthStart (clock_Now env)) (commission_ledger (bil db))"
    and "list_all fits ps" "length ps \<le> nat (NewRollup batch)"
  shows "\<exists>db'. Rollup_RunOnce env penv batch db = ((length ps, []), db') \<and> filed_all ps db db'"
proof -
  have l: "list_all ledger_chk (commission_ledger (bil db))" using assms(1) by (simp add: rollup_ok_def)
  have "ListUnbilledCommissionPeriods env (MonthStart (clock_Now env)) (NewRollup batch) (bil db) = Inr ps"
    using assms(3,7-9) by (simp add: ListUnbilledCommissionPeriods_def Let_def)
  moreover have "list_all period_chk ps" using unbilled_periods_chk [OF l] by (simp add: list_all_iff assms(7))
  moreover have "list_all (\<lambda>p. owner_exists (up_OwnerID p) (loc db)) ps"
    using assms(2) by (auto simp: list_all_iff assms(7) period_key_def ledger_period_def elim!: unbilled_periods_from)
  ultimately show ?thesis
    using invoice_periods_succeed [where penv = penv and ps = ps and db = db and k = 0 and n = 0 and fs = "[]"]
      assms(1,4,5,6) by (simp add: Rollup_RunOnce_def lessThan_atLeast0)
qed

lemma filed_all_complete:
  assumes "filed_all (unbilled_periods before (commission_ledger (bil db))) db db'"
    and "r \<in> set (commission_ledger (bil db'))" "cl_CreatedAt r < before"
  shows "\<not> unbilled r"
proof
  assume u: "unbilled r"
  from assms(1) obtain f where f: "commission_ledger (bil db') = map f (commission_ledger (bil db))"
    "\<And>r. billing_of (set (commission_invoices db')) r (f r)"
    unfolding filed_all_def by blast
  then obtain r0 where r0: "r0 \<in> set (commission_ledger (bil db))" "r = f r0" using assms(2) by auto
  with u f(2) [of r0] have "r = r0" by (auto simp: billing_of_def bill_def unbilled_def)
  with r0(1) have "r \<in> set (commission_ledger (bil db))" by simp
  then obtain p where "p \<in> set (unbilled_periods before (commission_ledger (bil db)))" "period_key p = ledger_period r"
    using unbilled_periods_all u assms(3) by blast
  then show False using assms(1,2) u unfolding filed_all_def owed_def by metis
qed

lemma filed_all_exact:
  assumes "filed_all ps db db'" "rollup_ok db"
    and "\<And>p. p \<in> set ps \<Longrightarrow> of_period c p = sum_of c (owed (period_key p)) (commission_ledger (bil db))"
    and "s \<in> set (commission_invoices db')" "s \<notin> set (commission_invoices db)"
  shows "of_statement c s = sum_of c (attached_to (ci_ID s)) (commission_ledger (bil db'))"
proof -
  from assms(1) have ok: "rollup_ok db'" by (simp add: filed_all_def)
  from assms(1,4,5) obtain p and env :: env where p: "p \<in> set ps" "s = invoice_of env p"
    "newID env \<notin> ci_ID ` set (commission_invoices db)"
    unfolding filed_all_def by blast
  from assms(1) obtain f where f: "commission_ledger (bil db') = map f (commission_ledger (bil db))"
    "\<And>r. billing_of (set (commission_invoices db')) r (f r)"
    unfolding filed_all_def by blast
  have same: "t = s" if "t \<in> set (commission_invoices db')" "ci_ID t = ci_ID s \<or> statement_key t = statement_key s" for t
    using that ok assms(4) unfolding rollup_ok_def distinct_map by (metis inj_onD)
  have "attached_to (ci_ID s) (f r) = owed (period_key p) r" if r: "r \<in> set (commission_ledger (bil db))" for r
  proof (cases "f r = r")
    case True
    have "\<not> attached_to (ci_ID s) r"
      using attached_statement [OF assms(2) r] p(2,3) by (metis imageI invoice_of_sel(1))
    moreover have "\<not> owed (period_key p) r"
      using assms(1) p(1) r True f(1) unfolding filed_all_def by (metis image_eqI list.set_map)
    ultimately show ?thesis using True by simp
  next
    case False
    then obtain t where t: "unbilled r" "t \<in> set (commission_invoices db')" "statement_key t = ledger_period r" "f r = bill t r"
      using f(2) [of r] by (auto simp: billing_of_def)
    then have "attached_to (ci_ID s) (f r) \<longleftrightarrow> ci_ID t = ci_ID s" by (simp add: attached_to_def bill_def)
    also have "\<dots> \<longleftrightarrow> statement_key t = statement_key s" using same [OF t(2)] by metis
    also have "\<dots> \<longleftrightarrow> owed (period_key p) r" using t(1,3) p(2) by (auto simp: owed_def)
    finally show ?thesis .
  qed
  then have "sum_of c (\<lambda>r. attached_to (ci_ID s) (f r)) (commission_ledger (bil db)) =
      sum_of c (owed (period_key p)) (commission_ledger (bil db))" by (rule sum_of_cong)
  moreover have "of_ledger c (f r) = of_ledger c r" for r
    using f(2) [of r] by (cases c) (auto simp: billing_of_def bill_def)
  then have "sum_of c P (map f rows) = sum_of c (\<lambda>r. P (f r)) rows" for P rows
    by (induction rows) simp_all
  ultimately show ?thesis using assms(3) [OF p(1)] p(2) by (simp add: f(1))
qed

end
