(* ===== verification/RollupTheorems.thy ===== *)
theory RollupTheorems
  imports RollupRuns Market
begin

text \<open>
  The properties of the commission statements, with the runs that witness them: what a statement
  asks for, what a pass leaves, what a commission filed late is worth, and the paged listing.
\<close>

section \<open>A small ledger\<close>

definition filed_entry :: "uuid \<Rightarrow> int \<Rightarrow> time \<Rightarrow> ledger_row" where
  "filed_entry orderID accrued tm = \<lparr>cl_ID = 100 + orderID, cl_OrderID = orderID, cl_OwnerID = 5,
     cl_BaseAmount = 40 * accrued, cl_RateBps = 250, cl_Accrued = accrued, cl_Discount = 0, cl_Payable = accrued,
     cl_InvoiceID = None, cl_CreatedAt = tm\<rparr>"

text \<open>Two orders closed in February 1970, one in March; the pass runs in March.\<close>

definition ledger_db :: rdb where
  "ledger_db = bdb.extend (market\<lparr>bil := (bil market)\<lparr>commission_ledger :=
     [filed_entry 1 700 (40 * day_ns), filed_entry 2 800 (50 * day_ns), filed_entry 3 900 (60 * day_ns)]\<rparr>\<rparr>)
     (rdb.fields [])"

definition march :: "uuid \<Rightarrow> env" where
  "march i = (sample_env i)\<lparr>clock_Now := 70 * day_ns\<rparr>"

lemma months_1970: "month_start 1 = 31" "month_start 2 = 59" "month_start 3 = 90"
  by (simp_all add: month_start_def year_of_def days_before.simps leap_def)

lemma month_of_1970: "31 \<le> d \<Longrightarrow> d < 59 \<Longrightarrow> month_of d = 1" "59 \<le> d \<Longrightarrow> d < 90 \<Longrightarrow> month_of d = 2"
  by (simp_all add: month_of_iff months_1970)

lemma ledger_db_ledger: "commission_ledger (bil ledger_db) =
    [filed_entry 1 700 (40 * day_ns), filed_entry 2 800 (50 * day_ns), filed_entry 3 900 (60 * day_ns)]"
  "commission_invoices ledger_db = []" "loc ledger_db = sample_location"
  by (simp_all add: ledger_db_def bdb.defs rdb.defs market_def)

lemma filed_entry_simps [simp]:
  "ledger_chk (filed_entry i a t) \<longleftrightarrow> 0 \<le> a" "unbilled (filed_entry i a t)" "cl_OrderID (filed_entry i a t) = i"
  "cl_CreatedAt (filed_entry i a t) = t" "cl_OwnerID (filed_entry i a t) = 5" "cl_Accrued (filed_entry i a t) = a"
  "cl_Discount (filed_entry i a t) = 0" "cl_Payable (filed_entry i a t) = a"
  by (auto simp: filed_entry_def ledger_chk_def unbilled_def)

lemma ledger_db_ok: "rollup_ok ledger_db \<and> billed_right ledger_db [] {}"
  by (rule rollup_start) (simp_all add: ledger_db_ledger)


section \<open>What a statement asks for\<close>

text \<open>
  C10: In every run of passes and closed orders, however they interleave and whatever fails, a
  statement asks for at most what the ledger rows attached to it owe, and for at least what those
  of them owe that were filed in time; all of them are the owner's rows of that month. So a
  seller is never asked for more than the commission of the month, and for exactly that when no
  commission was filed late.
\<close>

theorem statements_bill_the_ledger:
  fixes db db' :: rdb
  assumes "rollup_step\<^sup>*\<^sup>* (db, [], {}) (db', listed, late)"
    and "list_all ledger_chk (commission_ledger (bil db))" "distinct (map cl_OrderID (commission_ledger (bil db)))"
    and "list_all unbilled (commission_ledger (bil db))" "commission_invoices db = []"
    and "s \<in> set (commission_invoices db')"
  shows "sum_of c (\<lambda>r. attached_to (ci_ID s) r \<and> cl_OrderID r \<notin> late) (commission_ledger (bil db')) \<le> of_statement c s
    \<and> of_statement c s \<le> sum_of c (attached_to (ci_ID s)) (commission_ledger (bil db'))
    \<and> list_all (\<lambda>r. attached_to (ci_ID s) r \<longrightarrow> ledger_period r = statement_key s) (commission_ledger (bil db'))"
proof -
  have start: "rollup_ok db" "billed_right db [] {}" using rollup_start assms(2-5) by auto
  have ok: "rollup_ok db'" using rollup_run_keeps [OF assms(1) start(1)] by simp
  have "billed_right db' listed late" by (rule rollup_run_right [OF assms(1) start])
  then have "between c late (attached_to (ci_ID s)) (commission_ledger (bil db')) (of_statement c s)"
    using assms(6) by (rule billed_rightD(1))
  moreover have "ledger_period r = statement_key s"
    if r: "r \<in> set (commission_ledger (bil db'))" "attached_to (ci_ID s) r" for r
  proof -
    obtain t where t: "t \<in> set (commission_invoices db')" "ci_ID t = ci_ID s" "statement_key t = ledger_period r"
      by (rule attached_statement [OF ok r])
    have "distinct (map ci_ID (commission_invoices db'))" using ok by (simp add: rollup_ok_def)
    then have "t = s" using t(1,2) assms(6) by (metis distinct_map inj_onD)
    then show ?thesis using t(3) by simp
  qed
  ultimately show ?thesis by (simp add: between_def list_all_iff)
qed

section \<open>What a pass leaves\<close>


text \<open>The pass of March over the small ledger, and the database it leaves.\<close>

definition march_db :: rdb where
  "march_db = snd (Rollup_RunOnce (march 0) (\<lambda>_. march 7) 0 ledger_db)"

definition february :: statement_row where
  "february = \<lparr>ci_ID = 7, ci_OwnerID = 5, ci_PeriodStart = 31, ci_PeriodEnd = 58, ci_AccruedAmount = 1500,
     ci_DiscountAmount = 0, ci_Amount = 1500, ci_DueAt = 69 * day_ns, ci_Status = ''issued'', ci_PaidAt = None\<rparr>"

lemma march_db_invoices: "commission_invoices march_db = [february]"
  by code_simp

lemma march_db_ledger: "commission_ledger (bil march_db) =
    [bill february (filed_entry 1 700 (40 * day_ns)), bill february (filed_entry 2 800 (50 * day_ns)),
     filed_entry 3 900 (60 * day_ns)]"
  by code_simp

lemma march_env [simp]: "fault (march i) = (\<lambda>_. None)" "newID (march i) = i" "clock_Now (march i) = 70 * day_ns"
  by (simp_all add: march_def sample_env_def)

lemma march_run: "\<exists>listed. rollup_step\<^sup>*\<^sup>* (ledger_db, [], {}) (march_db, listed, {})"
  unfolding march_db_def by (rule pass_is_rollup_run)

theorem statements_bill_the_ledger_witness:
  "sum_of Payable (attached_to 7) (commission_ledger (bil march_db)) = 1500 \<and> of_statement Payable february = 1500 \<and>
   of_statement Payable february \<le> sum_of Payable (attached_to (ci_ID february)) (commission_ledger (bil march_db))"
proof -
  obtain listed where run: "rollup_step\<^sup>*\<^sup>* (ledger_db, [], {}) (march_db, listed, {})" using march_run by blast
  have "february \<in> set (commission_invoices march_db)" by (simp add: march_db_invoices)
  then have "of_statement Payable february \<le> sum_of Payable (attached_to (ci_ID february)) (commission_ledger (bil march_db))"
    using statements_bill_the_ledger [OF run, of february Payable] by (simp add: ledger_db_ledger)
  then show ?thesis by (simp add: march_db_ledger attached_to_def bill_def february_def filed_entry_def)
qed


section \<open>A commission filed late\<close>

lemma sum_of_one_more:
  assumes "r \<in> set rows" "\<not> P r" "list_all ledger_chk rows"
  shows "sum_of c P rows + of_ledger c r \<le> sum_of c (\<lambda>x. P x \<or> x = r) rows"
  using assms
proof (induction rows)
  case (Cons x rows)
  have "sum_of c P rows \<le> sum_of c (\<lambda>x. P x \<or> x = r) rows"
    using Cons.prems(3) by (intro sum_of_mono) simp_all
  moreover have "0 \<le> of_ledger c x" using Cons.prems(3) by (simp add: of_ledger_nonneg)
  ultimately show ?case using Cons by (cases "x = r") auto
qed simp

text \<open>
  C12: A ledger row of a month whose statement is already issued is never billed: in every later
  run the statement stays as it was issued, and the row is either still unbilled or attached to that
  statement, which then asks for less than its rows owe, by at least the row's amount.
\<close>

theorem late_commission_unbilled:
  fixes db db' :: rdb
  assumes "rollup_step\<^sup>*\<^sup>* (db, listed, late) (db', listed', late')" "rollup_ok db"
    and "list_all (\<lambda>p. starts_month (up_PeriodStart p)) listed"
    and "s \<in> set (commission_invoices db)" "r \<in> set (commission_ledger (bil db))" "unbilled r"
    and "ledger_period r = statement_key s"
    and "of_statement c s = sum_of c (attached_to (ci_ID s)) (commission_ledger (bil db))"
  shows "s \<in> set (commission_invoices db') \<and>
    (r \<in> set (commission_ledger (bil db')) \<or> bill s r \<in> set (commission_ledger (bil db')) \<and>
      of_statement c s + of_ledger c r \<le> sum_of c (attached_to (ci_ID s)) (commission_ledger (bil db')))"
proof -
  from rollup_run_keeps [OF assms(1-3)] have k: "kept db db'" and ok: "rollup_ok db'" by simp_all
  then obtain f new where f: "commission_ledger (bil db') = map f (commission_ledger (bil db)) @ new"
    "\<And>r. billing_of (set (commission_invoices db')) r (f r)" and s: "s \<in> set (commission_invoices db')"
    using assms(4) unfolding kept_def by blast
  show ?thesis
  proof (cases "f r = r")
    case True
    then show ?thesis using f(1) assms(5) s by (metis UnCI image_eqI list.set_map set_append)
  next
    case False
    then obtain t where t: "t \<in> set (commission_invoices db')" "statement_key t = ledger_period r" "f r = bill t r"
      using f(2) [of r] by (auto simp: billing_of_def)
    have "distinct (map statement_key (commission_invoices db'))" using ok by (simp add: rollup_ok_def)
    then have "t = s" using t(1,2) s assms(7) by (metis distinct_map inj_onD)
    with t(3) have b: "f r = bill s r" by simp
    let ?A = "attached_to (ci_ID s)" and ?L = "commission_ledger (bil db)"
    have chk: "list_all ledger_chk ?L" "list_all ledger_chk new"
      using assms(2) ok by (simp_all add: rollup_ok_def f(1))
    have "sum_of c ?A ?L + of_ledger c r \<le> sum_of c (\<lambda>x. ?A x \<or> x = r) ?L"
      using assms(5,6) chk(1) by (intro sum_of_one_more) (auto simp: attached_to_def unbilled_def)
    also have "\<dots> \<le> sum_of c (\<lambda>x. ?A (f x)) ?L"
    proof (rule sum_of_mono [OF chk(1)])
      fix x assume "?A x \<or> x = r"
      then show "?A (f x)"
      proof
        assume "?A x"
        then show ?thesis using f(2) [of x] by (auto simp: billing_of_def attached_to_def unbilled_def)
      qed (simp add: b attached_to_def bill_def)
    qed
    also have "\<dots> = sum_of c ?A (map f ?L)"
    proof -
      have "of_ledger c (f x) = of_ledger c x" for x using f(2) [of x] by (cases c) (auto simp: billing_of_def bill_def)
      then have "sum_of c (\<lambda>x. P (f x)) rows = sum_of c P (map f rows)" for P rows by (induction rows) simp_all
      then show ?thesis .
    qed
    also have "\<dots> \<le> sum_of c ?A (commission_ledger (bil db'))"
      using sum_of_mono [OF chk(2), of "\<lambda>_. False" ?A c] by (simp add: f(1) sum_of_none)
    finally show ?thesis using assms(5,8) s b f(1) by (metis UnCI image_eqI list.set_map set_append)
  qed
qed

text \<open>A fourth order of February, filed after the pass of March; the next pass attaches it.\<close>

definition late_db :: rdb where
  "late_db = march_db\<lparr>bil := (bil march_db)\<lparr>commission_ledger :=
     commission_ledger (bil march_db) @ [filed_entry 4 600 (45 * day_ns)]\<rparr>\<rparr>"

lemma late_db_parts: "commission_invoices late_db = [february]"
  "commission_ledger (bil late_db) = [bill february (filed_entry 1 700 (40 * day_ns)),
     bill february (filed_entry 2 800 (50 * day_ns)), filed_entry 3 900 (60 * day_ns), filed_entry 4 600 (45 * day_ns)]"
  by (simp_all add: late_db_def march_db_invoices march_db_ledger)

lemma late_db_ok: "rollup_ok late_db"
  by (auto simp: rollup_ok_def late_db_parts february_def statement_chk_def starts_month_def month_of_1970
      months_1970 bill_def filed_entry_def ledger_chk_def unbilled_def attached_to_def statement_key_def
      ledger_period_def date_trunc_month_def)

lemma late_db_attached:
  "filed_entry 4 600 (45 * day_ns) \<notin>
     set (commission_ledger (bil (snd (Rollup_RunOnce (march 0) (\<lambda>_. march 8) 0 late_db))))"
  by code_simp

theorem late_commission_unbilled_witness:
  "february \<in> set (commission_invoices (snd (Rollup_RunOnce (march 0) (\<lambda>_. march 8) 0 late_db))) \<and>
   of_statement Payable february + 600 \<le> sum_of Payable (attached_to 7)
     (commission_ledger (bil (snd (Rollup_RunOnce (march 0) (\<lambda>_. march 8) 0 late_db))))"
proof -
  let ?db = "snd (Rollup_RunOnce (march 0) (\<lambda>_. march 8) 0 late_db)" and ?r = "filed_entry 4 600 (45 * day_ns)"
  obtain listed where run: "rollup_step\<^sup>*\<^sup>* (late_db, [], {}) (?db, listed, {})" using pass_is_rollup_run by blast
  have period: "ledger_period ?r = statement_key february"
    by (simp add: ledger_period_def date_trunc_month_def month_of_1970 months_1970 statement_key_def february_def)
  have exact: "of_statement Payable february = sum_of Payable (attached_to (ci_ID february)) (commission_ledger (bil late_db))"
    by (simp add: late_db_parts february_def bill_def filed_entry_def attached_to_def)
  have "february \<in> set (commission_invoices late_db)" "?r \<in> set (commission_ledger (bil late_db))" "unbilled ?r"
    by (simp_all add: late_db_parts)
  from late_commission_unbilled [OF run late_db_ok _ this period exact] late_db_attached
  have "february \<in> set (commission_invoices ?db) \<and> of_statement Payable february + of_ledger Payable ?r
      \<le> sum_of Payable (attached_to (ci_ID february)) (commission_ledger (bil ?db))" by simp
  moreover have "ci_ID february = 7" by (simp add: february_def)
  ultimately show ?thesis by simp
qed

section \<open>The paged listing\<close>

text \<open>
  What a client gets that follows the listing: it asks for the first page without a cursor, and
  for every next page with the start of the last period it has seen, until a page is empty.
\<close>

fun statement_pages :: "nat \<Rightarrow> (string \<Rightarrow> CommissionInvoice list result) \<Rightarrow> string \<Rightarrow> CommissionInvoice list result" where
  "statement_pages 0 get cursor = Inr []"
| "statement_pages (Suc n) get cursor =
     andThen (get cursor) (\<lambda>page. if page = [] then Inr []
       else andThen (statement_pages n get (iv_PeriodStart (last page))) (\<lambda>rest. Inr (page @ rest)))"

definition newest_first :: "uuid \<Rightarrow> statement_row list \<Rightarrow> statement_row list" where
  "newest_first i rows = rev (sort_key ci_PeriodStart (filter (\<lambda>r. ci_OwnerID r = i) rows))"

lemma newest_first_descending:
  assumes "distinct (map statement_key rows)"
  shows "sorted_wrt (\<lambda>a b. ci_PeriodStart b < ci_PeriodStart a) (newest_first i rows)"
proof -
  let ?xs = "sort_key ci_PeriodStart (filter (\<lambda>r. ci_OwnerID r = i) rows)"
  have "distinct (map ci_PeriodStart (filter (\<lambda>r. ci_OwnerID r = i) rows))"
    using assms by (auto simp: distinct_map inj_on_def statement_key_def)
  then have "sorted (map ci_PeriodStart ?xs) \<and> distinct (map ci_PeriodStart ?xs)"
    by (simp add: distinct_map)
  then have "sorted_wrt (<) (map ci_PeriodStart ?xs)" by (simp add: strict_sorted_iff)
  then show ?thesis by (simp add: newest_first_def sorted_wrt_rev sorted_wrt_map)
qed

lemma page_rows:
  assumes "sorted_wrt (\<lambda>a b. ci_PeriodStart b < ci_PeriodStart a) (xs @ ys)" "xs \<noteq> []"
  shows "filter (\<lambda>r. ci_PeriodStart r < ci_PeriodStart (last xs)) (xs @ ys) = ys"
proof -
  have "\<not> ci_PeriodStart x < ci_PeriodStart (last xs)" if "x \<in> set xs" for x
  proof (cases "x = last xs")
    case False
    have "xs = butlast xs @ [last xs]" using assms(2) by simp
    then have "x \<in> set (butlast xs)" using that False by (metis in_set_butlast_appendI set_ConsD append_Nil2 Un_iff set_append list.set(1) empty_iff)
    then have "ci_PeriodStart (last xs) < ci_PeriodStart x"
      using assms(1) \<open>xs = butlast xs @ [last xs]\<close> by (metis list.set_intros(1) sorted_wrt_append)
    then show ?thesis by simp
  qed simp
  moreover have "ci_PeriodStart y < ci_PeriodStart (last xs)" if "y \<in> set ys" for y
    using assms that by (simp add: sorted_wrt_append)
  ultimately show ?thesis by (simp add: filter_empty_conv filter_id_conv)
qed

lemma Format_not_Nil [simp]: "Format_DateOnly d \<noteq> []"
  by (simp add: Format_DateOnly_def)

lemma statement_pages_all:
  assumes get: "\<And>cursor before. cursor = (case before of None \<Rightarrow> [] | Some d \<Rightarrow> Format_DateOnly d) \<Longrightarrow>
      (\<forall>d. before = Some d \<longrightarrow> d \<in> ci_PeriodStart ` set rows) \<Longrightarrow>
      get cursor = Inr (map view (take 50 (filter (\<lambda>r. case before of None \<Rightarrow> True | Some d \<Rightarrow> ci_PeriodStart r < d) rows)))"
    and view: "\<And>r. iv_PeriodStart (view r) = Format_DateOnly (ci_PeriodStart r)"
    and desc: "sorted_wrt (\<lambda>a b. ci_PeriodStart b < ci_PeriodStart a) rows"
  shows "rows = xs @ ys \<Longrightarrow> length ys \<le> n \<Longrightarrow>
    statement_pages (Suc n) get (if xs = [] then [] else Format_DateOnly (ci_PeriodStart (last xs))) = Inr (map view ys)"
proof (induction n arbitrary: xs ys)
  have page: "get (if xs = [] then [] else Format_DateOnly (ci_PeriodStart (last xs))) = Inr (map view (take 50 ys))"
    if split: "rows = xs @ ys" for xs ys
  proof (cases "xs = []")
    case True
    then show ?thesis using get [of "[]" None] split by simp
  next
    case False
    then have "filter (\<lambda>r. ci_PeriodStart r < ci_PeriodStart (last xs)) rows = ys"
      using page_rows desc unfolding split by blast
    then show ?thesis
      using get [of "Format_DateOnly (ci_PeriodStart (last xs))" "Some (ci_PeriodStart (last xs))"] False split by simp
  qed
  {
    case 0
    then show ?case using page by simp
  next
    case (Suc n xs ys)
    note page = page [OF Suc.prems(1)]
  show ?case
  proof (cases "ys = []")
    case False
    have "rows = (xs @ take 50 ys) @ drop 50 ys" "length (drop 50 ys) \<le> n" using Suc.prems False by (cases ys; simp)+
    from Suc.IH [OF this] have "statement_pages (Suc n) get (Format_DateOnly (ci_PeriodStart (last (take 50 ys)))) = Inr (map view (drop 50 ys))"
      using False by simp
    moreover have "iv_PeriodStart (last (map view (take 50 ys))) = Format_DateOnly (ci_PeriodStart (last (take 50 ys)))"
      using False by (simp add: last_map view)
    ultimately show ?thesis using page False by (simp del: statement_pages.simps(2) add: statement_pages.simps(2) [of "Suc n"] flip: map_append)
  qed (use page in simp)
  }
qed

text \<open>
  A client that follows the pages of its statements gets every statement of the owner exactly
  once, the newest first.
\<close>

theorem statement_pages_complete:
  assumes "rollup_ok db" "uuid_Parse env ownerID = Some i" "EnsureOwner env c ownerID (loc db) = Inr ()"
    and "fault env ''ListCommissionInvoicesByOwner'' = None"
    and "list_all (\<lambda>s. 0 \<le> date_year (ci_PeriodStart s) \<and> date_year (ci_PeriodStart s) < 10000) (commission_invoices db)"
    and "length (commission_invoices db) \<le> n"
  shows "statement_pages (Suc n) (\<lambda>cursor. Service_ListCommissionInvoices env c ownerID cursor db) [] =
    Inr (map (invoice_view env) (newest_first i (commission_invoices db)))"
proof -
  let ?rows = "newest_first i (commission_invoices db)"
  have get: "Service_ListCommissionInvoices env c ownerID cursor db = Inr (map (invoice_view env) (take 50
      (filter (\<lambda>r. case before of None \<Rightarrow> True | Some d \<Rightarrow> ci_PeriodStart r < d) ?rows)))"
    if "cursor = (case before of None \<Rightarrow> [] | Some d \<Rightarrow> Format_DateOnly d)"
      "\<forall>d. before = Some d \<longrightarrow> d \<in> ci_PeriodStart ` set ?rows" for cursor before
  proof -
    have "Parse_DateOnly (Format_DateOnly d) = Some d" if "before = Some d" for d
      using that \<open>\<forall>d. before = Some d \<longrightarrow> _\<close> assms(5)
      by (intro Parse_Format_DateOnly) (auto simp: newest_first_def list_all_iff)
    then show ?thesis using that(1) assms(2-4)
      by (cases before) (simp_all add: Service_ListCommissionInvoices_def uuid_Validate_def
          Repository_ListCommissionInvoices_def ListCommissionInvoicesByOwner_def newest_first_def commissionPageSize_def
          filter_sort filter_filter conj_commute flip: rev_filter)
  qed
  have "distinct (map statement_key (commission_invoices db))" using assms(1) by (simp add: rollup_ok_def)
  then have "sorted_wrt (\<lambda>a b. ci_PeriodStart b < ci_PeriodStart a) ?rows" by (rule newest_first_descending)
  moreover have "length ?rows \<le> n"
    using le_trans [OF length_filter_le assms(6)] by (simp add: newest_first_def)
  ultimately show ?thesis
    using statement_pages_all [of ?rows "\<lambda>cursor. Service_ListCommissionInvoices env c ownerID cursor db" "invoice_view env" "[]" ?rows n]
      get by (simp add: invoice_view_def)
qed

theorem statement_pages_complete_witness:
  "statement_pages 2 (\<lambda>cursor. Service_ListCommissionInvoices (march 0) seller (sample_String 5) cursor march_db) [] =
     Inr [invoice_view (march 0) february]"
proof -
  have l: "loc march_db = sample_location" by code_simp
  obtain listed where "rollup_step\<^sup>*\<^sup>* (ledger_db, [], {}) (march_db, listed, {})" using march_run by blast
  then have "rollup_ok march_db" using rollup_run_keeps [of ledger_db "[]" "{}"] ledger_db_ok by simp
  moreover have "uuid_Parse (march 0) (sample_String 5) = Some 5"
    by (simp add: march_def sample_env_def sample_Parse_def sample_String_def list_all_iff)
  moreover have "EnsureOwner (march 0) seller (sample_String 5) (loc march_db) = Inr ()"
    unfolding l by code_simp
  moreover have "date_year 31 = 1970" by (simp add: date_year_def month_of_1970 year_of_def)
  ultimately show ?thesis
    using statement_pages_complete [of march_db "march 0" "sample_String 5" 5 seller 1]
    by (simp add: march_db_invoices newest_first_def february_def numeral_2_eq_2)
qed

end
