(* ===== verification/Keyset.thy ===== *)
theory Keyset
  imports Prelude
begin

text \<open>
  Listings in pages. A page holds at most \<open>limit\<close> rows and, when there are more, the cursor of
  its last row; the next page starts behind that cursor. The locale states what a listing promises
  of a single page, and proves from it what a client gets that follows the cursors while the data
  changes between its requests.
\<close>

record 'v page =
  Items :: "'v list"
  NextCursor :: "string option"

definition keyset_page :: "nat \<Rightarrow> ('r \<Rightarrow> 'v) \<Rightarrow> ('r \<Rightarrow> string) \<Rightarrow> 'r list \<Rightarrow> 'v page" where
  "keyset_page limit view cursor rows = \<lparr>Items = map view (take limit rows),
     NextCursor = (if limit < length rows then Some (cursor (last (take limit rows))) else None)\<rparr>"

text \<open>
  A client that follows the cursors: \<open>ss\<close> are the states its requests meet, one after the other.
\<close>

fun follow :: "('s \<Rightarrow> string \<Rightarrow> 'v page result) \<Rightarrow> 's list \<Rightarrow> string \<Rightarrow> 'v list result" where
  "follow get [] cursor = Inr []"
| "follow get (s # ss) cursor = andThen (get s cursor) (\<lambda>p. case NextCursor p of
     None \<Rightarrow> Inr (Items p)
   | Some c \<Rightarrow> andThen (follow get ss c) (\<lambda>rest. Inr (Items p @ rest)))"

locale keyset_listing =
  fixes get :: "'s \<Rightarrow> string \<Rightarrow> 'v page result"
    and rows :: "'s \<Rightarrow> 'r list"
    and key :: "'r \<Rightarrow> 'k"
    and before :: "'k \<Rightarrow> 'k \<Rightarrow> bool"
    and view :: "'r \<Rightarrow> 'v"
    and cursor :: "'k \<Rightarrow> string"
    and limit :: nat
    and ok :: "'s \<Rightarrow> bool"
  assumes limit_pos: "0 < limit"
    and before_trans: "before a b \<Longrightarrow> before b c \<Longrightarrow> before a c"
    and before_irrefl: "\<not> before a a"
    and rows_sorted: "ok s \<Longrightarrow> sorted_wrt (\<lambda>a b. before (key a) (key b)) (rows s)"
    and first_page: "ok s \<Longrightarrow> get s [] = Inr (keyset_page limit view (\<lambda>r. cursor (key r)) (rows s))"
    and next_page: "ok s \<Longrightarrow> ok s0 \<Longrightarrow> r \<in> set (rows s0) \<Longrightarrow> get s (cursor (key r)) =
      Inr (keyset_page limit view (\<lambda>r. cursor (key r)) (filter (\<lambda>x. before (key r) (key x)) (rows s)))"
begin

text \<open>What is left behind a row, and the cursor that stands for it.\<close>

definition after :: "'r option \<Rightarrow> 's \<Rightarrow> 'r list" where
  "after k s = filter (\<lambda>x. case k of None \<Rightarrow> True | Some r \<Rightarrow> before (key r) (key x)) (rows s)"

definition position :: "'r option \<Rightarrow> string" where
  "position k = (case k of None \<Rightarrow> [] | Some r \<Rightarrow> cursor (key r))"

definition sorted_rows :: "'r list \<Rightarrow> bool" where
  "sorted_rows xs \<longleftrightarrow> sorted_wrt (\<lambda>a b. before (key a) (key b)) xs"

lemma after_sorted: "ok s \<Longrightarrow> sorted_rows (after k s)"
  unfolding after_def sorted_rows_def by (rule sorted_wrt_filter) (rule rows_sorted)

lemma after_Some: "x \<in> set (after (Some r) s) \<longleftrightarrow> x \<in> set (rows s) \<and> before (key r) (key x)"
  by (auto simp: after_def)

lemma after_None [simp]: "after None s = rows s"
  by (simp add: after_def)

lemma get_page:
  assumes "ok s" "\<And>r. k = Some r \<Longrightarrow> \<exists>s0. ok s0 \<and> r \<in> set (rows s0)"
  shows "get s (position k) = Inr (keyset_page limit view (\<lambda>r. cursor (key r)) (after k s))"
proof (cases k)
  case None
  then show ?thesis using first_page [OF assms(1)] by (simp add: position_def)
next
  case (Some r)
  then obtain s0 where "ok s0" "r \<in> set (rows s0)" using assms(2) by blast
  then show ?thesis using next_page [OF assms(1)] Some by (simp add: position_def after_def)
qed

lemma distinct_keys: "sorted_rows xs \<Longrightarrow> distinct (map key xs)"
proof (induction xs)
  case (Cons x xs)
  then have "\<forall>y \<in> set xs. before (key x) (key y)" by (simp add: sorted_rows_def)
  then have "key x \<notin> key ` set xs" using before_irrefl by (metis imageE)
  then show ?case using Cons by (simp add: sorted_rows_def)
qed (simp add: sorted_rows_def)

text \<open>A full page splits what is left: its rows, and the rows behind its last one.\<close>

lemma page_split:
  assumes "ok s" "limit < length (after k s)"
  defines "xs \<equiv> take limit (after k s)" and "r \<equiv> last (take limit (after k s))"
  shows page_last: "r \<in> set xs"
    and page_upto: "x \<in> set xs \<Longrightarrow> x = r \<or> before (key x) (key r)"
    and page_behind: "x \<in> set (drop limit (after k s)) \<Longrightarrow> before (key r) (key x)"
proof -
  have ne: "xs \<noteq> []" using assms limit_pos by auto
  then show r: "r \<in> set xs" by (simp add: r_def xs_def)
  have split: "after k s = butlast xs @ r # drop limit (after k s)"
    using ne append_butlast_last_id [OF ne] append_take_drop_id [of limit "after k s"]
    by (metis append.assoc append_Cons append_Nil r_def xs_def)
  have sorted: "sorted_rows (butlast xs @ r # drop limit (after k s))"
    using after_sorted [OF assms(1), of k] split by simp
  show "x = r \<or> before (key x) (key r)" if "x \<in> set xs"
  proof -
    have "x \<in> set (butlast xs @ [r])" using that append_butlast_last_id [OF ne] by (simp add: r_def xs_def)
    then show ?thesis using sorted by (auto simp: sorted_rows_def sorted_wrt_append)
  qed
  show "before (key r) (key x)" if "x \<in> set (drop limit (after k s))"
    using sorted that by (simp add: sorted_rows_def sorted_wrt_append)
qed

text \<open>
  A client that asks often enough gets a sorted listing of rows it met, without a row twice; a key
  that was there at every request is among them.
\<close>

definition met :: "'r option \<Rightarrow> 's list \<Rightarrow> 'k set" where
  "met k ss = (\<Union>s \<in> set ss. key ` set (after k s))"

lemma follow_from:
  assumes "ss \<noteq> []" "list_all ok ss" "card (met k ss) \<le> limit * length ss"
    and "\<And>r. k = Some r \<Longrightarrow> \<exists>s0. ok s0 \<and> r \<in> set (rows s0)"
  shows "\<exists>xs. follow get ss (position k) = Inr (map view xs) \<and> sorted_rows xs \<and>
    (\<forall>r \<in> set xs. \<exists>s \<in> set ss. r \<in> set (after k s)) \<and>
    (\<forall>x. (\<forall>s \<in> set ss. x \<in> key ` set (after k s)) \<longrightarrow> x \<in> key ` set xs)"
  using assms
proof (induction ss arbitrary: k)
  case (Cons s ss)
  let ?xs = "take limit (after k s)"
  have s: "ok s" using Cons.prems(2) by simp
  have get: "get s (position k) = Inr (keyset_page limit view (\<lambda>r. cursor (key r)) (after k s))"
    using s Cons.prems(4) by (rule get_page)
  have met: "key ` set (after k s) \<union> met k ss = met k (s # ss)" by (simp add: met_def)
  have fin: "finite (met k ss)" for k ss by (simp add: met_def)
  show ?case
  proof (cases "limit < length (after k s)")
    case False
    then have "follow get (s # ss) (position k) = Inr (map view (after k s))"
      using get by (simp add: keyset_page_def)
    then show ?thesis using after_sorted [OF s, of k] by (intro exI [of _ "after k s"]) auto
  next
    case True
    define r where "r = last ?xs"
    note parts = page_split [OF s True, folded r_def]
    have in_rows: "r \<in> set (rows s)" using in_set_takeD [OF parts(1)] by (auto simp: after_def)
    have card_page: "card (key ` set ?xs) = limit"
    proof -
      have "distinct (map key ?xs)" using distinct_keys [OF after_sorted [OF s, of k]] by (simp add: take_map [symmetric])
      then have "card (set (map key ?xs)) = length (map key ?xs)" by (rule distinct_card)
      then show ?thesis using True by simp
    qed
    have behind: "set (after (Some r) t) \<subseteq> set (after k t)" for t
      using in_set_takeD [OF parts(1)] before_trans by (cases k) (auto simp: after_def)
    have disjoint: "key ` set ?xs \<inter> met (Some r) ss = {}"
      using parts(2) before_trans before_irrefl by (fastforce simp: met_def after_Some)
    have sub: "key ` set ?xs \<union> met (Some r) ss \<subseteq> met k (s # ss)"
      using behind set_take_subset [of limit "after k s"] by (fastforce simp: met_def)
    have count: "limit + card (met (Some r) ss) \<le> card (met k (s # ss))"
      using card_mono [OF fin sub] card_Un_disjoint [OF _ fin disjoint] card_page by simp
    have ne: "ss \<noteq> []"
    proof
      assume "ss = []"
      moreover have "card (key ` set (after k s)) = length (after k s)"
        using distinct_card [OF distinct_keys [OF after_sorted [OF s, of k]]] by simp
      ultimately show False using Cons.prems(3) True by (simp add: met_def)
    qed
    obtain ys where ys: "follow get ss (position (Some r)) = Inr (map view ys)" "sorted_rows ys"
        "\<forall>y \<in> set ys. \<exists>t \<in> set ss. y \<in> set (after (Some r) t)"
        "\<forall>x. (\<forall>t \<in> set ss. x \<in> key ` set (after (Some r) t)) \<longrightarrow> x \<in> key ` set ys"
      using Cons.IH [of "Some r"] Cons.prems(2,3) ne count s in_rows by auto
    have listed: "follow get (s # ss) (position k) = Inr (map view (?xs @ ys))"
      using get True ys(1) by (simp add: keyset_page_def position_def r_def)
    have later: "before (key r) (key y)" if "y \<in> set ys" for y
      using ys(3) that by (auto simp: after_Some)
    have "before (key x) (key y)" if "x \<in> set ?xs" "y \<in> set ys" for x y
      using parts(2) [OF that(1)] later [OF that(2)] before_trans by blast
    then have sorted: "sorted_rows (?xs @ ys)"
      using ys(2) sorted_wrt_take [OF after_sorted [OF s, of k, unfolded sorted_rows_def], of limit]
      by (simp add: sorted_rows_def sorted_wrt_append)
    have only: "\<exists>t \<in> set (s # ss). x \<in> set (after k t)" if "x \<in> set (?xs @ ys)" for x
    proof (cases "x \<in> set ?xs")
      case True
      then show ?thesis using in_set_takeD [OF True] by auto
    next
      case False
      then show ?thesis using that ys(3) behind by fastforce
    qed
    have all: "x \<in> key ` set (?xs @ ys)" if "\<forall>t \<in> set (s # ss). x \<in> key ` set (after k t)" for x
    proof (cases "x \<in> key ` set ?xs")
      case False
      have "x \<in> key ` set (after k s)" using that by simp
      then obtain a where a: "a \<in> set (after k s)" "x = key a" by (metis imageE)
      have "a \<in> set ?xs \<union> set (drop limit (after k s))"
        using a(1) unfolding set_append [symmetric] append_take_drop_id .
      then have "a \<in> set (drop limit (after k s))" using a(2) False by auto
      then have "before (key r) x" using parts(3) a by simp
      then have "\<forall>t \<in> set ss. x \<in> key ` set (after (Some r) t)"
        using that by (fastforce simp: after_Some after_def)
      then have "x \<in> key ` set ys" using ys(4) by blast
      then show ?thesis by (simp add: image_Un)
    qed (simp add: image_Un)
    show ?thesis using listed sorted only all by (intro exI [of _ "?xs @ ys"]) auto
  qed
qed simp

lemma follow_all:
  assumes "ss \<noteq> []" "list_all ok ss" "card (\<Union>s \<in> set ss. key ` set (rows s)) \<le> limit * length ss"
  obtains xs where "follow get ss [] = Inr (map view xs)" "sorted_wrt (\<lambda>a b. before (key a) (key b)) xs"
    "\<forall>r \<in> set xs. \<exists>s \<in> set ss. r \<in> set (rows s)"
    "\<forall>x. (\<forall>s \<in> set ss. x \<in> key ` set (rows s)) \<longrightarrow> x \<in> key ` set xs"
  using follow_from [OF assms(1,2), of None] assms(3) by (auto simp: met_def position_def sorted_rows_def)

end

end
