(* ===== verification/Listings.thy ===== *)
theory Listings
  imports OrdersService Calendar Keyset "HOL-Library.Product_Lexorder"
begin

text \<open>
  What the order module shows: the paged listings of a buyer's orders and of a store's open orders,
  the detail of an order, and the substitutes for the products of a declined order, with the
  catalogue's listing behind them (\<open>modules/orders/views.go\<close>, the listing operations of its
  \<open>service.go\<close> and \<open>repository.go\<close>, \<open>ListAlternatives\<close> of
  \<open>modules/catalog/lineport.go\<close>). A page is read on its own: nothing holds the data still
  between two pages.
\<close>

section \<open>Cursors\<close>

text \<open>
  \<open>base64.RawURLEncoding\<close> and JSON on the two cursor structs. Marshalling a time fails outside the
  years JSON can write; an object without a member reads as the zero value, or as \<open>nil\<close> for the
  pointer to a price.
\<close>

record cursor_codec =
  cursor_Encode :: "string \<Rightarrow> string"
  cursor_Decode :: "string \<Rightarrow> string option"
  Marshal_listCursor :: "time \<times> string \<Rightarrow> string option"
  Unmarshal_listCursor :: "string \<Rightarrow> (time \<times> string) option"
  Marshal_alternativeCursor :: "int option \<times> string \<Rightarrow> string option"
  Unmarshal_alternativeCursor :: "string \<Rightarrow> (int option \<times> string) option"

text \<open>The zero \<open>time.Time\<close> is the first instant of the year 1.\<close>

definition zeroTime :: time where "zeroTime = - 62135596800 * 10 ^ 9"

definition IsZero :: "time \<Rightarrow> bool" where "IsZero t \<longleftrightarrow> t = zeroTime"

definition encodeListCursor :: "cursor_codec \<Rightarrow> time \<Rightarrow> string \<Rightarrow> string option" where
  "encodeListCursor cl createdAt i = (case Marshal_listCursor cl (createdAt, i) of
     None \<Rightarrow> None
   | Some raw \<Rightarrow> Some (cursor_Encode cl raw))"

definition decodeListCursor ::
  "cursor_codec \<Rightarrow> 'a lib_scheme \<Rightarrow> string \<Rightarrow> (time \<times> string) option result" where
  "decodeListCursor cl L value =
     (if value = [] then Inr None
      else case cursor_Decode cl value of None \<Rightarrow> Inl OrdersInvalid
      | Some raw \<Rightarrow> (case Unmarshal_listCursor cl raw of None \<Rightarrow> Inl OrdersInvalid
        | Some (createdAt, i) \<Rightarrow>
            if IsZero createdAt \<or> \<not> uuid_Validate L i then Inl OrdersInvalid
            else Inr (Some (createdAt, i))))"

definition encodeAlternativeCursor :: "cursor_codec \<Rightarrow> int \<Rightarrow> string \<Rightarrow> string option" where
  "encodeAlternativeCursor cl price i = (case Marshal_alternativeCursor cl (Some price, i) of
     None \<Rightarrow> None
   | Some raw \<Rightarrow> Some (cursor_Encode cl raw))"

definition decodeAlternativeCursor ::
  "cursor_codec \<Rightarrow> 'a lib_scheme \<Rightarrow> string \<Rightarrow> (int \<times> uuid) option result" where
  "decodeAlternativeCursor cl L value =
     (if value = [] then Inr None
      else case cursor_Decode cl value of None \<Rightarrow> Inl CatalogInvalid
      | Some raw \<Rightarrow> (case Unmarshal_alternativeCursor cl raw of None \<Rightarrow> Inl CatalogInvalid
        | Some (price, i) \<Rightarrow> (case (price, uuid_Parse L i) of
            (Some p, Some u) \<Rightarrow> Inr (Some (p, u))
          | _ \<Rightarrow> Inl CatalogInvalid)))"

section \<open>Queries\<close>

text \<open>
  A position is the time and the id of the last row of a page; a row comparison with a NULL id is
  true only if the times decide it. The rows of a page are the newest behind the position.
\<close>

type_synonym position = "(time \<times> uuid option) option"

definition behind :: "position \<Rightarrow> order_row \<Rightarrow> bool" where
  "behind pos r \<longleftrightarrow> (case pos of None \<Rightarrow> True
   | Some (t, i) \<Rightarrow> or_CreatedAt r < t \<or> or_CreatedAt r = t \<and> (case i of None \<Rightarrow> False | Some u \<Rightarrow> or_ID r < u))"

definition newest_orders :: "order_row list \<Rightarrow> order_row list" where
  "newest_orders rows = rev (sort_key (\<lambda>r. (or_CreatedAt r, or_ID r)) rows)"

definition ListOrdersByBuyer ::
  "'a env_scheme \<Rightarrow> uuid option \<Rightarrow> position \<Rightarrow> int \<Rightarrow> order_tables \<Rightarrow> order_row list result" where
  "ListOrdersByBuyer env buyerID pos pageSize ot = stmt env ''ListOrdersByBuyer''
     (Inr (take (nat pageSize) (newest_orders
        (filter (\<lambda>r. Some (or_BuyerID r) = buyerID \<and> behind pos r) (orders_t ot)))))"

definition openStatuses :: "Status list" where
  "openStatuses = [StatusAccepted, StatusAwaitingPayment, StatusPaymentReview, StatusPaid,
     StatusPreparing, StatusReady]"

definition ListStoreOpenOrders ::
  "'a env_scheme \<Rightarrow> uuid option \<Rightarrow> position \<Rightarrow> int \<Rightarrow> order_tables \<Rightarrow> order_row list result" where
  "ListStoreOpenOrders env storeID pos pageSize ot = stmt env ''ListStoreOpenOrders''
     (Inr (take (nat pageSize) (newest_orders
        (filter (\<lambda>r. Some (or_StoreID r) = storeID \<and> or_Status r \<in> set openStatuses \<and> behind pos r)
          (orders_t ot)))))"

definition ListOfferAlternatives ::
  "'a env_scheme \<Rightarrow> uuid list \<Rightarrow> uuid \<Rightarrow> (int \<times> uuid) option \<Rightarrow> int \<Rightarrow> catalog \<Rightarrow> offer list result" where
  "ListOfferAlternatives env productIDs excludeStoreID before pageSize ct =
     stmt env ''ListOfferAlternatives''
       (Inr (take (nat pageSize) (sort_key (\<lambda>r. (of_Price r, of_ID r))
          (filter (\<lambda>r. of_ProductID r \<in> set productIDs \<and> of_StoreID r \<noteq> excludeStoreID \<and>
             of_Status r = ''published'' \<and> of_ReservedQty r < of_DeclaredQty r \<and>
             (case before of None \<Rightarrow> True | Some k \<Rightarrow> k < (of_Price r, of_ID r))) (offers ct)))))"

section \<open>Views\<close>

record OrderView =
  ov_OrderID :: string
  ov_StoreID :: string
  ov_Status :: Status
  ov_BuyerType :: string
  ov_Fulfillment :: string
  ov_Urgent :: bool
  ov_GoodsAmount :: int
  ov_DeliveryFee :: int
  ov_TotalAmount :: int
  ov_SupplierConfirmationDeadline :: time
  ov_PaymentDueAt :: "time option"
  ov_CreatedAt :: time
  ov_ClosedAt :: "time option"

record OrderLineView =
  lv_ProductID :: string
  lv_Qty :: string
  lv_UnitPrice :: int
  lv_LineAmount :: int

record OrderDetail = OrderView +
  od_Items :: "OrderLineView list"

record Alternative =
  al_OfferID :: string
  al_StoreID :: string
  al_ProductID :: string
  al_Price :: int
  al_DeclaredQty :: string
  al_FreshnessAt :: string

definition orderView :: "'a lib_scheme \<Rightarrow> order_row \<Rightarrow> OrderView" where
  "orderView L order = \<lparr>ov_OrderID = uuid_String L (or_ID order), ov_StoreID = uuid_String L (or_StoreID order),
     ov_Status = or_Status order, ov_BuyerType = or_BuyerType order, ov_Fulfillment = or_Fulfillment order,
     ov_Urgent = or_IsUrgent order, ov_GoodsAmount = or_GoodsAmount order,
     ov_DeliveryFee = or_DeliveryFee order, ov_TotalAmount = or_TotalAmount order,
     ov_SupplierConfirmationDeadline = or_SupplierConfirmationDeadline order,
     ov_PaymentDueAt = or_PaymentDueAt order, ov_CreatedAt = or_CreatedAt order,
     ov_ClosedAt = or_ClosedAt order\<rparr>"

definition listPageSize :: nat where "listPageSize = 50"

definition orderPage :: "cursor_codec \<Rightarrow> 'a lib_scheme \<Rightarrow> order_row list \<Rightarrow> OrderView page" where
  "orderPage cl L rows =
     (let limit = (if length rows \<le> listPageSize then length rows else listPageSize);
          items = map (orderView L) (take limit rows)
      in \<lparr>Items = items,
          NextCursor = (if limit < length rows \<and> 0 < limit
            then let final = items ! (limit - 1) in encodeListCursor cl (ov_CreatedAt final) (ov_OrderID final)
            else None)\<rparr>)"

section \<open>The repository\<close>

definition position_of :: "'a lib_scheme \<Rightarrow> (time \<times> string) option \<Rightarrow> position" where
  "position_of L pos = (case pos of None \<Rightarrow> None | Some (t, i) \<Rightarrow> Some (t, uuid_Parse L i))"

definition ListByBuyer ::
  "cursor_codec \<Rightarrow> 'a env_scheme \<Rightarrow> string \<Rightarrow> string \<Rightarrow> order_tables \<Rightarrow> OrderView page result" where
  "ListByBuyer cl env buyerID cursor ot =
     andThen (decodeListCursor cl env cursor) (\<lambda>pos.
     andThen (mapErr mapError (ListOrdersByBuyer env (uuid_Parse env buyerID) (position_of env pos)
       (int listPageSize + 1) ot)) (\<lambda>rows. Inr (orderPage cl env rows)))"

definition ListStoreOpen ::
  "cursor_codec \<Rightarrow> 'a env_scheme \<Rightarrow> string \<Rightarrow> string \<Rightarrow> order_tables \<Rightarrow> OrderView page result" where
  "ListStoreOpen cl env storeID cursor ot =
     andThen (decodeListCursor cl env cursor) (\<lambda>pos.
     andThen (mapErr mapError (ListStoreOpenOrders env (uuid_Parse env storeID) (position_of env pos)
       (int listPageSize + 1) ot)) (\<lambda>rows. Inr (orderPage cl env rows)))"

definition lineView :: "'a lib_scheme \<Rightarrow> order_item \<Rightarrow> OrderLineView" where
  "lineView L item = \<lparr>lv_ProductID = uuid_String L (order_item.oi_ProductID item), lv_Qty = Numeric_Value L (order_item.oi_Qty item),
     lv_UnitPrice = oi_UnitPrice item, lv_LineAmount = oi_LineAmount item\<rparr>"

definition Detail :: "'a env_scheme \<Rightarrow> string \<Rightarrow> order_tables \<Rightarrow> OrderDetail result" where
  "Detail env i ot =
     (case uuid_Parse env i of None \<Rightarrow> Inl OrdersInvalid
      | Some orderID \<Rightarrow>
        andThen (mapErr (\<lambda>e. if e = NoRows then OrdersNotFound else mapError e) (GetOrder env orderID ot)) (\<lambda>order.
        andThen (mapErr mapError (ListOrderItems env orderID ot)) (\<lambda>items.
        Inr (OrderView.extend (orderView env order) (OrderDetail.fields (map (lineView env) items))))))"

section \<open>Substitutes\<close>

record AlternativesRequest =
  ar_ProductIDs :: "string list"
  ar_ExcludeStoreID :: string
  ar_Cursor :: string
  ar_PageSize :: int

definition alternativesPageSize :: int where "alternativesPageSize = 50"

definition alternative_of :: "'a lib_scheme \<Rightarrow> offer \<Rightarrow> Alternative" where
  "alternative_of L row = \<lparr>al_OfferID = uuid_String L (of_ID row), al_StoreID = uuid_String L (of_StoreID row),
     al_ProductID = uuid_String L (of_ProductID row), al_Price = of_Price row,
     al_DeclaredQty = Numeric_Value L (of_DeclaredQty row),
     al_FreshnessAt = Format_RFC3339 (of_FreshnessAt row)\<rparr>"

definition alternativePage ::
  "cursor_codec \<Rightarrow> 'a lib_scheme \<Rightarrow> nat \<Rightarrow> offer list \<Rightarrow> Alternative page" where
  "alternativePage cl L pageSize rows =
     (let limit = (if length rows \<le> pageSize then length rows else pageSize);
          items = map (alternative_of L) (take limit rows)
      in \<lparr>Items = items,
          NextCursor = (if limit < length rows \<and> 0 < limit
            then let final = items ! (limit - 1) in encodeAlternativeCursor cl (al_Price final) (al_OfferID final)
            else None)\<rparr>)"

definition ListAlternatives ::
  "cursor_codec \<Rightarrow> 'a env_scheme \<Rightarrow> AlternativesRequest \<Rightarrow> catalog \<Rightarrow> Alternative page result" where
  "ListAlternatives cl env request ct =
     (case uuid_Parse env (ar_ExcludeStoreID request) of
        None \<Rightarrow> Inr \<lparr>Items = [], NextCursor = None\<rparr>
      | Some excludeStore \<Rightarrow>
        let products = List.map_filter (uuid_Parse env) (ar_ProductIDs request) in
        if products = [] then Inr \<lparr>Items = [], NextCursor = None\<rparr>
        else andThen (decodeAlternativeCursor cl env (ar_Cursor request)) (\<lambda>before.
          let pageSize = (if ar_PageSize request \<le> 0 \<or> alternativesPageSize < ar_PageSize request
                          then alternativesPageSize else ar_PageSize request) in
          andThen (ListOfferAlternatives env products excludeStore before (pageSize + 1) ct) (\<lambda>rows.
          Inr (alternativePage cl env (nat pageSize) rows))))"

definition Repository_Alternatives ::
  "cursor_codec \<Rightarrow> 'a env_scheme \<Rightarrow> string \<Rightarrow> string \<Rightarrow> 'z odb_scheme \<Rightarrow> Alternative page result" where
  "Repository_Alternatives cl env i cursor db =
     (case uuid_Parse env i of None \<Rightarrow> Inl OrdersInvalid
      | Some orderID \<Rightarrow>
        andThen (mapErr (\<lambda>e. if e = NoRows then OrdersNotFound else mapError e)
          (GetOrder env orderID (ord db))) (\<lambda>order.
        andThen (mapErr mapError (ListOrderItems env orderID (ord db))) (\<lambda>items.
        mapErr mapCatalogError (ListAlternatives cl env
          \<lparr>ar_ProductIDs = map (\<lambda>item. uuid_String env (order_item.oi_ProductID item)) items,
           ar_ExcludeStoreID = uuid_String env (or_StoreID order), ar_Cursor = cursor, ar_PageSize = 0\<rparr>
          (cat db)))))"

section \<open>Requests\<close>

definition ListMyOrders ::
  "cursor_codec \<Rightarrow> 'a env_scheme \<Rightarrow> ctx \<Rightarrow> string \<Rightarrow> 'z odb_scheme \<Rightarrow> OrderView page result" where
  "ListMyOrders cl env c cursor db =
     andThen (Require c) (\<lambda>principal. ListByBuyer cl env (UserID principal) cursor (ord db))"

definition ListStoreOrders ::
  "cursor_codec \<Rightarrow> 'a env_scheme \<Rightarrow> ctx \<Rightarrow> string \<Rightarrow> string \<Rightarrow> 'z odb_scheme \<Rightarrow> OrderView page result" where
  "ListStoreOrders cl env c storeID cursor db =
     (if \<not> uuid_Validate env storeID then Inl OrdersInvalid
      else andThen (EnsureOwnsStore env c storeID (loc db)) (\<lambda>_. ListStoreOpen cl env storeID cursor (ord db)))"

definition Service_GetOrder :: "'a env_scheme \<Rightarrow> ctx \<Rightarrow> string \<Rightarrow> 'z odb_scheme \<Rightarrow> OrderDetail result" where
  "Service_GetOrder env c i db =
     (if \<not> uuid_Validate env i then Inl OrdersInvalid
      else andThen (Require c) (\<lambda>_.
        andThen (Repository_Summary env i (ord db)) (\<lambda>summary.
        andThen (if EnsureSelf c (su_BuyerID summary) = Inr () then Inr ()
                 else mapErr (\<lambda>e. if e = AuthzForbidden then OrdersNotFound else e)
                   (EnsureOwnsStore env c (su_StoreID summary) (loc db))) (\<lambda>_.
        Detail env i (ord db)))))"

definition Alternatives ::
  "cursor_codec \<Rightarrow> 'a env_scheme \<Rightarrow> ctx \<Rightarrow> string \<Rightarrow> string \<Rightarrow> 'z bdb_scheme \<Rightarrow> Alternative page result" where
  "Alternatives cl env c i cursor db =
     andThen (authorizeBuyer env c i db) (\<lambda>summary.
       if su_Status summary \<noteq> StatusBuyerDecisionPending then Inl OrdersConflict
       else Repository_Alternatives cl env i cursor db)"

end
