(* ===== verification/ListingPages.thy ===== *)
theory ListingPages
  imports Listings OrdersTerms
begin

text \<open>
  Each listing of the theory \<open>Listings\<close> is a keyset listing: the interpretations discharge the
  laws of the locale for the pages of a buyer's orders, of a store's open orders and of the
  substitutes for an order.
\<close>

section \<open>What the cursors rely on\<close>

text \<open>
  base64 is read back and writes nothing for nothing. JSON reads back the cursors of rows: for
  every time from the year 1 to the year 9999, which is also what PostgreSQL's rows are assumed to
  hold, and for every 64-bit price; nothing is not JSON.
\<close>

definition dated :: "time \<Rightarrow> bool" where
  "dated t \<longleftrightarrow> zeroTime < t \<and> t < 253402300800 * 10 ^ 9"

definition faithful_cursors :: "cursor_codec \<Rightarrow> 'a lib_scheme \<Rightarrow> bool" where
  "faithful_cursors cl L \<longleftrightarrow>
     (\<forall>s. cursor_Decode cl (cursor_Encode cl s) = Some s) \<and> cursor_Encode cl [] = [] \<and>
     Unmarshal_listCursor cl [] = None \<and> Unmarshal_alternativeCursor cl [] = None \<and>
     (\<forall>t u. dated t \<longrightarrow> (\<exists>raw. Marshal_listCursor cl (t, uuid_String L u) = Some raw \<and>
        Unmarshal_listCursor cl raw = Some (t, uuid_String L u))) \<and>
     (\<forall>p u. is_int64 p \<longrightarrow> (\<exists>raw. Marshal_alternativeCursor cl (Some p, uuid_String L u) = Some raw \<and>
        Unmarshal_alternativeCursor cl raw = Some (Some p, uuid_String L u)))"

lemma encoded_nonempty:
  assumes "faithful_cursors cl L" "s \<noteq> []"
  shows "cursor_Encode cl s \<noteq> []"
  using assms by (metis faithful_cursors_def option.inject)

lemma listCursor_roundtrip:
  assumes "faithful_cursors cl L" "lossless_ids L" "dated t"
  obtains s where "encodeListCursor cl t (uuid_String L u) = Some s" "s \<noteq> []"
    "decodeListCursor cl L s = Inr (Some (t, uuid_String L u))"
proof -
  from assms(1,3) obtain raw where raw: "Marshal_listCursor cl (t, uuid_String L u) = Some raw"
      "Unmarshal_listCursor cl raw = Some (t, uuid_String L u)"
    unfolding faithful_cursors_def by blast
  then have "raw \<noteq> []" using assms(1) by (auto simp: faithful_cursors_def)
  then have ne: "cursor_Encode cl raw \<noteq> []" using encoded_nonempty [OF assms(1)] by simp
  have "cursor_Decode cl (cursor_Encode cl raw) = Some raw" using assms(1) by (simp add: faithful_cursors_def)
  moreover have "\<not> IsZero t" using assms(3) by (simp add: dated_def IsZero_def)
  ultimately show thesis
    using ne raw assms(2)
    by (intro that [of "cursor_Encode cl raw"])
       (simp_all add: encodeListCursor_def decodeListCursor_def uuid_Validate_def)
qed

lemma alternativeCursor_roundtrip:
  assumes "faithful_cursors cl L" "lossless_ids L" "is_int64 p"
  obtains s where "encodeAlternativeCursor cl p (uuid_String L u) = Some s" "s \<noteq> []"
    "decodeAlternativeCursor cl L s = Inr (Some (p, u))"
proof -
  from assms(1,3) obtain raw where raw: "Marshal_alternativeCursor cl (Some p, uuid_String L u) = Some raw"
      "Unmarshal_alternativeCursor cl raw = Some (Some p, uuid_String L u)"
    unfolding faithful_cursors_def by blast
  then have "raw \<noteq> []" using assms(1) by (auto simp: faithful_cursors_def)
  then have ne: "cursor_Encode cl raw \<noteq> []" using encoded_nonempty [OF assms(1)] by simp
  have "cursor_Decode cl (cursor_Encode cl raw) = Some raw" using assms(1) by (simp add: faithful_cursors_def)
  then show thesis
    using ne raw assms(2)
    by (intro that [of "cursor_Encode cl raw"])
       (simp_all add: encodeAlternativeCursor_def decodeAlternativeCursor_def)
qed

section \<open>Order pages as a keyset listing\<close>

definition order_key :: "order_row \<Rightarrow> time \<times> uuid" where
  "order_key r = (or_CreatedAt r, or_ID r)"

definition newer :: "time \<times> uuid \<Rightarrow> time \<times> uuid \<Rightarrow> bool" where
  "newer a b \<longleftrightarrow> b < a"

definition order_cursor :: "cursor_codec \<Rightarrow> 'a lib_scheme \<Rightarrow> time \<times> uuid \<Rightarrow> string" where
  "order_cursor cl L k = the (encodeListCursor cl (fst k) (uuid_String L (snd k)))"

definition orders_where :: "(order_row \<Rightarrow> bool) \<Rightarrow> order_tables \<Rightarrow> order_row list" where
  "orders_where P ot = newest_orders (filter P (orders_t ot))"

lemma newest_orders_set [simp]: "set (newest_orders rows) = set rows"
  by (simp add: newest_orders_def)

lemma newest_orders_filter: "newest_orders (filter P rows) = filter P (newest_orders rows)"
  by (simp add: newest_orders_def filter_sort flip: rev_filter)

lemma set_orders_where: "r \<in> set (orders_where P ot) \<longleftrightarrow> r \<in> set (orders_t ot) \<and> P r"
  by (auto simp: orders_where_def)

lemma newest_orders_sorted:
  assumes "distinct (map or_ID rows)"
  shows "sorted_wrt (\<lambda>a b. newer (order_key a) (order_key b)) (newest_orders rows)"
proof -
  let ?xs = "sort_key order_key rows"
  have "distinct (map or_ID ?xs)"
    using assms by (metis distinct_map distinct_sort inj_on_cong set_sort)
  then have "distinct (map order_key ?xs)"
    by (auto simp: distinct_map inj_on_def order_key_def)
  moreover have "sorted (map order_key ?xs)" by simp
  ultimately have "sorted_wrt (<) (map order_key ?xs)" by (simp add: strict_sorted_iff)
  then have "sorted_wrt (\<lambda>a b. order_key a < order_key b) ?xs" by (simp add: sorted_wrt_map)
  then show ?thesis
    by (simp add: newest_orders_def newer_def sorted_wrt_rev order_key_def [abs_def])
qed

lemma orders_where_sorted:
  assumes "orders_inv ot"
  shows "sorted_wrt (\<lambda>a b. newer (order_key a) (order_key b)) (orders_where P ot)"
  unfolding orders_where_def
  using assms by (intro newest_orders_sorted) (simp add: orders_inv_def distinct_map_filter)

lemma behind_key: "behind (Some (t, Some u)) r \<longleftrightarrow> newer (t, u) (order_key r)"
  by (auto simp: behind_def newer_def order_key_def)

lemma orderPage_keyset:
  assumes "faithful_cursors cl L" "lossless_ids L" "list_all (\<lambda>r. dated (or_CreatedAt r)) rows"
  shows "orderPage cl L (take (Suc listPageSize) rows) =
    keyset_page listPageSize (orderView L) (\<lambda>r. order_cursor cl L (order_key r)) rows"
proof (cases "listPageSize < length rows")
  case True
  let ?r = "rows ! (listPageSize - 1)"
  have pos: "0 < listPageSize" by (simp add: listPageSize_def)
  have in_rows: "?r \<in> set rows" using True by simp
  then have "dated (or_CreatedAt ?r)" using assms(3) by (simp add: list_all_iff)
  then obtain s where s: "encodeListCursor cl (or_CreatedAt ?r) (uuid_String L (or_ID ?r)) = Some s"
    using listCursor_roundtrip [OF assms(1,2)] by metis
  have "last (take listPageSize rows) = ?r"
  proof -
    have "take listPageSize rows \<noteq> []" using True pos by auto
    then show ?thesis using True pos by (simp add: last_conv_nth)
  qed
  then show ?thesis
    using True pos s
    by (simp add: orderPage_def keyset_page_def Let_def orderView_def order_cursor_def order_key_def min_def)
next
  case False
  then show ?thesis by (auto simp: orderPage_def keyset_page_def Let_def)
qed

text \<open>What a listing of orders returns at the first page and behind a row that was seen before.\<close>

definition order_pages ::
  "cursor_codec \<Rightarrow> 'a lib_scheme \<Rightarrow> order_tables \<Rightarrow> bool" where
  "order_pages cl L ot \<longleftrightarrow> faithful_cursors cl L \<and> lossless_ids L \<and> orders_inv ot \<and>
     list_all (\<lambda>r. dated (or_CreatedAt r)) (orders_t ot)"

lemma order_page_first:
  assumes "order_pages cl L ot"
  shows "decodeListCursor cl L [] = Inr None"
    and "orderPage cl L (take (Suc listPageSize) (newest_orders (filter (\<lambda>r. P r \<and> behind None r) (orders_t ot)))) =
      keyset_page listPageSize (orderView L) (\<lambda>r. order_cursor cl L (order_key r)) (orders_where P ot)"
proof -
  show "decodeListCursor cl L [] = Inr None" by (simp add: decodeListCursor_def)
  have "list_all (\<lambda>r. dated (or_CreatedAt r)) (orders_where P ot)"
    using assms by (auto simp: order_pages_def list_all_iff set_orders_where)
  then show "orderPage cl L (take (Suc listPageSize) (newest_orders (filter (\<lambda>r. P r \<and> behind None r) (orders_t ot)))) =
      keyset_page listPageSize (orderView L) (\<lambda>r. order_cursor cl L (order_key r)) (orders_where P ot)"
    using assms by (simp add: orderPage_keyset order_pages_def orders_where_def behind_def)
qed

lemma order_page_next:
  assumes "order_pages cl L ot" "order_pages cl L ot0" "r \<in> set (orders_t ot0)"
  shows "\<exists>s. order_cursor cl L (order_key r) = s \<and> s \<noteq> [] \<and>
      decodeListCursor cl L s = Inr (Some (or_CreatedAt r, uuid_String L (or_ID r))) \<and>
      uuid_Parse L (uuid_String L (or_ID r)) = Some (or_ID r)"
    and "orderPage cl L (take (Suc listPageSize) (newest_orders
        (filter (\<lambda>x. P x \<and> behind (Some (or_CreatedAt r, Some (or_ID r))) x) (orders_t ot)))) =
      keyset_page listPageSize (orderView L) (\<lambda>r. order_cursor cl L (order_key r))
        (filter (\<lambda>x. newer (order_key r) (order_key x)) (orders_where P ot))"
proof -
  have d: "dated (or_CreatedAt r)" using assms(2,3) by (simp add: order_pages_def list_all_iff)
  have L: "faithful_cursors cl L" "lossless_ids L" using assms(1) by (simp_all add: order_pages_def)
  obtain s where "encodeListCursor cl (or_CreatedAt r) (uuid_String L (or_ID r)) = Some s" "s \<noteq> []"
    "decodeListCursor cl L s = Inr (Some (or_CreatedAt r, uuid_String L (or_ID r)))"
    by (rule listCursor_roundtrip [OF L d])
  then show "\<exists>s. order_cursor cl L (order_key r) = s \<and> s \<noteq> [] \<and>
      decodeListCursor cl L s = Inr (Some (or_CreatedAt r, uuid_String L (or_ID r))) \<and>
      uuid_Parse L (uuid_String L (or_ID r)) = Some (or_ID r)"
    using L by (simp add: order_cursor_def order_key_def)
  let ?rows = "filter (\<lambda>x. newer (order_key r) (order_key x)) (orders_where P ot)"
  have "list_all (\<lambda>r. dated (or_CreatedAt r)) ?rows"
    using assms(1) by (auto simp: order_pages_def list_all_iff set_orders_where)
  moreover have "newest_orders (filter (\<lambda>x. P x \<and> behind (Some (or_CreatedAt r, Some (or_ID r))) x) (orders_t ot)) = ?rows"
    by (simp add: orders_where_def newest_orders_filter behind_key order_key_def conj_commute)
  ultimately show "orderPage cl L (take (Suc listPageSize) (newest_orders
        (filter (\<lambda>x. P x \<and> behind (Some (or_CreatedAt r, Some (or_ID r))) x) (orders_t ot)))) =
      keyset_page listPageSize (orderView L) (\<lambda>r. order_cursor cl L (order_key r)) ?rows"
    using orderPage_keyset [OF L] by simp
qed

section \<open>The pages of a buyer and of a store\<close>

text \<open>A request that meets no failure of the database, with the library functions \<open>L\<close>.\<close>

definition quiet :: "lib \<Rightarrow> env \<Rightarrow> bool" where
  "quiet L env \<longleftrightarrow> lib.truncate env = L \<and> (\<forall>q. fault env q = None)"

lemma lib_functions [simp]:
  "uuid_Parse (lib.truncate env) = uuid_Parse env" "uuid_String (lib.truncate env) = uuid_String env"
  "Numeric_Value (lib.truncate env) = Numeric_Value env"
  by (simp_all add: lib.truncate_def)

lemma codec_truncate [simp]:
  "decodeListCursor cl (lib.truncate env) = decodeListCursor cl env"
  "decodeAlternativeCursor cl (lib.truncate env) = decodeAlternativeCursor cl env"
  "orderView (lib.truncate env) = orderView env"
  "alternative_of (lib.truncate env) = alternative_of env"
  "lineView (lib.truncate env) = lineView env"
  "position_of (lib.truncate env) = position_of env"
  "order_cursor cl (lib.truncate env) = order_cursor cl env"
  by (intro ext; simp add: decodeListCursor_def decodeAlternativeCursor_def orderView_def alternative_of_def lineView_def
      position_of_def order_cursor_def uuid_Validate_def split: option.split)+

lemma pages_truncate [simp]:
  "orderPage cl (lib.truncate env) rows = orderPage cl env rows"
  "faithful_cursors cl (lib.truncate env) = faithful_cursors cl env"
  "order_pages cl (lib.truncate env) ot = order_pages cl env ot"
  by (simp_all add: orderPage_def faithful_cursors_def order_pages_def)

definition my_orders :: "'a lib_scheme \<Rightarrow> ctx \<Rightarrow> order_tables \<Rightarrow> order_row list" where
  "my_orders L c ot = orders_where (\<lambda>r. Some (or_BuyerID r) = uuid_Parse L (Subject c)) ot"

definition open_in :: "'a lib_scheme \<Rightarrow> string \<Rightarrow> order_row \<Rightarrow> bool" where
  "open_in L storeID r \<longleftrightarrow> Some (or_StoreID r) = uuid_Parse L storeID \<and> or_Status r \<in> set openStatuses"

definition open_orders :: "'a lib_scheme \<Rightarrow> string \<Rightarrow> order_tables \<Rightarrow> order_row list" where
  "open_orders L storeID ot = orders_where (open_in L storeID) ot"

definition my_pages_ok :: "cursor_codec \<Rightarrow> lib \<Rightarrow> ctx \<Rightarrow> env \<times> 'z bdb_scheme \<Rightarrow> bool" where
  "my_pages_ok cl L c s \<longleftrightarrow> quiet L (fst s) \<and> order_pages cl L (ord (snd s)) \<and> FromContext c \<noteq> None"

definition store_pages_ok :: "cursor_codec \<Rightarrow> lib \<Rightarrow> ctx \<Rightarrow> string \<Rightarrow> env \<times> 'z bdb_scheme \<Rightarrow> bool" where
  "store_pages_ok cl L c storeID s \<longleftrightarrow> quiet L (fst s) \<and> order_pages cl L (ord (snd s)) \<and>
     EnsureOwnsStore (fst s) c storeID (loc (snd s)) = Inr ()"

lemma owned_store_valid:
  "EnsureOwnsStore env c storeID lc = Inr () \<Longrightarrow> uuid_Validate env storeID"
  by (auto simp: EnsureOwnsStore_def StoreBelongsToUser_def uuid_Validate_def go_simps split: if_splits option.splits)

lemma my_page:
  assumes "my_pages_ok cl L c (env, db)" "decodeListCursor cl L cursor = Inr pos"
  shows "ListMyOrders cl env c cursor db = Inr (orderPage cl L (take (Suc listPageSize) (newest_orders
    (filter (\<lambda>r. Some (or_BuyerID r) = uuid_Parse L (Subject c) \<and> behind (position_of L pos) r) (orders_t (ord db))))))"
proof -
  from assms(1) obtain p where "Require c = Inr p" "Subject c = UserID p" and L: "L = lib.truncate env"
      and quiet: "\<And>q. fault env q = None"
    by (auto simp: my_pages_ok_def quiet_def Require_def Subject_def split: option.splits)
  then show ?thesis using assms(2)
    by (simp add: ListMyOrders_def ListByBuyer_def ListOrdersByBuyer_def nat_add_distrib)
qed

lemma store_page:
  assumes "store_pages_ok cl L c storeID (env, db)" "decodeListCursor cl L cursor = Inr pos"
  shows "ListStoreOrders cl env c storeID cursor db = Inr (orderPage cl L (take (Suc listPageSize) (newest_orders
    (filter (\<lambda>r. open_in L storeID r \<and> behind (position_of L pos) r) (orders_t (ord db))))))"
proof -
  from assms(1) have own: "EnsureOwnsStore env c storeID (loc db) = Inr ()" and L: "L = lib.truncate env"
      and quiet: "\<And>q. fault env q = None"
    by (auto simp: store_pages_ok_def quiet_def)
  then show ?thesis using assms(2) owned_store_valid [OF own]
    by (simp add: ListStoreOrders_def ListStoreOpen_def ListStoreOpenOrders_def open_in_def nat_add_distrib conj_assoc)
qed

interpretation my_listing: keyset_listing "\<lambda>s cursor. ListMyOrders cl (fst s) c cursor (snd s)"
  "\<lambda>s. my_orders L c (ord (snd s))" order_key newer "orderView L" "order_cursor cl L" listPageSize
  "my_pages_ok cl L c" for cl L c
proof unfold_locales
  fix s assume ok: "my_pages_ok cl L c s"
  then have pages: "order_pages cl L (ord (snd s))" by (simp add: my_pages_ok_def)
  then show "sorted_wrt (\<lambda>a b. newer (order_key a) (order_key b)) (my_orders L c (ord (snd s)))"
    unfolding my_orders_def by (intro orders_where_sorted) (simp add: order_pages_def)
  show "ListMyOrders cl (fst s) c [] (snd s) = Inr (keyset_page listPageSize (orderView L)
      (\<lambda>r. order_cursor cl L (order_key r)) (my_orders L c (ord (snd s))))"
    using my_page [of cl L c "fst s" "snd s" "[]" None] ok order_page_first [OF pages]
    by (simp add: my_orders_def position_of_def)
next
  fix s s0 r assume ok: "my_pages_ok cl L c s" and "my_pages_ok cl L c s0" "r \<in> set (my_orders L c (ord (snd s0)))"
  then have pages: "order_pages cl L (ord (snd s))" "order_pages cl L (ord (snd s0))"
      and r: "r \<in> set (orders_t (ord (snd s0)))"
    by (auto simp: my_pages_ok_def my_orders_def set_orders_where)
  note nx = order_page_next [OF pages r]
  show "ListMyOrders cl (fst s) c (order_cursor cl L (order_key r)) (snd s) = Inr (keyset_page listPageSize
      (orderView L) (\<lambda>r. order_cursor cl L (order_key r))
      (filter (\<lambda>x. newer (order_key r) (order_key x)) (my_orders L c (ord (snd s)))))"
    using my_page [of cl L c "fst s" "snd s"] ok nx(1)
      nx(2) [of "\<lambda>r. Some (or_BuyerID r) = uuid_Parse L (Subject c)"]
    by (auto simp: my_orders_def position_of_def)
qed (auto simp: listPageSize_def newer_def)

interpretation store_listing: keyset_listing "\<lambda>s cursor. ListStoreOrders cl (fst s) c storeID cursor (snd s)"
  "\<lambda>s. open_orders L storeID (ord (snd s))" order_key newer "orderView L" "order_cursor cl L" listPageSize
  "store_pages_ok cl L c storeID" for cl L c storeID
proof unfold_locales
  fix s assume ok: "store_pages_ok cl L c storeID s"
  then have pages: "order_pages cl L (ord (snd s))" by (simp add: store_pages_ok_def)
  then show "sorted_wrt (\<lambda>a b. newer (order_key a) (order_key b)) (open_orders L storeID (ord (snd s)))"
    unfolding open_orders_def by (intro orders_where_sorted) (simp add: order_pages_def)
  show "ListStoreOrders cl (fst s) c storeID [] (snd s) = Inr (keyset_page listPageSize (orderView L)
      (\<lambda>r. order_cursor cl L (order_key r)) (open_orders L storeID (ord (snd s))))"
    using store_page [of cl L c storeID "fst s" "snd s" "[]" None] ok order_page_first [OF pages]
    by (simp add: open_orders_def position_of_def)
next
  fix s s0 r assume ok: "store_pages_ok cl L c storeID s" and "store_pages_ok cl L c storeID s0"
    "r \<in> set (open_orders L storeID (ord (snd s0)))"
  then have pages: "order_pages cl L (ord (snd s))" "order_pages cl L (ord (snd s0))"
      and r: "r \<in> set (orders_t (ord (snd s0)))"
    by (auto simp: store_pages_ok_def open_orders_def set_orders_where)
  note nx = order_page_next [OF pages r]
  show "ListStoreOrders cl (fst s) c storeID (order_cursor cl L (order_key r)) (snd s) = Inr (keyset_page
      listPageSize (orderView L) (\<lambda>r. order_cursor cl L (order_key r))
      (filter (\<lambda>x. newer (order_key r) (order_key x)) (open_orders L storeID (ord (snd s)))))"
    using store_page [of cl L c storeID "fst s" "snd s"] ok nx(1)
      nx(2) [of "open_in L storeID"]
    by (auto simp: open_orders_def position_of_def)
qed (auto simp: listPageSize_def newer_def)

section \<open>The pages of substitutes\<close>

definition price_key :: "offer \<Rightarrow> int \<times> uuid" where
  "price_key r = (of_Price r, of_ID r)"

definition offer_cursor :: "cursor_codec \<Rightarrow> 'a lib_scheme \<Rightarrow> int \<times> uuid \<Rightarrow> string" where
  "offer_cursor cl L k = the (encodeAlternativeCursor cl (fst k) (uuid_String L (snd k)))"

definition substitutable :: "uuid set \<Rightarrow> uuid \<Rightarrow> offer \<Rightarrow> bool" where
  "substitutable wanted storeID r \<longleftrightarrow> of_ProductID r \<in> wanted \<and> of_StoreID r \<noteq> storeID \<and>
     of_Status r = ''published'' \<and> of_ReservedQty r < of_DeclaredQty r"

definition substitutes :: "uuid set \<Rightarrow> uuid \<Rightarrow> catalog \<Rightarrow> offer list" where
  "substitutes wanted storeID ct = sort_key price_key (filter (substitutable wanted storeID) (offers ct))"

definition priced :: "catalog \<Rightarrow> bool" where
  "priced ct \<longleftrightarrow> catalog_inv ct \<and> list_all (\<lambda>r. is_int64 (of_Price r)) (offers ct)"

lemma offer_cursor_truncate [simp]:
  "offer_cursor cl (lib.truncate env) = offer_cursor cl env"
  "alternativePage cl (lib.truncate env) n rows = alternativePage cl env n rows"
  by (auto simp: offer_cursor_def alternativePage_def)

lemma substitutes_sorted:
  assumes "priced ct"
  shows "sorted_wrt (\<lambda>a b. price_key a < price_key b) (substitutes wanted storeID ct)"
proof -
  let ?xs = "filter (substitutable wanted storeID) (offers ct)"
  have "distinct (map of_ID (offers ct))" using assms by (simp add: priced_def catalog_inv_def)
  then have "distinct (map price_key ?xs)"
    by (auto simp: distinct_map inj_on_def price_key_def)
  then have "distinct (map price_key (sort_key price_key ?xs))"
    by (simp add: distinct_map)
  then have "sorted_wrt (<) (map price_key (sort_key price_key ?xs))" by (simp add: strict_sorted_iff)
  then show ?thesis by (simp add: sorted_wrt_map substitutes_def)
qed

text \<open>The page the catalogue makes of the rows it read.\<close>

definition alternative_page :: "cursor_codec \<Rightarrow> 'a lib_scheme \<Rightarrow> offer list \<Rightarrow> Alternative page" where
  "alternative_page cl L rows = keyset_page 50 (alternative_of L) (\<lambda>r. offer_cursor cl L (price_key r)) rows"

lemma alternativePage_keyset:
  assumes "faithful_cursors cl L" "lossless_ids L" "list_all (\<lambda>r. is_int64 (of_Price r)) rows"
  shows "alternativePage cl L 50 (take 51 rows) = alternative_page cl L rows"
proof (cases "50 < length rows")
  case True
  let ?r = "rows ! 49"
  have "is_int64 (of_Price ?r)" using assms(3) True by (simp add: list_all_iff)
  then obtain s where s: "encodeAlternativeCursor cl (of_Price ?r) (uuid_String L (of_ID ?r)) = Some s"
    using alternativeCursor_roundtrip [OF assms(1,2)] by metis
  have "last (take 50 rows) = ?r"
  proof -
    have "take 50 rows \<noteq> []" using True by auto
    then show ?thesis using True by (simp add: last_conv_nth)
  qed
  then show ?thesis using True s
    by (simp add: alternativePage_def Let_def alternative_page_def keyset_page_def offer_cursor_def price_key_def alternative_of_def min_def)
next
  case False
  then show ?thesis by (auto simp: alternativePage_def Let_def alternative_page_def keyset_page_def)
qed

lemma parse_all: "lossless_ids L \<Longrightarrow> List.map_filter (uuid_Parse L) (map (uuid_String L) us) = us"
  by (induction us) (simp_all add: map_filter_simps)

lemma substitutes_after:
  "sort_key price_key (filter (\<lambda>r. substitutable wanted storeID r \<and> (case b of None \<Rightarrow> True | Some k \<Rightarrow> k < price_key r)) (offers ct)) =
   filter (\<lambda>r. case b of None \<Rightarrow> True | Some k \<Rightarrow> k < price_key r) (substitutes wanted storeID ct)"
  by (simp add: substitutes_def filter_sort conj_commute)

lemma ListAlternatives_page:
  assumes "quiet L env" "faithful_cursors cl L" "lossless_ids L" "priced ct"
    and "decodeAlternativeCursor cl L cursor = Inr b"
  shows "ListAlternatives cl env \<lparr>ar_ProductIDs = map (uuid_String L) us, ar_ExcludeStoreID = uuid_String L storeID,
      ar_Cursor = cursor, ar_PageSize = 0\<rparr> ct =
    Inr (alternative_page cl L (filter (\<lambda>r. case b of None \<Rightarrow> True | Some k \<Rightarrow> k < price_key r)
      (substitutes (set us) storeID ct)))"
proof (cases "us = []")
  case True
  have "lossless_ids env" using assms(1,3) by (auto simp: quiet_def)
  then show ?thesis using True assms(1)
    by (auto simp: ListAlternatives_def quiet_def alternative_page_def keyset_page_def substitutes_def
        substitutable_def map_filter_simps)
next
  case False
  let ?rows = "filter (\<lambda>r. case b of None \<Rightarrow> True | Some k \<Rightarrow> k < price_key r) (substitutes (set us) storeID ct)"
  have env: "L = lib.truncate env" "fault env q = None" "lossless_ids env" for q
    using assms(1,3) by (auto simp: quiet_def)
  have "list_all (\<lambda>r. is_int64 (of_Price r)) ?rows"
    using assms(4) by (auto simp: priced_def list_all_iff substitutes_def)
  note page = alternativePage_keyset [OF assms(2,3) this]
  have read: "ListOfferAlternatives env us storeID b 51 ct = Inr (take 51 ?rows)"
    unfolding ListOfferAlternatives_def substitutes_after [symmetric]
    using env(2) by (cases b) (simp_all add: substitutable_def price_key_def [abs_def] conj_assoc)
  show ?thesis
    using page False read env parse_all [OF env(3), of us] assms(5)
    by (simp add: ListAlternatives_def alternativesPageSize_def Let_def)
qed

text \<open>The substitutes of an order: offers of other stores for its products.\<close>

definition order_substitutes :: "'a lib_scheme \<Rightarrow> string \<Rightarrow> 'z odb_scheme \<Rightarrow> offer list" where
  "order_substitutes L i db = (case uuid_Parse L i of None \<Rightarrow> []
   | Some u \<Rightarrow> (case sql_one (\<lambda>r. or_ID r = u) (orders_t (ord db)) of Inl _ \<Rightarrow> []
     | Inr order \<Rightarrow> substitutes (order_item.oi_ProductID ` set (items_of (ord db) u)) (or_StoreID order) (cat db)))"

definition substitutes_ok :: "cursor_codec \<Rightarrow> lib \<Rightarrow> ctx \<Rightarrow> string \<Rightarrow> env \<times> 'z bdb_scheme \<Rightarrow> bool" where
  "substitutes_ok cl L c i s \<longleftrightarrow> quiet L (fst s) \<and> faithful_cursors cl L \<and> lossless_ids L \<and> priced (cat (snd s)) \<and>
     (case authorizeBuyer (fst s) c i (snd s) of Inl _ \<Rightarrow> False
      | Inr summary \<Rightarrow> su_Status summary = StatusBuyerDecisionPending)"

lemma substitutes_page:
  assumes "substitutes_ok cl L c i (env, db)" "decodeAlternativeCursor cl L cursor = Inr b"
  shows "Alternatives cl env c i cursor db = Inr (alternative_page cl L
    (filter (\<lambda>r. case b of None \<Rightarrow> True | Some k \<Rightarrow> k < price_key r) (order_substitutes L i db)))"
proof -
  from assms(1) have q: "quiet L env" and faithful: "faithful_cursors cl L" "lossless_ids L" and ct: "priced (cat db)"
    by (simp_all add: substitutes_ok_def)
  have env: "L = lib.truncate env" "fault env q = None" for q using q by (auto simp: quiet_def)
  from assms(1) obtain summary where auth: "authorizeBuyer env c i db = Inr summary"
      "su_Status summary = StatusBuyerDecisionPending"
    by (auto simp: substitutes_ok_def split: sum.splits)
  obtain u order where u: "uuid_Parse env i = Some u"
      and order: "sql_one (\<lambda>r. or_ID r = u) (orders_t (ord db)) = Inr order"
    using auth(1) by (auto simp: authorizeBuyer_def Repository_Summary_def GetOrderSummary_def go_simps sql_simps
        split: option.splits if_splits)
  let ?items = "sort_key order_item.oi_ID (items_of (ord db) u)"
  have items: "ListOrderItems env u (ord db) = Inr ?items"
    using env by (simp add: ListOrderItems_def items_of_def)
  have row: "GetOrder env u (ord db) = Inr order" using env order by (simp add: GetOrder_def)
  have ids: "map (\<lambda>item. uuid_String env (order_item.oi_ProductID item)) ?items =
      map (uuid_String L) (map order_item.oi_ProductID ?items)"
    using env by simp
  have "Alternatives cl env c i cursor db = mapErr mapCatalogError (ListAlternatives cl env
      \<lparr>ar_ProductIDs = map (uuid_String L) (map order_item.oi_ProductID ?items),
       ar_ExcludeStoreID = uuid_String L (or_StoreID order), ar_Cursor = cursor, ar_PageSize = 0\<rparr> (cat db))"
    using auth row items u env(1) unfolding Alternatives_def Repository_Alternatives_def ids [symmetric] by simp
  also have "\<dots> = Inr (alternative_page cl L (filter (\<lambda>r. case b of None \<Rightarrow> True | Some k \<Rightarrow> k < price_key r)
      (substitutes (set (map order_item.oi_ProductID ?items)) (or_StoreID order) (cat db))))"
    by (subst ListAlternatives_page [OF q faithful ct assms(2)]) simp
  also have "substitutes (set (map order_item.oi_ProductID ?items)) (or_StoreID order) (cat db) = order_substitutes L i db"
    using u order env(1) by (simp add: order_substitutes_def)
  finally show ?thesis .
qed

lemma order_substitutes_cases:
  obtains "order_substitutes L i db = []"
  | W st where "order_substitutes L i db = substitutes W st (cat db)"
  by (cases "uuid_Parse L i"; cases "\<exists>order. sql_one (\<lambda>r. or_ID r = the (uuid_Parse L i)) (orders_t (ord db)) = Inr order")
     (auto simp: order_substitutes_def split: sum.splits)

interpretation substitute_listing: keyset_listing "\<lambda>s cursor. Alternatives cl (fst s) c i cursor (snd s)"
  "\<lambda>s. order_substitutes L i (snd s)" price_key "(<)" "alternative_of L" "offer_cursor cl L" 50
  "substitutes_ok cl L c i" for cl L c i
proof unfold_locales
  fix s assume ok: "substitutes_ok cl L c i s"
  then have "priced (cat (snd s))" by (simp add: substitutes_ok_def)
  then show "sorted_wrt (\<lambda>a b. price_key a < price_key b) (order_substitutes L i (snd s))"
    by (cases rule: order_substitutes_cases [of L i "snd s"]) (simp_all add: substitutes_sorted)
  show "Alternatives cl (fst s) c i [] (snd s) = Inr (keyset_page 50 (alternative_of L)
      (\<lambda>r. offer_cursor cl L (price_key r)) (order_substitutes L i (snd s)))"
    using substitutes_page [of cl L c i "fst s" "snd s" "[]" None] ok
    by (simp add: decodeAlternativeCursor_def alternative_page_def)
next
  fix s s0 r assume ok: "substitutes_ok cl L c i s" and ok0: "substitutes_ok cl L c i s0"
    and r: "r \<in> set (order_substitutes L i (snd s0))"
  have L: "faithful_cursors cl L" "lossless_ids L" using ok by (simp_all add: substitutes_ok_def)
  have "r \<in> set (offers (cat (snd s0)))"
    using r by (cases rule: order_substitutes_cases [of L i "snd s0"]) (auto simp: substitutes_def)
  then have "is_int64 (of_Price r)" using ok0 by (simp add: substitutes_ok_def priced_def list_all_iff)
  then obtain s' where "encodeAlternativeCursor cl (of_Price r) (uuid_String L (of_ID r)) = Some s'"
      "decodeAlternativeCursor cl L s' = Inr (Some (price_key r))"
    unfolding price_key_def by (rule alternativeCursor_roundtrip [OF L])
  then show "Alternatives cl (fst s) c i (offer_cursor cl L (price_key r)) (snd s) = Inr (keyset_page 50
      (alternative_of L) (\<lambda>r. offer_cursor cl L (price_key r))
      (filter (\<lambda>x. price_key r < price_key x) (order_substitutes L i (snd s))))"
    using substitutes_page [of cl L c i "fst s" "snd s" s' "Some (price_key r)"] ok
    by (simp add: offer_cursor_def alternative_page_def price_key_def)
qed auto

end
