(* ===== verification/ListingTheorems.thy ===== *)
theory ListingTheorems
  imports ListingPages Market
begin

text \<open>
  What a client sees that follows the cursors of a listing while other requests run between its
  own.
\<close>

section \<open>Listings during a history\<close>

text \<open>
  A visit is the environment of one request for a page and the requests the system handled since
  the visit before; \<open>visited\<close> are the databases the visits meet.
\<close>

type_synonym visit = "env \<times> (env \<times> ctx \<times> system_call) list"

fun visited :: "visit list \<Rightarrow> 'z bdb_scheme \<Rightarrow> (env \<times> 'z bdb_scheme) list" where
  "visited [] db = []"
| "visited ((env, calls) # vs) db =
     (let db' = run_all system_exec calls db in (env, db') # visited vs db')"

lemma visited_nonempty: "vs \<noteq> [] \<Longrightarrow> visited vs db \<noteq> []"
  by (cases "(vs, db)" rule: visited.cases) (auto simp: Let_def)

lemma length_visited [simp]: "length (visited vs db) = length vs"
  by (induction vs db rule: visited.induct) (simp_all add: Let_def)

lemma visited_env: "(env, db') \<in> set (visited vs db) \<Longrightarrow> env \<in> fst ` set vs"
  by (induction vs db rule: visited.induct) (force simp: Let_def)+

lemma run_extends:
  assumes "core_inv db"
  shows "core_inv (run_all system_exec calls db) \<and> orders_extend (ord db) (ord (run_all system_exec calls db))"
  using system_terms.run_R [of db calls] assms by (simp add: terms_step_def)

lemma visited_inv:
  assumes "core_inv db" "s \<in> set (visited vs db)"
  shows "core_inv (snd s) \<and> orders_extend (ord db) (ord (snd s)) \<and>
    orders_extend (ord (snd s)) (ord (run_all system_exec (concat (map snd vs)) db))"
  using assms
proof (induction vs db rule: visited.induct)
  case (2 env calls vs db)
  let ?db = "run_all system_exec calls db"
  note run = run_extends [OF 2(2), of calls]
  have rest: "orders_extend (ord ?db) (ord (run_all system_exec (concat (map snd vs)) ?db))"
    using run_extends [of ?db] run by simp
  have split: "run_all system_exec (concat (map snd ((env, calls) # vs))) db = run_all system_exec (concat (map snd vs)) ?db"
    by (simp add: run_all_def)
  show ?case
  proof (cases "s = (env, ?db)")
    case True
    then show ?thesis unfolding split using run rest by simp
  next
    case False
    then have "s \<in> set (visited vs ?db)" using 2(3) by (simp add: Let_def)
    then show ?thesis unfolding split using "2.IH" [OF refl] run orders_extend_trans by blast
  qed
qed simp

text \<open>What identifies an order in a listing does not change.\<close>

definition dated_orders :: "order_tables \<Rightarrow> bool" where
  "dated_orders ot \<longleftrightarrow> list_all (\<lambda>r. dated (or_CreatedAt r)) (orders_t ot)"

lemma terms_key: "order_terms a = order_terms b \<Longrightarrow> order_key a = order_key b \<and> or_BuyerID a = or_BuyerID b \<and> or_StoreID a = or_StoreID b"
proof -
  assume t: "order_terms a = order_terms b"
  have "f (order_terms a) = f (order_terms b)" for f :: "order_row \<Rightarrow> 'x" using t by simp
  from this [of or_CreatedAt] this [of or_ID] this [of or_BuyerID] this [of or_StoreID]
  show ?thesis by (simp add: order_terms_def order_key_def)
qed

lemma key_kept:
  assumes "orders_extend ot ot'" "r \<in> set (orders_t ot)"
  obtains r' where "r' \<in> set (orders_t ot')" "order_key r' = order_key r" "or_BuyerID r' = or_BuyerID r" "or_StoreID r' = or_StoreID r"
  using order_kept [OF assms] terms_key by blast

lemma dated_before: "orders_extend ot ot' \<Longrightarrow> dated_orders ot' \<Longrightarrow> dated_orders ot"
  unfolding dated_orders_def list_all_iff
  by (metis key_kept order_key_def prod.inject)

lemma visited_pages:
  assumes "faithful_cursors cl L" "lossless_ids L" "core_inv db"
    and "dated_orders (ord (run_all system_exec (concat (map snd visits)) db))" "s \<in> set (visited visits db)"
  shows "order_pages cl L (ord (snd s))"
  using assms visited_inv [OF assms(3,5)] dated_before
  by (auto simp: order_pages_def core_inv_def dated_orders_def)

lemma visited_quiet: "list_all (\<lambda>v. quiet L (fst v)) visits \<Longrightarrow> s \<in> set (visited visits db) \<Longrightarrow> quiet L (fst s)"
  using visited_env [of "fst s" "snd s" visits db] by (auto simp: list_all_iff)

lemma visited_keys:
  assumes "core_inv db" "s \<in> set (visited visits db)" "t \<in> set (visited visits db)"
    and "a \<in> set (orders_t (ord (snd s)))" "b \<in> set (orders_t (ord (snd t)))" "or_ID a = or_ID b"
  shows "order_key a = order_key b"
proof -
  let ?final = "run_all system_exec (concat (map snd visits)) db"
  obtain a' where a: "a' \<in> set (orders_t (ord ?final))" "order_key a' = order_key a"
    using key_kept [of "ord (snd s)" "ord ?final" a] visited_inv [OF assms(1,2)] assms(4) by metis
  obtain b' where b: "b' \<in> set (orders_t (ord ?final))" "order_key b' = order_key b"
    using key_kept [of "ord (snd t)" "ord ?final" b] visited_inv [OF assms(1,3)] assms(5) by metis
  have "or_ID a' = or_ID b'" using a(2) b(2) assms(6) by (simp add: order_key_def)
  moreover have "distinct (map or_ID (orders_t (ord ?final)))"
    using run_extends [OF assms(1)] by (simp add: core_inv_def orders_inv_def)
  ultimately have "a' = b'" using a(1) b(1) by (simp add: distinct_map inj_on_def)
  then show ?thesis using a b by simp
qed

text \<open>A listing in the order of keys that do not change shows no order twice.\<close>

lemma listed_once:
  assumes "core_inv db" "sorted_wrt (\<lambda>a b. newer (order_key a) (order_key b)) rows"
    and "\<And>r. r \<in> set rows \<Longrightarrow> \<exists>s \<in> set (visited visits db). r \<in> set (orders_t (ord (snd s)))"
  shows "distinct (map or_ID rows)"
  using assms(2,3)
proof (induction rows)
  case (Cons a rows)
  have "or_ID a \<noteq> or_ID b" if "b \<in> set rows" for b
  proof
    assume "or_ID a = or_ID b"
    moreover have "\<exists>s \<in> set (visited visits db). a \<in> set (orders_t (ord (snd s)))" by (rule Cons.prems(2)) simp
    moreover have "\<exists>t \<in> set (visited visits db). b \<in> set (orders_t (ord (snd t)))" by (rule Cons.prems(2)) (simp add: that)
    ultimately have "order_key a = order_key b" using visited_keys [OF assms(1)] by blast
    then show False using Cons.prems(1) that by (auto simp: newer_def)
  qed
  then show ?case using Cons by auto
qed simp

section \<open>The listings are complete\<close>

lemma my_orders_row: "r \<in> set (my_orders L c ot) \<longleftrightarrow> r \<in> set (orders_t ot) \<and> Some (or_BuyerID r) = uuid_Parse L (Subject c)"
  by (simp add: my_orders_def set_orders_where)

lemma my_orders_keys:
  assumes "orders_extend ot ot'"
  shows "order_key ` set (my_orders L c ot) \<subseteq> order_key ` set (my_orders L c ot')"
proof
  fix k assume "k \<in> order_key ` set (my_orders L c ot)"
  then obtain r where "r \<in> set (orders_t ot)" "Some (or_BuyerID r) = uuid_Parse L (Subject c)" "k = order_key r"
    by (auto simp: my_orders_row)
  moreover from key_kept [OF assms this(1)] obtain r' where "r' \<in> set (orders_t ot')" "order_key r' = order_key r"
    "or_BuyerID r' = or_BuyerID r" by metis
  ultimately show "k \<in> order_key ` set (my_orders L c ot')" by (intro image_eqI [of _ _ r']) (simp_all add: my_orders_row)
qed

text \<open>
  C30: A buyer who follows the cursors of the order list, while any requests run between the pages,
  is shown every order placed before the first page, exactly once and the newest first, and
  nothing but orders of the buyer as they stood at one of the pages. The requests must be as many
  as the orders need in pages.
\<close>

theorem buyer_sees_every_order:
  assumes "faithful_cursors cl L" "lossless_ids L" "core_inv db" "FromContext c \<noteq> None"
    and "visits \<noteq> []" "list_all (\<lambda>v. quiet L (fst v)) visits"
    and "final = run_all system_exec (concat (map snd visits)) db" "dated_orders (ord final)"
    and "length (my_orders L c (ord final)) \<le> 50 * length visits"
  shows "\<exists>rows. follow (\<lambda>s cursor. ListMyOrders cl (fst s) c cursor (snd s)) (visited visits db) [] =
        Inr (map (orderView L) rows) \<and>
      sorted_wrt (\<lambda>a b. newer (order_key a) (order_key b)) rows \<and> distinct (map or_ID rows) \<and>
      or_ID ` set (my_orders L c (ord db)) \<subseteq> or_ID ` set rows \<and>
      (\<forall>r \<in> set rows. \<exists>s \<in> set (visited visits db). r \<in> set (my_orders L c (ord (snd s))))"
proof -
  let ?ss = "visited visits db" and ?mine = "\<lambda>db. order_key ` set (my_orders L c (ord db))"
  have ok: "list_all (my_pages_ok cl L c) ?ss"
    using visited_pages [OF assms(1-3) assms(8) [unfolded assms(7)]] visited_quiet [OF assms(6)] assms(4)
    by (auto simp: list_all_iff my_pages_ok_def)
  have later: "?mine (snd s) \<subseteq> ?mine final" if "s \<in> set ?ss" for s
    using visited_inv [OF assms(3) that] my_orders_keys assms(7) by blast
  then have "(\<Union>s \<in> set ?ss. ?mine (snd s)) \<subseteq> ?mine final" by blast
  then have "card (\<Union>s \<in> set ?ss. ?mine (snd s)) \<le> card (?mine final)" by (intro card_mono) auto
  also have "\<dots> \<le> length (my_orders L c (ord final))" using card_image_le card_length by (metis List.finite_set le_trans)
  finally have few: "card (\<Union>s \<in> set ?ss. ?mine (snd s)) \<le> listPageSize * length ?ss"
    using assms(9) by (simp add: listPageSize_def)
  obtain rows where rows: "follow (\<lambda>s cursor. ListMyOrders cl (fst s) c cursor (snd s)) ?ss [] = Inr (map (orderView L) rows)"
    "sorted_wrt (\<lambda>a b. newer (order_key a) (order_key b)) rows"
    "\<forall>r \<in> set rows. \<exists>s \<in> set ?ss. r \<in> set (my_orders L c (ord (snd s)))"
    "\<forall>x. (\<forall>s \<in> set ?ss. x \<in> ?mine (snd s)) \<longrightarrow> x \<in> order_key ` set rows"
    by (rule my_listing.follow_all [OF visited_nonempty [OF assms(5)] ok few])
  have "distinct (map or_ID rows)"
    using rows(3) by (intro listed_once [OF assms(3) rows(2)]) (auto simp: my_orders_row)
  moreover have "?mine db \<subseteq> ?mine (snd s)" if "s \<in> set ?ss" for s
    using visited_inv [OF assms(3) that] my_orders_keys by blast
  then have "?mine db \<subseteq> order_key ` set rows" using rows(4) by blast
  then have "snd ` ?mine db \<subseteq> snd ` order_key ` set rows" by (rule image_mono)
  then have "or_ID ` set (my_orders L c (ord db)) \<subseteq> or_ID ` set rows"
    by (simp add: image_image order_key_def)
  ultimately show ?thesis using rows by blast
qed

lemma open_orders_row: "r \<in> set (open_orders L storeID ot) \<longleftrightarrow> r \<in> set (orders_t ot) \<and> open_in L storeID r"
  by (simp add: open_orders_def set_orders_where)

text \<open>
  A seller who follows the cursors of the queue of open orders, while any requests run between
  the pages, is shown every order that was open at each of them, exactly once and the newest
  first, and nothing but open orders of the store. An order that is closed or opened meanwhile may
  be shown or not.
\<close>

theorem store_queue_complete:
  assumes "faithful_cursors cl L" "lossless_ids L" "core_inv db"
    and "visits \<noteq> []" "list_all (\<lambda>v. quiet L (fst v)) visits"
    and "dated_orders (ord (run_all system_exec (concat (map snd visits)) db))"
    and "list_all (\<lambda>s. EnsureOwnsStore (fst s) c storeID (loc (snd s)) = Inr ()) (visited visits db)"
    and "card (\<Union>s \<in> set (visited visits db). or_ID ` set (open_orders L storeID (ord (snd s)))) \<le> 50 * length visits"
  shows "\<exists>rows. follow (\<lambda>s cursor. ListStoreOrders cl (fst s) c storeID cursor (snd s)) (visited visits db) [] =
        Inr (map (orderView L) rows) \<and>
      sorted_wrt (\<lambda>a b. newer (order_key a) (order_key b)) rows \<and> distinct (map or_ID rows) \<and>
      (\<forall>i. (\<forall>s \<in> set (visited visits db). i \<in> or_ID ` set (open_orders L storeID (ord (snd s)))) \<longrightarrow> i \<in> or_ID ` set rows) \<and>
      (\<forall>r \<in> set rows. \<exists>s \<in> set (visited visits db). r \<in> set (open_orders L storeID (ord (snd s))))"
proof -
  let ?ss = "visited visits db" and ?open = "\<lambda>s. set (open_orders L storeID (ord (snd s)))"
  have ok: "list_all (store_pages_ok cl L c storeID) ?ss"
    using visited_pages [OF assms(1-3,6)] visited_quiet [OF assms(5)] assms(7)
    by (auto simp: list_all_iff store_pages_ok_def)
  have key: "order_key a = order_key b" if "s \<in> set ?ss" "t \<in> set ?ss" "a \<in> ?open s" "b \<in> ?open t" "or_ID a = or_ID b" for s t a b
    using visited_keys [OF assms(3) that(1,2)] that(3-5) by (auto simp: open_orders_row)
  have ids: "or_ID ` ?open s = snd ` order_key ` ?open s" for s :: "env \<times> 'a bdb_scheme"
    by (simp add: image_image order_key_def)
  have "inj_on snd (\<Union>s \<in> set ?ss. order_key ` ?open s)"
  proof (rule inj_onI)
    fix k k' assume "k \<in> (\<Union>s \<in> set ?ss. order_key ` ?open s)" "k' \<in> (\<Union>s \<in> set ?ss. order_key ` ?open s)" "snd k = snd k'"
    then obtain s t a b where "s \<in> set ?ss" "t \<in> set ?ss" "a \<in> ?open s" "b \<in> ?open t"
        and k: "k = order_key a" "k' = order_key b" by (elim UN_E imageE)
    moreover have "or_ID a = or_ID b" using \<open>snd k = snd k'\<close> k by (simp add: order_key_def)
    ultimately show "k = k'" using key by blast
  qed
  then have "card (\<Union>s \<in> set ?ss. order_key ` ?open s) = card (snd ` (\<Union>s \<in> set ?ss. order_key ` ?open s))"
    by (rule card_image [symmetric])
  also have "\<dots> = card (\<Union>s \<in> set ?ss. or_ID ` ?open s)" unfolding image_UN ids ..
  finally have few: "card (\<Union>s \<in> set ?ss. order_key ` ?open s) \<le> listPageSize * length ?ss"
    using assms(8) by (simp add: listPageSize_def)
  obtain rows where rows: "follow (\<lambda>s cursor. ListStoreOrders cl (fst s) c storeID cursor (snd s)) ?ss [] = Inr (map (orderView L) rows)"
    "sorted_wrt (\<lambda>a b. newer (order_key a) (order_key b)) rows"
    "\<forall>r \<in> set rows. \<exists>s \<in> set ?ss. r \<in> ?open s"
    "\<forall>x. (\<forall>s \<in> set ?ss. x \<in> order_key ` ?open s) \<longrightarrow> x \<in> order_key ` set rows"
    by (rule store_listing.follow_all [OF visited_nonempty [OF assms(4)] ok few])
  have "distinct (map or_ID rows)"
    using rows(3) by (intro listed_once [OF assms(3) rows(2)]) (auto simp: open_orders_row)
  moreover have "i \<in> or_ID ` set rows" if i: "\<forall>s \<in> set ?ss. i \<in> or_ID ` ?open s" for i
  proof -
    obtain s where s: "s \<in> set ?ss" using visited_nonempty [OF assms(4), of db] by (cases ?ss) auto
    then obtain a where a: "a \<in> ?open s" "or_ID a = i" using i by blast
    have "order_key a \<in> order_key ` ?open t" if "t \<in> set ?ss" for t
    proof -
      obtain b where "b \<in> ?open t" "or_ID b = i" using i \<open>t \<in> set ?ss\<close> by blast
      then show ?thesis using key [OF s that a(1)] a(2) by (intro image_eqI [of _ _ b]) simp_all
    qed
    then have "order_key a \<in> order_key ` set rows" using rows(4) by blast
    then obtain b where "b \<in> set rows" "order_key b = order_key a" by auto
    then show ?thesis using a(2) by (intro image_eqI [of _ _ b]) (simp_all add: order_key_def)
  qed
  ultimately show ?thesis using rows by blast
qed

text \<open>
  A buyer who follows the cursors of the substitutes for a declined order is shown every offer that
  was a substitute at each page at the same price, the cheapest first, and only offers that were
  substitutes at one of them.
\<close>

theorem substitutes_complete:
  assumes "faithful_cursors cl L" "lossless_ids L" "core_inv db"
    and "visits \<noteq> []" "list_all (\<lambda>v. quiet L (fst v)) visits"
    and "list_all (\<lambda>s. list_all (\<lambda>r. is_int64 (of_Price r)) (offers (cat (snd s)))) (visited visits db)"
    and "list_all (\<lambda>s. case authorizeBuyer (fst s) c i (snd s) of Inl _ \<Rightarrow> False
      | Inr summary \<Rightarrow> su_Status summary = StatusBuyerDecisionPending) (visited visits db)"
    and "card (\<Union>s \<in> set (visited visits db). price_key ` set (order_substitutes L i (snd s))) \<le> 50 * length visits"
  shows "\<exists>rows. follow (\<lambda>s cursor. Alternatives cl (fst s) c i cursor (snd s)) (visited visits db) [] =
        Inr (map (alternative_of L) rows) \<and> sorted_wrt (\<lambda>a b. price_key a < price_key b) rows \<and>
      (\<forall>k. (\<forall>s \<in> set (visited visits db). k \<in> price_key ` set (order_substitutes L i (snd s))) \<longrightarrow> k \<in> price_key ` set rows) \<and>
      (\<forall>r \<in> set rows. \<exists>s \<in> set (visited visits db). r \<in> set (order_substitutes L i (snd s)))"
proof -
  let ?ss = "visited visits db"
  have "priced (cat (snd s))" if "s \<in> set ?ss" for s
    using visited_inv [OF assms(3) that] assms(6) that by (auto simp: priced_def core_inv_def list_all_iff)
  then have ok: "list_all (substitutes_ok cl L c i) ?ss"
    using assms(1,2,7) visited_quiet [OF assms(5)] by (auto simp: list_all_iff substitutes_ok_def)
  have few: "card (\<Union>s \<in> set ?ss. price_key ` set (order_substitutes L i (snd s))) \<le> 50 * length ?ss"
    using assms(8) by simp
  obtain rows where "follow (\<lambda>s cursor. Alternatives cl (fst s) c i cursor (snd s)) ?ss [] = Inr (map (alternative_of L) rows)"
    "sorted_wrt (\<lambda>a b. price_key a < price_key b) rows"
    "\<forall>r \<in> set rows. \<exists>s \<in> set ?ss. r \<in> set (order_substitutes L i (snd s))"
    "\<forall>k. (\<forall>s \<in> set ?ss. k \<in> price_key ` set (order_substitutes L i (snd s))) \<longrightarrow> k \<in> price_key ` set rows"
    by (rule substitute_listing.follow_all [OF visited_nonempty [OF assms(4)] ok few])
  then show ?thesis by blast
qed

section \<open>The detail of an order\<close>

text \<open>The buyer of an order, and a seller who owns its store.\<close>

definition party :: "'a lib_scheme \<Rightarrow> Principal \<Rightarrow> order_row \<Rightarrow> location \<Rightarrow> bool" where
  "party L p order lc \<longleftrightarrow> UserID p = uuid_String L (or_BuyerID order) \<or>
     RoleSeller \<in> set (Roles p) \<and>
     list_ex (\<lambda>s. st_id s = or_StoreID order \<and>
       list_ex (\<lambda>w. ow_id w = st_owner_id s \<and> Some (ow_user_id w) = uuid_Parse L (UserID p)) (owners lc)) (stores lc)"

lemma EnsureOwnsStore_party:
  assumes "FromContext c = Some p" "fault env ''StoreBelongsToUser'' = None" "lossless_ids env"
    and "UserID p \<noteq> uuid_String env (or_BuyerID order)"
  shows "EnsureOwnsStore env c (uuid_String env (or_StoreID order)) lc =
    (if party env p order lc then Inr () else Inl AuthzForbidden)"
proof (cases "uuid_Parse env (UserID p)")
  case None
  then show ?thesis using assms
    by (simp add: EnsureOwnsStore_def Require_def StoreBelongsToUser_def party_def Has_def list_ex_iff)
next
  case (Some u)
  then show ?thesis using assms
    by (simp add: EnsureOwnsStore_def Require_def StoreBelongsToUser_def store_StoreBelongsToUser_def party_def Has_def
        eq_commute [of u])
qed

text \<open>
  C25: The detail of an order, with its items, goes to its buyer and to a seller who owns its store.
  Anyone else who is signed in gets the answer that a missing order gets.
\<close>

theorem order_detail_private:
  assumes "quiet L env" "lossless_ids L" "FromContext c = Some p" "uuid_Parse L i = Some u"
  shows "Service_GetOrder env c i db =
    (case sql_one (\<lambda>r. or_ID r = u) (orders_t (ord db)) of
       Inl _ \<Rightarrow> Inl OrdersNotFound
     | Inr order \<Rightarrow> if party L p order (loc db)
         then Inr (OrderView.extend (orderView L order)
           (OrderDetail.fields (map (lineView L) (sort_key order_item.oi_ID (items_of (ord db) u)))))
         else Inl OrdersNotFound)"
proof -
  have env: "L = lib.truncate env" "\<And>q. fault env q = None" "lossless_ids env"
    using assms(1,2) by (auto simp: quiet_def)
  have u: "uuid_Parse env i = Some u" using assms(4) env(1) by simp
  have party: "party L p order (loc db) = party env p order (loc db)" for order
    using env(1) by (simp add: party_def)
  show ?thesis
  proof (cases "sql_one (\<lambda>r. or_ID r = u) (orders_t (ord db))")
    case (Inl e)
    then have "e = NoRows" using sql_one_NoRows by auto
    then show ?thesis using Inl u env assms(3)
      by (simp add: Service_GetOrder_def uuid_Validate_def Require_def Repository_Summary_def GetOrderSummary_def)
  next
    case (Inr order)

    have detail: "Detail env i (ord db) = Inr (OrderView.extend (orderView L order)
        (OrderDetail.fields (map (lineView L) (sort_key order_item.oi_ID (items_of (ord db) u)))))"
      using u Inr env by (simp add: Detail_def GetOrder_def ListOrderItems_def items_of_def)
    have summary: "Repository_Summary env i (ord db) = Inr \<lparr>su_OrderID = uuid_String env (or_ID order),
        su_BuyerID = uuid_String env (or_BuyerID order), su_StoreID = uuid_String env (or_StoreID order),
        su_Status = or_Status order, su_TotalAmount = or_TotalAmount order,
        su_CreatedAt = or_CreatedAt order, su_ClosedAt = or_ClosedAt order\<rparr>"
      using u Inr env by (simp add: Repository_Summary_def GetOrderSummary_def)
    show ?thesis
    proof (cases "UserID p = uuid_String env (or_BuyerID order)")
      case True
      then have "party env p order (loc db)" by (simp add: party_def)
      then show ?thesis using True u summary detail party Inr assms(3)
        by (simp add: Service_GetOrder_def uuid_Validate_def Require_def EnsureSelf_def)
    next
      case False
      then have "EnsureSelf c (uuid_String env (or_BuyerID order)) \<noteq> Inr ()"
        using assms(3) by (simp add: EnsureSelf_def Require_def)
      moreover have "EnsureOwnsStore env c (uuid_String env (or_StoreID order)) (loc db) =
          (if party env p order (loc db) then Inr () else Inl AuthzForbidden)"
        using EnsureOwnsStore_party assms(3) env False by blast
      ultimately show ?thesis using u summary detail party Inr assms(3)
        by (simp add: Service_GetOrder_def uuid_Validate_def Require_def)
    qed
  qed
qed

section \<open>Witnesses\<close>

text \<open>A codec that writes a number in decimal before the id.\<close>

definition sample_write :: "int \<times> string \<Rightarrow> string" where
  "sample_write c = (if fst c < 0 then CHR ''-'' else CHR ''+'') # decimal (nat \<bar>fst c\<bar>) @ CHR '':'' # snd c"

definition sample_read :: "string \<Rightarrow> (int \<times> string) option" where
  "sample_read s = (case s of [] \<Rightarrow> None
   | sign # rest \<Rightarrow> let n = digits_value 0 (takeWhile is_digit rest) in
       Some (if sign = CHR ''-'' then - n else n, tl (dropWhile is_digit rest)))"

definition sample_codec :: cursor_codec where
  "sample_codec = \<lparr>cursor_Encode = (\<lambda>s. s), cursor_Decode = Some,
     Marshal_listCursor = (\<lambda>c. Some (sample_write c)), Unmarshal_listCursor = sample_read,
     Marshal_alternativeCursor = (\<lambda>(price, i). map_option (\<lambda>p. sample_write (p, i)) price),
     Unmarshal_alternativeCursor = (\<lambda>s. map_option (apfst Some) (sample_read s))\<rparr>"

lemma sample_read_write: "sample_read (sample_write c) = Some c"
proof -
  have digits: "list_all is_digit (decimal n)" "digits_value 0 (decimal n) = int n" for n
    using decimal_ok by auto
  have "\<not> is_digit CHR '':''" by code_simp
  then have "takeWhile is_digit (decimal n @ CHR '':'' # s) = decimal n"
      "dropWhile is_digit (decimal n @ CHR '':'' # s) = CHR '':'' # s" for n s
    using digits(1) [of n] by (simp_all add: takeWhile_append2 dropWhile_append2 list_all_iff)
  then show ?thesis by (cases c) (simp add: sample_write_def sample_read_def digits(2))
qed

lemma sample_codec_faithful: "faithful_cursors sample_codec L"
  by (simp add: faithful_cursors_def sample_codec_def sample_read_write) (simp add: sample_read_def)

lemma sample_quiet [simp]: "quiet sample_lib (sample_env i)"
  by (simp add: quiet_def)

definition two_visits :: "visit list" where
  "two_visits = [(sample_env 0, [place 20 ''k1'']), (sample_env 0, [])]"

lemma two_visits_end: "run_all system_exec (concat (map snd two_visits)) market = one_order"
  by (simp add: two_visits_def one_order_def)

lemma sample_dated: "dated 1000"
  by (simp add: dated_def zeroTime_def)

theorem buyer_sees_every_order_witness:
  "my_orders sample_lib buyer (ord one_order) = [sample_order] \<and>
   (\<exists>rows. follow (\<lambda>s cursor. ListMyOrders sample_codec (fst s) buyer cursor (snd s)) (visited two_visits market) [] =
        Inr (map (orderView sample_lib) rows) \<and> distinct (map or_ID rows))"
proof -
  have mine: "my_orders sample_lib buyer (ord one_order) = [sample_order]"
    by code_simp
  have dated: "dated_orders (ord one_order)"
    by (simp add: dated_orders_def one_order_orders sample_order_def sample_dated)
  have buyer: "FromContext buyer \<noteq> None" by (simp add: buyer_def FromContext_def Authenticated_def)
  have visits: "two_visits \<noteq> []" "list_all (\<lambda>v. quiet sample_lib (fst v)) two_visits"
    "length (my_orders sample_lib buyer (ord one_order)) \<le> 50 * length two_visits"
    by (simp_all add: two_visits_def mine)
  show ?thesis
    using mine buyer_sees_every_order [OF sample_codec_faithful sample_lib_lossless(1) market_core buyer
        visits(1,2) two_visits_end [symmetric] dated visits(3)]
    by blast
qed

text \<open>An order the seller accepted, and one that was declined beside an offer of another store.\<close>

definition accepted_visit :: "visit list" where
  "accepted_visit = [(sample_env 0, [place 20 ''k1'', trigger_call 20 ''k3'' TriggerSupplierConfirm])]"

lemma accepted_open:
  "map (\<lambda>s. map or_ID (open_orders sample_lib (sample_String 4) (ord (snd s)))) (visited accepted_visit market) = [[20]]"
  by code_simp

definition other_offer :: offer where
  "other_offer = \<lparr>of_ID = 9, of_StoreID = 3, of_ProductID = 6, of_Price = 1600, of_DeclaredQty = 5,
     of_ReservedQty = 0, of_FreshnessAt = 0, of_Status = ''published''\<rparr>"

definition two_stores :: bdb where
  "two_stores = market\<lparr>cat := sample_catalog\<lparr>offers := offers sample_catalog @ [other_offer]\<rparr>\<rparr>"

definition declined_visit :: "visit list" where
  "declined_visit = [(sample_env 0, [place 20 ''k1'', trigger_call 20 ''k3'' TriggerSupplierDecline])]"

lemma declined_substitutes:
  "map (\<lambda>s. order_substitutes sample_lib (sample_String 20) (snd s)) (visited declined_visit two_stores) = [[other_offer]]"
  by code_simp

lemma two_stores_core: "core_inv two_stores"
  by (simp add: core_inv_def two_stores_def other_offer_def market_def sample_catalog_def catalog_inv_def offer_chk_def offer_key_def
      orders_inv_def billing_inv_def history_ok_def rest_ok_def)

lemma visited_one: "visited [(env, calls)] db = [(env, run_all system_exec calls db)]"
  by (simp add: Let_def)

theorem store_queue_complete_witness:
  "\<exists>rows. follow (\<lambda>s cursor. ListStoreOrders sample_codec (fst s) seller (sample_String 4) cursor (snd s))
      (visited accepted_visit market) [] = Inr (map (orderView sample_lib) rows) \<and> 20 \<in> or_ID ` set rows"
proof -
  have dated: "dated_orders (ord (run_all system_exec (concat (map snd accepted_visit)) market))"
  proof -
    have "map or_CreatedAt (orders_t (ord (run_all system_exec (concat (map snd accepted_visit)) market))) = [1000]"
      by code_simp
    then show ?thesis using sample_dated by (auto simp: dated_orders_def)
  qed
  have owner: "list_all (\<lambda>s. EnsureOwnsStore (fst s) seller (sample_String 4) (loc (snd s)) = Inr ()) (visited accepted_visit market)"
    by code_simp
  have visits: "accepted_visit \<noteq> []" "list_all (\<lambda>v. quiet sample_lib (fst v)) accepted_visit"
    by (simp_all add: accepted_visit_def)
  obtain s where s: "visited accepted_visit market = [s]" by (simp add: accepted_visit_def visited_one)
  then have "map or_ID (open_orders sample_lib (sample_String 4) (ord (snd s))) = [20]" using accepted_open by simp
  then have listed: "or_ID ` set (open_orders sample_lib (sample_String 4) (ord (snd s))) = {20}"
    by (metis list.set(1) list.set(2) list.set_map)
  then have few: "card (\<Union>s \<in> set (visited accepted_visit market). or_ID ` set (open_orders sample_lib (sample_String 4) (ord (snd s))))
      \<le> 50 * length accepted_visit"
    using s by (simp add: accepted_visit_def)
  show ?thesis
    using store_queue_complete [OF sample_codec_faithful sample_lib_lossless(1) market_core visits dated owner few] s listed
    by auto
qed

theorem substitutes_complete_witness:
  "\<exists>rows. follow (\<lambda>s cursor. Alternatives sample_codec (fst s) buyer (sample_String 20) cursor (snd s))
      (visited declined_visit two_stores) [] = Inr (map (alternative_of sample_lib) rows) \<and> (1600, 9) \<in> price_key ` set rows"
proof -
  have prices: "list_all (\<lambda>s. list_all (\<lambda>r. is_int64 (of_Price r)) (offers (cat (snd s)))) (visited declined_visit two_stores)"
    by code_simp
  have declined: "list_all (\<lambda>s. case authorizeBuyer (fst s) buyer (sample_String 20) (snd s) of Inl _ \<Rightarrow> False
      | Inr summary \<Rightarrow> su_Status summary = StatusBuyerDecisionPending) (visited declined_visit two_stores)"
    by code_simp
  have visits: "declined_visit \<noteq> []" "list_all (\<lambda>v. quiet sample_lib (fst v)) declined_visit"
    by (simp_all add: declined_visit_def)
  obtain s where s: "visited declined_visit two_stores = [s]" by (simp add: declined_visit_def visited_one)
  then have found: "order_substitutes sample_lib (sample_String 20) (snd s) = [other_offer]" using declined_substitutes by simp
  then have few: "card (\<Union>s \<in> set (visited declined_visit two_stores). price_key ` set (order_substitutes sample_lib (sample_String 20) (snd s)))
      \<le> 50 * length declined_visit"
    using s by (simp add: declined_visit_def)
  have "price_key other_offer = (1600, 9)" by (simp add: price_key_def other_offer_def)
  then show ?thesis
    using substitutes_complete [OF sample_codec_faithful sample_lib_lossless(1) two_stores_core visits prices declined few] s found
    by auto
qed

text \<open>A stranger is told there is no such order.\<close>

definition stranger :: ctx where
  "stranger = \<lparr>ctx_principal = Some \<lparr>UserID = ''uuuuu'', Roles = [RoleBuyer]\<rparr>, OperationKey = ''op9''\<rparr>"

theorem order_detail_private_witness:
  "Service_GetOrder (sample_env 0) stranger (sample_String 20) one_order = Inl OrdersNotFound"
proof -
  have p: "FromContext stranger = Some \<lparr>UserID = ''uuuuu'', Roles = [RoleBuyer]\<rparr>"
    by (simp add: stranger_def FromContext_def Authenticated_def)
  have u: "uuid_Parse sample_lib (sample_String 20) = Some 20" by code_simp
  have "sql_one (\<lambda>r. or_ID r = 20) (orders_t (ord one_order)) = Inr sample_order"
    by (simp add: one_order_orders sample_order_def)
  moreover have "\<not> party sample_lib \<lparr>UserID = ''uuuuu'', Roles = [RoleBuyer]\<rparr> sample_order (loc one_order)"
    by code_simp
  ultimately show ?thesis
    by (simp add: order_detail_private [OF sample_quiet sample_lib_lossless(1) p u])
qed

end
