(* ===== verification/Trust.thy ===== *)
theory Trust
  imports OrdersService OrdersTerms
begin

text \<open>
  The module \<open>internal/modules/trust\<close>: a buyer's feedback on a closed order (\<open>service.go\<close>,
  \<open>repository.go\<close>, the table of \<open>migrations/trust\<close> and the statement on it). It reads the order
  through the port of the order module and shares the receipts and the outbox of the platform.
\<close>

section \<open>State\<close>

record feedback_row =
  fb_OrderID :: uuid
  fb_StoreID :: uuid
  fb_HadProblem :: bool
  fb_Tags :: "string list"
  fb_Comment :: "string option"
  fb_Channel :: string
  fb_CreatedAt :: time

text \<open>The database of the other modules, and the table of this one.\<close>

record tdb =
  market_db :: bdb
  order_feedback :: "feedback_row list"

definition feedbackTags :: "string list" where
  "feedbackTags = [''late'', ''qty_short'', ''quality'', ''price_mismatch'', ''no_response'']"

definition feedbackChannels :: "string list" where
  "feedbackChannels = [''push'', ''sms'', ''app'']"

definition maxFeedbackComment :: nat where "maxFeedbackComment = 2000"

text \<open>The CHECK constraints of the table, whose vocabularies are written out again there.\<close>

definition feedback_chk :: "feedback_row \<Rightarrow> bool" where
  "feedback_chk r \<longleftrightarrow> fb_Channel r \<in> {''push'', ''sms'', ''app''} \<and>
     set (fb_Tags r) \<subseteq> {''late'', ''qty_short'', ''quality'', ''price_mismatch'', ''no_response''}"

definition store_CreateOrderFeedback ::
  "'a env_scheme \<Rightarrow> feedback_row \<Rightarrow> tdb \<Rightarrow> (feedback_row list) result" where
  "store_CreateOrderFeedback env row d = stmt env ''CreateOrderFeedback''
     (sql_insert feedback_chk (\<lambda>a b. fb_OrderID a = fb_OrderID b)
        (order_exists (fb_OrderID row) (ord (market_db d)) \<and> store_exists (fb_StoreID row) (loc (market_db d)))
        row (order_feedback d))"

section \<open>The repository\<close>

record FeedbackInput =
  fi_OrderID :: string
  fi_Comment :: string
  fi_Channel :: string
  fi_HadProblem :: bool
  fi_Tags :: "string list"

record Feedback = FeedbackInput +
  fe_StoreID :: string
  fe_BuyerID :: string

definition Repository_CreateOrderFeedback ::
  "'a env_scheme \<Rightarrow> ctx \<Rightarrow> Feedback \<Rightarrow> time \<Rightarrow> tdb \<Rightarrow> unit result \<times> tdb" where
  "Repository_CreateOrderFeedback env c input tm d =
     (case (uuid_Parse env (fi_OrderID input), uuid_Parse env (fe_StoreID input)) of
        (Some orderID, Some storeID) \<Rightarrow> commit d (stmt env ''begin''
          (andThen (mapErr (\<lambda>e. if e = DedupKeyReuse then TrustConflict else e)
             (ReserveFor env (OperationKey c) orderID tm (plat (market_db d)))) (\<lambda>(replay, p1).
           if replay then Inr ((), d)
           else
             andThen (mapErr (\<lambda>e. if e = PgError ''23505'' then TrustConflict else e)
               (store_CreateOrderFeedback env
                 \<lparr>fb_OrderID = orderID, fb_StoreID = storeID, fb_HadProblem = fi_HadProblem input,
                  fb_Tags = fi_Tags input, fb_Comment = optional (fi_Comment input),
                  fb_Channel = fi_Channel input, fb_CreatedAt = tm\<rparr> d)) (\<lambda>rows.
             andThen (Write env ''trust'' (fi_OrderID input)
               (FeedbackCreatedPayload (fe_StoreID input) (fe_BuyerID input) (fi_HadProblem input)
                 (fi_Tags input) (fi_Channel input)) p1) (\<lambda>p2.
             stmt env ''commit'' (Inr ((),
               d\<lparr>market_db := (market_db d)\<lparr>plat := p2\<rparr>, order_feedback := rows\<rparr>)))))))
      | _ \<Rightarrow> (Inl TrustInvalid, d))"

section \<open>The service\<close>

text \<open>The loop over the tags; \<open>seen\<close> are those met before.\<close>

fun validate_tags :: "string list \<Rightarrow> string list \<Rightarrow> unit result" where
  "validate_tags seen [] = Inr ()"
| "validate_tags seen (tag # tags) =
     (if tag \<notin> set feedbackTags \<or> tag \<in> set seen then Inl TrustInvalid
      else validate_tags (tag # seen) tags)"

text \<open>Validation trims the comment.\<close>

definition validate_feedback :: "'a env_scheme \<Rightarrow> FeedbackInput \<Rightarrow> FeedbackInput result" where
  "validate_feedback env input =
     andThen (validate_tags [] (fi_Tags input)) (\<lambda>_.
       let input = input\<lparr>fi_Comment := TrimSpace (fi_Comment input)\<rparr> in
       if \<not> uuid_Validate env (fi_OrderID input) \<or> maxFeedbackComment < length (fi_Comment input) \<or>
          fi_Channel input \<notin> set feedbackChannels
       then Inl TrustInvalid else Inr input)"

definition CreateOrderFeedback ::
  "'a env_scheme \<Rightarrow> ctx \<Rightarrow> FeedbackInput \<Rightarrow> tdb \<Rightarrow> unit result \<times> tdb" where
  "CreateOrderFeedback env c input d =
     (case andThen (validate_feedback env input) (\<lambda>input.
        andThen (Require c) (\<lambda>_.
        andThen (mapErr (\<lambda>e. if e = OrdersNotFound \<or> e = OrdersInvalid then TrustNotFound else e)
          (GetOrderSummary_port env (fi_OrderID input) (market_db d))) (\<lambda>summary.
        andThen (mapErr (\<lambda>e. if e = AuthzForbidden then TrustNotFound else e)
          (EnsureSelf c (su_BuyerID summary))) (\<lambda>_.
        if su_Status summary \<noteq> StatusClosed then Inl TrustConflict else Inr (input, summary))))) of
       Inl e \<Rightarrow> (Inl e, d)
     | Inr (input, summary) \<Rightarrow> Repository_CreateOrderFeedback env c
         (FeedbackInput.extend input (Feedback.fields (su_StoreID summary) (su_BuyerID summary)))
         (clock_Now env) d)"

section \<open>Histories\<close>

text \<open>Requests of all modules, in any order.\<close>

datatype trust_call = OtherCall system_call | FeedbackCall FeedbackInput

fun trust_exec :: "env \<times> ctx \<times> trust_call \<Rightarrow> tdb \<Rightarrow> unit result \<times> tdb" where
  "trust_exec (env, c, OtherCall call) d = (case system_exec (env, c, call) (market_db d) of
     (Inl e, db) \<Rightarrow> (Inl e, d\<lparr>market_db := db\<rparr>)
   | (Inr _, db) \<Rightarrow> (Inr (), d\<lparr>market_db := db\<rparr>))"
| "trust_exec (env, c, FeedbackCall input) d = CreateOrderFeedback env c input d"

section \<open>What a row of feedback rests on\<close>

definition closed_order :: "uuid \<Rightarrow> uuid \<Rightarrow> order_tables \<Rightarrow> bool" where
  "closed_order i st ot \<longleftrightarrow> (i, st, StatusClosed) \<in> set (map or_key (orders_t ot))"

definition feedback_right :: "order_tables \<Rightarrow> feedback_row \<Rightarrow> bool" where
  "feedback_right ot f \<longleftrightarrow> closed_order (fb_OrderID f) (fb_StoreID f) ot \<and>
     set (fb_Tags f) \<subseteq> set feedbackTags \<and> distinct (fb_Tags f) \<and> fb_Channel f \<in> set feedbackChannels \<and>
     (case fb_Comment f of None \<Rightarrow> True | Some comment \<Rightarrow> comment \<noteq> [] \<and> length comment \<le> maxFeedbackComment)"

definition trust_inv :: "tdb \<Rightarrow> bool" where
  "trust_inv d \<longleftrightarrow> core_inv (market_db d) \<and> distinct (map fb_OrderID (order_feedback d)) \<and>
     list_all (feedback_right (ord (market_db d))) (order_feedback d)"

lemma validate_tags_Inr:
  "validate_tags seen tags = Inr () \<longleftrightarrow> set tags \<subseteq> set feedbackTags \<and> distinct tags \<and> set tags \<inter> set seen = {}"
  by (induction seen tags rule: validate_tags.induct) auto

lemma validate_feedback_Inr:
  "validate_feedback env input = Inr input' \<longleftrightarrow>
     input' = input\<lparr>fi_Comment := TrimSpace (fi_Comment input)\<rparr> \<and> set (fi_Tags input) \<subseteq> set feedbackTags \<and>
     distinct (fi_Tags input) \<and> uuid_Validate env (fi_OrderID input) \<and>
     length (TrimSpace (fi_Comment input)) \<le> maxFeedbackComment \<and> fi_Channel input \<in> set feedbackChannels"
  by (auto simp: validate_feedback_def Let_def go_simps validate_tags_Inr)

text \<open>A row that is added, or a replay.\<close>

lemma Repository_CreateOrderFeedback_Inr:
  assumes "Repository_CreateOrderFeedback env c input tm d = (Inr (), d')"
  obtains "d' = d"
  | orderID storeID p where "uuid_Parse env (fi_OrderID input) = Some orderID"
    "uuid_Parse env (fe_StoreID input) = Some storeID"
    "orderID \<notin> fb_OrderID ` set (order_feedback d)"
    "d' = d\<lparr>market_db := (market_db d)\<lparr>plat := p\<rparr>, order_feedback := order_feedback d @
      [\<lparr>fb_OrderID = orderID, fb_StoreID = storeID, fb_HadProblem = fi_HadProblem input,
        fb_Tags = fi_Tags input, fb_Comment = optional (fi_Comment input),
        fb_Channel = fi_Channel input, fb_CreatedAt = tm\<rparr>]\<rparr>"
    "platform_extends (plat (market_db d)) p"
    "\<exists>p1. Write env ''trust'' (fi_OrderID input) (FeedbackCreatedPayload (fe_StoreID input) (fe_BuyerID input)
        (fi_HadProblem input) (fi_Tags input) (fi_Channel input)) p1 = Inr p \<and> outbox p1 = outbox (plat (market_db d))"
proof -
  obtain orderID storeID where ids: "uuid_Parse env (fi_OrderID input) = Some orderID"
      "uuid_Parse env (fe_StoreID input) = Some storeID"
    using assms by (auto simp: Repository_CreateOrderFeedback_def split: option.splits)
  let ?row = "\<lparr>fb_OrderID = orderID, fb_StoreID = storeID, fb_HadProblem = fi_HadProblem input,
    fb_Tags = fi_Tags input, fb_Comment = optional (fi_Comment input), fb_Channel = fi_Channel input, fb_CreatedAt = tm\<rparr>"
  from assms obtain replay p1 where reserve: "ReserveFor env (OperationKey c) orderID tm (plat (market_db d)) = Inr (replay, p1)"
    and rest: "if replay then d' = d else (\<exists>rows p2. store_CreateOrderFeedback env ?row d = Inr rows \<and>
      Write env ''trust'' (fi_OrderID input) (FeedbackCreatedPayload (fe_StoreID input) (fe_BuyerID input)
        (fi_HadProblem input) (fi_Tags input) (fi_Channel input)) p1 = Inr p2 \<and>
      d' = d\<lparr>market_db := (market_db d)\<lparr>plat := p2\<rparr>, order_feedback := rows\<rparr>)"
    using ids by (auto simp: Repository_CreateOrderFeedback_def commit_def go_simps sql_simps
        split: sum.splits if_splits prod.splits)
  show thesis
  proof (cases replay)
    case True
    then show thesis using rest that(1) by simp
  next
    case False
    then obtain rows p2 where row: "store_CreateOrderFeedback env ?row d = Inr rows"
      and event: "Write env ''trust'' (fi_OrderID input) (FeedbackCreatedPayload (fe_StoreID input) (fe_BuyerID input)
        (fi_HadProblem input) (fi_Tags input) (fi_Channel input)) p1 = Inr p2"
      and d': "d' = d\<lparr>market_db := (market_db d)\<lparr>plat := p2\<rparr>, order_feedback := rows\<rparr>"
      using rest by auto
    have "rows = order_feedback d @ [?row]" "orderID \<notin> fb_OrderID ` set (order_feedback d)"
      using row by (auto simp: store_CreateOrderFeedback_def sql_insert_def sql_simps list_ex_iff split: if_splits)
    moreover have "platform_extends (plat (market_db d)) p2"
      using reserve_platform(2) [OF reserve] Write_platform [OF event] platform_extends_trans by auto
    moreover have "outbox p1 = outbox (plat (market_db d))"
      using reserve False claim_Inr(4) by (auto simp: ReserveFor_first)
    ultimately show thesis using that(2) ids event d' by blast
  qed
qed

text \<open>Who may leave feedback on which order, and what is stored of it.\<close>

definition feedback_from :: "'a env_scheme \<Rightarrow> ctx \<Rightarrow> FeedbackInput \<Rightarrow> order_row \<Rightarrow> feedback_row \<Rightarrow> bool" where
  "feedback_from env c input order f \<longleftrightarrow> or_ID order = fb_OrderID f \<and> or_StoreID order = fb_StoreID f \<and>
     Subject c = uuid_String env (or_BuyerID order) \<and> uuid_Parse env (fi_OrderID input) = Some (or_ID order) \<and>
     fb_HadProblem f = fi_HadProblem input \<and> fb_Tags f = fi_Tags input \<and> fb_Channel f = fi_Channel input \<and>
     fb_Comment f = optional (TrimSpace (fi_Comment input))"

lemma CreateOrderFeedback_Inr:
  assumes "CreateOrderFeedback env c input d = (Inr (), d')" "lossless_ids env"
  obtains (same) "d' = d"
  | (added) order f p where "order \<in> set (orders_t (ord (market_db d)))" "or_Status order = StatusClosed"
    "feedback_from env c input order f" "feedback_right (ord (market_db d)) f"
    "fb_OrderID f \<notin> fb_OrderID ` set (order_feedback d)"
    "d' = d\<lparr>market_db := (market_db d)\<lparr>plat := p\<rparr>, order_feedback := order_feedback d @ [f]\<rparr>"
proof -
  let ?input = "input\<lparr>fi_Comment := TrimSpace (fi_Comment input)\<rparr>"
  from assms(1) obtain summary where
      valid: "validate_feedback env input = Inr ?input"
      and summary: "GetOrderSummary_port env (fi_OrderID input) (market_db d) = Inr summary"
      and self: "EnsureSelf c (su_BuyerID summary) = Inr ()" and closed: "su_Status summary = StatusClosed"
      and repo: "Repository_CreateOrderFeedback env c
        (FeedbackInput.extend ?input (Feedback.fields (su_StoreID summary) (su_BuyerID summary))) (clock_Now env) d = (Inr (), d')"
    by (auto simp: CreateOrderFeedback_def go_simps validate_feedback_Inr split: sum.splits if_splits)
  obtain order i where i: "uuid_Parse env (fi_OrderID input) = Some i"
      and order: "order \<in> set (orders_t (ord (market_db d)))" "or_ID order = i"
      and fields: "su_StoreID summary = uuid_String env (or_StoreID order)"
        "su_BuyerID summary = uuid_String env (or_BuyerID order)" "su_Status summary = or_Status order"
    using summary by (auto simp: GetOrderSummary_port_def Repository_Summary_def GetOrderSummary_def go_simps sql_simps
        split: option.splits if_splits dest: sql_one_Inr)
  have subject: "Subject c = uuid_String env (or_BuyerID order)"
    using self fields(2) by (auto simp: EnsureSelf_Inr Require_def Subject_def split: option.splits)
  from repo show thesis
  proof (cases rule: Repository_CreateOrderFeedback_Inr)
    case 1
    then show thesis by (rule same)
  next
    case (2 orderID storeID p)
    let ?f = "\<lparr>fb_OrderID = orderID, fb_StoreID = storeID, fb_HadProblem = fi_HadProblem input,
        fb_Tags = fi_Tags input, fb_Comment = optional (TrimSpace (fi_Comment input)),
        fb_Channel = fi_Channel input, fb_CreatedAt = clock_Now env\<rparr>"
    have ids: "orderID = or_ID order" "storeID = or_StoreID order"
      using 2(1,2) i order(2) fields(1) assms(2) by (auto simp: FeedbackInput.extend_def Feedback.fields_def)
    have fromF: "feedback_from env c input order ?f"
      using ids subject i order(2) by (simp add: feedback_from_def)
    have "closed_order (or_ID order) (or_StoreID order) (ord (market_db d))"
      using order(1) closed fields(3) by (auto simp: closed_order_def or_key_def intro!: image_eqI [of _ _ order])
    then have "feedback_right (ord (market_db d)) ?f"
      using ids valid by (auto simp: feedback_right_def validate_feedback_Inr optional_def)
    with order(1) closed fields(3) fromF 2(3,4) show thesis
      by (intro added [of order ?f p]) (auto simp: FeedbackInput.extend_def Feedback.fields_def)
  qed
qed

section \<open>Every history\<close>

lemma closed_stays:
  assumes "orders_extend ot ot'" "closed_order i st ot"
  shows "closed_order i st ot'"
proof -
  have "orders_reach ot ot'" using assms(1) by (simp add: orders_extend_def)
  then obtain ts st' where "lifecycle StatusClosed ts st'" "(i, st, st') \<in> set (map or_key (orders_t ot'))"
    using assms(2) unfolding closed_order_def by (rule orders_reachE)
  moreover have "terminal StatusClosed" by (simp add: terminal_def)
  ultimately show ?thesis using lifecycle_terminal unfolding closed_order_def by metis
qed

lemma feedback_right_stays: "orders_extend ot ot' \<Longrightarrow> feedback_right ot f \<Longrightarrow> feedback_right ot' f"
  using closed_stays by (auto simp: feedback_right_def)

lemma CreateOrderFeedback_error: "fst (CreateOrderFeedback env c input d) = Inl e \<Longrightarrow> snd (CreateOrderFeedback env c input d) = d"
  by (auto simp: CreateOrderFeedback_def Repository_CreateOrderFeedback_def commit_def split: sum.splits option.splits)

text \<open>A request of another module changes the market only, one of feedback only its table and the platform.\<close>

lemma trust_exec_other: "snd (trust_exec (env, c, OtherCall call) d) = d\<lparr>market_db := snd (system_exec (env, c, call) (market_db d))\<rparr>"
  by (auto split: prod.splits sum.splits)

lemma trust_exec_feedback:
  assumes "lossless_ids env"
  obtains (same) "snd (trust_exec (env, c, FeedbackCall input) d) = d"
  | (added) order f p where "order \<in> set (orders_t (ord (market_db d)))" "or_Status order = StatusClosed"
    "feedback_from env c input order f" "feedback_right (ord (market_db d)) f"
    "fb_OrderID f \<notin> fb_OrderID ` set (order_feedback d)"
    "snd (trust_exec (env, c, FeedbackCall input) d) =
       d\<lparr>market_db := (market_db d)\<lparr>plat := p\<rparr>, order_feedback := order_feedback d @ [f]\<rparr>"
proof (cases "fst (CreateOrderFeedback env c input d)")
  case (Inl e)
  then show thesis using CreateOrderFeedback_error [OF Inl] same by simp
next
  case (Inr u)
  then have "CreateOrderFeedback env c input d = (Inr (), snd (CreateOrderFeedback env c input d))"
    by (metis prod.collapse old.unit.exhaust)
  then show thesis
    by (cases rule: CreateOrderFeedback_Inr [OF _ assms]) (use same added in simp_all)
qed

lemma trust_exec_terms: "lossless_ids env \<Longrightarrow> terms_step (market_db d) (market_db (snd (trust_exec (env, c, call) d)))"
proof (cases call)
  case (OtherCall x)
  then show ?thesis using system_exec_terms trust_exec_other by simp
next
  case (FeedbackCall input)
  assume "lossless_ids env"
  then show ?thesis unfolding FeedbackCall
    by (cases rule: trust_exec_feedback [of env c input d]) (simp_all add: terms_step_def core_inv_plat)
qed

lemma trust_exec_inv:
  assumes "trust_inv d" "lossless_ids env"
  shows "trust_inv (snd (trust_exec (env, c, call) d))"
proof (cases call)
  case (OtherCall x)
  then show ?thesis
    using assms system_exec_terms [of "market_db d" "(env, c, x)"] trust_exec_other [of env c x d] feedback_right_stays
    by (auto simp: trust_inv_def terms_step_def list_all_iff)
next
  case (FeedbackCall input)
  show ?thesis unfolding FeedbackCall
    by (cases rule: trust_exec_feedback [OF assms(2), of c input d])
       (use assms(1) in \<open>auto simp: trust_inv_def core_inv_plat\<close>)
qed

definition lossless_call :: "tdb \<Rightarrow> env \<times> ctx \<times> trust_call \<Rightarrow> bool" where
  "lossless_call d call \<longleftrightarrow> lossless_ids (fst call)"

interpretation trust: tx_guarded trust_exec lossless_call trust_inv
  by unfold_locales (use trust_exec_inv in \<open>auto simp: lossless_call_def\<close>)

end
