(* ===== verification/TrustTheorems.thy ===== *)
theory TrustTheorems
  imports Trust Market
begin

text \<open>
  What the feedback of the platform's buyers rests on, along every history of requests of all
  modules.
\<close>

definition left_by :: "(env \<times> ctx \<times> trust_call) list \<Rightarrow> tdb \<Rightarrow> feedback_row \<Rightarrow> bool" where
  "left_by calls d f \<longleftrightarrow> (\<exists>env c input order. (env, c, FeedbackCall input) \<in> set calls \<and>
     order \<in> set (orders_t (ord (market_db d))) \<and> feedback_from env c input order f)"

lemma terms_fields: "order_terms a = order_terms b \<Longrightarrow> or_ID a = or_ID b \<and> or_BuyerID a = or_BuyerID b \<and> or_StoreID a = or_StoreID b"
proof -
  assume t: "order_terms a = order_terms b"
  have "f (order_terms a) = f (order_terms b)" for f :: "order_row \<Rightarrow> 'x" using t by simp
  from this [of or_ID] this [of or_BuyerID] this [of or_StoreID] show ?thesis by (simp add: order_terms_def)
qed

lemma left_by_later:
  assumes "left_by calls d f" "orders_extend (ord (market_db d)) (ord (market_db d'))" "set calls \<subseteq> set calls'"
  shows "left_by calls' d' f"
proof -
  from assms(1) obtain env c input order where call: "(env, c, FeedbackCall input) \<in> set calls"
      and order: "order \<in> set (orders_t (ord (market_db d)))" "feedback_from env c input order f"
    by (auto simp: left_by_def)
  obtain order' where later: "order' \<in> set (orders_t (ord (market_db d')))" "order_terms order' = order_terms order"
    using order_kept [OF assms(2) order(1)] by blast
  have "feedback_from env c input order' f"
    using order(2) terms_fields [OF later(2)] by (simp add: feedback_from_def)
  then show ?thesis using call later(1) assms(3) unfolding left_by_def by blast
qed

lemma run_terms:
  "list_all (\<lambda>call. lossless_ids (fst call)) calls \<Longrightarrow> terms_step (market_db d) (market_db (run_all trust_exec calls d))"
proof (induction calls arbitrary: d)
  case (Cons call calls)
  obtain env c x where "call = (env, c, x)" by (cases call)
  then have "terms_step (market_db d) (market_db (snd (trust_exec call d)))" using Cons.prems trust_exec_terms by simp
  moreover have "terms_step (market_db (snd (trust_exec call d))) (market_db (run_all trust_exec calls (snd (trust_exec call d))))"
    using Cons by simp
  ultimately show ?case unfolding run_all_simps by (rule terms_step_trans)
qed simp

lemma feedback_added:
  assumes "trust_inv d" "list_all (\<lambda>call. lossless_ids (fst call)) calls"
  shows "\<exists>fs. order_feedback (run_all trust_exec calls d) = order_feedback d @ fs \<and>
    list_all (left_by calls (run_all trust_exec calls d)) fs"
  using assms
proof (induction calls arbitrary: d)
  case (Cons call calls)
  obtain env c x where call: "call = (env, c, x)" by (cases call)
  have lossless: "lossless_ids env" using Cons.prems(2) call by simp
  let ?d1 = "snd (trust_exec call d)" and ?final = "run_all trust_exec (call # calls) d"
  have inv: "trust_inv ?d1" using trust_exec_inv [OF Cons.prems(1) lossless] call by simp
  obtain fs where fs: "order_feedback ?final = order_feedback ?d1 @ fs" "list_all (left_by calls ?final) fs"
    using Cons.IH [OF inv] Cons.prems(2) by auto
  have "orders_extend (ord (market_db ?final)) (ord (market_db ?final))" by simp
  then have later: "list_all (left_by (call # calls) ?final) fs"
    using fs(2) left_by_later [of calls ?final _ ?final "call # calls"] by (auto simp: list_all_iff)
  have extend: "orders_extend (ord (market_db ?d1)) (ord (market_db ?final))"
    using run_terms [of calls ?d1] Cons.prems(2) inv by (simp add: terms_step_def trust_inv_def)
  show ?case
  proof (cases x)
    case (OtherCall y)
    then have "order_feedback ?d1 = order_feedback d" using trust_exec_other call by simp
    then show ?thesis using fs(1) later by auto
  next
    case (FeedbackCall input)
    from lossless show ?thesis
    proof (cases rule: trust_exec_feedback [of env c input d])
      case same
      then show ?thesis using fs(1) later call FeedbackCall by auto
    next
      case (added order f p)
      have d1: "?d1 = d\<lparr>market_db := (market_db d)\<lparr>plat := p\<rparr>, order_feedback := order_feedback d @ [f]\<rparr>"
        using added(6) call FeedbackCall by simp
      then have "left_by [call] ?d1 f" using added(1,3) call FeedbackCall by (auto simp: left_by_def)
      then have "left_by (call # calls) ?final f" using left_by_later [OF _ extend] by fastforce
      then show ?thesis using fs(1) later d1 by (intro exI [of _ "f # fs"]) simp
    qed
  qed
qed simp

lemma run_trust_inv:
  "trust_inv d \<Longrightarrow> list_all (\<lambda>call. lossless_ids (fst call)) calls \<Longrightarrow> trust_inv (run_all trust_exec calls d)"
proof -
  assume inv: "trust_inv d" and "list_all (\<lambda>call. lossless_ids (fst call)) calls"
  then have "all_ok trust_exec lossless_call calls d'" for d'
    by (induction calls arbitrary: d') (auto simp: lossless_call_def)
  then show ?thesis using trust.run_inv [OF inv] by blast
qed

text \<open>
  C35: Along every history of requests of all modules feedback is only added, at most once for an
  order; every piece speaks of a closed order and of the store that sold it, and was left by a
  request of the order's buyer, with the tags, the channel and the trimmed comment of that
  request. The order stays closed.
\<close>

theorem feedback_by_buyers_of_closed_orders:
  assumes "core_inv (market_db d)" "order_feedback d = []"
    and "list_all (\<lambda>call. lossless_ids (fst call)) calls" "d' = run_all trust_exec calls d"
  shows "distinct (map fb_OrderID (order_feedback d')) \<and> list_all (feedback_right (ord (market_db d'))) (order_feedback d') \<and>
    list_all (left_by calls d') (order_feedback d')"
proof -
  have inv: "trust_inv d" using assms(1,2) by (simp add: trust_inv_def)
  then have "trust_inv d'" using run_trust_inv assms(3,4) by blast
  moreover have "list_all (left_by calls d') (order_feedback d')"
    using feedback_added [OF inv assms(3)] assms(2,4) by auto
  ultimately show ?thesis by (simp add: trust_inv_def)
qed

section \<open>Witness\<close>

definition closing_calls :: "(env \<times> ctx \<times> system_call) list" where
  "closing_calls = [place 20 ''k1'', trigger_call 20 ''k2'' TriggerSupplierConfirm,
     (sample_env 20, under buyer ''k3'',
       ApplyCall ((command (sample_String 20) TriggerSubmitReceipt [] 2000)\<lparr>tc_ReceiptURL := ''r''\<rparr>)),
     trigger_call 20 ''k4'' TriggerConfirmPayment, trigger_call 20 ''k5'' TriggerStartPreparing,
     trigger_call 20 ''k6'' TriggerMarkReady, trigger_call 20 ''k7'' TriggerConfirmPickup]"

definition feedback_call :: "string \<Rightarrow> env \<times> ctx \<times> trust_call" where
  "feedback_call key = (sample_env 20, under buyer key, FeedbackCall \<lparr>fi_OrderID = sample_String 20,
     fi_Comment = '' good '', fi_Channel = ''app'', fi_HadProblem = False, fi_Tags = [''late'']\<rparr>)"

definition feedback_calls :: "(env \<times> ctx \<times> trust_call) list" where
  "feedback_calls = feedback_call ''f0'' # map (\<lambda>(env, c, x). (env, c, OtherCall x)) closing_calls @
     [feedback_call ''f1'', feedback_call ''f2'']"

definition trust_market :: tdb where
  "trust_market = \<lparr>market_db = market, order_feedback = []\<rparr>"

text \<open>Feedback that comes too early is refused, and so is a second one.\<close>

lemma feedback_once:
  "order_feedback (run_all trust_exec feedback_calls trust_market) =
     [\<lparr>fb_OrderID = 20, fb_StoreID = 4, fb_HadProblem = False, fb_Tags = [''late''],
       fb_Comment = Some ''good'', fb_Channel = ''app'', fb_CreatedAt = 1000\<rparr>]"
  by code_simp

theorem feedback_by_buyers_of_closed_orders_witness:
  "\<exists>f. order_feedback (run_all trust_exec feedback_calls trust_market) = [f] \<and> fb_OrderID f = 20 \<and>
     feedback_right (ord (market_db (run_all trust_exec feedback_calls trust_market))) f \<and>
     left_by feedback_calls (run_all trust_exec feedback_calls trust_market) f"
proof -
  have "core_inv (market_db trust_market)" "order_feedback trust_market = []"
    by (simp_all add: trust_market_def market_core)
  moreover have "list_all (\<lambda>call. lossless_ids (fst call)) feedback_calls"
    by (simp add: feedback_calls_def feedback_call_def closing_calls_def place_def trigger_call_def)
  ultimately show ?thesis
    using feedback_by_buyers_of_closed_orders [of trust_market feedback_calls "run_all trust_exec feedback_calls trust_market"]
    by (simp add: feedback_once)
qed

end
