(* ===== verification/Search.thy ===== *)
theory Search
  imports OrdersService Calendar Keyset Redis "HOL-Library.Product_Lexorder"
begin

text \<open>
  The module \<open>internal/modules/search\<close>: offers around a point, the cheapest of every owner, with the
  automatic widening of the radius (\<open>service.go\<close>), the pages and their cursors (\<open>repository.go\<close>),
  the cache in Redis (\<open>cache.go\<close>, \<open>cache_redis.go\<close>) and the cells of \<open>platform/database/geo\<close>. The
  module only reads; the tables are given with the columns its queries read. A coordinate is an
  exact rational number: the rounding of floating-point arithmetic is not modelled.
\<close>

section \<open>Tables\<close>

record search_store =
  ss_ID :: uuid
  ss_OwnerID :: uuid
  ss_ComplexID :: "uuid option"
  ss_Location :: "rat \<times> rat"
  ss_Status :: string

record trade_complex =
  tx_ID :: uuid
  tx_Name :: string
  tx_DistrictID :: int
  tx_IsActive :: bool
  tx_PickupPoint :: "(rat \<times> rat) option"

record search_tables =
  se_stores :: "search_store list"
  se_complexes :: "trade_complex list"
  se_offers :: "offer list"

text \<open>
  PostGIS on the geography of the earth: whether two points are within a number of metres, and
  their distance rounded to whole metres.
\<close>

record geography =
  ST_DWithin :: "rat \<times> rat \<Rightarrow> rat \<times> rat \<Rightarrow> int \<Rightarrow> bool"
  distance_meters :: "rat \<times> rat \<Rightarrow> rat \<times> rat \<Rightarrow> int"

section \<open>Queries\<close>

record SearchQuery =
  sq_Location :: "rat \<times> rat"
  sq_DistrictID :: int
  sq_RadiusMeters :: int
  sq_ProductID :: string
  sq_Cursor :: string

text \<open>The gate every query applies to an offer, and the stores a search considers.\<close>

definition on_sale :: "uuid option \<Rightarrow> offer \<Rightarrow> bool" where
  "on_sale product r \<longleftrightarrow> of_Status r = ''published'' \<and> of_ReservedQty r < of_DeclaredQty r \<and>
     (case product of None \<Rightarrow> True | Some p \<Rightarrow> of_ProductID r = p)"

definition nearby_stores :: "geography \<Rightarrow> rat \<times> rat \<Rightarrow> int \<Rightarrow> int \<Rightarrow> search_tables \<Rightarrow> search_store list" where
  "nearby_stores G point radius district db = filter (\<lambda>s. ss_Status s = storeActive \<and>
     ST_DWithin G (ss_Location s) point radius \<and>
     (case ss_ComplexID s of None \<Rightarrow> True
      | Some i \<Rightarrow> list_ex (\<lambda>tc. tx_ID tc = i \<and> tx_IsActive tc \<and> tx_DistrictID tc = district) (se_complexes db)))
     (se_stores db)"

record hit =
  hi_Offer :: offer
  hi_Distance :: int
  hi_Others :: int

definition hit_key :: "hit \<Rightarrow> int \<times> int \<times> uuid" where
  "hit_key h = (of_Price (hi_Offer h), hi_Distance h, of_ID (hi_Offer h))"

text \<open>
  The offers of an owner's stores, and the best of them with the number of the others; an owner
  without an offer has no row.
\<close>

definition owner_pairs :: "uuid option \<Rightarrow> search_store list \<Rightarrow> offer list \<Rightarrow> uuid \<Rightarrow> (search_store \<times> offer) list" where
  "owner_pairs product near os w =
     [(s, r). s \<leftarrow> near, ss_OwnerID s = w, r \<leftarrow> os, of_StoreID r = ss_ID s \<and> on_sale product r]"

definition owner_hits ::
  "geography \<Rightarrow> rat \<times> rat \<Rightarrow> uuid option \<Rightarrow> search_store list \<Rightarrow> offer list \<Rightarrow> uuid \<Rightarrow> hit list" where
  "owner_hits G point product near os w =
     (let pairs = owner_pairs product near os w
      in map (\<lambda>(s, r). \<lparr>hi_Offer = r, hi_Distance = distance_meters G (ss_Location s) point,
                        hi_Others = int (length pairs) - 1\<rparr>) pairs)"

definition best_hits :: "geography \<Rightarrow> rat \<times> rat \<Rightarrow> int \<Rightarrow> int \<Rightarrow> uuid option \<Rightarrow> search_tables \<Rightarrow> hit list" where
  "best_hits G point radius district product db =
     (let near = nearby_stores G point radius district db in
      concat (map (\<lambda>w. take 1 (sort_key hit_key (owner_hits G point product near (se_offers db) w)))
        (remdups (map ss_OwnerID near))))"

definition store_SearchOffers ::
  "'a env_scheme \<Rightarrow> geography \<Rightarrow> SearchQuery \<Rightarrow> uuid option \<Rightarrow> (int \<times> int \<times> uuid) option \<Rightarrow> int \<Rightarrow> search_tables \<Rightarrow> hit list result" where
  "store_SearchOffers env G q product after limit db = stmt env ''SearchOffers''
     (Inr (take (nat limit) (sort_key hit_key
        (filter (\<lambda>h. case after of None \<Rightarrow> True | Some k \<Rightarrow> k < hit_key h)
          (best_hits G (sq_Location q) (sq_RadiusMeters q) (sq_DistrictID q) product db)))))"

definition store_RefreshOffers :: "'a env_scheme \<Rightarrow> uuid option list \<Rightarrow> search_tables \<Rightarrow> offer list result" where
  "store_RefreshOffers env ids db = stmt env ''RefreshOffers''
     (Inr (filter (\<lambda>r. Some (of_ID r) \<in> set ids \<and> on_sale None r \<and>
        list_ex (\<lambda>s. ss_ID s = of_StoreID r \<and> ss_Status s = storeActive) (se_stores db)) (se_offers db)))"

text \<open>The count of a window is over the rows the conditions leave, the position among them.\<close>

definition ListComplexOffers ::
  "'a env_scheme \<Rightarrow> uuid option \<Rightarrow> uuid option \<Rightarrow> (int \<times> uuid) option \<Rightarrow> int \<Rightarrow> search_tables \<Rightarrow> hit list result" where
  "ListComplexOffers env complexID product after limit db = stmt env ''ListComplexOffers''
     (let pairs = [(s, r). s \<leftarrow> se_stores db, ss_ComplexID s \<noteq> None \<and> ss_ComplexID s = complexID \<and> ss_Status s = storeActive,
                   r \<leftarrow> se_offers db, of_StoreID r = ss_ID s \<and> on_sale product r \<and>
                     (case after of None \<Rightarrow> True | Some k \<Rightarrow> k < (of_Price r, of_ID r))]
      in Inr (take (nat limit) (sort_key (\<lambda>h. (of_Price (hi_Offer h), of_ID (hi_Offer h)))
           (map (\<lambda>(s, r). \<lparr>hi_Offer = r, hi_Distance = 0,
              hi_Others = int (length (filter (\<lambda>(s', _). ss_OwnerID s' = ss_OwnerID s) pairs)) - 1\<rparr>) pairs))))"

definition store_GetComplexAggregate :: "'a env_scheme \<Rightarrow> uuid option \<Rightarrow> search_tables \<Rightarrow> trade_complex result" where
  "store_GetComplexAggregate env complexID db = stmt env ''GetComplexAggregate''
     (sql_one (\<lambda>tc. Some (tx_ID tc) = complexID \<and> tx_IsActive tc) (se_complexes db))"

section \<open>Pages\<close>

record Offer =
  so_ID :: string
  so_StoreID :: string
  so_ProductID :: string
  so_Price :: int
  so_DeclaredQty :: string
  so_FreshnessAt :: string
  so_FreshnessLabel :: string
  so_DistanceMeters :: int
  so_OtherOwnerStoreCount :: int

record OfferPage = "Offer page" +
  op_RadiusMeters :: int
  op_SearchExhausted :: bool

text \<open>base64 and JSON of a cursor (price, distance, id) and of a page.\<close>

record search_codec =
  sx_Encode :: "string \<Rightarrow> string"
  sx_Decode :: "string \<Rightarrow> string option"
  Marshal_cursor :: "int option \<times> int option \<times> string \<Rightarrow> string"
  Unmarshal_cursor :: "string \<Rightarrow> (int option \<times> int option \<times> string) option"
  Marshal_page :: "OfferPage \<Rightarrow> string option"
  Unmarshal_page :: "string \<Rightarrow> OfferPage option"

definition pageSize :: nat where "pageSize = 50"

definition encodeCursor :: "search_codec \<Rightarrow> int \<Rightarrow> int \<Rightarrow> string \<Rightarrow> string" where
  "encodeCursor cx price distance i = sx_Encode cx (Marshal_cursor cx (Some price, Some distance, i))"

definition decodeCursor ::
  "search_codec \<Rightarrow> 'a lib_scheme \<Rightarrow> string \<Rightarrow> (int \<times> int \<times> string) option result" where
  "decodeCursor cx L value =
     (if value = [] then Inr None
      else case sx_Decode cx value of None \<Rightarrow> Inl SearchInvalid
      | Some raw \<Rightarrow> (case Unmarshal_cursor cx raw of
          Some (Some price, Some distance, i) \<Rightarrow>
            if uuid_Validate L i then Inr (Some (price, distance, i)) else Inl SearchInvalid
        | _ \<Rightarrow> Inl SearchInvalid))"

definition freshWindow :: time where "freshWindow = 24 * 60 * minute"
definition staleWindow :: time where "staleWindow = 72 * 60 * minute"

definition freshnessLabel :: "'a env_scheme \<Rightarrow> time \<Rightarrow> string" where
  "freshnessLabel env fresh = (let age = clock_Now env - fresh in
     if age \<le> freshWindow then ''today'' else if age \<le> staleWindow then ''stale_warning'' else ''none'')"

definition offer_view :: "'a env_scheme \<Rightarrow> hit \<Rightarrow> Offer" where
  "offer_view env h = (let r = hi_Offer h in
     \<lparr>so_ID = uuid_String env (of_ID r), so_StoreID = uuid_String env (of_StoreID r),
      so_ProductID = uuid_String env (of_ProductID r), so_Price = of_Price r,
      so_DeclaredQty = Numeric_Value env (of_DeclaredQty r), so_FreshnessAt = Format_RFC3339 (of_FreshnessAt r),
      so_FreshnessLabel = freshnessLabel env (of_FreshnessAt r), so_DistanceMeters = hi_Distance h,
      so_OtherOwnerStoreCount = hi_Others h\<rparr>)"

definition offer_page :: "search_codec \<Rightarrow> Offer list \<Rightarrow> bool \<Rightarrow> bool \<Rightarrow> OfferPage" where
  "offer_page cx items hasMore withDistance =
     \<lparr>Items = items, NextCursor = (if \<not> hasMore \<or> items = [] then None
        else let final = last items in
          Some (encodeCursor cx (so_Price final) (if withDistance then so_DistanceMeters final else 0) (so_ID final))),
      op_RadiusMeters = 0, op_SearchExhausted = False\<rparr>"

definition wrapQueryError :: "go_error \<Rightarrow> go_error" where
  "wrapQueryError e = (if IsContentionTimeout e then SearchUnavailable else e)"

text \<open>The rows of a query for one row more than a page.\<close>

definition page_of :: "search_codec \<Rightarrow> 'a env_scheme \<Rightarrow> bool \<Rightarrow> hit list \<Rightarrow> OfferPage" where
  "page_of cx env withDistance rows =
     (let limit = (if length rows \<le> pageSize then length rows else pageSize) in
      offer_page cx (map (offer_view env) (take limit rows)) (limit < length rows) withDistance)"

section \<open>The repository\<close>

definition Repository_SearchOffers ::
  "search_codec \<Rightarrow> 'a env_scheme \<Rightarrow> geography \<Rightarrow> SearchQuery \<Rightarrow> search_tables \<Rightarrow> OfferPage result" where
  "Repository_SearchOffers cx env G q db =
     andThen (decodeCursor cx env (sq_Cursor q)) (\<lambda>c.
     andThen (mapErr wrapQueryError (store_SearchOffers env G q (uuid_Parse env (sq_ProductID q))
       (case c of None \<Rightarrow> None | Some (price, distance, i) \<Rightarrow> map_option (\<lambda>u. (price, distance, u)) (uuid_Parse env i))
       (int pageSize + 1) db)) (\<lambda>rows.
     Inr (page_of cx env True rows)))"

record ComplexQuery =
  xq_ID :: string
  xq_ProductID :: string
  xq_Cursor :: string

record ComplexAggregate =
  xa_ComplexID :: string
  xa_ComplexName :: string
  xa_PickupPoint :: "(rat \<times> rat) option"
  xa_Offers :: OfferPage

definition Repository_GetComplexAggregate ::
  "search_codec \<Rightarrow> 'a env_scheme \<Rightarrow> ComplexQuery \<Rightarrow> search_tables \<Rightarrow> ComplexAggregate result" where
  "Repository_GetComplexAggregate cx env q db =
     andThen (mapErr (\<lambda>e. if e = NoRows then SearchNotFound else wrapQueryError e)
       (store_GetComplexAggregate env (uuid_Parse env (xq_ID q)) db)) (\<lambda>tc.
     andThen (decodeCursor cx env (xq_Cursor q)) (\<lambda>c.
     andThen (mapErr wrapQueryError (ListComplexOffers env (uuid_Parse env (xq_ID q)) (uuid_Parse env (xq_ProductID q))
       (case c of None \<Rightarrow> None | Some (price, distance, i) \<Rightarrow> map_option (\<lambda>u. (price, u)) (uuid_Parse env i))
       (int pageSize + 1) db)) (\<lambda>rows.
     Inr \<lparr>xa_ComplexID = uuid_String env (tx_ID tc), xa_ComplexName = tx_Name tc,
          xa_PickupPoint = tx_PickupPoint tc, xa_Offers = page_of cx env False rows\<rparr>)))"

text \<open>A later row of the same text replaces an earlier one in the Go map.\<close>

definition Repository_RefreshOffers ::
  "'a env_scheme \<Rightarrow> 'p OfferPage_scheme \<Rightarrow> search_tables \<Rightarrow> 'p OfferPage_scheme result" where
  "Repository_RefreshOffers env p db =
     (if Items p = [] then Inr p
      else andThen (mapErr wrapQueryError (store_RefreshOffers env (map (\<lambda>item. uuid_Parse env (so_ID item)) (Items p)) db)) (\<lambda>rows.
        let current = map_of (rev (map (\<lambda>r. (uuid_String env (of_ID r), r)) rows)) in
        Inr (p\<lparr>Items := List.map_filter (\<lambda>item. case current (so_ID item) of None \<Rightarrow> None
          | Some r \<Rightarrow> Some (item\<lparr>so_Price := of_Price r, so_DeclaredQty := Numeric_Value env (of_DeclaredQty r),
              so_FreshnessAt := Format_RFC3339 (of_FreshnessAt r),
              so_FreshnessLabel := freshnessLabel env (of_FreshnessAt r)\<rparr>)) (Items p)\<rparr>)))"

section \<open>The cache\<close>

text \<open>\<open>math.Round\<close> rounds halves away from zero; a cell is 0.005 degrees wide.\<close>

definition Round :: "rat \<Rightarrow> int" where
  "Round v = (if 0 \<le> v then \<lfloor>v + 1 / 2\<rfloor> else - \<lfloor>1 / 2 - v\<rfloor>)"

definition grid_coordinate :: "rat \<Rightarrow> string" where
  "grid_coordinate v = (let n = nat (\<bar>Round (v * 200)\<bar> * 50) in
     (if v < 0 then ''-'' else []) @ decimal (n div 10000) @ ''.'' @ pad 4 (n mod 10000))"

definition GridKey :: "rat \<times> rat \<Rightarrow> string" where
  "GridKey p = grid_coordinate (fst p) @ '':'' @ grid_coordinate (snd p)"

fun itoa_digits :: "int \<Rightarrow> string \<Rightarrow> string" where
  "itoa_digits v buf = (if 0 < v then itoa_digits (v div 10) (char_of (48 + nat (v mod 10)) # buf) else buf)"

declare itoa_digits.simps [simp del]

definition itoa :: "int \<Rightarrow> string" where
  "itoa v = (if v = 0 then ''0''
     else let digits = itoa_digits (if v < 0 then wrap64 (- v) else v) [] in
       if v < 0 then CHR ''-'' # digits else digits)"

definition CacheKey :: "SearchQuery \<Rightarrow> string" where
  "CacheKey q = ''search:v1:'' @ GridKey (sq_Location q) @ '':'' @ itoa (sq_DistrictID q) @ '':'' @
     itoa (sq_RadiusMeters q) @ (if sq_ProductID q \<noteq> [] then '':p='' @ sq_ProductID q else []) @
     (if sq_Cursor q \<noteq> [] then '':c='' @ sq_Cursor q else [])"

text \<open>What the service asks of a cache; a cache that fails misses, and does not tell.\<close>

record offerCache =
  oc_Get :: "string \<Rightarrow> keyspace \<Rightarrow> OfferPage option"
  oc_Put :: "string \<Rightarrow> OfferPage \<Rightarrow> keyspace \<Rightarrow> keyspace"

definition NoopCache :: offerCache where
  "NoopCache = \<lparr>oc_Get = (\<lambda>_ _. None), oc_Put = (\<lambda>_ _ R. R)\<rparr>"

definition DefaultCacheTTL :: time where "DefaultCacheTTL = 60 * 10 ^ 9"
definition emptyPageTTL :: time where "emptyPageTTL = 10 * 10 ^ 9"

definition NewRedisCache_ttl :: "time \<Rightarrow> time" where
  "NewRedisCache_ttl ttl = (if ttl \<le> 0 then DefaultCacheTTL else ttl)"

definition RedisCache :: "search_codec \<Rightarrow> 'a redis_env_scheme \<Rightarrow> time \<Rightarrow> offerCache" where
  "RedisCache cx env ttl = \<lparr>
     oc_Get = (\<lambda>key R. case fst (rd_cmd env ''search.Get'' (GetKey (rd_now env) key) R) of
       Inl _ \<Rightarrow> None | Inr raw \<Rightarrow> Unmarshal_page cx raw),
     oc_Put = (\<lambda>key p R. case Marshal_page cx p of None \<Rightarrow> R
       | Some raw \<Rightarrow> let t = (if Items p = [] \<and> emptyPageTTL < ttl then emptyPageTTL else ttl)
           in snd (rd_cmd env ''search.Set'' (SetKey (rd_now env) key raw t) R))\<rparr>"

section \<open>The service\<close>

definition DefaultRadiusMeters :: int where "DefaultRadiusMeters = 5000"
definition MaxRadiusMeters :: int where "MaxRadiusMeters = 100000"
definition MinRadiusMeters :: int where "MinRadiusMeters = 100"
definition RadiusExpansionStep :: int where "RadiusExpansionStep = 5000"
definition MaxRadiusExpansions :: nat where "MaxRadiusExpansions = 3"

definition normalizeRadius :: "int \<Rightarrow> (int \<times> bool) result" where
  "normalizeRadius requested =
     (if requested = 0 then Inr (DefaultRadiusMeters, False)
      else if requested < MinRadiusMeters \<or> MaxRadiusMeters < requested then Inl SearchInvalid
      else Inr (requested, True))"

text \<open>
  The loop over the attempts: the page of the first radius that finds something, or the page of the
  last one, and whether something was found.
\<close>

fun widen :: "(SearchQuery \<Rightarrow> OfferPage result) \<Rightarrow> nat \<Rightarrow> SearchQuery \<Rightarrow> (OfferPage \<times> bool) result" where
  "widen search 0 q = Inr (\<lparr>Items = [], NextCursor = None, op_RadiusMeters = 0, op_SearchExhausted = False\<rparr>, False)"
| "widen search (Suc n) q = andThen (search q) (\<lambda>p.
     let p = p\<lparr>op_RadiusMeters := sq_RadiusMeters q\<rparr> in
     if Items p \<noteq> [] then Inr (p, True)
     else if n = 0 then Inr (p, False)
     else widen search n (q\<lparr>sq_RadiusMeters := sq_RadiusMeters q + RadiusExpansionStep\<rparr>))"

definition Service_SearchOffers ::
  "search_codec \<Rightarrow> offerCache \<Rightarrow> 'a env_scheme \<Rightarrow> geography \<Rightarrow> SearchQuery \<Rightarrow> search_tables \<Rightarrow> keyspace \<Rightarrow>
     OfferPage result \<times> keyspace" where
  "Service_SearchOffers cx cache env G q db R =
     (if \<not> point_Valid (sq_Location q) \<or> sq_DistrictID q \<le> 0 then (Inl SearchInvalid, R)
      else if sq_ProductID q \<noteq> [] \<and> \<not> uuid_Validate env (sq_ProductID q) then (Inl SearchInvalid, R)
      else case normalizeRadius (sq_RadiusMeters q) of Inl e \<Rightarrow> (Inl e, R)
      | Inr (radius, explicit) \<Rightarrow>
        let q = q\<lparr>sq_RadiusMeters := radius\<rparr>; key = CacheKey q in
        (case oc_Get cache key R of
           Some p \<Rightarrow> (Repository_RefreshOffers env p db, R)
         | None \<Rightarrow>
           let attempts = (if \<not> explicit \<and> sq_Cursor q = [] then Suc MaxRadiusExpansions else 1) in
           (case widen (\<lambda>q. Repository_SearchOffers cx env G q db) attempts q of
              Inl e \<Rightarrow> (Inl e, R)
            | Inr (p, True) \<Rightarrow> (Inr p, oc_Put cache key p R)
            | Inr (p, False) \<Rightarrow> let p = p\<lparr>op_SearchExhausted := 1 < attempts\<rparr> in (Inr p, oc_Put cache key p R))))"

definition Service_GetComplexAggregate ::
  "search_codec \<Rightarrow> 'a env_scheme \<Rightarrow> ComplexQuery \<Rightarrow> search_tables \<Rightarrow> ComplexAggregate result" where
  "Service_GetComplexAggregate cx env q db =
     (if \<not> uuid_Validate env (xq_ID q) \<or> (xq_ProductID q \<noteq> [] \<and> \<not> uuid_Validate env (xq_ProductID q))
      then Inl SearchInvalid else Repository_GetComplexAggregate cx env q db)"

end
