(* ===== verification/SearchLaws.thy ===== *)
theory SearchLaws
  imports Search
begin

text \<open>
  The rows a search ranks, what a page shows of them, and the pages of a search with a given radius
  as a keyset listing.
\<close>

section \<open>What is shown is on sale\<close>

definition shown_live :: "'a lib_scheme \<Rightarrow> search_tables \<Rightarrow> Offer \<Rightarrow> bool" where
  "shown_live L db item \<longleftrightarrow> list_ex (\<lambda>r. so_ID item = uuid_String L (of_ID r) \<and> so_Price item = of_Price r \<and>
     so_DeclaredQty item = Numeric_Value L (of_DeclaredQty r) \<and> on_sale None r \<and>
     list_ex (\<lambda>s. ss_ID s = of_StoreID r \<and> ss_Status s = storeActive) (se_stores db)) (se_offers db)"

lemma take_hd: "xs \<noteq> [] \<Longrightarrow> take 1 xs = [hd xs]"
  by (cases xs) simp_all

lemma owner_pairs_mem:
  "(s, r) \<in> set (owner_pairs product near os w) \<longleftrightarrow>
     s \<in> set near \<and> ss_OwnerID s = w \<and> r \<in> set os \<and> of_StoreID r = ss_ID s \<and> on_sale product r"
  by (auto simp: owner_pairs_def)

lemma owner_hits_mem:
  assumes "h \<in> set (owner_hits G point product near os w)"
  obtains s where "(s, hi_Offer h) \<in> set (owner_pairs product near os w)" "hi_Distance h = distance_meters G (ss_Location s) point"
  using assms that by (auto simp: owner_hits_def Let_def)

lemma best_hits_mem:
  assumes "h \<in> set (best_hits G point radius district product db)"
  obtains s where "s \<in> set (nearby_stores G point radius district db)" "hi_Offer h \<in> set (se_offers db)"
    "of_StoreID (hi_Offer h) = ss_ID s" "on_sale product (hi_Offer h)"
    "hi_Distance h = distance_meters G (ss_Location s) point"
    "h \<in> set (owner_hits G point product (nearby_stores G point radius district db) (se_offers db) (ss_OwnerID s))"
proof -
  let ?near = "nearby_stores G point radius district db"
  from assms obtain w where h: "h \<in> set (take 1 (sort_key hit_key (owner_hits G point product ?near (se_offers db) w)))"
    by (auto simp: best_hits_def Let_def)
  then have mem: "h \<in> set (owner_hits G point product ?near (se_offers db) w)" by (auto dest: in_set_takeD)
  then show thesis using that by (metis owner_hits_mem owner_pairs_mem)
qed

lemma on_sale_any: "on_sale product r \<Longrightarrow> on_sale None r"
  by (simp add: on_sale_def)

lemma hit_live:
  assumes "h \<in> set (best_hits G point radius district product db)"
  shows "shown_live env db (offer_view env h)"
  using assms
  by (rule best_hits_mem)
     (auto simp: shown_live_def offer_view_def Let_def list_ex_iff nearby_stores_def intro!: bexI [of _ "hi_Offer h"] on_sale_any)

lemma page_of_items: "Items (page_of cx env d rows) = map (offer_view env) (take pageSize rows)"
  by (simp add: page_of_def offer_page_def Let_def)

lemma store_SearchOffers_rows:
  "store_SearchOffers env G q product after limit db = Inr rows \<Longrightarrow>
    set rows \<subseteq> set (best_hits G (sq_Location q) (sq_RadiusMeters q) (sq_DistrictID q) product db)"
  by (auto simp: store_SearchOffers_def sql_simps dest: in_set_takeD)

lemma Repository_SearchOffers_live:
  assumes "Repository_SearchOffers cx env G q db = Inr p" "item \<in> set (Items p)"
  shows "shown_live env db item"
proof -
  from assms(1) obtain after rows where p: "p = page_of cx env True rows"
      and "store_SearchOffers env G q (uuid_Parse env (sq_ProductID q)) after (int pageSize + 1) db = Inr rows"
    by (auto simp: Repository_SearchOffers_def go_simps)
  note rows = store_SearchOffers_rows [OF this(2)]
  from assms(2) obtain h where "item = offer_view env h" "h \<in> set (take pageSize rows)"
    by (auto simp: p page_of_items)
  then show ?thesis using rows hit_live by (metis in_set_takeD subsetD)
qed

lemma Repository_RefreshOffers_live:
  assumes "Repository_RefreshOffers env p db = Inr p'" "item \<in> set (Items p')"
  shows "shown_live env db item"
proof (cases "Items p = []")
  case True
  then show ?thesis using assms by (simp add: Repository_RefreshOffers_def)
next
  case False
  let ?ids = "map (\<lambda>item. uuid_Parse env (so_ID item)) (Items p)"
  from assms(1) False obtain rows where rows: "store_RefreshOffers env ?ids db = Inr rows"
      and p': "p' = p\<lparr>Items := List.map_filter (\<lambda>item. case map_of (rev (map (\<lambda>r. (uuid_String env (of_ID r), r)) rows)) (so_ID item) of
          None \<Rightarrow> None
        | Some r \<Rightarrow> Some (item\<lparr>so_Price := of_Price r, so_DeclaredQty := Numeric_Value env (of_DeclaredQty r),
            so_FreshnessAt := Format_RFC3339 (of_FreshnessAt r), so_FreshnessLabel := freshnessLabel env (of_FreshnessAt r)\<rparr>)) (Items p)\<rparr>"
    by (auto simp: Repository_RefreshOffers_def Let_def go_simps)
  from assms(2) obtain old r where r: "map_of (rev (map (\<lambda>r. (uuid_String env (of_ID r), r)) rows)) (so_ID old) = Some r"
      and item: "item = old\<lparr>so_Price := of_Price r, so_DeclaredQty := Numeric_Value env (of_DeclaredQty r),
        so_FreshnessAt := Format_RFC3339 (of_FreshnessAt r), so_FreshnessLabel := freshnessLabel env (of_FreshnessAt r)\<rparr>"
    by (auto simp: p' List.map_filter_def split: option.splits)
  from r have "so_ID old = uuid_String env (of_ID r)" "r \<in> set rows" by (auto dest!: map_of_SomeD)
  moreover from this(2) rows have "r \<in> set (se_offers db)" "on_sale None r"
      "list_ex (\<lambda>s. ss_ID s = of_StoreID r \<and> ss_Status s = storeActive) (se_stores db)"
    by (auto simp: store_RefreshOffers_def sql_simps)
  ultimately show ?thesis using item by (auto simp: shown_live_def list_ex_iff)
qed

text \<open>A search that widens ends with the page of one of its radii.\<close>

lemma widen_page:
  assumes "widen search n q = Inr (p, found)" "0 < n"
  obtains k p0 where "k < n" "search (q\<lparr>sq_RadiusMeters := sq_RadiusMeters q + int k * RadiusExpansionStep\<rparr>) = Inr p0"
    "p = p0\<lparr>op_RadiusMeters := sq_RadiusMeters q + int k * RadiusExpansionStep\<rparr>" "found \<longleftrightarrow> Items p \<noteq> []"
    "\<And>j. j < k \<Longrightarrow> \<exists>p1. search (q\<lparr>sq_RadiusMeters := sq_RadiusMeters q + int j * RadiusExpansionStep\<rparr>) = Inr p1 \<and> Items p1 = []"
    "\<not> found \<Longrightarrow> Suc k = n"
  using assms
proof (induction n arbitrary: q thesis)
  case (Suc n)
  from Suc.prems(2) obtain p1 where p1: "search q = Inr p1" by (auto simp: go_simps)
  show ?case
  proof (cases "Items p1 = [] \<and> n \<noteq> 0")
    case False
    then show ?thesis using Suc.prems(2) p1 by (intro Suc.prems(1) [of 0 p1]) (auto simp: Let_def split: if_splits)
  next
    case True
    let ?q = "q\<lparr>sq_RadiusMeters := sq_RadiusMeters q + RadiusExpansionStep\<rparr>"
    have rest: "widen search n ?q = Inr (p, found)" using Suc.prems(2) p1 True by (simp add: Let_def)
    have pos: "0 < n" using True by simp
    obtain k p0 where k: "k < n" "search (?q\<lparr>sq_RadiusMeters := sq_RadiusMeters ?q + int k * RadiusExpansionStep\<rparr>) = Inr p0"
        "p = p0\<lparr>op_RadiusMeters := sq_RadiusMeters ?q + int k * RadiusExpansionStep\<rparr>" "found \<longleftrightarrow> Items p \<noteq> []"
        "\<And>j. j < k \<Longrightarrow> \<exists>p1. search (?q\<lparr>sq_RadiusMeters := sq_RadiusMeters ?q + int j * RadiusExpansionStep\<rparr>) = Inr p1 \<and> Items p1 = []"
        "\<not> found \<Longrightarrow> Suc k = n"
      by (rule Suc.IH [OF _ rest pos]) blast
    show ?thesis
    proof (rule Suc.prems(1) [of "Suc k" p0])
      fix j assume j: "j < Suc k"
      show "\<exists>p1. search (q\<lparr>sq_RadiusMeters := sq_RadiusMeters q + int j * RadiusExpansionStep\<rparr>) = Inr p1 \<and> Items p1 = []"
        using j k(5) p1 True by (cases j) (auto simp: algebra_simps)
    qed (use k in \<open>auto simp: algebra_simps\<close>)
  qed
qed simp

section \<open>The first page of a search\<close>

definition ranked :: "'a lib_scheme \<Rightarrow> geography \<Rightarrow> SearchQuery \<Rightarrow> search_tables \<Rightarrow> hit list" where
  "ranked L G q db = sort_key hit_key
     (best_hits G (sq_Location q) (sq_RadiusMeters q) (sq_DistrictID q) (uuid_Parse L (sq_ProductID q)) db)"

lemma set_ranked: "set (ranked L G q db) = set (best_hits G (sq_Location q) (sq_RadiusMeters q) (sq_DistrictID q) (uuid_Parse L (sq_ProductID q)) db)"
  by (simp add: ranked_def)

lemma page_of_take: "page_of cx env d (take (Suc pageSize) rows) = page_of cx env d rows"
proof (cases "pageSize < length rows")
  case True
  then have "\<not> length (take (Suc pageSize) rows) \<le> pageSize" "\<not> length rows \<le> pageSize" by simp_all
  moreover have "take pageSize (take (Suc pageSize) rows) = take pageSize rows" by (simp add: min_def)
  ultimately show ?thesis using True by (simp add: page_of_def Let_def)
qed simp

lemma Repository_SearchOffers_page:
  assumes "\<And>s. fault env s = None"
    and "decodeCursor cx env (sq_Cursor q) = Inr c"
  shows "Repository_SearchOffers cx env G q db = Inr (page_of cx env True (filter (\<lambda>h.
    case (case c of None \<Rightarrow> None | Some (price, distance, i) \<Rightarrow> map_option (\<lambda>u. (price, distance, u)) (uuid_Parse env i)) of
      None \<Rightarrow> True | Some k \<Rightarrow> k < hit_key h) (ranked env G q db)))"
  using assms page_of_take
  by (simp add: Repository_SearchOffers_def store_SearchOffers_def ranked_def filter_sort nat_add_distrib)

lemma decode_first [simp]: "decodeCursor cx L [] = Inr None"
  by (simp add: decodeCursor_def)

lemma Repository_first_page:
  assumes "\<And>s. fault env s = None" "sq_Cursor q = []"
  shows "Repository_SearchOffers cx env G q db = Inr (page_of cx env True (ranked env G q db))"
  using Repository_SearchOffers_page [OF assms(1), of cx q None] assms(2) by simp

lemma page_of_radius [simp]:
  "op_RadiusMeters (page_of cx env d rows) = 0" "op_SearchExhausted (page_of cx env d rows) = False"
  by (simp_all add: page_of_def offer_page_def Let_def)

lemma page_of_empty: "Items (page_of cx env d rows) = [] \<longleftrightarrow> rows = []"
  by (simp add: page_of_items pageSize_def)

text \<open>A query that passes the validation, at a radius.\<close>

definition valid_query :: "'a lib_scheme \<Rightarrow> SearchQuery \<Rightarrow> bool" where
  "valid_query L q \<longleftrightarrow> point_Valid (sq_Location q) \<and> 0 < sq_DistrictID q \<and>
     (sq_ProductID q = [] \<or> uuid_Validate L (sq_ProductID q))"

abbreviation at_radius :: "SearchQuery \<Rightarrow> int \<Rightarrow> SearchQuery" where
  "at_radius q r \<equiv> q\<lparr>sq_RadiusMeters := r\<rparr>"

lemma ranked_cursor [simp]: "ranked L G (q\<lparr>sq_Cursor := c\<rparr>) db = ranked L G q db"
  by (simp add: ranked_def)

text \<open>A search without a radius whose page is not in the cache.\<close>

lemma search_widens:
  assumes "valid_query env q" "sq_RadiusMeters q = 0" "sq_Cursor q = []" "\<And>s. fault env s = None"
    and "oc_Get cache (CacheKey (at_radius q 5000)) R = None"
    and "k < 4" "\<And>j. j < k \<Longrightarrow> ranked env G (at_radius q (5000 + 5000 * int j)) db = []"
    and "ranked env G (at_radius q (5000 + 5000 * int k)) db \<noteq> []"
    and "p = (page_of cx env True (ranked env G (at_radius q (5000 + 5000 * int k)) db))\<lparr>op_RadiusMeters := 5000 + 5000 * int k\<rparr>"
  shows "Service_SearchOffers cx cache env G q db R = (Inr p, oc_Put cache (CacheKey (at_radius q 5000)) p R)"
proof -
  let ?search = "\<lambda>q. Repository_SearchOffers cx env G q db"
  have page: "?search (at_radius q r) = Inr (page_of cx env True (ranked env G (at_radius q r) db))" for r
    using assms(3,4) by (intro Repository_first_page) simp_all
  have cases4: "k = 0 \<or> k = 1 \<or> k = 2 \<or> k = 3" using assms(6) by arith
  have "widen ?search 4 (at_radius q 5000) = Inr (p, True)"
    using cases4
  proof (elim disjE)
    assume "k = 0" then show ?thesis
      using assms(8,9) page [of 5000] by (simp add: numeral_eq_Suc page_of_empty Let_def)
  next
    assume k: "k = 1" then show ?thesis
      using assms(8,9) assms(7) [of 0] page [of 5000] page [of 10000]
      by (simp add: numeral_eq_Suc page_of_empty Let_def RadiusExpansionStep_def)
  next
    assume k: "k = 2" then show ?thesis
      using assms(8,9) assms(7) [of 0] assms(7) [of 1] page [of 5000] page [of 10000] page [of 15000]
      by (simp add: numeral_eq_Suc page_of_empty Let_def RadiusExpansionStep_def)
  next
    assume k: "k = 3" then show ?thesis
      using assms(8,9) assms(7) [of 0] assms(7) [of 1] assms(7) [of 2] page [of 5000] page [of 10000] page [of 15000] page [of 20000]
      by (simp add: numeral_eq_Suc page_of_empty Let_def RadiusExpansionStep_def)
  qed
  then show ?thesis using assms(1-3,5)
    by (simp add: Service_SearchOffers_def valid_query_def normalizeRadius_def DefaultRadiusMeters_def MaxRadiusExpansions_def Let_def)
qed

lemma search_exhausted:
  assumes "valid_query env q" "sq_RadiusMeters q = 0" "sq_Cursor q = []" "\<And>s. fault env s = None"
    and "oc_Get cache (CacheKey (at_radius q 5000)) R = None"
    and "\<And>j. j < 4 \<Longrightarrow> ranked env G (at_radius q (5000 + 5000 * int j)) db = []"
    and "p = (page_of cx env True [])\<lparr>op_RadiusMeters := 20000, op_SearchExhausted := True\<rparr>"
  shows "Service_SearchOffers cx cache env G q db R = (Inr p, oc_Put cache (CacheKey (at_radius q 5000)) p R)"
proof -
  let ?search = "\<lambda>q. Repository_SearchOffers cx env G q db"
  have page: "?search (at_radius q r) = Inr (page_of cx env True (ranked env G (at_radius q r) db))" for r
    using assms(3,4) by (intro Repository_first_page) simp_all
  have "widen ?search 4 (at_radius q 5000) = Inr ((page_of cx env True [])\<lparr>op_RadiusMeters := 20000\<rparr>, False)"
    using assms(6) [of 0] assms(6) [of 1] assms(6) [of 2] assms(6) [of 3] page [of 5000] page [of 10000] page [of 15000] page [of 20000]
    by (simp add: numeral_eq_Suc page_of_empty Let_def RadiusExpansionStep_def)
  then show ?thesis using assms(1-3,5,7)
    by (simp add: Service_SearchOffers_def valid_query_def normalizeRadius_def DefaultRadiusMeters_def MaxRadiusExpansions_def Let_def)
qed

text \<open>A search with a radius, or for a later page, looks at one radius only.\<close>

lemma search_once:
  assumes "valid_query env q" "\<And>s. fault env s = None" "oc_Get cache (CacheKey (at_radius q r)) R = None"
    and "sq_RadiusMeters q = r \<and> MinRadiusMeters \<le> r \<and> r \<le> MaxRadiusMeters \<or>
      sq_RadiusMeters q = 0 \<and> r = DefaultRadiusMeters \<and> sq_Cursor q \<noteq> []"
    and "Repository_SearchOffers cx env G (at_radius q r) db = Inr p"
  shows "Service_SearchOffers cx cache env G q db R =
    (Inr (p\<lparr>op_RadiusMeters := r, op_SearchExhausted := (if Items p = [] then False else op_SearchExhausted p)\<rparr>),
     oc_Put cache (CacheKey (at_radius q r))
       (p\<lparr>op_RadiusMeters := r, op_SearchExhausted := (if Items p = [] then False else op_SearchExhausted p)\<rparr>) R)"
proof -
  have w: "widen (\<lambda>q. Repository_SearchOffers cx env G q db) 1 (at_radius q r) = Inr (p\<lparr>op_RadiusMeters := r\<rparr>, Items p \<noteq> [])"
    using assms(5) by (simp add: Let_def)
  have n: "normalizeRadius (sq_RadiusMeters q) = Inr (r, sq_RadiusMeters q \<noteq> 0)"
    using assms(4) by (auto simp: normalizeRadius_def MinRadiusMeters_def MaxRadiusMeters_def)
  have one: "\<not> (sq_RadiusMeters q = 0 \<and> sq_Cursor q = [])"
    using assms(4) by (auto simp: MinRadiusMeters_def)
  show ?thesis using assms(1,3) w n one
    by (cases "Items p = []") (auto simp: Service_SearchOffers_def valid_query_def Let_def)
qed

section \<open>Refreshing a page\<close>

lemma map_filter_same:
  "(\<And>x. x \<in> set xs \<Longrightarrow> \<exists>y. f x = Some y \<and> g y = g x) \<Longrightarrow> map g (List.map_filter f xs) = map g xs"
proof (induction xs)
  case (Cons x xs)
  then obtain y where "f x = Some y" "g y = g x" by (metis list.set_intros(1))
  then show ?case using Cons by (simp add: map_filter_simps)
qed (simp add: map_filter_simps)

text \<open>A page whose offers are still on sale keeps them all.\<close>

lemma refresh_keeps:
  assumes "lossless_ids env" "\<And>s. fault env s = None" "list_all (shown_live env db) (Items p)"
  obtains p' where "Repository_RefreshOffers env p db = Inr p'" "map so_ID (Items p') = map so_ID (Items p)"
    "NextCursor p' = NextCursor p" "op_RadiusMeters p' = op_RadiusMeters p"
proof (cases "Items p = []")
  case True
  then show thesis by (intro that [of p]) (simp_all add: Repository_RefreshOffers_def)
next
  case False
  let ?ids = "map (\<lambda>item. uuid_Parse env (so_ID item)) (Items p)"
  define rows where "rows = filter (\<lambda>r. Some (of_ID r) \<in> set ?ids \<and> on_sale None r \<and>
        list_ex (\<lambda>s. ss_ID s = of_StoreID r \<and> ss_Status s = storeActive) (se_stores db)) (se_offers db)"
  define current where "current = map_of (rev (map (\<lambda>r. (uuid_String env (of_ID r), r)) rows))"
  define upd where "upd = (\<lambda>item :: Offer. case current (so_ID item) of None \<Rightarrow> None
          | Some r \<Rightarrow> Some (item\<lparr>so_Price := of_Price r, so_DeclaredQty := Numeric_Value env (of_DeclaredQty r),
              so_FreshnessAt := Format_RFC3339 (of_FreshnessAt r),
              so_FreshnessLabel := freshnessLabel env (of_FreshnessAt r)\<rparr>))"
  have result: "Repository_RefreshOffers env p db = Inr (p\<lparr>Items := List.map_filter upd (Items p)\<rparr>)"
    using False assms(2)
    by (simp add: Repository_RefreshOffers_def store_RefreshOffers_def rows_def current_def upd_def Let_def)
  have "\<exists>y. upd item = Some y \<and> so_ID y = so_ID item" if item: "item \<in> set (Items p)" for item
  proof -
    have "shown_live env db item" using assms(3) item by (simp add: list_all_iff)
    then obtain r where r: "r \<in> set (se_offers db)" "so_ID item = uuid_String env (of_ID r)" "on_sale None r"
        "list_ex (\<lambda>s. ss_ID s = of_StoreID r \<and> ss_Status s = storeActive) (se_stores db)"
      by (auto simp: shown_live_def list_ex_iff)
    have "Some (of_ID r) \<in> set ?ids" using item r(2) assms(1) by (auto simp: image_iff intro!: bexI [of _ item])
    then have "r \<in> set rows" using r by (simp add: rows_def)
    then have "current (so_ID item) \<noteq> None" by (auto simp: current_def map_of_eq_None_iff r(2) image_image)
    then show ?thesis by (auto simp: upd_def)
  qed
  then have "map so_ID (List.map_filter upd (Items p)) = map so_ID (Items p)" by (rule map_filter_same)
  then show thesis by (intro that [OF result]) simp_all
qed

section \<open>The cache in Redis\<close>

lemma RedisCache_miss:
  assumes "\<And>s. rd_fault env s = None" "live (rd_now env) R key = None"
  shows "oc_Get (RedisCache cx env ttl) key R = None"
  using assms by (simp add: RedisCache_def GetKey_def)

lemma RedisCache_hit:
  assumes "\<And>s. rd_fault env s = None" "\<And>s. rd_fault env' s = None" "0 < ttl" "Items p \<noteq> []"
    and "Marshal_page cx p = Some raw" "Unmarshal_page cx raw = Some p" "rd_now env' < rd_now env + ttl"
  shows "oc_Get (RedisCache cx env' ttl) key (oc_Put (RedisCache cx env ttl) key p R) = Some p"
  using assms by (simp add: RedisCache_def GetKey_def SetKey_def)

lemma Service_SearchOffers_cases:
  assumes "Service_SearchOffers cx cache env G q db R = (Inr p, R')"
  obtains (hit) old where "Repository_RefreshOffers env old db = Inr p"
  | (fresh) n q1 p1 found where "0 < n" "widen (\<lambda>q. Repository_SearchOffers cx env G q db) n q1 = Inr (p1, found)"
    "Items p = Items p1"
proof -
  from assms obtain radius explicit where
    body: "(let q = at_radius q radius; key = CacheKey q in
        (case oc_Get cache key R of
           Some p \<Rightarrow> (Repository_RefreshOffers env p db, R)
         | None \<Rightarrow>
           let attempts = (if \<not> explicit \<and> sq_Cursor q = [] then Suc MaxRadiusExpansions else 1) in
           (case widen (\<lambda>q. Repository_SearchOffers cx env G q db) attempts q of
              Inl e \<Rightarrow> (Inl e, R)
            | Inr (p, True) \<Rightarrow> (Inr p, oc_Put cache key p R)
            | Inr (p, False) \<Rightarrow> let p = p\<lparr>op_SearchExhausted := 1 < attempts\<rparr> in (Inr p, oc_Put cache key p R)))) = (Inr p, R')"
    unfolding Service_SearchOffers_def by (auto split: if_splits sum.splits simp del: widen.simps)
  have fresh': thesis
    if "0 < n" and run: "(case widen (\<lambda>q. Repository_SearchOffers cx env G q db) n q1 of
              Inl e \<Rightarrow> (Inl e, R)
            | Inr (p, True) \<Rightarrow> (Inr p, oc_Put cache key p R)
            | Inr (p, False) \<Rightarrow> (Inr (p\<lparr>op_SearchExhausted := x\<rparr>), oc_Put cache key (p\<lparr>op_SearchExhausted := x\<rparr>) R)) = (Inr p, R')"
    for n q1 key x
  proof -
    from run obtain p1 found where w: "widen (\<lambda>q. Repository_SearchOffers cx env G q db) n q1 = Inr (p1, found)"
      by (auto split: sum.splits)
    then have "Items p = Items p1" using run by (cases found) auto
    with that(1) w show thesis by (rule fresh)
  qed
  show thesis
  proof (cases "oc_Get cache (CacheKey (at_radius q radius)) R")
    case (Some old)
    then show thesis using body by (intro hit [of old]) (simp add: Let_def)
  next
    case None
    show thesis
    proof (cases "\<not> explicit \<and> sq_Cursor q = []")
      case True
      then have four: "(if \<not> explicit \<and> sq_Cursor (at_radius q radius) = [] then Suc MaxRadiusExpansions else 1) = Suc MaxRadiusExpansions" by simp
      show thesis using body unfolding four Let_def None option.case by (rule fresh' [OF zero_less_Suc])
    next
      case False
      then have one: "(if \<not> explicit \<and> sq_Cursor (at_radius q radius) = [] then Suc MaxRadiusExpansions else 1) = 1" by auto
      show thesis using body unfolding one Let_def None option.case by (rule fresh' [OF zero_less_one])
    qed
  qed
qed

lemma search_functions [simp]:
  "ranked (lib.truncate env) G q db = ranked env G q db"
  "shown_live (lib.truncate env) db item = shown_live env db item"
  "valid_query (lib.truncate env) q = valid_query env q"
  "lossless_ids (lib.truncate env) = lossless_ids env"
  by (auto simp: ranked_def shown_live_def valid_query_def uuid_Validate_def lossless_ids_def lib.truncate_def)


section \<open>Widening\<close>

definition widened_page :: "search_codec \<Rightarrow> 'a env_scheme \<Rightarrow> geography \<Rightarrow> SearchQuery \<Rightarrow> search_tables \<Rightarrow> OfferPage" where
  "widened_page cx env G q db =
     (case find (\<lambda>r. ranked env G (at_radius q r) db \<noteq> []) [5000, 10000, 15000, 20000] of
        Some r \<Rightarrow> (page_of cx env True (ranked env G (at_radius q r) db))\<lparr>op_RadiusMeters := r\<rparr>
      | None \<Rightarrow> (page_of cx env True [])\<lparr>op_RadiusMeters := 20000, op_SearchExhausted := True\<rparr>)"

lemma search_widening:
  assumes "valid_query env q" "sq_RadiusMeters q = 0" "sq_Cursor q = []" "\<And>s. fault env s = None"
    and "oc_Get cache (CacheKey (at_radius q 5000)) R = None"
  shows "Service_SearchOffers cx cache env G q db R =
    (Inr (widened_page cx env G q db), oc_Put cache (CacheKey (at_radius q 5000)) (widened_page cx env G q db) R)"
proof -
  let ?found = "\<lambda>k. ranked env G (at_radius q (5000 + 5000 * int k)) db \<noteq> []"
  have upt: "[5000, 10000, 15000, 20000] = map (\<lambda>k. 5000 + 5000 * int k) [0, 1, 2, 3]" by simp
  have below: "j < 4 \<Longrightarrow> j = 0 \<or> j = 1 \<or> j = 2 \<or> j = 3" for j :: nat by arith
  show ?thesis
  proof (cases "\<exists>k < 4. ?found k")
    case True
    define k where "k = (LEAST k. ?found k)"
    have k: "?found k" unfolding k_def by (rule LeastI_ex) (use True in blast)
    have least: "\<not> ?found j" if "j < k" for j using that not_less_Least unfolding k_def by blast
    have k4: "k < 4" using True least by (meson linorder_not_less order_le_less_trans)
    have find: "find (\<lambda>r. ranked env G (at_radius q r) db \<noteq> []) [5000, 10000, 15000, 20000] = Some (5000 + 5000 * int k)"
      using below [OF k4] k least [of 0] least [of 1] least [of 2] by (elim disjE) simp_all
    show ?thesis
      using search_widens [OF assms(1-5) k4 _ k refl] least unfolding widened_page_def find by simp
  next
    case False
    then have none: "ranked env G (at_radius q (5000 + 5000 * int j)) db = []" if "j < 4" for j using that by blast
    have "find (\<lambda>r. ranked env G (at_radius q r) db \<noteq> []) [5000, 10000, 15000, 20000] = None"
      using none [of 0] none [of 1] none [of 2] none [of 3] by simp
    then show ?thesis using search_exhausted [OF assms(1-5) none refl] by (simp add: widened_page_def)
  qed
qed

end
