(* ===== verification/SearchTheorems.thy ===== *)
theory SearchTheorems
  imports SearchLaws Sample
begin

text \<open>
  What a search answers: only what is on sale, from the first radius that finds something; and what
  goes wrong when two searches share a page of the cache or a widened search goes on.
\<close>

section \<open>A small town\<close>

text \<open>
  A flat geography, a store 8 kilometres from the point of the search with one offer, and a codec
  that stands for the JSON of the one page it is used on.
\<close>

definition sample_search_env :: "time \<Rightarrow> redis_env" where
  "sample_search_env t = \<lparr>uuid_Parse = sample_Parse, uuid_String = sample_String,
     Numeric_Scan = sample_Scan, Numeric_Value = sample_Value, sha256_hex = (\<lambda>s. s),
     to_char_date = (\<lambda>_. ''20260101''), url_Parse = (\<lambda>s. Some (''https'', s)), newID = 1,
     rowID = of_nat, newV7 = of_nat, rand_token = Inr ''t'', clock_Now = t, fault = (\<lambda>_. None),
     rd_now = t, rd_fault = (\<lambda>_. None)\<rparr>"

definition sample_lib :: lib where
  "sample_lib = lib.truncate (sample_search_env 0)"

definition sample_geography :: geography where
  "sample_geography = \<lparr>ST_DWithin = (\<lambda>a b m. 100000 * \<bar>fst a - fst b\<bar> \<le> of_int m),
     distance_meters = (\<lambda>a b. \<lfloor>100000 * \<bar>fst a - fst b\<bar>\<rfloor>)\<rparr>"

definition sample_town :: search_tables where
  "sample_town = \<lparr>se_stores = [\<lparr>ss_ID = 4, ss_OwnerID = 5, ss_ComplexID = None,
       ss_Location = (4108 / 100, 69), ss_Status = ''active''\<rparr>],
     se_complexes = [],
     se_offers = [\<lparr>of_ID = 2, of_StoreID = 4, of_ProductID = 6, of_Price = 1000, of_DeclaredQty = 5,
       of_ReservedQty = 1, of_FreshnessAt = 0, of_Status = ''published''\<rparr>]\<rparr>"

definition sample_query :: SearchQuery where
  "sample_query = \<lparr>sq_Location = (41, 69), sq_DistrictID = 1, sq_RadiusMeters = 0, sq_ProductID = [], sq_Cursor = []\<rparr>"

definition sample_page :: OfferPage where
  "sample_page = \<lparr>Items = [\<lparr>so_ID = ''uuu'', so_StoreID = ''uuuuu'', so_ProductID = ''uuuuuuu'', so_Price = 1000,
       so_DeclaredQty = ''5'', so_FreshnessAt = Format_RFC3339 0, so_FreshnessLabel = ''today'',
       so_DistanceMeters = 8000, so_OtherOwnerStoreCount = 0\<rparr>],
     NextCursor = None, op_RadiusMeters = 10000, op_SearchExhausted = False\<rparr>"

definition sample_search_codec :: search_codec where
  "sample_search_codec = \<lparr>sx_Encode = (\<lambda>s. s), sx_Decode = Some, Marshal_cursor = (\<lambda>(_, _, i). i),
     Unmarshal_cursor = (\<lambda>s. Some (Some 0, Some 0, s)), Marshal_page = (\<lambda>_. Some ''page''),
     Unmarshal_page = (\<lambda>_. Some sample_page)\<rparr>"

lemma sample_search_env [simp]:
  "lib.truncate (sample_search_env t) = sample_lib" "fault (sample_search_env t) s = None"
  "rd_fault (sample_search_env t) s = None" "rd_now (sample_search_env t) = t" "lossless_ids sample_lib"
  by (simp_all add: sample_search_env_def sample_lib_def lib.truncate_def lossless_ids_def
      sample_Parse_def sample_String_def list_all_iff)

lemma sample_query [simp]:
  "sq_RadiusMeters sample_query = 0" "sq_Cursor sample_query = []"
  by (simp_all add: sample_query_def)

lemma sample_ranked:
  "ranked sample_lib sample_geography (at_radius sample_query 5000) sample_town = []"
  "ranked sample_lib sample_geography (at_radius sample_query 10000) sample_town =
     [\<lparr>hi_Offer = hd (se_offers sample_town), hi_Distance = 8000, hi_Others = 0\<rparr>]"
  by code_simp+

lemma sample_valid: "valid_query sample_lib sample_query"
  by code_simp

lemma sample_search_lib:
  "ranked (sample_search_env t) sample_geography q sample_town = ranked sample_lib sample_geography q sample_town"
  "valid_query (sample_search_env t) q = valid_query sample_lib q"
  unfolding sample_search_env(1) [of t, symmetric] search_functions by (rule refl)+

lemma sample_texts:
  "Numeric_Value (sample_search_env t) 4 = ''4''" "Numeric_Value (sample_search_env t) 5 = ''5''"
  "sample_String 2 = ''uuu''" "sample_String 4 = ''uuuuu''" "sample_String 6 = ''uuuuuuu''"
proof -
  have digits: "char_of (53::nat) = CHR ''5''" "char_of (52::nat) = CHR ''4''" by code_simp+
  show "Numeric_Value (sample_search_env t) 4 = ''4''" "Numeric_Value (sample_search_env t) 5 = ''5''"
    by (simp_all add: sample_search_env_def sample_Value_def decimal.simps digits)
  show "sample_String 2 = ''uuu''" "sample_String 4 = ''uuuuu''" "sample_String 6 = ''uuuuuuu''" by code_simp+
qed

lemma sample_hit:
  "offer_view (sample_search_env 0) \<lparr>hi_Offer = hd (se_offers sample_town), hi_Distance = 8000, hi_Others = 0\<rparr>
   = hd (Items sample_page)"
proof -
  have "freshnessLabel (sample_search_env 0) 0 = ''today''"
    by (simp add: freshnessLabel_def freshWindow_def sample_search_env_def minute_def)
  then show ?thesis
    using sample_texts by (simp add: offer_view_def sample_page_def sample_town_def) (simp add: sample_search_env_def)
qed

lemma sample_widened: "widened_page cx (sample_search_env 0) sample_geography sample_query sample_town = sample_page"
  using sample_hit by (simp add: widened_page_def sample_search_lib sample_ranked page_of_def pageSize_def offer_page_def sample_page_def)

lemma sample_run:
  assumes "oc_Get cache (CacheKey (at_radius sample_query 5000)) R = None"
  shows "fst (Service_SearchOffers sample_search_codec cache (sample_search_env 0) sample_geography sample_query sample_town R)
    = Inr sample_page"
  using search_widening [of "sample_search_env 0" sample_query cache R sample_search_codec sample_geography sample_town]
    assms sample_valid by (simp add: sample_search_lib sample_widened)

section \<open>What a search answers\<close>

text \<open>
  C32: Whatever the cache holds, every offer a search shows is on sale in an active store at the price
  and with the quantity shown.
\<close>

theorem search_shows_what_is_on_sale:
  assumes "Service_SearchOffers cx cache env G q db R = (Inr p, R')"
  shows "list_all (shown_live env db) (Items p)"
proof -
  from assms show ?thesis
  proof (cases rule: Service_SearchOffers_cases)
    case (hit old)
    then show ?thesis using Repository_RefreshOffers_live by (auto simp: list_all_iff)
  next
    case (fresh n q1 p1 found)
    obtain q2 p0 where "Repository_SearchOffers cx env G q2 db = Inr p0" "Items p1 = Items p0"
      by (rule widen_page [OF fresh(2,1)]) auto
    then show ?thesis using fresh(3) Repository_SearchOffers_live by (auto simp: list_all_iff)
  qed
qed

lemma search_shows_what_is_on_sale_witness:
  "list_all (shown_live (sample_search_env 0) sample_town) (Items sample_page)"
proof -
  have "fst (Service_SearchOffers sample_search_codec NoopCache (sample_search_env 0) sample_geography
      sample_query sample_town Map.empty) = Inr sample_page"
    by (rule sample_run) (simp add: NoopCache_def)
  then show ?thesis by (intro search_shows_what_is_on_sale [of sample_search_codec NoopCache "sample_search_env 0" sample_geography
      sample_query sample_town Map.empty]) (rule prod_eqI, simp_all)
qed



text \<open>
  C34: A search with the default radius of 5 kilometres is answered from the page that a search
  without a radius left in the cache after widening, because both have the same key: it shows offers
  from farther away, although there is none within the radius it asked for, which it would be told
  without the cache.
\<close>

theorem explicit_radius_not_honoured:
  fixes env1 env2 :: redis_env
  assumes "valid_query L q" "sq_RadiusMeters q = 0" "sq_Cursor q = []" "lossless_ids L"
    and "lib.truncate env1 = L" "lib.truncate env2 = L" "\<And>s. fault env1 s = None" "\<And>s. fault env2 s = None"
    and "\<And>s. rd_fault env1 s = None" "\<And>s. rd_fault env2 s = None"
    and "live (rd_now env1) R (CacheKey (at_radius q 5000)) = None" "0 < ttl" "rd_now env2 < rd_now env1 + ttl"
    and "ranked L G (at_radius q 5000) db = []" "\<exists>r \<in> {10000, 15000, 20000}. ranked L G (at_radius q r) db \<noteq> []"
    and "Service_SearchOffers cx (RedisCache cx env1 ttl) env1 G q db R = (Inr p1, R1)"
    and "Marshal_page cx p1 = Some raw" "Unmarshal_page cx raw = Some p1"
  shows "(\<exists>p2. Service_SearchOffers cx (RedisCache cx env2 ttl) env2 G (at_radius q 5000) db R1 = (Inr p2, R1) \<and>
      Items p2 \<noteq> [] \<and> 5000 < op_RadiusMeters p2) \<and>
    (\<exists>p3. Service_SearchOffers cx NoopCache env2 G (at_radius q 5000) db R1 = (Inr p3, R1) \<and> Items p3 = [])"
proof
  let ?key = "CacheKey (at_radius q 5000)"
  have env: "valid_query env1 q" "valid_query env2 q" "lossless_ids env2" "\<And>r. ranked env1 G (at_radius q r) db = ranked L G (at_radius q r) db"
      "\<And>r. ranked env2 G (at_radius q r) db = ranked L G (at_radius q r) db"
    using assms(1,4,5,6) by (metis search_functions)+
  have miss: "oc_Get (RedisCache cx env1 ttl) ?key R = None"
    using assms(9,11) by (intro RedisCache_miss)
  have p1: "p1 = widened_page cx env1 G q db" and put: "R1 = oc_Put (RedisCache cx env1 ttl) ?key p1 R"
    using search_widening [OF env(1) assms(2,3,7) miss, of cx G db] assms(16) by simp_all
  let ?find = "find (\<lambda>r. ranked env1 G (at_radius q r) db \<noteq> []) [5000, 10000, 15000, 20000]"
  have "?find \<noteq> None" using assms(15) env(4) by (auto simp: find_None_iff simp del: find.simps)
  then obtain r where r: "?find = Some r" by blast
  have found: "ranked env1 G (at_radius q r) db \<noteq> []" "5000 < r"
    using r assms(14) env(4) by (auto split: if_splits)
  have page: "p1 = (page_of cx env1 True (ranked env1 G (at_radius q r) db))\<lparr>op_RadiusMeters := r\<rparr>"
    unfolding p1 widened_page_def r by simp
  have items: "Items p1 \<noteq> []" using page found(1) by (simp add: page_of_empty)
  have shown: "list_all (shown_live env2 db) (Items p1)"
  proof -
    have "shown_live L db item" if "item \<in> set (Items p1)" for item
    proof -
      from that obtain h where item: "item = offer_view env1 h" and h: "h \<in> set (ranked env1 G (at_radius q r) db)"
        by (auto simp: page page_of_items dest: in_set_takeD)
      have "shown_live env1 db item" using h unfolding item set_ranked by (rule hit_live)
      then show ?thesis using assms(5) search_functions(2) by metis
    qed
    then show ?thesis using assms(6) search_functions(2) by (metis list.pred_set)
  qed
  have hit: "oc_Get (RedisCache cx env2 ttl) ?key R1 = Some p1"
    unfolding put using assms(9,10,12,13,17,18) items by (intro RedisCache_hit)
  obtain p2 where p2: "Repository_RefreshOffers env2 p1 db = Inr p2" "map so_ID (Items p2) = map so_ID (Items p1)"
      "op_RadiusMeters p2 = op_RadiusMeters p1"
    using refresh_keeps [OF env(3) assms(8) shown] by metis
  have "Service_SearchOffers cx (RedisCache cx env2 ttl) env2 G (at_radius q 5000) db R1 = (Inr p2, R1)"
    using env(2) hit p2(1)
    by (simp add: Service_SearchOffers_def valid_query_def normalizeRadius_def MinRadiusMeters_def MaxRadiusMeters_def Let_def)
  moreover have "Items p2 \<noteq> []" using p2(2) items by auto
  ultimately show "\<exists>p2. Service_SearchOffers cx (RedisCache cx env2 ttl) env2 G (at_radius q 5000) db R1 = (Inr p2, R1) \<and>
      Items p2 \<noteq> [] \<and> 5000 < op_RadiusMeters p2"
    using p2(3) page found(2) by simp
  have "Repository_SearchOffers cx env2 G (at_radius q 5000) db = Inr (page_of cx env2 True [])"
    using Repository_first_page [of env2 "at_radius q 5000" cx G db] assms(3,8,14) env(5) by simp
  then show "\<exists>p3. Service_SearchOffers cx NoopCache env2 G (at_radius q 5000) db R1 = (Inr p3, R1) \<and> Items p3 = []"
    using search_once [of env2 "at_radius q 5000" NoopCache 5000 R1 cx G db "page_of cx env2 True []"] env(2) assms(8)
    by (simp add: NoopCache_def MinRadiusMeters_def MaxRadiusMeters_def page_of_empty valid_query_def)
qed

lemma explicit_radius_not_honoured_witness:
  "let R1 = snd (Service_SearchOffers sample_search_codec (RedisCache sample_search_codec (sample_search_env 0) 60)
         (sample_search_env 0) sample_geography sample_query sample_town Map.empty)
   in (\<exists>p2. Service_SearchOffers sample_search_codec (RedisCache sample_search_codec (sample_search_env 1) 60)
         (sample_search_env 1) sample_geography (at_radius sample_query 5000) sample_town R1 = (Inr p2, R1) \<and>
       Items p2 \<noteq> [] \<and> 5000 < op_RadiusMeters p2) \<and>
     (\<exists>p3. Service_SearchOffers sample_search_codec NoopCache (sample_search_env 1) sample_geography
         (at_radius sample_query 5000) sample_town R1 = (Inr p3, R1) \<and> Items p3 = [])"
  unfolding Let_def
  by (rule explicit_radius_not_honoured [where L = sample_lib and R = Map.empty and ?p1.0 = sample_page and raw = "''page''"
      and ?env1.0 = "sample_search_env 0"])
    (use sample_valid sample_ranked sample_run in
      \<open>auto simp: RedisCache_def GetKey_def sample_search_codec_def live_def prod_eq_iff\<close>)

text \<open>
  The next page of a widened search, asked for without a radius, is empty and the last, however many
  offers the first page left: with a cursor only the radius of 5 kilometres is searched.
\<close>

lemma widened_search_has_one_page:
  assumes "valid_query env q" "sq_RadiusMeters q = 0" "sq_Cursor q \<noteq> []" "\<And>s. fault env s = None"
    and "oc_Get cache (CacheKey (at_radius q DefaultRadiusMeters)) R = None" "decodeCursor cx env (sq_Cursor q) = Inr c"
    and "ranked env G (at_radius q DefaultRadiusMeters) db = []"
  shows "\<exists>p. fst (Service_SearchOffers cx cache env G q db R) = Inr p \<and> Items p = [] \<and> NextCursor p = None"
proof -
  have "Repository_SearchOffers cx env G (at_radius q DefaultRadiusMeters) db = Inr (page_of cx env True [])"
    using Repository_SearchOffers_page [OF assms(4), of cx "at_radius q DefaultRadiusMeters" c G db] assms(6,7) by simp
  then have "fst (Service_SearchOffers cx cache env G q db R) = Inr ((page_of cx env True [])
      \<lparr>op_RadiusMeters := DefaultRadiusMeters, op_SearchExhausted := False\<rparr>)"
    using search_once [OF assms(1,4,5)] assms(2,3) by (simp add: page_of_empty)
  then show ?thesis by (simp add: page_of_def offer_page_def Let_def)
qed

end
