(* ===== verification/Registration.thy ===== *)
theory Registration
  imports Identity
begin

text \<open>
  Applications to sell (\<open>modules/location/seller.go\<close>, \<open>platform/tin/tin.go\<close>): an owner account is
  created pending, one for a user and one for a taxpayer number. The tables of the sale gate and of
  the sign-in read the rows of this table without its further columns.
\<close>

section \<open>Table\<close>

record owner_account = owner_row +
  oa_LegalForm :: "string option"
  oa_IsFounding :: bool
  oa_CreditLimit :: int
  oa_CreatedAt :: time

definition account_chk :: "'a owner_row_scheme \<Rightarrow> bool" where
  "account_chk r \<longleftrightarrow> length (ow_tin r) = 9 \<and> list_all is_digit (ow_tin r) \<and>
     ow_status r \<in> {''pending'', ''active'', ''blocked''}"

text \<open>
  A value of a column \<open>char(n)\<close>: blanks beyond the length are dropped, other characters refused
  (22001), a shorter value is padded.
\<close>

definition char_n :: "nat \<Rightarrow> string \<Rightarrow> string result" where
  "char_n n s = (if list_all (\<lambda>c. c = CHR '' '') (drop n s)
     then Inr (take n s @ replicate (n - length s) CHR '' '') else Inl (PgError ''22001''))"

text \<open>The error of a statement, with the constraint the driver names for a unique violation (23505).\<close>

datatype insert_error =
    Violation string
  | Failed go_error

record SellerRegistration =
  sr_TIN :: string
  sr_LegalName :: string
  sr_LegalForm :: string
  sr_BankAccount :: string
  sr_MFO :: string

definition new_account :: "uuid option \<Rightarrow> uuid option \<Rightarrow> SellerRegistration \<Rightarrow> time \<Rightarrow> owner_account result" where
  "new_account i userID input now =
     andThen (char_n 9 (sr_TIN input)) (\<lambda>tin.
     andThen (char_n 20 (sr_BankAccount input)) (\<lambda>bank.
     andThen (char_n 5 (sr_MFO input)) (\<lambda>mfo.
     andThen (not_null i) (\<lambda>i.
     andThen (not_null userID) (\<lambda>userID.
       let row = \<lparr>ow_id = i, ow_user_id = userID, ow_tin = tin, ow_legal_name = sr_LegalName input,
         ow_bank_account = Some bank, ow_mfo = Some mfo, ow_status = ''pending'',
         oa_LegalForm = Some (sr_LegalForm input), oa_IsFounding = False, oa_CreditLimit = 0, oa_CreatedAt = now\<rparr>
       in if account_chk row then Inr row else Inl (PgError ''23514''))))))"

text \<open>
  The unique indexes are checked in the order the table declares them, the foreign key at the end
  of the statement.
\<close>

definition RegisterOwner ::
  "'a env_scheme \<Rightarrow> uuid option \<Rightarrow> uuid option \<Rightarrow> SellerRegistration \<Rightarrow> time \<Rightarrow> identity \<Rightarrow> owner_account list \<Rightarrow>
     insert_error + owner_account \<times> owner_account list" where
  "RegisterOwner env i userID input now d rows =
     (case stmt env ''RegisterOwner'' (new_account i userID input now) of
        Inl e \<Rightarrow> Inl (Failed e)
      | Inr row \<Rightarrow>
          if list_ex (\<lambda>r. ow_id r = ow_id row) rows then Inl (Violation ''owners_pkey'')
          else if list_ex (\<lambda>r. ow_user_id r = ow_user_id row) rows then Inl (Violation ''owners_user_id_key'')
          else if list_ex (\<lambda>r. ow_tin r = ow_tin row) rows then Inl (Violation ''owners_tin_key'')
          else if \<not> list_ex (\<lambda>u. us_id u = ow_user_id row) (users d) then Inl (Failed (PgError ''23503''))
          else Inr (row, rows @ [row]))"

definition GetOwnerForUser :: "'a env_scheme \<Rightarrow> uuid option \<Rightarrow> owner_account list \<Rightarrow> owner_account result" where
  "GetOwnerForUser env userID rows =
     stmt env ''GetOwnerForUser'' (sql_one (\<lambda>w. Some (ow_user_id w) = userID) rows)"

section \<open>Repository\<close>

definition isUniqueViolation :: "insert_error \<Rightarrow> string \<Rightarrow> bool" where
  "isUniqueViolation err c \<longleftrightarrow> err = Violation c"

definition RegisterSeller ::
  "'a env_scheme \<Rightarrow> string \<Rightarrow> SellerRegistration \<Rightarrow> time \<Rightarrow> identity \<Rightarrow> owner_account list \<Rightarrow>
     string result \<times> owner_account list" where
  "RegisterSeller env userID input now d rows =
     (case RegisterOwner env (uuid_Parse env (uuid_String env (newID env))) (uuid_Parse env userID) input now d rows of
        Inl err \<Rightarrow>
          (Inl (if isUniqueViolation err ''owners_user_id_key'' then LocationAlreadyRegistered
             else if isUniqueViolation err ''owners_tin_key'' then LocationTINTaken
             else (case err of Violation _ \<Rightarrow> PgError ''23505'' | Failed e \<Rightarrow> e)), rows)
      | Inr (row, rows') \<Rightarrow> (Inr (uuid_String env (ow_id row)), rows'))"

definition OwnerForUser :: "'a env_scheme \<Rightarrow> string \<Rightarrow> owner_account list \<Rightarrow> (string \<times> string) result" where
  "OwnerForUser env userID rows =
     andThen (GetOwnerForUser env (uuid_Parse env userID) rows) (\<lambda>row.
       Inr (uuid_String env (ow_id row), ow_status row))"

section \<open>Requests\<close>

text \<open>The format verifier, the one the module uses when it is given no other.\<close>

definition FormatVerifier_Verify :: "string \<Rightarrow> go_error option" where
  "FormatVerifier_Verify number =
     (if length number = 9 \<and> list_all is_digit number then None
      else Some (OtherError ''tin: invalid taxpayer number''))"

text \<open>\<open>None\<close> is a body that is not JSON of this shape.\<close>

definition register ::
  "(string \<Rightarrow> go_error option) \<Rightarrow> 'a env_scheme \<Rightarrow> ctx \<Rightarrow> SellerRegistration option \<Rightarrow> identity \<Rightarrow> owner_account list \<Rightarrow>
     string result \<times> owner_account list" where
  "register verify env c body d rows =
     (case Require c of
        Inl e \<Rightarrow> (Inl e, rows)
      | Inr p \<Rightarrow>
        (case body of
           None \<Rightarrow> (Inl LocationInvalidRegistration, rows)
         | Some input \<Rightarrow>
             if TrimSpace (sr_LegalName input) = [] then (Inl LocationInvalidRegistration, rows)
             else if verify (sr_TIN input) \<noteq> None then (Inl LocationInvalidRegistration, rows)
             else RegisterSeller env (UserID p) input (clock_Now env) d rows))"

definition me :: "'a env_scheme \<Rightarrow> ctx \<Rightarrow> owner_account list \<Rightarrow> (string \<times> string) result" where
  "me env c rows = andThen (Require c) (\<lambda>principal. OwnerForUser env (UserID principal) rows)"

text \<open>The status of a response, by \<open>writeSellerError\<close> and \<open>me\<close>; other errors are the platform's.\<close>

definition seller_status :: "go_error \<Rightarrow> nat option" where
  "seller_status e =
     (if e = LocationInvalidRegistration then Some 422
      else if e = LocationAlreadyRegistered then Some 409
      else if e = LocationTINTaken then Some 409
      else None)"

text \<open>Applications one after the other, each with its caller, its body and the users of its time.\<close>

type_synonym application = "env \<times> ctx \<times> SellerRegistration option \<times> identity"

primrec registrations ::
  "(string \<Rightarrow> go_error option) \<Rightarrow> application list \<Rightarrow> owner_account list \<Rightarrow> string result list \<times> owner_account list" where
  "registrations verify [] rows = ([], rows)"
| "registrations verify (a # as) rows =
     (case a of (env, c, body, d) \<Rightarrow>
        let (answer, rows') = register verify env c body d rows;
            (answers, final) = registrations verify as rows'
        in (answer # answers, final))"

section \<open>Laws\<close>

definition accounts_ok :: "owner_account list \<Rightarrow> bool" where
  "accounts_ok rows \<longleftrightarrow> distinct (map ow_id rows) \<and> distinct (map ow_user_id rows) \<and> distinct (map ow_tin rows) \<and>
     list_all account_chk rows"

text \<open>The account an application creates.\<close>

definition applied :: "application \<Rightarrow> owner_account \<Rightarrow> bool" where
  "applied a r \<longleftrightarrow> (case a of (env, c, body, d) \<Rightarrow>
     (case (Require c, body) of
        (Inr p, Some input) \<Rightarrow> uuid_Parse env (UserID p) = Some (ow_user_id r) \<and> ow_legal_name r = sr_LegalName input \<and>
          char_n 9 (sr_TIN input) = Inr (ow_tin r) \<and> ow_status r = ''pending'' \<and> oa_CreditLimit r = 0 \<and>
          list_ex (\<lambda>u. us_id u = ow_user_id r) (users d)
      | _ \<Rightarrow> False))"

lemma new_account_Inr:
  "new_account i userID input now = Inr row \<Longrightarrow> i = Some (ow_id row) \<and> userID = Some (ow_user_id row) \<and>
     char_n 9 (sr_TIN input) = Inr (ow_tin row) \<and> ow_legal_name row = sr_LegalName input \<and>
     ow_status row = ''pending'' \<and> oa_CreditLimit row = 0 \<and> account_chk row"
  by (auto simp: new_account_def go_simps sql_simps Let_def split: if_splits)

lemma register_step:
  assumes "register verify env c body d rows = (answer, rows')"
  obtains (refused) e where "answer = Inl e" "rows' = rows"
  | (created) r where "answer = Inr (uuid_String env (ow_id r))" "rows' = rows @ [r]" "applied (env, c, body, d) r" "account_chk r"
      "ow_id r \<notin> ow_id ` set rows" "ow_user_id r \<notin> ow_user_id ` set rows" "ow_tin r \<notin> ow_tin ` set rows"
proof (cases answer)
  case (Inl e)
  with assms show thesis
    by (intro refused) (auto simp: register_def RegisterSeller_def RegisterOwner_def Let_def
        split: sum.splits option.splits if_splits)
next
  case (Inr i)
  with assms obtain p input where pi: "Require c = Inr p" "body = Some input"
      and run: "RegisterSeller env (UserID p) input (clock_Now env) d rows = (Inr i, rows')"
    by (auto simp: register_def split: sum.splits option.splits if_splits)
  from run obtain r where r: "RegisterOwner env (uuid_Parse env (uuid_String env (newID env)))
        (uuid_Parse env (UserID p)) input (clock_Now env) d rows = Inr (r, rows')" and i: "i = uuid_String env (ow_id r)"
    by (auto simp: RegisterSeller_def split: sum.splits)
  from r have new: "new_account (uuid_Parse env (uuid_String env (newID env))) (uuid_Parse env (UserID p)) input (clock_Now env) = Inr r"
    and rest: "rows' = rows @ [r]" "list_ex (\<lambda>u. us_id u = ow_user_id r) (users d)"
      "ow_id r \<notin> ow_id ` set rows" "ow_user_id r \<notin> ow_user_id ` set rows" "ow_tin r \<notin> ow_tin ` set rows"
    by (auto simp: RegisterOwner_def stmt_eq_Inr list_ex_iff split: sum.splits if_splits)
  from new_account_Inr [OF new] pi rest show thesis
    by (intro created [of r]) (auto simp: Inr i applied_def)
qed

end
