(* ===== verification/RegistrationTheorems.thy ===== *)
theory RegistrationTheorems
  imports Registration Sample
begin

text \<open>
  What applications to sell leave behind, and that they give the applicant nothing until an operator
  approves.
\<close>

section \<open>Histories of applications\<close>

lemma accounts_ok_snoc:
  "accounts_ok (rows @ [r]) \<longleftrightarrow> accounts_ok rows \<and> account_chk r \<and>
     ow_id r \<notin> ow_id ` set rows \<and> ow_user_id r \<notin> ow_user_id ` set rows \<and> ow_tin r \<notin> ow_tin ` set rows"
  by (auto simp: accounts_ok_def)

lemma registrations_append:
  assumes "registrations verify as rows = (answers, rows')" "accounts_ok rows"
  shows "accounts_ok rows' \<and> (\<exists>new. rows' = rows @ new \<and> list_all (\<lambda>r. list_ex (\<lambda>a. applied a r) as) new)"
  using assms
proof (induction as arbitrary: rows answers)
  case Nil
  then show ?case by (auto intro: exI [of _ "[]"])
next
  case (Cons a as)
  obtain env c body d where a: "a = (env, c, body, d)" by (cases a)
  obtain answer rows1 where step: "register verify env c body d rows = (answer, rows1)" by fastforce
  obtain rest where run: "registrations verify as rows1 = (rest, rows')"
    using Cons.prems(1) by (auto simp: a step split: prod.splits)
  from step show ?case
  proof (cases rule: register_step)
    case (refused e)
    then show ?thesis using Cons.IH [OF run] Cons.prems(2) by (fastforce simp: list_all_iff)
  next
    case (created r)
    then have "accounts_ok rows1" using Cons.prems(2) by (simp add: accounts_ok_snoc)
    from Cons.IH [OF run this] obtain new where "accounts_ok rows'" "rows' = rows1 @ new"
        "list_all (\<lambda>r. list_ex (\<lambda>a. applied a r) as) new" by blast
    then show ?thesis using created(2,3) by (intro conjI exI [of _ "r # new"]) (auto simp: a list_all_iff)
  qed
qed

lemma applied_pending: "applied a r \<Longrightarrow> ow_status r = ''pending''"
  by (auto simp: applied_def split: prod.splits sum.splits option.splits)

lemma truncate_account [simp]:
  "ow_id (owner_row.truncate r) = ow_id r" "ow_user_id (owner_row.truncate r) = ow_user_id r"
  "ow_status (owner_row.truncate r) = ow_status r"
  by (simp_all add: owner_row.truncate_def)

lemma sql_one_join:
  "sql_one P (xs @ ys) = (if list_ex P xs then sql_one P xs else sql_one P ys)"
  by (induction xs) auto

text \<open>The owners that can sell or make their user a seller are the active ones.\<close>

lemma pending_no_role:
  assumes "list_all (\<lambda>r. ow_status r = ''pending'') new"
  shows "GetUserRoles env u (map owner_row.truncate (rows @ new)) d = GetUserRoles env u (map owner_row.truncate rows) d"
proof -
  have "\<not> list_ex (\<lambda>w. ow_user_id w = i \<and> ow_status w = ''active'') (map owner_row.truncate new)" for i
    using assms by (auto simp: list_ex_iff list_all_iff)
  then show ?thesis by (simp add: GetUserRoles_def)
qed

definition sells :: "'a env_scheme \<Rightarrow> string \<Rightarrow> owner_row list \<Rightarrow> location \<Rightarrow> bool" where
  "sells env storeID rows lc \<longleftrightarrow> snd (ResolveSellerForOrder env storeID (lc\<lparr>owners := rows\<rparr>)) = None"

lemma sells_active:
  "sells env storeID rows lc \<longleftrightarrow> (\<exists>i s w. uuid_Parse env storeID = Some i \<and> fault env ''GetStoreSaleState'' = None \<and>
     sql_one (\<lambda>s. st_id s = i) (stores lc) = Inr s \<and> st_status s = storeActive \<and>
     sql_one (\<lambda>w. ow_id w = st_owner_id s) rows = Inr w \<and> ow_status w = ownerActive)"
proof -
  have "sells env storeID rows lc \<longleftrightarrow> (\<exists>i s w. uuid_Parse env storeID = Some i \<and>
      GetStoreSaleState env i (lc\<lparr>owners := rows\<rparr>) = Inr (s, w) \<and> st_status s = storeActive \<and> ow_status w = ownerActive)"
    by (auto simp: sells_def ResolveSellerForOrder_def Let_def split: option.splits sum.splits if_splits)
  then show ?thesis by (auto simp: GetStoreSaleState_Inr)
qed

lemma sql_one_active:
  assumes "list_all (\<lambda>r. ow_status r = ''pending'') new"
  shows "sql_one P (map owner_row.truncate (rows @ new)) = Inr w \<and> ow_status w = ownerActive \<longleftrightarrow>
    sql_one P (map owner_row.truncate rows) = Inr w \<and> ow_status w = ownerActive"
proof (cases "list_ex P (map owner_row.truncate rows)")
  case False
  then have "sql_one P (map owner_row.truncate rows) \<noteq> Inr w"
    using sql_one_Inr [of P "map owner_row.truncate rows" w] by (auto simp: list_ex_iff)
  moreover have "ow_status w \<noteq> ownerActive" if "sql_one P (map owner_row.truncate new) = Inr w"
    using sql_one_Inr [OF that] assms by (auto simp: list_all_iff ownerActive_def)
  ultimately show ?thesis using False by (auto simp: sql_one_join)
qed (simp add: sql_one_join)

lemma pending_no_sale:
  assumes "list_all (\<lambda>r. ow_status r = ''pending'') new"
  shows "sells env storeID (map owner_row.truncate (rows @ new)) lc \<longleftrightarrow> sells env storeID (map owner_row.truncate rows) lc"
  unfolding sells_active sql_one_active [OF assms] by (rule refl)

section \<open>The property\<close>

text \<open>
  C31: Along every history of applications, by anyone and with any verifier of taxpayer numbers, the
  owner accounts are unique by user and by taxpayer number, the accounts there were are untouched,
  and every new one is pending and belongs to a user who applied for it with that number. At
  sign-in everyone has the roles they had, and the stores that can sell are those that could.
\<close>

theorem registration_confers_nothing:
  assumes "accounts_ok rows" "registrations verify as rows = (answers, rows')"
  shows "accounts_ok rows' \<and>
    (\<exists>new. rows' = rows @ new \<and> list_all (\<lambda>r. ow_status r = ''pending'' \<and> list_ex (\<lambda>a. applied a r) as) new) \<and>
    GetUserRoles env u (map owner_row.truncate rows') d = GetUserRoles env u (map owner_row.truncate rows) d \<and>
    (sells env storeID (map owner_row.truncate rows') lc \<longleftrightarrow> sells env storeID (map owner_row.truncate rows) lc)"
proof -
  from registrations_append [OF assms(2,1)] obtain new where ok: "accounts_ok rows'" and new: "rows' = rows @ new"
      and from_call: "list_all (\<lambda>r. list_ex (\<lambda>a. applied a r) as) new" by blast
  have pending: "list_all (\<lambda>r. ow_status r = ''pending'') new"
    using from_call applied_pending by (fastforce simp: list_all_iff list_ex_iff)
  have "list_all (\<lambda>r. ow_status r = ''pending'' \<and> list_ex (\<lambda>a. applied a r) as) new"
    using from_call pending by (simp add: list_all_iff)
  then show ?thesis
    unfolding new using ok [unfolded new]
    by (intro conjI exI [of _ new] refl pending_no_role [OF pending] pending_no_sale [OF pending])
qed

text \<open>A user without an account applies twice; the second application is refused.\<close>

definition sample_application :: SellerRegistration where
  "sample_application = \<lparr>sr_TIN = ''987654321'', sr_LegalName = ''Shop'', sr_LegalForm = ''LLC'', sr_BankAccount = [], sr_MFO = []\<rparr>"

definition sample_users :: identity where
  "sample_users = \<lparr>users = [\<lparr>us_id = 2, us_phone = ''+998901234567'', us_status = ''active'', us_is_operator = False,
     us_created_at = 0, us_last_login_at = None\<rparr>], refresh_tokens = []\<rparr>"

lemma registration_confers_nothing_witness:
  "let run = registrations FormatVerifier_Verify [(sample_env 7, seller, Some sample_application, sample_users),
       (sample_env 8, seller, Some sample_application, sample_users)] []
   in fst run = [Inr (sample_String 7), Inl LocationAlreadyRegistered] \<and>
      accounts_ok (snd run) \<and> \<not> sells (sample_env 0) ''uuuuu'' (map owner_row.truncate (snd run)) sample_location"
proof -
  let ?as = "[(sample_env 7, seller, Some sample_application, sample_users),
       (sample_env 8, seller, Some sample_application, sample_users)]"
  have answers: "fst (registrations FormatVerifier_Verify ?as []) = [Inr (sample_String 7), Inl LocationAlreadyRegistered]"
    by code_simp
  have none: "\<not> sells (sample_env 0) ''uuuuu'' [] sample_location" by code_simp
  have "accounts_ok []" by (simp add: accounts_ok_def)
  let ?run = "registrations FormatVerifier_Verify ?as []"
  from registration_confers_nothing [OF \<open>accounts_ok []\<close>, of FormatVerifier_Verify ?as "fst ?run" "snd ?run"
      "sample_env 0" "Some 2" sample_users "''uuuuu''" sample_location]
  have "accounts_ok (snd ?run) \<and> \<not> sells (sample_env 0) ''uuuuu'' (map owner_row.truncate (snd ?run)) sample_location"
    using none by (simp only: prod.collapse list.map simp_thms)
  then show ?thesis unfolding Let_def answers by blast
qed

text \<open>
  A bank account or bank code longer than its column is not refused as a bad application (422): the
  statement fails and the answer is an internal error.
\<close>

lemma long_account_is_internal_error:
  assumes "fault env ''RegisterOwner'' = None" "\<not> list_all (\<lambda>c. c = CHR '' '') (drop 20 (sr_BankAccount input))"
    and "char_n 9 (sr_TIN input) = Inr tin"
  shows "RegisterSeller env userID input now d rows = (Inl (PgError ''22001''), rows) \<and> seller_status (PgError ''22001'') = None"
  using assms by (simp add: RegisterSeller_def RegisterOwner_def new_account_def char_n_def isUniqueViolation_def seller_status_def)

end
