(* ===== verification/Spec2Isabelle.thy ===== *)
theory Spec2Isabelle
  imports CoreTheorems DeliveryTheorems OrdersTheorems PlacementTheorems SettlementTheorems CatalogTheorems
    CacheTheorems SessionTheorems RollupTheorems ListingTheorems
    TrustTheorems SearchTheorems RegistrationTheorems
begin

text \<open>
  A model of the order platform \<open>binno_backend\<close> (Go over PostgreSQL) with the theorems that make
  its core correct. Paths below are relative to \<open>src/binno_backend/internal\<close>.

  \<^bold>\<open>The program.\<close> A buyer places an order with a store. The catalogue reserves the stock, the
  seller confirms by the app or by a token sent in an SMS, an invoice is issued, the buyer pays
  by hand and sends a receipt, the seller judges it, the order is prepared and picked up or
  delivered, and the platform charges the seller a commission. Orders that wait too long are
  expired by a sweeper, refunds that wait too long are marked by another. Every mutation is one
  database transaction that claims an operation key, changes the tables and writes an event to
  an outbox.

  \<^bold>\<open>Shared theories.\<close> \<open>Prelude\<close>: errors as the constructors of \<open>go_error\<close> (what \<open>errors.Is\<close> tells
  apart), results as sums, \<open>int64\<close> wrap-around, \<open>strings.TrimSpace\<close> (its fuel is the length of
  the string, and every step strips at least one character), decimal text. \<open>Sql\<close>: the
  environment of a request (third-party functions as parameters, the ids and the token it draws,
  the faults the database injects), tables as lists of rows, the statements on them, \<open>commit\<close>, and
  the locales \<open>tx_rel\<close>, \<open>tx_guarded\<close> and \<open>tx_invariant\<close>: what a transactional handler promises of
  every history of requests. \<open>Sample\<close> and \<open>Market\<close>: a concrete environment and a small market on
  which the witnesses evaluate the code.

  \<^bold>\<open>Platform.\<close> \<open>Authz\<close> (\<open>platform/authz/authz.go\<close>), \<open>Money\<close> (\<open>platform/money/money.go\<close>),
  \<open>EventCatalog\<close> (\<open>eventcatalog\<close>), \<open>Platform\<close> (\<open>platform/database/dedup/receipt.go\<close>,
  \<open>platform/messaging/outbox/outbox.go\<close>). A receipt is never taken back and binds its key to one
  resource; an event is only written for a registered name.

  \<open>Dispatcher\<close> (\<open>platform/messaging/outbox/dispatcher.go\<close>) relays the outbox to a consumer, which is a
  parameter with a state of its own; the relay is a partial function, proved to return. \<open>Delivery\<close>
  states the steps of any number of dispatchers as the relation \<open>deliver\<close>, its invariant
  \<open>delivery_inv\<close>, and that a pass is a run of it.

  \<^bold>\<open>Redis.\<close> \<open>Redis\<close>: the keyspace with times to live and the commands the code sends; a command can
  fail with or without being executed. Over it \<open>Otp\<close> (\<open>platform/cache/otp\<close>), whose three commands per
  verification can interleave with those of other calls (\<open>overlap\<close>), \<open>RateLimit\<close>
  (\<open>platform/cache/ratelimit\<close>, \<open>httpx/middleware_ratelimit.go\<close>) with the reference \<open>limited\<close>, and
  \<open>Idempotency\<close> (\<open>platform/cache/idempotency\<close>, \<open>httpx/middleware_mutation.go\<close>). \<open>Breaker\<close>
  (\<open>platform/cache/redisx/breaker.go\<close>) is the circuit breaker, its methods one atomic step each.

  \<^bold>\<open>Sessions.\<close> \<open>Token\<close> (\<open>platform/httpx/jwt_issue.go\<close>, \<open>middleware_identity.go\<close>): access tokens, with
  HMAC, base64 and JSON as parameters. \<open>Identity\<close> (\<open>modules/identity\<close>): accounts, refresh tokens, the
  service and the janitor, in steps that keep what they did before an error. \<open>Sessions\<close> states in
  the locale \<open>table_condition\<close> what a condition on the tables needs to survive every request, and
  interprets it three times: the constraints of the tables, a spent token, a signed-out user.

  \<^bold>\<open>Location.\<close> \<open>Location\<close> (\<open>modules/location\<close>: \<open>saleport.go\<close>, \<open>guard.go\<close>, \<open>repository.go\<close>): whether a
  store may sell, and who owns it. \<open>Registration\<close> (\<open>seller.go\<close>, \<open>platform/tin\<close>): applications to
  sell, over the owners with their further columns, and histories of them (\<open>registrations\<close>).

  \<^bold>\<open>Catalogue.\<close> \<open>Catalog\<close> (\<open>modules/catalog/lineport.go\<close> with its statements): reservation,
  release and consumption of stock, as updates of the two quantities of an offer. The locale
  \<open>stock_adjust\<close> states what the loop over the lines needs of an adjustment and is interpreted by
  both statements. \<open>CatalogService\<close> (\<open>service.go\<close>, \<open>repository.go\<close>): offers and catalogue requests,
  the handler \<open>catalog_exec\<close>.

  \<^bold>\<open>Orders.\<close> \<open>OrderStatus\<close> (\<open>modules/orders/status.go\<close>): the transition table and the abstract
  lifecycle (\<open>settled\<close>, \<open>lifecycle\<close>, \<open>terminal\<close>). \<open>OrdersStore\<close> (\<open>store/\<close>): the tables, the
  statements and the constraints of the schema. \<open>OrdersRepo\<close> (\<open>repository.go\<close>): placing an order,
  the transition engine with its stock and settlement effects, the token. \<open>OrdersService\<close>
  (\<open>service.go\<close>, \<open>sweeper.go\<close>, \<open>module.go\<close>): who may ask for what, and the sweeper. \<open>Listings\<close>
  (\<open>views.go\<close> and the read-only requests of \<open>service.go\<close> and \<open>repository.go\<close>, with
  \<open>ListAlternatives\<close> of \<open>modules/catalog/lineport.go\<close>): the paged lists of orders and of substitutes
  and the detail of an order, with base64 and JSON of the cursors as parameters. \<open>Keyset\<close> states in the
  locale \<open>keyset_listing\<close> what a listing promises of one page and proves what a client gets that
  follows the cursors while the data changes; \<open>ListingPages\<close> interprets it for the three lists.

  \<^bold>\<open>Billing.\<close> \<open>Billing\<close> (\<open>modules/billing/settlement.go\<close> with its statements), \<open>BillingSweep\<close>
  (\<open>service.go\<close>, \<open>repository.go\<close>, \<open>refundsweep.go\<close>). \<open>Calendar\<close>: months and dates as Go and
  PostgreSQL compute them in UTC; the search for the month of a day starts at most as many months
  early as its bound allows and is proved to end there. \<open>Rollup\<close> (\<open>rollup.go\<close>): the monthly
  statements of commission and their paged listing; \<open>RollupRuns\<close> states as \<open>rollup_step\<close> how passes
  and closed orders interleave, and between which bounds the statements stay.

  \<^bold>\<open>Trust.\<close> \<open>Trust\<close> (\<open>modules/trust\<close>: \<open>service.go\<close>, \<open>repository.go\<close>): the feedback of a buyer on a
  closed order, with \<open>trust_exec\<close>, the handler of the requests of all these modules, and its invariant
  \<open>trust_inv\<close>, which rests on the lifecycle of the orders.

  \<^bold>\<open>Search.\<close> \<open>Search\<close> (\<open>modules/search\<close>: \<open>service.go\<close>, \<open>repository.go\<close>, \<open>cache.go\<close>,
  \<open>cache_redis.go\<close>, with the cells of \<open>platform/database/geo/point.go\<close>): offers around a point, the
  best of every owner, the widening of the radius and the cache of pages. \<open>SearchLaws\<close>: what a page
  shows of the ranking, what a widened search answers, what the refresh of a cached page keeps.
  PostGIS is the parameter \<open>geography\<close>, base64 and JSON are \<open>search_codec\<close>.

  \<^bold>\<open>Laws.\<close> \<open>OrdersEffects\<close> says what one transition does to every table. Over it stand the audit
  log (\<open>OrdersAudit\<close>), the stock ledger (\<open>OrdersLedger\<close>: what is reserved is what the orders that
  hold stock ask for), the rows a new order makes (\<open>OrdersCreate\<close>), the invariant of the whole
  database (\<open>OrdersInvariants\<close>: \<open>core_inv\<close>), the terms of an order that never change
  (\<open>OrdersTerms\<close>) and the effect of keys and tokens that are used up (\<open>OrdersOnce\<close>). \<open>System\<close> joins the
  requests of orders and catalogue in one handler, \<open>system_exec\<close>, and interprets the three
  locales on it, so that the laws hold along every history.

  \<^bold>\<open>Properties.\<close> \<open>OrdersTheorems\<close>: what holds along every history of requests. \<open>PlacementTheorems\<close>: what
  one request to place or to move an order does, and who may make it. \<open>SettlementTheorems\<close>:
  invoices, payments, commission, refunds. \<open>CatalogTheorems\<close>: offers and catalogue requests.
  \<open>DeliveryTheorems\<close>: order, loss, retries and progress of the outbox. \<open>CoreTheorems\<close>: decimal
  arithmetic and the lifecycle itself. \<open>CacheTheorems\<close>: guesses, rates, idempotency keys, the breaker.
  \<open>SessionTheorems\<close>: who a token speaks for, how often it is exchanged, what ends a session.
  \<open>RollupTheorems\<close>: what a statement asks for, and which commission is never asked for.
  \<open>ListingTheorems\<close>: what a client sees that pages through a list while requests run, and who is shown
  an order. \<open>TrustTheorems\<close>: who left which feedback. \<open>SearchTheorems\<close>: what a search shows, and a radius
  the cache does not honour. \<open>RegistrationTheorems\<close>: what an application leaves behind.

  \<^bold>\<open>Conventions.\<close> A transaction runs alone: the row locks and the unique operation key serialize
  the requests of an order, and the model is the serial history; what a lost race does to a
  request is an injected fault. Time is an integer number of nanoseconds and the additions of
  durations do not overflow. Quantities are exact rationals: the scale of the column
  \<open>numeric(14,3)\<close> is not modelled. A sequence is a counter of the rows written with it; that
  PostgreSQL does not take a drawn number back after a rollback, so that numbers have gaps, is not
  modelled. The histories of \<open>system_exec\<close> hold no cleanup of receipts: what is proved to happen
  once happens once while the receipt is retained (\<open>ReceiptRetention\<close>, two days). The module
  \<open>identity\<close> and the packages over Redis use no transaction: there a request is the sequence of its
  statements and commands, and a failure keeps those before it.

  \<^bold>\<open>Not modelled.\<close> Routing, JSON and the middleware other than identity, rate limit and idempotency;
  the SMS gateways, ClickHouse, telemetry, configuration and process wiring, which are input and
  output; operator metrics; the rounding of floating-point coordinates; of the dispatcher, the janitor, the sweepers and the rollup the tickers and gauges.
\<close>

end
